(* ===== verification/Prelude.thy ===== *)
theory Prelude
  imports Main "HOL-Library.Word" "HOL-Library.Monad_Syntax"
begin

unbundle bit_operations_syntax

text \<open>
  The vocabulary every component of the kernel model shares.

  \<^item> Machine types: a C \<open>uint8_t\<close> or \<open>char\<close> is \<open>8 word\<close>, a \<open>uint32_t\<close> or a pointer
    is \<open>32 word\<close>, and a C \<open>int\<close> is a HOL \<open>int\<close> whose arithmetic is wrapped to 32 bits
    with \<open>i32\<close> wherever the code can leave the range.
  \<^item> Undefined behaviour: a C expression that reads or writes outside an array, goes
    through a NULL pointer or divides by zero has no value. Every function that can do
    so returns an \<open>option\<close>, and \<open>None\<close> is that outcome (or a wait that never ends).
    Memory safety is therefore a theorem: the function returns \<open>Some\<close>.
  \<^item> Loops: \<open>foreach\<close> is a counting loop that threads a state, \<open>find_first\<close> is a
    counting loop that returns at the first index that satisfies a test.
\<close>

named_theorems c_simps "evaluation of array accesses, loops and casts in defined states"
named_theorems wf_intros "operations preserve the well-formedness of their component"

type_synonym u8 = "8 word"
type_synonym u32 = "32 word"

section \<open>C integers\<close>

definition i32 :: "int \<Rightarrow> int" where
  "i32 x = signed_take_bit 31 x"

definition u32_of_int :: "int \<Rightarrow> u32" where
  "u32_of_int x = word_of_int x"

definition int_of_u32 :: "u32 \<Rightarrow> int" where
  "int_of_u32 w = sint w"

definition cdiv :: "int \<Rightarrow> int \<Rightarrow> int" where
  "cdiv a b = sgn a * sgn b * (\<bar>a\<bar> div \<bar>b\<bar>)"

definition cmod :: "int \<Rightarrow> int \<Rightarrow> int" where
  "cmod a b = a - cdiv a b * b"

abbreviation is_i32 :: "int \<Rightarrow> bool" where
  "is_i32 x \<equiv> - (2 ^ 31) \<le> x \<and> x < 2 ^ 31"

lemma i32_id [c_simps]: "is_i32 x \<Longrightarrow> i32 x = x"
  by (simp add: i32_def signed_take_bit_int_eq_self)

lemma i32_range: "is_i32 (i32 x)"
  using signed_take_bit_int_greater_eq_minus_exp [of 31 x] signed_take_bit_int_less_exp [of 31 x]
  by (simp add: i32_def)

lemma int_of_u32_of_int [c_simps]: "int_of_u32 (u32_of_int x) = i32 x"
  by (simp add: int_of_u32_def u32_of_int_def i32_def sint_sbintrunc')

lemma u32_of_int_of_u32 [simp]: "u32_of_int (int_of_u32 w) = w"
  by (simp add: int_of_u32_def u32_of_int_def)

lemma int_of_u32_range: "is_i32 (int_of_u32 w)"
  using sint_greater_eq [of w] sint_less [of w] by (simp add: int_of_u32_def)

lemma int_of_u32_nonneg:
  "uint w < 2 ^ 31 \<Longrightarrow> int_of_u32 w = uint w"
  by (simp add: int_of_u32_def sint_uint signed_take_bit_int_eq_self order_trans [of _ 0 "uint w"])

lemma int_of_u32_unat: "0 \<le> int_of_u32 a \<Longrightarrow> int_of_u32 a = int (unat a)"
proof -
  assume "0 \<le> int_of_u32 a"
  then have s: "0 \<le> signed_take_bit 31 (uint a)" by (simp add: int_of_u32_def sint_uint)
  then have b: "\<not> bit (uint a) 31" by (simp add: not_less [symmetric] signed_take_bit_negative_iff)
  have "take_bit 32 (uint a) = uint a" using uint_lt2p [of a] by (simp add: take_bit_int_eq_self)
  then have "take_bit 31 (uint a) = uint a"
    using b take_bit_Suc_from_most [of 31 "uint a"] by simp
  then have "int_of_u32 a = uint a"
    using b by (simp add: int_of_u32_def sint_uint signed_take_bit_eq_if_positive)
  then show ?thesis by simp
qed

lemma cdiv_nonneg [c_simps]: "0 \<le> a \<Longrightarrow> 0 < b \<Longrightarrow> cdiv a b = a div b"
  by (cases "a = 0") (simp_all add: cdiv_def)

lemma cmod_nonneg [c_simps]: "0 \<le> a \<Longrightarrow> 0 < b \<Longrightarrow> cmod a b = a mod b"
  by (simp add: cmod_def cdiv_nonneg minus_div_mult_eq_mod)

lemma word_nonzero_bit: "(w :: 'a::len word) \<noteq> 0 \<longleftrightarrow> (\<exists>k. bit w k)"
  by (auto simp: bit_eq_iff dest: bit_imp_le_length)

section \<open>Arrays\<close>

definition rd :: "'a list \<Rightarrow> int \<Rightarrow> 'a option" where
  "rd xs i = (if 0 \<le> i \<and> i < int (length xs) then Some (xs ! nat i) else None)"

definition wr :: "'a list \<Rightarrow> int \<Rightarrow> 'a \<Rightarrow> 'a list option" where
  "wr xs i x = (if 0 \<le> i \<and> i < int (length xs) then Some (xs[nat i := x]) else None)"

definition memmove_elems :: "'a list \<Rightarrow> int \<Rightarrow> int \<Rightarrow> int \<Rightarrow> 'a list option" where
  "memmove_elems xs dst src n =
     (if 0 \<le> dst \<and> 0 \<le> src \<and> 0 \<le> n \<and> dst + n \<le> int (length xs) \<and> src + n \<le> int (length xs)
      then Some (take (nat dst) xs @ take (nat n) (drop (nat src) xs) @ drop (nat (dst + n)) xs)
      else None)"

lemma rd_Some [c_simps]: "0 \<le> i \<Longrightarrow> i < int (length xs) \<Longrightarrow> rd xs i = Some (xs ! nat i)"
  by (simp add: rd_def)

lemma wr_Some [c_simps]: "0 \<le> i \<Longrightarrow> i < int (length xs) \<Longrightarrow> wr xs i x = Some (xs[nat i := x])"
  by (simp add: wr_def)

lemma rd_None [c_simps]: "i < 0 \<or> int (length xs) \<le> i \<Longrightarrow> rd xs i = None"
  by (auto simp: rd_def)

lemma rd_eq_Some: "rd xs i = Some x \<longleftrightarrow> 0 \<le> i \<and> i < int (length xs) \<and> x = xs ! nat i"
  by (auto simp: rd_def)

lemma wr_eq_Some: "wr xs i x = Some ys \<longleftrightarrow> 0 \<le> i \<and> i < int (length xs) \<and> ys = xs[nat i := x]"
  by (auto simp: wr_def)

section \<open>Loops\<close>

fun foreach :: "('i \<Rightarrow> 's \<Rightarrow> 's option) \<Rightarrow> 'i list \<Rightarrow> 's \<Rightarrow> 's option" where
  "foreach f [] s = Some s"
| "foreach f (i # is) s = do { s' \<leftarrow> f i s; foreach f is s' }"

fun find_first :: "('i \<Rightarrow> bool option) \<Rightarrow> 'i list \<Rightarrow> 'i option option" where
  "find_first p [] = Some None"
| "find_first p (i # is) =
     do { b \<leftarrow> p i; if b then Some (Some i) else find_first p is }"

lemma foreach_append:
  "foreach f (is @ js) s = do { s' \<leftarrow> foreach f is s; foreach f js s' }"
proof (induction "is" arbitrary: s)
  case (Cons i "is")
  then show ?case by (cases "f i s") auto
qed simp

lemma foreach_fold:
  assumes step: "\<And>i s. i \<in> set is \<Longrightarrow> I s \<Longrightarrow> f i s = Some (g i s) \<and> I (g i s)"
    and start: "I s"
  shows "foreach f is s = Some (fold g is s) \<and> I (fold g is s)"
  using assms
proof (induction "is" arbitrary: s)
  case (Cons i "is")
  have "f i s = Some (g i s)" "I (g i s)"
    using Cons.prems by auto
  moreover have "foreach f is (g i s) = Some (fold g is (g i s)) \<and> I (fold g is (g i s))"
    using Cons.prems \<open>I (g i s)\<close> by (intro Cons.IH) auto
  ultimately show ?case by simp
qed simp

lemma foreach_inv:
  assumes step: "\<And>i s. i \<in> set is \<Longrightarrow> I s \<Longrightarrow> \<exists>s'. f i s = Some s' \<and> I s'"
    and start: "I s"
  shows "\<exists>s'. foreach f is s = Some s' \<and> I s'"
  using assms
proof (induction "is" arbitrary: s)
  case (Cons i "is")
  then obtain s' where s': "f i s = Some s'" "I s'"
    by (metis list.set_intros(1))
  then have "\<exists>s''. foreach f is s' = Some s'' \<and> I s''"
    using Cons.prems by (intro Cons.IH) auto
  then show ?case using s' by simp
qed simp

lemma find_first_find:
  "(\<And>i. i \<in> set is \<Longrightarrow> p i = Some (P i)) \<Longrightarrow> find_first p is = Some (List.find P is)"
  by (induction "is") auto

lemma find_first_cong: "(\<And>i. i \<in> set is \<Longrightarrow> p i = q i) \<Longrightarrow> find_first p is = find_first q is"
  by (induction "is") (auto split: Option.bind_splits)

section \<open>Lists and strings\<close>

definition bstr :: "string \<Rightarrow> u8 list" where
  "bstr = map of_char"

definition replicate_to :: "nat \<Rightarrow> u8 list \<Rightarrow> u8 list" where
  "replicate_to n xs = xs @ replicate (n - length xs) 0"

lemma length_replicate_to [simp]: "length xs \<le> n \<Longrightarrow> length (replicate_to n xs) = n"
  by (simp add: replicate_to_def)

lemma nat_less_iff_int: "0 \<le> i \<Longrightarrow> nat i < n \<longleftrightarrow> i < int n"
  by linarith

lemma set_upto_int [simp]: "(i \<in> set [a..b]) = (a \<le> i \<and> i \<le> (b::int))"
  by simp

text \<open>A search over the indices of a list stops at the first element that satisfies the test.\<close>

lemma find_index_cases:
  obtains (none) "\<forall>x \<in> set xs. \<not> P x" "List.find (\<lambda>i. P (xs ! nat i)) [0..int (length xs) - 1] = None"
  | (some) ys x zs where "xs = ys @ x # zs" "P x" "\<forall>y \<in> set ys. \<not> P y"
      "List.find (\<lambda>i. P (xs ! nat i)) [0..int (length xs) - 1] = Some (int (length ys))"
proof (cases "\<exists>x \<in> set xs. P x")
  case True
  then obtain ys x zs where s: "xs = ys @ x # zs" "P x" "\<forall>y \<in> set ys. \<not> P y"
    by (metis split_list_first_prop)
  let ?js = "[0..int (length xs) - 1]"
  have "length ys < length ?js" using s by simp
  moreover have "?js ! j = int j" if "j < length xs" for j using that by simp
  moreover have "xs ! nat (int (length ys)) = x" using s by simp
  moreover have "\<not> P (xs ! j)" if "j < length ys" for j using that s by (simp add: nth_append)
  ultimately have "List.find (\<lambda>i. P (xs ! nat i)) ?js = Some (int (length ys))"
    using s by (auto simp: find_Some_iff intro!: exI [of _ "length ys"])
  then show ?thesis using s by (intro some) simp_all
next
  case False
  then show ?thesis by (intro none) (auto simp: find_None_iff)
qed

text \<open>Closing the gap that a deleted element leaves in the used part of an array.\<close>

lemma remove_gap:
  assumes "take n l = ys @ x # zs" "n \<le> length l"
  shows "\<exists>l'. memmove_elems l (int (length ys)) (int (length ys) + 1) (int n - 1 - int (length ys)) = Some l' \<and>
    length l' = length l \<and> set l' \<subseteq> set l \<and> take (n - 1) l' = ys @ zs"
proof -
  let ?k = "length ys"
  let ?l = "take ?k l @ take (n - 1 - ?k) (drop (Suc ?k) l) @ drop (n - 1) l"
  have n: "n = Suc (?k + length zs)" using assms by (metis add_Suc_right length_Cons length_append length_take min_absorb2)
  have "take ?k l = ys"
    using assms n by (metis append_eq_conv_conj le_add1 le_SucI min_absorb2 min.commute take_take)
  moreover have "take (n - 1 - ?k) (drop (Suc ?k) l) = zs"
  proof -
    have "take (n - Suc ?k) (drop (Suc ?k) l) = drop (Suc ?k) (take n l)" by (simp add: drop_take)
    also have "\<dots> = zs" using assms by simp
    finally show ?thesis by (simp add: n)
  qed
  ultimately have t: "take (n - 1) ?l = ys @ zs" using n by simp
  have "memmove_elems l (int ?k) (int ?k + 1) (int n - 1 - int ?k) = Some ?l"
    using assms n by (simp add: memmove_elems_def nat_add_distrib)
  moreover have "length ?l = length l" using assms n by simp
  moreover have "set ?l \<subseteq> set l"
    by (auto dest: in_set_takeD in_set_dropD)
  ultimately show ?thesis using t by blast
qed

text \<open>The first element that satisfies a test splits a list in one way.\<close>

lemma first_split:
  assumes "xs @ x # ys = us @ u # vs" "P x" "P u" "\<forall>y \<in> set xs. \<not> P y" "\<forall>y \<in> set us. \<not> P y"
  shows "xs = us \<and> x = u \<and> ys = vs"
  using assms
proof (induction xs arbitrary: us)
  case Nil
  then show ?case by (cases us) auto
next
  case (Cons a xs)
  then show ?case by (cases us) auto
qed

end
