(* ===== verification/Processes.thy ===== *)
theory Processes
  imports Prelude
begin

text \<open>
  The process table, \<open>src/question/kernel/processes.h\<close> and \<open>processes.c\<close>.

  A pointer to a process control block is its index in the array \<open>pcb\<close>; \<open>current\<close> is
  \<open>None\<close> for NULL. \<open>process(0)\<close> is the address before the array, so going through it is
  undefined (\<open>None\<close>). A \<open>shared_t*\<close> is the index of the block that holds it, a
  \<open>waiting_t*\<close> the index of the block with the slot in it. The live register context
  that the low-level handlers keep on the SVC stack is a separate value, passed as
  \<open>ctx_t\<close> and returned updated.
\<close>

section \<open>Data\<close>

definition MAX_PROCESSES :: int where "MAX_PROCESSES = 30"
definition PROGRAM_STACK_SIZE :: int where "PROGRAM_STACK_SIZE = 4096"
definition MAX_WAITING :: int where "MAX_WAITING = 20"
definition MAX_WAITERS :: int where "MAX_WAITERS = 5"
definition MAX_OPEN_FILES :: int where "MAX_OPEN_FILES = 10"
definition BACKGROUND :: int where "BACKGROUND = 0"
definition INTERACTIVE :: int where "INTERACTIVE = 1"

lemmas proc_consts = MAX_PROCESSES_def MAX_WAITING_def MAX_WAITERS_def MAX_OPEN_FILES_def
  BACKGROUND_def INTERACTIVE_def

record ctx_t =
  cpsr :: u32
  pc :: u32
  gpr :: "u32 list"
  sp :: u32
  lr :: u32

record priority_t =
  priority :: int
  io_burst :: int
  cpu_burst :: int
  arrival_time :: int
  time_left :: int
  waiting_time :: int
  process_type :: int

record shared_t =
  ptr :: u32
  locked :: int

record waiting_t =
  w_pid :: int
  w_result :: int

record waiter_t =
  wr_pid :: int

record fd_proc_table_t =
  fd_count :: int
  fd_open :: "int list"

record pcb_t =
  pid :: int
  ppid :: int
  ctx :: ctx_t
  prio :: priority_t
  shared :: shared_t
  waiting :: "waiting_t list"
  waiters :: "waiter_t list"
  fd_table :: fd_proc_table_t

text \<open>The globals of \<open>processes.c\<close>, with \<open>BURSTS\<close> of \<open>hilevel.c\<close> and the linker's \<open>tos_P1\<close>.\<close>

record procs =
  pcb :: "pcb_t list"
  current :: "int option"
  BURSTS :: int
  sps :: "u32 list"
  tos_P1 :: u32

definition zero_ctx :: ctx_t where
  "zero_ctx = \<lparr>cpsr = 0, pc = 0, gpr = replicate 13 0, sp = 0, lr = 0\<rparr>"

definition zero_priority :: priority_t where
  "zero_priority = \<lparr>priority = 0, io_burst = 0, cpu_burst = 0, arrival_time = 0, time_left = 0,
     waiting_time = 0, process_type = 0\<rparr>"

definition zero_pcb :: pcb_t where
  "zero_pcb = \<lparr>pid = 0, ppid = 0, ctx = zero_ctx, prio = zero_priority,
     shared = \<lparr>ptr = 0, locked = 0\<rparr>,
     waiting = replicate 20 \<lparr>w_pid = 0, w_result = 0\<rparr>,
     waiters = replicate 5 \<lparr>wr_pid = 0\<rparr>,
     fd_table = \<lparr>fd_count = 0, fd_open = replicate 10 0\<rparr>\<rparr>"

section \<open>Access to the table\<close>

definition process :: "int \<Rightarrow> int" where
  "process p = p - 1"

definition pcb_at :: "procs \<Rightarrow> int \<Rightarrow> pcb_t option" where
  "pcb_at s i = rd (pcb s) i"

definition put_pcb :: "procs \<Rightarrow> int \<Rightarrow> pcb_t \<Rightarrow> procs option" where
  "put_pcb s i p = do { l \<leftarrow> wr (pcb s) i p; Some (s\<lparr>pcb := l\<rparr>) }"

definition mod_pcb :: "procs \<Rightarrow> int \<Rightarrow> (pcb_t \<Rightarrow> pcb_t) \<Rightarrow> procs option" where
  "mod_pcb s i f = do { p \<leftarrow> pcb_at s i; put_pcb s i (f p) }"

definition current_pcb :: "procs \<Rightarrow> pcb_t option" where
  "current_pcb s = do { i \<leftarrow> current s; pcb_at s i }"

definition current_pid :: "procs \<Rightarrow> int option" where
  "current_pid s = do { p \<leftarrow> current_pcb s; Some (pid p) }"

definition mod_current :: "procs \<Rightarrow> (pcb_t \<Rightarrow> pcb_t) \<Rightarrow> procs option" where
  "mod_current s f = do { i \<leftarrow> current s; mod_pcb s i f }"

section \<open>Operations\<close>

definition init_stack_pointers :: "procs \<Rightarrow> procs option" where
  "init_stack_pointers s =
     foreach (\<lambda>i s. do {
         l \<leftarrow> wr (sps s) i (tos_P1 s + u32_of_int (PROGRAM_STACK_SIZE * i));
         Some (s\<lparr>sps := l\<rparr>) })
       [0..MAX_PROCESSES - 1] s"

definition parent_process :: "procs \<Rightarrow> int \<Rightarrow> int option option" where
  "parent_process s p = do {
     b \<leftarrow> pcb_at s (process p);
     Some (if ppid b = 0 then None else Some (process (ppid b)))
   }"

definition reset_priority :: "int \<Rightarrow> priority_t" where
  "reset_priority bursts = \<lparr>priority = 0, io_burst = 0, cpu_burst = 0, arrival_time = bursts,
     time_left = 0, waiting_time = 0, process_type = BACKGROUND\<rparr>"

definition reset_ctx :: "procs \<Rightarrow> ctx_t \<Rightarrow> int \<Rightarrow> ctx_t option" where
  "reset_ctx s c p = do {
     top \<leftarrow> rd (sps s) (p - 1);
     Some (c\<lparr>pc := 0, cpsr := 0x50, gpr := replicate 13 0, sp := top, lr := 0\<rparr>)
   }"

definition new_process :: "procs \<Rightarrow> int \<Rightarrow> int \<Rightarrow> procs option" where
  "new_process s p pp = do {
     _ \<leftarrow> pcb_at s (process p);
     c \<leftarrow> reset_ctx s zero_ctx p;
     put_pcb s (process p)
       (zero_pcb\<lparr>pid := p, ppid := pp, prio := reset_priority (BURSTS s), ctx := c\<rparr>)
   }"

definition active_process :: "procs \<Rightarrow> int \<Rightarrow> bool option" where
  "active_process s p = do { b \<leftarrow> pcb_at s (process p); Some (pc (ctx b) \<noteq> 0) }"

definition init_pcbs :: "procs \<Rightarrow> procs option" where
  "init_pcbs s = do {
     s \<leftarrow> init_stack_pointers s;
     foreach (\<lambda>p s. new_process s p 0) [1..MAX_PROCESSES] s
   }"

definition free_pid :: "procs \<Rightarrow> int option" where
  "free_pid s = do {
     r \<leftarrow> find_first (\<lambda>p. do { a \<leftarrow> active_process s p; Some (\<not> a) }) [1..MAX_PROCESSES];
     Some (case r of Some p \<Rightarrow> p | None \<Rightarrow> - 1)
   }"

definition load_ctx :: "procs \<Rightarrow> ctx_t option" where
  "load_ctx s = do { b \<leftarrow> current_pcb s; Some (ctx b) }"

definition save_ctx :: "procs \<Rightarrow> ctx_t \<Rightarrow> procs option" where
  "save_ctx s c = mod_current s (\<lambda>b. b\<lparr>ctx := c\<rparr>)"

definition set_current :: "procs \<Rightarrow> ctx_t \<Rightarrow> int \<Rightarrow> (procs \<times> ctx_t) option" where
  "set_current s c p = do {
     cp \<leftarrow> current_pid s;
     if cp = p then Some (s, c)
     else do {
       s \<leftarrow> save_ctx s c;
       let s = s\<lparr>current := Some (process p)\<rparr>;
       c \<leftarrow> load_ctx s;
       Some (s, c)
     }
   }"

subsection \<open>Shared memory and locks\<close>

definition is_shared :: "procs \<Rightarrow> int \<Rightarrow> u32 \<Rightarrow> int option option" where
  "is_shared s p a = do {
     b \<leftarrow> pcb_at s (process p);
     if ptr (shared b) = a then Some (Some (process p))
     else do {
       q \<leftarrow> pcb_at s (process (ppid b));
       Some (if ptr (shared q) = a then Some (process (ppid b)) else None)
     }
   }"

definition share :: "procs \<Rightarrow> int \<Rightarrow> u32 \<Rightarrow> (int \<times> procs) option" where
  "share s p a = do {
     b \<leftarrow> pcb_at s (process p);
     if ptr (shared b) \<noteq> 0 then Some (0, s)
     else do {
       s \<leftarrow> mod_pcb s (process p) (\<lambda>b. b\<lparr>shared := (shared b)\<lparr>ptr := a\<rparr>\<rparr>);
       Some (1, s)
     }
   }"

definition unshare :: "procs \<Rightarrow> int \<Rightarrow> u32 \<Rightarrow> (int \<times> procs) option" where
  "unshare s p a = do {
     b \<leftarrow> pcb_at s (process p);
     if ptr (shared b) \<noteq> a then Some (0, s)
     else do {
       s \<leftarrow> mod_pcb s (process p) (\<lambda>b. b\<lparr>shared := (shared b)\<lparr>ptr := 0\<rparr>\<rparr>);
       Some (1, s)
     }
   }"

definition lock :: "procs \<Rightarrow> int \<Rightarrow> u32 \<Rightarrow> (int \<times> procs) option" where
  "lock s p a = do {
     sh \<leftarrow> is_shared s p a;
     case sh of
       None \<Rightarrow> Some (- 1, s)
     | Some i \<Rightarrow> do {
         b \<leftarrow> pcb_at s i;
         if locked (shared b) \<noteq> 0 then Some (0, s)
         else do {
           s \<leftarrow> mod_pcb s i (\<lambda>b. b\<lparr>shared := (shared b)\<lparr>locked := 1\<rparr>\<rparr>);
           Some (1, s)
         }
       }
   }"

definition unlock :: "procs \<Rightarrow> int \<Rightarrow> u32 \<Rightarrow> (int \<times> procs) option" where
  "unlock s p a = do {
     sh \<leftarrow> is_shared s p a;
     case sh of
       None \<Rightarrow> Some (- 1, s)
     | Some i \<Rightarrow> do {
         b \<leftarrow> pcb_at s i;
         if locked (shared b) \<noteq> 0
         then do {
           s \<leftarrow> mod_pcb s i (\<lambda>b. b\<lparr>shared := (shared b)\<lparr>locked := 0\<rparr>\<rparr>);
           Some (1, s)
         }
         else Some (0, s)
       }
   }"

subsection \<open>Waiting for another process\<close>

definition get_waiting :: "procs \<Rightarrow> int \<Rightarrow> int \<Rightarrow> (int \<times> int) option option" where
  "get_waiting s p q = do {
     r \<leftarrow> find_first (\<lambda>i. do {
            b \<leftarrow> pcb_at s (process p);
            w \<leftarrow> rd (waiting b) i;
            Some (w_pid w = q) }) [0..MAX_WAITING - 1];
     Some (map_option (\<lambda>i. (process p, i)) r)
   }"

definition mod_waiting :: "procs \<Rightarrow> int \<times> int \<Rightarrow> (waiting_t \<Rightarrow> waiting_t) \<Rightarrow> procs option" where
  "mod_waiting s a f = do {
     b \<leftarrow> pcb_at s (fst a);
     w \<leftarrow> rd (waiting b) (snd a);
     ws \<leftarrow> wr (waiting b) (snd a) (f w);
     put_pcb s (fst a) (b\<lparr>waiting := ws\<rparr>)
   }"

definition set_waiter :: "procs \<Rightarrow> int \<Rightarrow> int \<Rightarrow> waiter_t \<Rightarrow> procs option" where
  "set_waiter s p i w = do {
     b \<leftarrow> pcb_at s (process p);
     ws \<leftarrow> wr (waiters b) i w;
     put_pcb s (process p) (b\<lparr>waiters := ws\<rparr>)
   }"

definition update_waiters :: "procs \<Rightarrow> int \<Rightarrow> int \<Rightarrow> procs option" where
  "update_waiters s p res =
     foreach (\<lambda>i s. do {
         b \<leftarrow> pcb_at s (process p);
         w \<leftarrow> rd (waiters b) i;
         if wr_pid w \<noteq> 0 then do {
           slot \<leftarrow> get_waiting s (wr_pid w) p;
           a \<leftarrow> slot;
           s \<leftarrow> mod_waiting s a (\<lambda>w. w\<lparr>w_result := res\<rparr>);
           set_waiter s p i (w\<lparr>wr_pid := 0\<rparr>)
         } else Some s })
       [0..MAX_WAITERS - 1] s"

definition set_waiting :: "procs \<Rightarrow> int \<Rightarrow> int \<Rightarrow> ((int \<times> int) option \<times> procs) option" where
  "set_waiting s p q = do {
     act \<leftarrow> active_process s q;
     if \<not> act then Some (None, s)
     else do {
       free \<leftarrow> find_first (\<lambda>i. do {
                 b \<leftarrow> pcb_at s (process q); w \<leftarrow> rd (waiters b) i; Some (wr_pid w = 0) })
               [0..MAX_WAITERS - 1];
       case free of
         None \<Rightarrow> Some (None, s)
       | Some i \<Rightarrow> do {
           s \<leftarrow> set_waiter s q i \<lparr>wr_pid = p\<rparr>;
           free \<leftarrow> find_first (\<lambda>i. do {
                     b \<leftarrow> pcb_at s (process p); w \<leftarrow> rd (waiting b) i; Some (w_pid w = 0) })
                   [0..MAX_WAITING - 1];
           case free of
             None \<Rightarrow> Some (None, s)
           | Some j \<Rightarrow> do {
               s \<leftarrow> mod_waiting s (process p, j) (\<lambda>_. \<lparr>w_pid = q, w_result = - 1\<rparr>);
               Some (Some (process p, j), s)
             }
         }
     }
   }"

subsection \<open>Per-process open file tables\<close>

definition add_process_fd :: "procs \<Rightarrow> int \<Rightarrow> int \<Rightarrow> (int \<times> procs) option" where
  "add_process_fd s p fd = do {
     b \<leftarrow> pcb_at s (process p);
     if fd_count (fd_table b) \<ge> MAX_OPEN_FILES then Some (- 1, s)
     else do {
       fds \<leftarrow> wr (fd_open (fd_table b)) (fd_count (fd_table b)) fd;
       s \<leftarrow> put_pcb s (process p)
         (b\<lparr>fd_table := \<lparr>fd_count = i32 (fd_count (fd_table b) + 1), fd_open = fds\<rparr>\<rparr>);
       Some (0, s)
     }
   }"

definition remove_process_fd :: "procs \<Rightarrow> int \<Rightarrow> int \<Rightarrow> (int \<times> procs) option" where
  "remove_process_fd s p fd = do {
     b \<leftarrow> pcb_at s (process p);
     let t = fd_table b;
     r \<leftarrow> find_first (\<lambda>i. do { x \<leftarrow> rd (fd_open t) i; Some (x = fd) }) [0..fd_count t - 1];
     case r of
       None \<Rightarrow> Some (- 1, s)
     | Some index \<Rightarrow> do {
         let n = fd_count t - 1;
         fds \<leftarrow> memmove_elems (fd_open t) (index + 1) index (n - index);
         s \<leftarrow> put_pcb s (process p) (b\<lparr>fd_table := \<lparr>fd_count = n, fd_open = fds\<rparr>\<rparr>);
         Some (0, s)
       }
   }"

definition proc_fd_open :: "procs \<Rightarrow> int \<Rightarrow> int \<Rightarrow> int option" where
  "proc_fd_open s p fd = do {
     b \<leftarrow> pcb_at s (process p);
     let t = fd_table b;
     r \<leftarrow> find_first (\<lambda>i. do { x \<leftarrow> rd (fd_open t) i; Some (x = fd) }) [0..fd_count t - 1];
     Some (if r = None then - 1 else 1)
   }"

section \<open>Well-formed process tables\<close>

abbreviation valid_pid :: "int \<Rightarrow> bool" where
  "valid_pid p \<equiv> 1 \<le> p \<and> p \<le> 30"

definition pcb_wf :: "int \<Rightarrow> pcb_t \<Rightarrow> bool" where
  "pcb_wf p b \<longleftrightarrow> pid b = p \<and> 0 \<le> ppid b \<and> ppid b \<le> 30 \<and> length (gpr (ctx b)) = 13 \<and>
     length (waiting b) = 20 \<and> length (waiters b) = 5 \<and>
     (\<forall>w \<in> set (waiters b). 0 \<le> wr_pid w \<and> wr_pid w \<le> 30) \<and>
     length (fd_open (fd_table b)) = 10 \<and> 0 \<le> fd_count (fd_table b) \<and> fd_count (fd_table b) \<le> 10"

definition table_wf :: "procs \<Rightarrow> bool" where
  "table_wf s \<longleftrightarrow> length (pcb s) = 30 \<and> length (sps s) = 30 \<and>
     (\<forall>i < 30. pcb_wf (int i + 1) (pcb s ! i))"

definition procs_wf :: "procs \<Rightarrow> bool" where
  "procs_wf s \<longleftrightarrow> table_wf s \<and> (\<exists>i. current s = Some i \<and> 0 \<le> i \<and> i < 30)"

definition blk :: "procs \<Rightarrow> int \<Rightarrow> pcb_t" where
  "blk s p = pcb s ! nat (p - 1)"

definition upd :: "procs \<Rightarrow> int \<Rightarrow> pcb_t \<Rightarrow> procs" where
  "upd s p b = s\<lparr>pcb := (pcb s)[nat (p - 1) := b]\<rparr>"

definition cur :: "procs \<Rightarrow> int" where
  "cur s = (case current s of Some i \<Rightarrow> i + 1 | None \<Rightarrow> 0)"

definition active :: "procs \<Rightarrow> int \<Rightarrow> bool" where
  "active s p \<longleftrightarrow> pc (ctx (blk s p)) \<noteq> 0"

lemma wf_table: "procs_wf s \<Longrightarrow> table_wf s"
  by (simp add: procs_wf_def)

lemma wf_lengths [c_simps]:
  "table_wf s \<Longrightarrow> length (pcb s) = 30" "table_wf s \<Longrightarrow> length (sps s) = 30"
  by (simp_all add: table_wf_def)

lemma wf_blk:
  assumes "table_wf s" "valid_pid p"
  shows "pcb_wf p (blk s p)"
proof -
  have "nat (p - 1) < 30" "int (nat (p - 1)) + 1 = p" using assms(2) by linarith+
  then show ?thesis using assms(1) unfolding table_wf_def blk_def by metis
qed

lemma pcb_at_blk [c_simps]:
  "table_wf s \<Longrightarrow> valid_pid p \<Longrightarrow> pcb_at s (process p) = Some (blk s p)"
  by (simp add: pcb_at_def process_def blk_def c_simps)

lemma pcb_at_pred [c_simps]:
  "table_wf s \<Longrightarrow> valid_pid p \<Longrightarrow> pcb_at s (p - 1) = Some (blk s p)"
  using pcb_at_blk [of s p] by (simp add: process_def)

lemma pcb_at_zero [c_simps]: "pcb_at s (process 0) = None"
  by (simp add: pcb_at_def process_def c_simps)

lemma put_pcb_upd [c_simps]:
  "table_wf s \<Longrightarrow> valid_pid p \<Longrightarrow> put_pcb s (process p) b = Some (upd s p b)"
  by (simp add: put_pcb_def process_def upd_def c_simps)

lemma put_pcb_pred [c_simps]:
  "table_wf s \<Longrightarrow> valid_pid p \<Longrightarrow> put_pcb s (p - 1) b = Some (upd s p b)"
  using put_pcb_upd [of s p] by (simp add: process_def)

lemma mod_pcb_upd [c_simps]:
  "table_wf s \<Longrightarrow> valid_pid p \<Longrightarrow> mod_pcb s (process p) f = Some (upd s p (f (blk s p)))"
  "table_wf s \<Longrightarrow> valid_pid p \<Longrightarrow> mod_pcb s (p - 1) f = Some (upd s p (f (blk s p)))"
  by (simp_all add: mod_pcb_def c_simps)

lemma blk_upd [c_simps]:
  assumes "table_wf s" "valid_pid p" "valid_pid q"
  shows "blk (upd s p b) q = (if q = p then b else blk s q)"
proof (cases "q = p")
  case True
  have "nat (p - 1) < length (pcb s)" using assms by (simp add: c_simps nat_less_iff_int)
  then show ?thesis using True by (simp add: blk_def upd_def)
next
  case False
  then have "nat (q - 1) \<noteq> nat (p - 1)" using assms(2,3) by linarith
  then show ?thesis using False by (simp add: blk_def upd_def)
qed

lemma upd_fields [simp]:
  "current (upd s p b) = current s" "BURSTS (upd s p b) = BURSTS s" "sps (upd s p b) = sps s"
  "tos_P1 (upd s p b) = tos_P1 s" "cur (upd s p b) = cur s"
  by (simp_all add: upd_def cur_def)

lemma table_wf_upd [wf_intros]:
  assumes "table_wf s" "valid_pid p" "pcb_wf p b"
  shows "table_wf (upd s p b)"
proof -
  have "int (nat (p - 1)) + 1 = p" using assms(2) by linarith
  then show ?thesis
    using assms by (auto simp: table_wf_def upd_def nth_list_update)
qed

lemma procs_wf_upd [wf_intros]:
  "procs_wf s \<Longrightarrow> valid_pid p \<Longrightarrow> pcb_wf p b \<Longrightarrow> procs_wf (upd s p b)"
  by (simp add: procs_wf_def table_wf_upd)

lemma cur_valid: "procs_wf s \<Longrightarrow> valid_pid (cur s)"
  by (auto simp: procs_wf_def cur_def)

lemma current_cur: "procs_wf s \<Longrightarrow> current s = Some (process (cur s))"
  by (auto simp: procs_wf_def cur_def process_def)

lemma current_pcb_blk [c_simps]: "procs_wf s \<Longrightarrow> current_pcb s = Some (blk s (cur s))"
  using cur_valid [of s] by (simp add: current_pcb_def current_cur wf_table c_simps)

lemma current_pid_cur [c_simps]: "procs_wf s \<Longrightarrow> current_pid s = Some (cur s)"
  using wf_blk [of s "cur s"] cur_valid [of s]
  by (simp add: current_pid_def c_simps wf_table pcb_wf_def)

lemma mod_current_upd [c_simps]:
  "procs_wf s \<Longrightarrow> mod_current s f = Some (upd s (cur s) (f (blk s (cur s))))"
  using cur_valid [of s] by (simp add: mod_current_def current_cur wf_table c_simps)

lemma active_process_active [c_simps]:
  "table_wf s \<Longrightarrow> valid_pid p \<Longrightarrow> active_process s p = Some (active s p)"
  by (simp add: active_process_def active_def c_simps)

lemma procs_wf_current [wf_intros]:
  "procs_wf s \<Longrightarrow> valid_pid p \<Longrightarrow> procs_wf (s\<lparr>current := Some (process p)\<rparr>)"
  by (simp add: procs_wf_def table_wf_def process_def)

lemma current_update_simps [simp]:
  "blk (s\<lparr>current := c\<rparr>) p = blk s p" "cur (s\<lparr>current := Some (process p)\<rparr>) = p"
  by (simp_all add: blk_def cur_def process_def)

lemma pcb_wf_ctx [wf_intros]:
  "pcb_wf p b \<Longrightarrow> length (gpr c) = 13 \<Longrightarrow> pcb_wf p (b\<lparr>ctx := c\<rparr>)"
  by (simp add: pcb_wf_def)

lemma pcb_wf_prio [wf_intros]: "pcb_wf p b \<Longrightarrow> pcb_wf p (b\<lparr>prio := r\<rparr>)"
  by (simp add: pcb_wf_def)

lemma pcb_wf_shared [wf_intros]: "pcb_wf p b \<Longrightarrow> pcb_wf p (b\<lparr>shared := r\<rparr>)"
  by (simp add: pcb_wf_def)

lemma pcb_wf_gpr: "table_wf s \<Longrightarrow> valid_pid p \<Longrightarrow> length (gpr (ctx (blk s p))) = 13"
  using wf_blk [of s p] by (simp add: pcb_wf_def)

section \<open>Functional behaviour of the operations\<close>

lemma free_pid_spec:
  assumes "table_wf s"
  shows "free_pid s = Some (case List.find (\<lambda>p. \<not> active s p) [1..30] of Some p \<Rightarrow> p | None \<Rightarrow> - 1)"
proof -
  have "find_first (\<lambda>p. do { a \<leftarrow> active_process s p; Some (\<not> a) }) [1..30]
      = Some (List.find (\<lambda>p. \<not> active s p) [1..30])"
    by (rule find_first_find) (use assms in \<open>simp add: c_simps\<close>)
  then show ?thesis by (simp add: free_pid_def MAX_PROCESSES_def)
qed

lemma free_pid_cases:
  assumes "table_wf s" "free_pid s = Some p"
  shows "p = - 1 \<and> (\<forall>q. valid_pid q \<longrightarrow> active s q) \<or>
         valid_pid p \<and> \<not> active s p \<and> (\<forall>q. 1 \<le> q \<and> q < p \<longrightarrow> active s q)"
proof (cases "List.find (\<lambda>p. \<not> active s p) [1..30]")
  case None
  then have "p = - 1" using assms by (simp add: free_pid_spec)
  then show ?thesis using None by (auto simp: find_None_iff)
next
  case (Some r)
  then obtain i where i: "i < length [1..(30::int)]" "\<not> active s ([1..30] ! i)" "r = [1..30] ! i"
    "\<forall>j < i. active s ([1..30] ! j)"
    by (auto simp: find_Some_iff)
  then have r: "r = 1 + int i" by simp
  have "active s q" if "1 \<le> q" "q < r" for q
  proof -
    have "nat (q - 1) < i" "[1..30] ! nat (q - 1) = q" using that r i(1) by auto
    then show ?thesis using i(4) by metis
  qed
  then show ?thesis using assms(1,2) Some i r by (auto simp: free_pid_spec)
qed

lemma set_current_spec:
  assumes "procs_wf s" "valid_pid p" "length (gpr c) = 13"
  shows "set_current s c p = Some
    (if cur s = p then (s, c)
     else ((upd s (cur s) ((blk s (cur s))\<lparr>ctx := c\<rparr>))\<lparr>current := Some (process p)\<rparr>, ctx (blk s p)))"
proof -
  let ?b = "(blk s (cur s))\<lparr>ctx := c\<rparr>"
  have cur: "valid_pid (cur s)" by (rule cur_valid [OF assms(1)])
  then have "pcb_wf (cur s) ?b"
    using assms by (intro pcb_wf_ctx wf_blk wf_table) auto
  then have "procs_wf (upd s (cur s) ?b)"
    using assms(1) cur by (intro procs_wf_upd) auto
  then have "procs_wf ((upd s (cur s) ?b)\<lparr>current := Some (process p)\<rparr>)"
    using assms(2) by (rule procs_wf_current)
  then show ?thesis
    using assms cur
    by (simp add: set_current_def save_ctx_def load_ctx_def c_simps wf_table)
qed

lemma set_current_wf [wf_intros]:
  assumes "procs_wf s" "valid_pid p" "length (gpr c) = 13" "set_current s c p = Some (s', c')"
  shows "procs_wf s' \<and> length (gpr c') = 13 \<and> cur s' = p"
proof -
  have cur: "valid_pid (cur s)" by (rule cur_valid [OF assms(1)])
  then have "pcb_wf (cur s) ((blk s (cur s))\<lparr>ctx := c\<rparr>)"
    using assms by (intro pcb_wf_ctx wf_blk wf_table) auto
  then show ?thesis
    using assms cur
    by (auto simp: set_current_spec pcb_wf_gpr wf_table split: if_splits
        intro!: procs_wf_current procs_wf_upd)
qed

text \<open>
  The context of a process is the live one for the current process and the saved one for
  every other process: what each process will see when it runs again.
\<close>

definition proc_ctx :: "procs \<Rightarrow> ctx_t \<Rightarrow> int \<Rightarrow> ctx_t" where
  "proc_ctx s c p = (if p = cur s then c else ctx (blk s p))"

lemma set_current_blk:
  assumes "procs_wf s" "valid_pid p" "length (gpr c) = 13" "set_current s c p = Some (s', c')"
    and "valid_pid q"
  shows "blk s' q = (if q = cur s \<and> p \<noteq> cur s then (blk s q)\<lparr>ctx := c\<rparr> else blk s q)"
  using assms cur_valid [OF assms(1)]
  by (auto simp: set_current_spec c_simps wf_table split: if_splits)

lemma set_current_ctx:
  assumes "procs_wf s" "valid_pid p" "length (gpr c) = 13" "set_current s c p = Some (s', c')"
    and "valid_pid q"
  shows "proc_ctx s' c' q = proc_ctx s c q"
  using assms cur_valid [OF assms(1)]
  by (auto simp: proc_ctx_def set_current_spec c_simps wf_table split: if_splits)

subsection \<open>Creating processes\<close>

definition fresh_pcb :: "procs \<Rightarrow> int \<Rightarrow> int \<Rightarrow> pcb_t" where
  "fresh_pcb s p pp = zero_pcb\<lparr>pid := p, ppid := pp, prio := reset_priority (BURSTS s),
     ctx := zero_ctx\<lparr>cpsr := 0x50, sp := sps s ! nat (p - 1)\<rparr>\<rparr>"

lemma fresh_pcb_wf [wf_intros]:
  "0 \<le> pp \<Longrightarrow> pp \<le> 30 \<Longrightarrow> pcb_wf p (fresh_pcb s p pp)"
  by (simp add: pcb_wf_def fresh_pcb_def zero_pcb_def zero_ctx_def)

lemma fresh_pcb_fields [simp]:
  "pid (fresh_pcb s p pp) = p" "ppid (fresh_pcb s p pp) = pp" "pc (ctx (fresh_pcb s p pp)) = 0"
  "waiting (fresh_pcb s p pp) = replicate 20 \<lparr>w_pid = 0, w_result = 0\<rparr>"
  "waiters (fresh_pcb s p pp) = replicate 5 \<lparr>wr_pid = 0\<rparr>"
  "prio (fresh_pcb s p pp) = reset_priority (BURSTS s)"
  by (simp_all add: fresh_pcb_def zero_pcb_def zero_ctx_def)

lemma reset_ctx_spec [c_simps]:
  assumes "length (sps s) = 30" "valid_pid p"
  shows "reset_ctx s c p =
    Some (c\<lparr>pc := 0, cpsr := 0x50, gpr := replicate 13 0, sp := sps s ! nat (p - 1), lr := 0\<rparr>)"
  using assms by (simp add: reset_ctx_def c_simps)

lemma new_process_spec [c_simps]:
  assumes "table_wf s" "valid_pid p"
  shows "new_process s p pp = Some (upd s p (fresh_pcb s p pp))"
  using assms by (simp add: new_process_def c_simps fresh_pcb_def zero_ctx_def)

lemma init_stack_pointers_spec:
  assumes "length (sps s) = 30"
  shows "\<exists>l. init_stack_pointers s = Some (s\<lparr>sps := l\<rparr>) \<and> length l = 30"
proof -
  let ?f = "\<lambda>i t. do { l \<leftarrow> wr (sps t) i (tos_P1 t + u32_of_int (PROGRAM_STACK_SIZE * i));
                       Some (t\<lparr>sps := l\<rparr>) }"
  have "\<exists>t. foreach ?f [0..MAX_PROCESSES - 1] s = Some t \<and> (\<exists>l. t = s\<lparr>sps := l\<rparr> \<and> length l = 30)"
  proof (rule foreach_inv)
    show "\<exists>l. s = s\<lparr>sps := l\<rparr> \<and> length l = 30"
      using assms by (intro exI [of _ "sps s"]) simp
  qed (auto simp: MAX_PROCESSES_def c_simps, intro exI conjI, rule refl, simp)
  then show ?thesis by (auto simp: init_stack_pointers_def)
qed

lemma init_pcbs_spec:
  assumes "length (pcb s) = 30" "length (sps s) = 30"
  shows "\<exists>s'. init_pcbs s = Some s' \<and> table_wf s' \<and> (\<forall>p. valid_pid p \<longrightarrow> \<not> active s' p \<and>
      blk s' p = fresh_pcb s' p 0) \<and> current s' = current s \<and> BURSTS s' = BURSTS s"
proof -
  obtain l where l: "init_stack_pointers s = Some (s\<lparr>sps := l\<rparr>)" "length l = 30"
    using init_stack_pointers_spec [OF assms(2)] by blast
  define I where "I n t \<longleftrightarrow> length (pcb t) = 30 \<and> sps t = l \<and> current t = current s \<and>
    BURSTS t = BURSTS s \<and> (\<forall>p. 1 \<le> p \<and> p \<le> n \<longrightarrow> blk t p = fresh_pcb t p 0)" for n t
  have step: "\<exists>t'. new_process t (n + 1) 0 = Some t' \<and> I (n + 1) t'" if "0 \<le> n" "n < 30" "I n t" for n t
  proof -
    let ?t = "upd t (n + 1) (fresh_pcb t (n + 1) 0)"
    have "new_process t (n + 1) 0 = Some ?t"
      using that l(2) by (simp add: new_process_def pcb_at_def put_pcb_def process_def I_def
          reset_ctx_def upd_def fresh_pcb_def zero_ctx_def c_simps)
    moreover have "I (n + 1) ?t"
    proof -
      have "blk ?t p = fresh_pcb ?t p 0" if p: "1 \<le> p" "p \<le> n + 1" for p
      proof (cases "p = n + 1")
        case True
        then show ?thesis using \<open>I n t\<close> \<open>n < 30\<close> \<open>0 \<le> n\<close>
          by (simp add: blk_def upd_def I_def fresh_pcb_def)
      next
        case False
        then have "nat (p - 1) \<noteq> nat n" using p by linarith
        then show ?thesis using \<open>I n t\<close> False p
          by (auto simp: blk_def upd_def I_def fresh_pcb_def)
      qed
      then show ?thesis using \<open>I n t\<close> by (simp add: I_def upd_def)
    qed
    ultimately show ?thesis by blast
  qed
  have run: "\<exists>t. foreach (\<lambda>p s. new_process s p 0) [1..int k] (s\<lparr>sps := l\<rparr>) = Some t \<and> I (int k) t"
    if "k \<le> 30" for k
    using that
  proof (induction k)
    case 0
    then show ?case using assms(1) by (auto simp: I_def)
  next
    case (Suc k)
    then obtain t where "foreach (\<lambda>p s. new_process s p 0) [1..int k] (s\<lparr>sps := l\<rparr>) = Some t"
      "I (int k) t" by auto
    moreover have "[1..int (Suc k)] = [1..int k] @ [int k + 1]"
      using upto_rec2 [of 1 "int k + 1"] by (simp add: add.commute)
    ultimately show ?case
      using step [of "int k" t] Suc.prems by (auto simp: foreach_append add.commute)
  qed
  obtain t where t: "foreach (\<lambda>p s. new_process s p 0) [1..30] (s\<lparr>sps := l\<rparr>) = Some t" "I 30 t"
    using run [of 30] by auto
  have "pcb_wf (int i + 1) (pcb t ! i)" if "i < 30" for i
  proof -
    have "blk t (int i + 1) = fresh_pcb t (int i + 1) 0" using t(2) that by (simp add: I_def)
    then have "pcb t ! i = fresh_pcb t (int i + 1) 0" by (simp add: blk_def)
    then show ?thesis by (simp add: fresh_pcb_wf)
  qed
  then have "table_wf t" using t(2) l(2) by (simp add: table_wf_def I_def)
  then show ?thesis
    using t l by (auto simp: init_pcbs_def MAX_PROCESSES_def I_def active_def)
qed

end
