(* ===== verification/Scheduler.thy ===== *)
theory Scheduler
  imports Processes
begin

text \<open>
  The priority scheduler, \<open>src/question/kernel/scheduler.c\<close>: two classes of processes that take turns,
  the longest-waiting process of a class first, a slice of two calls for an interactive and
  of seven for a background process. \<open>active_process_count\<close> starts at pid 0 and so reads
  before the process table; the model keeps that (\<open>None\<close>), and \<open>next_pid_spec\<close> shows that
  the short-circuit condition around it never reaches the call.
\<close>

section \<open>The scheduler\<close>

definition active_process_count :: "procs \<Rightarrow> int option" where
  "active_process_count s =
     foreach (\<lambda>p count. do { a \<leftarrow> active_process s p; Some (if a then count + 1 else count) })
       [0..MAX_PROCESSES] 0"

definition next_pid_with_type :: "procs \<Rightarrow> int \<Rightarrow> int option" where
  "next_pid_with_type s ty = do {
     (mx, n) \<leftarrow> foreach (\<lambda>i (mx, n). do {
         cp \<leftarrow> current_pid s;
         let p = cmod (cp + i) MAX_PROCESSES + 1;
         a \<leftarrow> active_process s p;
         if \<not> a then Some (mx, n)
         else do {
           b \<leftarrow> pcb_at s (process p);
           if process_type (prio b) = ty \<and> waiting_time (prio b) > mx
           then Some (waiting_time (prio b), p) else Some (mx, n)
         } })
       [0..MAX_PROCESSES - 1] (- 1, - 1);
     Some n
   }"

definition next_pid :: "procs \<Rightarrow> int option" where
  "next_pid s = do {
     c \<leftarrow> current_pcb s;
     let next_process_type =
       (if process_type (prio c) = BACKGROUND then INTERACTIVE else BACKGROUND);
     p \<leftarrow> next_pid_with_type s next_process_type;
     other \<leftarrow> (if p = - 1 then Some True
               else if p = pid c then do { n \<leftarrow> active_process_count s; Some (n > 1) }
               else Some False);
     if other then next_pid_with_type s (process_type (prio c)) else Some p
   }"

definition update_waiting :: "procs \<Rightarrow> procs option" where
  "update_waiting s =
     foreach (\<lambda>i s. do {
         cp \<leftarrow> current_pid s;
         let p = cmod (cp + i) MAX_PROCESSES + 1;
         a \<leftarrow> active_process s p;
         if \<not> a \<or> p = cp then Some s
         else mod_pcb s (process p) (\<lambda>b. b\<lparr>prio := (prio b)\<lparr>waiting_time :=
           i32 (waiting_time (prio b) + 1)\<rparr>\<rparr>) })
       [0..MAX_PROCESSES - 1] s"

definition scheduler :: "procs \<Rightarrow> ctx_t \<Rightarrow> (procs \<times> ctx_t) option" where
  "scheduler s c = do {
     s \<leftarrow> update_waiting s;
     cb \<leftarrow> current_pcb s;
     if time_left (prio cb) > 0 then do {
       s \<leftarrow> mod_current s (\<lambda>b. b\<lparr>prio := (prio b)\<lparr>time_left := i32 (time_left (prio b) - 1)\<rparr>\<rparr>);
       Some (s, c)
     } else do {
       p \<leftarrow> next_pid s;
       if p = - 1 then Some (s, c)
       else do {
         (s, c) \<leftarrow> set_current s c p;
         s \<leftarrow> mod_current s (\<lambda>b. b\<lparr>prio := (prio b)\<lparr>waiting_time := 0\<rparr>\<rparr>);
         s \<leftarrow> mod_current s (\<lambda>b. b\<lparr>prio := (prio b)\<lparr>time_left :=
                (if process_type (prio b) = INTERACTIVE then 1 else 6)\<rparr>\<rparr>);
         s \<leftarrow> mod_current s (\<lambda>b. b\<lparr>prio := (prio b)\<lparr>cpu_burst :=
                i32 (cpu_burst (prio b) + 1)\<rparr>\<rparr>);
         Some (s, c)
       }
     }
   }"

section \<open>The order of the search\<close>

definition rotation :: "int \<Rightarrow> int list" where
  "rotation cp = map (\<lambda>i. (cp + i) mod 30 + 1) [0..29]"

lemma rotation_pid: "valid_pid p \<Longrightarrow> p \<in> set (rotation cp)"
proof -
  assume p: "valid_pid p"
  have "(cp + (p - 1 - cp) mod 30) mod 30 + 1 = p" using p by (simp add: mod_simps)
  moreover have "(p - 1 - cp) mod 30 \<in> {0..29}"
    using pos_mod_bound [of 30 "p - 1 - cp"] by simp
  ultimately show ?thesis unfolding rotation_def by (auto simp: image_iff intro!: bexI [of _ "(p - 1 - cp) mod 30"])
qed

lemma rotation_valid: "p \<in> set (rotation cp) \<Longrightarrow> valid_pid p"
  using pos_mod_bound [of 30] by (fastforce simp: rotation_def)

lemma rotation_set: "set (rotation cp) = {1..30}"
proof (intro set_eqI iffI)
  fix p
  show "p \<in> set (rotation cp) \<Longrightarrow> p \<in> {1..30}" using rotation_valid [of p cp] by simp
  show "p \<in> {1..30} \<Longrightarrow> p \<in> set (rotation cp)" using rotation_pid [of p cp] by simp
qed

lemma rotation_distinct: "distinct (rotation cp)"
proof (rule card_distinct)
  have "length (rotation cp) = 30" by (simp add: rotation_def)
  then show "card (set (rotation cp)) = length (rotation cp)" by (simp only: rotation_set) simp
qed

lemma foreach_map: "foreach f (map h is) s = foreach (\<lambda>i. f (h i)) is s"
proof (induction "is" arbitrary: s)
  case (Cons i "is")
  then show ?case by (cases "f (h i) s") simp_all
qed simp

lemma foreach_cong:
  assumes "\<And>i s. i \<in> set is \<Longrightarrow> I s \<Longrightarrow> f i s = g i s"
    and "\<And>i s s'. i \<in> set is \<Longrightarrow> I s \<Longrightarrow> g i s = Some s' \<Longrightarrow> I s'" and "I s"
  shows "foreach f is s = foreach g is s"
  using assms
proof (induction "is" arbitrary: s)
  case (Cons i "is")
  have fg: "f i s = g i s" using Cons.prems by simp
  show ?case
  proof (cases "g i s")
    case (Some s')
    then have "I s'" using Cons.prems by (metis list.set_intros(1))
    then have "foreach f is s' = foreach g is s'"
      using Cons.prems by (intro Cons.IH) (auto intro: Cons.prems)
    then show ?thesis using fg Some by simp
  qed (use fg in simp)
qed simp

section \<open>Choosing a process\<close>

definition wait_of :: "procs \<Rightarrow> int \<Rightarrow> int" where
  "wait_of s p = waiting_time (prio (blk s p))"

definition class_of :: "procs \<Rightarrow> int \<Rightarrow> int" where
  "class_of s p = process_type (prio (blk s p))"

definition candidate :: "procs \<Rightarrow> int \<Rightarrow> int \<Rightarrow> bool" where
  "candidate s ty p \<longleftrightarrow> valid_pid p \<and> active s p \<and> class_of s p = ty \<and> wait_of s p > - 1"

definition best_step :: "procs \<Rightarrow> int \<Rightarrow> int \<Rightarrow> int \<times> int \<Rightarrow> int \<times> int" where
  "best_step s ty p r =
     (if active s p \<and> class_of s p = ty \<and> wait_of s p > fst r then (wait_of s p, p) else r)"

definition best :: "procs \<Rightarrow> int \<Rightarrow> int" where
  "best s ty = snd (fold (best_step s ty) (rotation (cur s)) (- 1, - 1))"

lemma next_pid_with_type_best:
  assumes "procs_wf s"
  shows "next_pid_with_type s ty = Some (best s ty)"
proof -
  have cur: "valid_pid (cur s)" by (rule cur_valid [OF assms])
  let ?f = "\<lambda>i (mx, n). do {
         cp \<leftarrow> current_pid s;
         let p = cmod (cp + i) 30 + 1;
         a \<leftarrow> active_process s p;
         if \<not> a then Some (mx, n)
         else do {
           b \<leftarrow> pcb_at s (process p);
           if process_type (prio b) = ty \<and> waiting_time (prio b) > mx
           then Some (waiting_time (prio b), p) else Some (mx, n)
         } }"
  have "?f i r = Some (best_step s ty ((cur s + i) mod 30 + 1) r)" if "0 \<le> i" "i \<le> 29" for i r
  proof -
    have "valid_pid ((cur s + i) mod 30 + 1)" using pos_mod_bound [of 30 "cur s + i"] by simp
    then show ?thesis using assms that cur
      by (cases r) (simp add: c_simps wf_table Let_def best_step_def class_of_def wait_of_def)
  qed
  then have "foreach ?f [0..29] r = Some (fold (\<lambda>i. best_step s ty ((cur s + i) mod 30 + 1)) [0..29] r)" for r
    using foreach_fold [of "[0..29]" "\<lambda>_. True" ?f "\<lambda>i. best_step s ty ((cur s + i) mod 30 + 1)" r] by simp
  then show ?thesis
    by (simp add: next_pid_with_type_def MAX_PROCESSES_def best_def rotation_def fold_map comp_def
        split_def)
qed

lemma fold_best:
  fixes ps :: "int list"
  assumes "fold (best_step s ty) ps (m0, n0) = (m, n)"
  shows "(m, n) = (m0, n0) \<and> (\<forall>p \<in> set ps. active s p \<and> class_of s p = ty \<longrightarrow> wait_of s p \<le> m0) \<or>
    (n \<in> set ps \<and> active s n \<and> class_of s n = ty \<and> wait_of s n = m \<and> m > m0 \<and>
     (\<forall>p \<in> set ps. active s p \<and> class_of s p = ty \<longrightarrow> wait_of s p \<le> m))"
  using assms
proof (induction ps arbitrary: m0 n0)
  case (Cons p ps)
  obtain m1 n1 where r: "best_step s ty p (m0, n0) = (m1, n1)" by force
  then have "fold (best_step s ty) ps (m1, n1) = (m, n)" using Cons.prems by simp
  from Cons.IH [OF this] show ?case using r
    by (auto simp: best_step_def split: if_splits)
qed simp

lemma best_none: "best s ty = - 1 \<longleftrightarrow> (\<forall>p. \<not> candidate s ty p)"
  and best_some: "best s ty \<noteq> - 1 \<Longrightarrow> candidate s ty (best s ty) \<and>
    (\<forall>p. candidate s ty p \<longrightarrow> wait_of s p \<le> wait_of s (best s ty))"
proof -
  obtain m n where r: "fold (best_step s ty) (rotation (cur s)) (- 1, - 1) = (m, n)" by force
  then have n: "best s ty = n" by (simp add: best_def)
  note f = fold_best [OF r] and v = rotation_valid [of _ "cur s"] and w = rotation_pid [of _ "cur s"]
  show "best s ty = - 1 \<longleftrightarrow> (\<forall>p. \<not> candidate s ty p)"
    using f n v w unfolding candidate_def by (smt (verit) prod.inject)
  show "best s ty \<noteq> - 1 \<Longrightarrow> candidate s ty (best s ty) \<and>
    (\<forall>p. candidate s ty p \<longrightarrow> wait_of s p \<le> wait_of s (best s ty))"
    using f n v w unfolding candidate_def by (smt (verit) prod.inject)
qed

definition other_class :: "int \<Rightarrow> int" where
  "other_class ty = (if ty = BACKGROUND then INTERACTIVE else BACKGROUND)"

definition choice :: "procs \<Rightarrow> int" where
  "choice s = (let ty = class_of s (cur s); n = best s (other_class ty)
     in if n = - 1 then best s ty else n)"

lemma next_pid_spec:
  assumes "procs_wf s"
  shows "next_pid s = Some (choice s)"
proof -
  let ?ty = "process_type (prio (blk s (cur s)))"
  have pid: "pid (blk s (cur s)) = cur s"
    using wf_blk [OF wf_table [OF assms] cur_valid [OF assms]] by (simp add: pcb_wf_def)
  have "best s (other_class ?ty) \<noteq> cur s" if "best s (other_class ?ty) \<noteq> - 1"
  proof
    assume eq: "best s (other_class ?ty) = cur s"
    have "class_of s (cur s) = other_class ?ty"
      using best_some [OF that] eq by (simp add: candidate_def)
    then show False by (simp add: class_of_def other_class_def proc_consts split: if_splits)
  qed
  then show ?thesis using assms pid
    by (simp add: next_pid_def next_pid_with_type_best c_simps choice_def class_of_def Let_def
        flip: other_class_def)
qed

section \<open>One call of the scheduler\<close>

definition aged_pcb :: "int \<Rightarrow> int \<Rightarrow> pcb_t \<Rightarrow> pcb_t" where
  "aged_pcb cp p b =
     (if pc (ctx b) \<noteq> 0 \<and> p \<noteq> cp
      then b\<lparr>prio := (prio b)\<lparr>waiting_time := i32 (waiting_time (prio b) + 1)\<rparr>\<rparr> else b)"

definition age :: "procs \<Rightarrow> int \<Rightarrow> procs \<Rightarrow> procs" where
  "age s p t = upd t p (aged_pcb (cur s) p (blk t p))"

definition aged :: "procs \<Rightarrow> procs" where
  "aged s = fold (age s) (rotation (cur s)) s"

lemma upd_same: "upd s p (blk s p) = s"
  by (simp add: upd_def blk_def)

lemma age_wf: "procs_wf t \<Longrightarrow> valid_pid p \<Longrightarrow> procs_wf (age s p t)"
  unfolding age_def
  by (intro procs_wf_upd) (auto simp: aged_pcb_def intro: pcb_wf_prio wf_blk wf_table)

lemma fold_age:
  assumes "\<forall>p \<in> set ps. valid_pid p" "distinct ps" "procs_wf t"
  shows "procs_wf (fold (age s) ps t) \<and> cur (fold (age s) ps t) = cur t \<and>
    BURSTS (fold (age s) ps t) = BURSTS t \<and> sps (fold (age s) ps t) = sps t \<and>
    (\<forall>q. valid_pid q \<longrightarrow> blk (fold (age s) ps t) q =
      (if q \<in> set ps then aged_pcb (cur s) q (blk t q) else blk t q))"
  using assms
proof (induction ps arbitrary: t)
  case (Cons p ps)
  have t1: "procs_wf (age s p t)" using Cons.prems by (simp add: age_wf)
  have b1: "blk (age s p t) q = (if q = p then aged_pcb (cur s) q (blk t q) else blk t q)"
    if "valid_pid q" for q
    using Cons.prems that by (simp add: age_def blk_upd wf_table)
  show ?case using Cons.IH [OF _ _ t1] Cons.prems b1 by (auto simp: age_def)
qed simp

lemma update_waiting_aged:
  assumes "procs_wf s"
  shows "update_waiting s = Some (aged s)"
proof -
  let ?f = "\<lambda>i t. do {
         cp \<leftarrow> current_pid t;
         let p = cmod (cp + i) 30 + 1;
         a \<leftarrow> active_process t p;
         if \<not> a \<or> p = cp then Some t
         else mod_pcb t (process p) (\<lambda>b. b\<lparr>prio := (prio b)\<lparr>waiting_time :=
           i32 (waiting_time (prio b) + 1)\<rparr>\<rparr>) }"
  let ?g = "\<lambda>i. age s ((cur s + i) mod 30 + 1)"
  have "foreach ?f [0..29] s = Some (fold ?g [0..29] s) \<and>
      (procs_wf (fold ?g [0..29] s) \<and> cur (fold ?g [0..29] s) = cur s)"
  proof (rule foreach_fold)
    fix i t assume i: "i \<in> set [0..29]" and t: "procs_wf t \<and> cur t = cur s"
    let ?p = "(cur s + i) mod 30 + 1"
    have p: "valid_pid ?p" using pos_mod_bound [of 30 "cur s + i"] by simp
    have c: "1 \<le> cur s" using cur_valid [of t] t by simp
    then have cm: "cmod (cur s + i) 30 = (cur s + i) mod 30" using i by (simp add: cmod_nonneg)
    show "?f i t = Some (?g i t) \<and> procs_wf (?g i t) \<and> cur (?g i t) = cur s"
      using t p age_wf [of t ?p s]
      by (auto simp: cm c_simps wf_table age_def aged_pcb_def active_def upd_same Let_def)
  qed (simp add: assms)
  then show ?thesis
    by (simp add: update_waiting_def MAX_PROCESSES_def aged_def rotation_def fold_map comp_def)
qed

lemma aged_spec:
  assumes "procs_wf s"
  shows "procs_wf (aged s)" "cur (aged s) = cur s" "BURSTS (aged s) = BURSTS s"
    "sps (aged s) = sps s"
    "valid_pid q \<Longrightarrow> blk (aged s) q = aged_pcb (cur s) q (blk s q)"
proof -
  have "\<forall>p \<in> set (rotation (cur s)). valid_pid p" using rotation_valid by blast
  note f = fold_age [OF this rotation_distinct assms, where s = s, folded aged_def]
  show "procs_wf (aged s)" "cur (aged s) = cur s" "BURSTS (aged s) = BURSTS s"
    "sps (aged s) = sps s" using f by blast+
  show "blk (aged s) q = aged_pcb (cur s) q (blk s q)" if "valid_pid q"
    using f that rotation_pid [OF that, of "cur s"] by simp
qed

lemma aged_fields [simp]:
  "ctx (aged_pcb cp p b) = ctx b" "ppid (aged_pcb cp p b) = ppid b"
  "shared (aged_pcb cp p b) = shared b" "waiting (aged_pcb cp p b) = waiting b"
  "waiters (aged_pcb cp p b) = waiters b" "fd_table (aged_pcb cp p b) = fd_table b"
  "process_type (prio (aged_pcb cp p b)) = process_type (prio b)"
  "time_left (prio (aged_pcb cp p b)) = time_left (prio b)"
  by (simp_all add: aged_pcb_def)

text \<open>The process the scheduler hands the processor to, with its accounting reset.\<close>

definition dispatched_pcb :: "pcb_t \<Rightarrow> pcb_t" where
  "dispatched_pcb b = b\<lparr>prio := (prio b)\<lparr>waiting_time := 0,
     time_left := (if process_type (prio b) = INTERACTIVE then 1 else 6),
     cpu_burst := i32 (cpu_burst (prio b) + 1)\<rparr>\<rparr>"

lemma dispatched_fields [simp]:
  "ctx (dispatched_pcb b) = ctx b" "ppid (dispatched_pcb b) = ppid b"
  "shared (dispatched_pcb b) = shared b" "waiting (dispatched_pcb b) = waiting b"
  "waiters (dispatched_pcb b) = waiters b" "fd_table (dispatched_pcb b) = fd_table b"
  "process_type (prio (dispatched_pcb b)) = process_type (prio b)"
  "waiting_time (prio (dispatched_pcb b)) = 0"
  "time_left (prio (dispatched_pcb b)) = (if process_type (prio b) = INTERACTIVE then 1 else 6)"
  by (simp_all add: dispatched_pcb_def)

definition sched_state :: "procs \<Rightarrow> ctx_t \<Rightarrow> procs \<times> ctx_t" where
  "sched_state s c =
     (let t = aged s; b = blk t (cur t) in
      if time_left (prio b) > 0
      then (upd t (cur t) (b\<lparr>prio := (prio b)\<lparr>time_left := i32 (time_left (prio b) - 1)\<rparr>\<rparr>), c)
      else if choice t = - 1 then (t, c)
      else let u = (if choice t = cur t then t
                    else (upd t (cur t) (b\<lparr>ctx := c\<rparr>))\<lparr>current := Some (process (choice t))\<rparr>)
        in (upd u (choice t) (dispatched_pcb (blk u (choice t))),
            if choice t = cur t then c else ctx (blk t (choice t))))"

lemma choice_valid: "choice s \<noteq> - 1 \<Longrightarrow> valid_pid (choice s) \<and> active s (choice s)"
  using best_some [of s "other_class (class_of s (cur s))"] best_some [of s "class_of s (cur s)"]
  by (auto simp: choice_def candidate_def Let_def split: if_splits)

lemma upd_upd: "upd (upd s p b) p b' = upd s p b'"
  by (simp add: upd_def)

lemma scheduler_spec:
  assumes "procs_wf s" "length (gpr c) = 13"
  shows "scheduler s c = Some (sched_state s c)"
proof -
  have t: "procs_wf (aged s)" by (rule aged_spec(1) [OF assms(1)])
  have upd_blk: "blk (upd u p b) p = b" if "procs_wf u" "valid_pid p" for u p b
    using that by (simp add: blk_upd wf_table)
  show ?thesis
  proof (cases "time_left (prio (blk (aged s) (cur (aged s)))) > 0 \<or> choice (aged s) = - 1")
    case True
    then show ?thesis using assms t
      by (auto simp: scheduler_def update_waiting_aged next_pid_spec c_simps sched_state_def Let_def)
  next
    case False
    let ?p = "choice (aged s)"
    have p: "valid_pid ?p" using choice_valid False by blast
    obtain u c' where u: "set_current (aged s) c ?p = Some (u, c')"
      using set_current_spec [OF t p assms(2)] by (metis surj_pair)
    have uw: "procs_wf u" "cur u = ?p" using set_current_wf [OF t p assms(2) u] by simp_all
    have step: "mod_current v f = Some (upd v ?p (f (blk v ?p)))" if "procs_wf v" "cur v = ?p" for v f
      using that by (simp add: mod_current_upd)
    define d1 where "d1 = upd u ?p ((blk u ?p)\<lparr>prio := (prio (blk u ?p))\<lparr>waiting_time := 0\<rparr>\<rparr>)"
    have d1: "procs_wf d1" "cur d1 = ?p"
      unfolding d1_def using uw p by (auto intro!: procs_wf_upd pcb_wf_prio wf_blk wf_table)
    define d2 where "d2 = upd d1 ?p ((blk d1 ?p)\<lparr>prio := (prio (blk d1 ?p))\<lparr>time_left :=
      (if process_type (prio (blk d1 ?p)) = INTERACTIVE then 1 else 6)\<rparr>\<rparr>)"
    have d2: "procs_wf d2" "cur d2 = ?p"
      unfolding d2_def using d1 p by (auto intro!: procs_wf_upd pcb_wf_prio wf_blk wf_table)
    have "scheduler s c = Some (upd d2 ?p ((blk d2 ?p)\<lparr>prio := (prio (blk d2 ?p))\<lparr>cpu_burst :=
      i32 (cpu_burst (prio (blk d2 ?p)) + 1)\<rparr>\<rparr>), c')"
      using assms t False u
      by (simp add: scheduler_def update_waiting_aged next_pid_spec current_pcb_blk
          step [OF uw] step [OF d1, unfolded d1_def] step [OF d2, unfolded d2_def d1_def] d1_def d2_def)
    also have "\<dots> = Some (upd u ?p (dispatched_pcb (blk u ?p)), c')"
      using upd_blk [OF uw(1) p] upd_blk [OF d1(1) p]
      by (simp add: d2_def d1_def upd_upd dispatched_pcb_def)
    finally show ?thesis
      using u set_current_spec [OF t p assms(2)] False
      by (auto simp: sched_state_def Let_def split: if_splits)
  qed
qed

text \<open>
  Whether this call hands the processor over, and to whom.
\<close>

definition dispatches :: "procs \<Rightarrow> bool" where
  "dispatches s \<longleftrightarrow> time_left (prio (blk s (cur s))) \<le> 0 \<and> choice (aged s) \<noteq> - 1"

definition next_cur :: "procs \<Rightarrow> int" where
  "next_cur s = (if dispatches s then choice (aged s) else cur s)"

lemma next_cur_valid: "procs_wf s \<Longrightarrow> valid_pid (next_cur s)"
  using choice_valid [of "aged s"] cur_valid [of s] by (auto simp: next_cur_def dispatches_def)

definition sched_blk :: "procs \<Rightarrow> ctx_t \<Rightarrow> int \<Rightarrow> pcb_t" where
  "sched_blk s c q =
     (let b = aged_pcb (cur s) q (blk s q);
          b = (if q = cur s \<and> next_cur s \<noteq> cur s then b\<lparr>ctx := c\<rparr> else b)
      in if dispatches s then (if q = choice (aged s) then dispatched_pcb b else b)
         else if q = cur s \<and> time_left (prio b) > 0
         then b\<lparr>prio := (prio b)\<lparr>time_left := i32 (time_left (prio b) - 1)\<rparr>\<rparr> else b)"

lemma sched_state_spec:
  assumes wf: "procs_wf s" and len: "length (gpr c) = 13" and st: "sched_state s c = (s', c')"
  shows "procs_wf s'" "cur s' = next_cur s" "length (gpr c') = 13"
    "valid_pid q \<Longrightarrow> blk s' q = sched_blk s c q"
    "BURSTS s' = BURSTS s" "sps s' = sps s"
    "c' = (if next_cur s = cur s then c else ctx (blk s (next_cur s)))"
proof -
  note t = aged_spec [OF wf]
  have cu: "valid_pid (cur s)" by (rule cur_valid [OF wf])
  have tl: "time_left (prio (blk (aged s) (cur s))) = time_left (prio (blk s (cur s)))"
    using t(5) cu by simp
  have tw: "table_wf (aged s)" by (rule wf_table [OF t(1)])
  have gl: "length (gpr (ctx (blk s p))) = 13" if "valid_pid p" for p
    using that by (rule pcb_wf_gpr [OF wf_table [OF wf]])
  consider (slice) "time_left (prio (blk s (cur s))) > 0"
    | (idle) "\<not> time_left (prio (blk s (cur s))) > 0" "choice (aged s) = - 1"
    | (same) "\<not> time_left (prio (blk s (cur s))) > 0" "choice (aged s) \<noteq> - 1" "choice (aged s) = cur s"
    | (switch) "\<not> time_left (prio (blk s (cur s))) > 0" "choice (aged s) \<noteq> - 1" "choice (aged s) \<noteq> cur s"
    by blast
  then have all: "procs_wf s' \<and> cur s' = next_cur s \<and> length (gpr c') = 13 \<and>
      (valid_pid q \<longrightarrow> blk s' q = sched_blk s c q) \<and> BURSTS s' = BURSTS s \<and> sps s' = sps s \<and>
      c' = (if next_cur s = cur s then c else ctx (blk s (next_cur s)))"
  proof cases
    case slice
    let ?b = "blk (aged s) (cur s)"
    have s': "s' = upd (aged s) (cur s) (?b\<lparr>prio := (prio ?b)\<lparr>time_left := i32 (time_left (prio ?b) - 1)\<rparr>\<rparr>)"
      "c' = c" using st slice tl by (simp_all add: sched_state_def Let_def t(2))
    have n: "\<not> dispatches s" "next_cur s = cur s" using slice by (simp_all add: dispatches_def next_cur_def)
    have "procs_wf s'" unfolding s'
      by (intro procs_wf_upd pcb_wf_prio wf_blk) (use t(1) tw cu in simp_all)
    moreover have "valid_pid q \<Longrightarrow> blk s' q = sched_blk s c q"
      using slice cu by (simp add: s' blk_upd tw sched_blk_def n t(5) Let_def)
    ultimately show ?thesis using n len t s' by simp
  next
    case idle
    have s': "s' = aged s" "c' = c" using st idle tl by (simp_all add: sched_state_def Let_def t(2))
    have n: "\<not> dispatches s" "next_cur s = cur s" using idle by (simp_all add: dispatches_def next_cur_def)
    show ?thesis using idle n len t s' cu by (auto simp: sched_blk_def Let_def)
  next
    case same
    let ?b = "blk (aged s) (cur s)"
    have s': "s' = upd (aged s) (cur s) (dispatched_pcb ?b)" "c' = c"
      using st same tl by (simp_all add: sched_state_def Let_def t(2))
    have n: "dispatches s" "next_cur s = cur s" using same by (simp_all add: dispatches_def next_cur_def)
    have "procs_wf s'" unfolding s' dispatched_pcb_def
      by (intro procs_wf_upd pcb_wf_prio wf_blk) (use t(1) tw cu in simp_all)
    moreover have "valid_pid q \<Longrightarrow> blk s' q = sched_blk s c q"
      using same cu by (simp add: s' blk_upd tw sched_blk_def n t(5) Let_def)
    ultimately show ?thesis using n len t s' by simp
  next
    case switch
    let ?p = "choice (aged s)"
    have p: "valid_pid ?p" using choice_valid switch by blast
    let ?b = "(blk (aged s) (cur s))\<lparr>ctx := c\<rparr>"
    let ?u = "(upd (aged s) (cur s) ?b)\<lparr>current := Some (process ?p)\<rparr>"
    have s': "s' = upd ?u ?p (dispatched_pcb (blk ?u ?p))" "c' = ctx (blk (aged s) ?p)"
      using st switch tl by (simp_all add: sched_state_def Let_def t(2))
    have n: "dispatches s" "next_cur s = ?p" using switch by (simp_all add: dispatches_def next_cur_def)
    have u: "procs_wf ?u"
      by (intro procs_wf_current procs_wf_upd pcb_wf_ctx wf_blk) (use t(1) tw cu p len in simp_all)
    have "procs_wf s'" unfolding s' dispatched_pcb_def
      by (intro procs_wf_upd pcb_wf_prio wf_blk) (use u p wf_table in blast)+
    moreover have "blk s' q = sched_blk s c q" if q: "valid_pid q"
    proof -
      have bu: "blk ?u r = (if r = cur s then ?b else blk (aged s) r)" if "valid_pid r" for r
        using cu that by (simp add: blk_upd tw)
      have "blk s' q = (if q = ?p then dispatched_pcb (blk ?u ?p) else blk ?u q)"
        unfolding s' by (rule blk_upd [OF wf_table [OF u] p q])
      then show ?thesis
        unfolding bu [OF p] bu [OF q] using switch q by (simp add: sched_blk_def n t(5) p Let_def cu)
    qed
    moreover have "cur s' = ?p" by (simp add: s')
    ultimately show ?thesis using n p switch gl t s' by simp
  qed
  then show "procs_wf s'" "cur s' = next_cur s" "length (gpr c') = 13"
    "BURSTS s' = BURSTS s" "sps s' = sps s"
    "c' = (if next_cur s = cur s then c else ctx (blk s (next_cur s)))" by blast+
  show "blk s' q = sched_blk s c q" if "valid_pid q" using all that by blast
qed

section \<open>What one call guarantees\<close>

lemma scheduler_total:
  assumes "procs_wf s" "length (gpr c) = 13"
  obtains s' c' where "scheduler s c = Some (s', c')" "sched_state s c = (s', c')"
  using scheduler_spec [OF assms] by (cases "sched_state s c") simp

lemma scheduler_result:
  assumes "procs_wf s" "length (gpr c) = 13" "scheduler s c = Some (s', c')"
  shows "sched_state s c = (s', c')"
  using assms by (simp add: scheduler_spec)

lemma scheduler_ctx:
  assumes wf: "procs_wf s" and len: "length (gpr c) = 13" and run: "scheduler s c = Some (s', c')"
    and p: "valid_pid p"
  shows "proc_ctx s' c' p = proc_ctx s c p"
proof -
  note st = sched_state_spec [OF wf len scheduler_result [OF wf len run]]
  show ?thesis
    using p by (auto simp: proc_ctx_def st(2,4,7) sched_blk_def Let_def)
qed

lemma scheduler_frame:
  assumes wf: "procs_wf s" and len: "length (gpr c) = 13" and run: "scheduler s c = Some (s', c')"
    and p: "valid_pid p"
  shows "pid (blk s' p) = pid (blk s p)" "ppid (blk s' p) = ppid (blk s p)"
    "shared (blk s' p) = shared (blk s p)" "waiting (blk s' p) = waiting (blk s p)"
    "waiters (blk s' p) = waiters (blk s p)" "fd_table (blk s' p) = fd_table (blk s p)"
    "class_of s' p = class_of s p"
proof -
  note st = sched_state_spec [OF wf len scheduler_result [OF wf len run]]
  show "pid (blk s' p) = pid (blk s p)"
    using wf_blk [OF wf_table [OF st(1)] p] wf_blk [OF wf_table [OF wf] p] by (simp add: pcb_wf_def)
  show "ppid (blk s' p) = ppid (blk s p)"
    "shared (blk s' p) = shared (blk s p)" "waiting (blk s' p) = waiting (blk s p)"
    "waiters (blk s' p) = waiters (blk s p)" "fd_table (blk s' p) = fd_table (blk s p)"
    "class_of s' p = class_of s p"
    using p by (auto simp: st(4) sched_blk_def Let_def class_of_def)
qed

text \<open>The state of a run: the running process is really runnable, and there are two classes.\<close>

definition runnable :: "procs \<Rightarrow> bool" where
  "runnable s \<longleftrightarrow> procs_wf s \<and> active s (cur s) \<and> time_left (prio (blk s (cur s))) \<le> 6 \<and>
     (\<forall>q. valid_pid q \<and> active s q \<longrightarrow>
        is_i32 (wait_of s q) \<and> (class_of s q = BACKGROUND \<or> class_of s q = INTERACTIVE))"

definition live_ctx :: "ctx_t \<Rightarrow> bool" where
  "live_ctx c \<longleftrightarrow> pc c \<noteq> 0 \<and> length (gpr c) = 13"

definition new_wait :: "procs \<Rightarrow> int \<Rightarrow> int" where
  "new_wait s q =
     (if dispatches s \<and> q = choice (aged s) then 0
      else if q = cur s then wait_of s q else i32 (wait_of s q + 1))"

lemma sched_fields:
  assumes r: "runnable s" and c: "live_ctx c" and st: "sched_state s c = (s', c')" and q: "valid_pid q"
  shows "active s' q = active s q" "class_of s' q = class_of s q"
    "active s q \<Longrightarrow> wait_of s' q = new_wait s q"
proof -
  have wf: "procs_wf s" and len: "length (gpr c) = 13" using r c by (simp_all add: runnable_def live_ctx_def)
  note sp = sched_state_spec [OF wf len st]
  have a: "active s (cur s)" "pc c \<noteq> 0" using r c by (simp_all add: runnable_def live_ctx_def)
  have p: "valid_pid (cur s)" by (rule cur_valid [OF wf])
  show "active s' q = active s q" "class_of s' q = class_of s q"
    using a q by (auto simp: active_def class_of_def sp(4) sched_blk_def Let_def)
  show "wait_of s' q = new_wait s q" if "active s q"
    using that q by (auto simp: active_def wait_of_def sp(4) sched_blk_def Let_def new_wait_def aged_pcb_def)
qed

lemma sched_runnable:
  assumes r: "runnable s" and c: "live_ctx c" and st: "sched_state s c = (s', c')"
  shows "runnable s'"
proof -
  have wf: "procs_wf s" and len: "length (gpr c) = 13" using r c by (simp_all add: runnable_def live_ctx_def)
  note sp = sched_state_spec [OF wf len st]
  have nv: "valid_pid (next_cur s)" by (rule next_cur_valid [OF wf])
  have act: "active s (next_cur s)"
  proof (cases "dispatches s")
    case True
    then have "valid_pid (choice (aged s)) \<and> active (aged s) (choice (aged s))"
      using choice_valid by (simp add: dispatches_def)
    then show ?thesis using True aged_spec(5) [OF wf] by (auto simp: next_cur_def active_def)
  next
    case False
    then show ?thesis using r by (simp add: next_cur_def runnable_def)
  qed
  then have "active s' (cur s')" using sched_fields(1) [OF r c st nv] sp(2) by simp
  moreover have "time_left (prio (blk s' (cur s'))) \<le> 6"
  proof (cases "dispatches s")
    case True
    then show ?thesis using nv sp(4) [OF nv] by (simp add: sp(2) next_cur_def sched_blk_def Let_def)
  next
    case False
    then show ?thesis using nv r
      by (auto simp: sp(2,4) next_cur_def sched_blk_def Let_def runnable_def i32_id)
  qed
  moreover have "is_i32 (wait_of s' q) \<and> (class_of s' q = BACKGROUND \<or> class_of s' q = INTERACTIVE)"
    if q: "valid_pid q" "active s' q" for q
  proof -
    note f = sched_fields [OF r c st q(1)]
    have "active s q" using q f(1) by simp
    then show ?thesis using r q(1) f i32_range [of "wait_of s q + 1"]
      by (auto simp: runnable_def new_wait_def)
  qed
  ultimately show ?thesis using sp(1) by (simp add: runnable_def)
qed

section \<open>No process starves\<close>

text \<open>
  A run of the scheduler: each call finds the context that the running process has reached
  by then. The result lists the process that owns the processor after each call.
\<close>

fun sched_run :: "procs \<Rightarrow> ctx_t list \<Rightarrow> (int list \<times> procs) option" where
  "sched_run s [] = Some ([], s)"
| "sched_run s (c # cs) = do {
     (s, _) \<leftarrow> scheduler s c;
     p \<leftarrow> current_pid s;
     (ps, s) \<leftarrow> sched_run s cs;
     Some (p # ps, s)
   }"

definition rivals :: "procs \<Rightarrow> int \<Rightarrow> int set" where
  "rivals s p = {q \<in> {1..30}. q \<noteq> p \<and> active s q \<and> class_of s q = class_of s p \<and>
     wait_of s p \<le> wait_of s q}"

definition turns :: "procs \<Rightarrow> int \<Rightarrow> nat" where
  "turns s p = 7 * (2 * card (rivals s p) + (if class_of s (cur s) = class_of s p then 1 else 0))
     + nat (time_left (prio (blk s (cur s))))"

lemma rivals_step:
  assumes r: "runnable s" and c: "live_ctx c" and st: "sched_state s c = (s', c')"
    and p: "valid_pid p" "active s p" "p \<noteq> cur s" "next_cur s \<noteq> p"
    and w: "0 \<le> wait_of s p" "wait_of s p + 1 < 2 ^ 31"
  shows "wait_of s' p = wait_of s p + 1" "rivals s' p \<subseteq> rivals s p"
    "dispatches s \<Longrightarrow> choice (aged s) \<notin> rivals s' p"
proof -
  note f = sched_fields [OF r c st]
  have ri: "is_i32 (wait_of s q)" if "valid_pid q" "active s q" for q
    using r that by (simp add: runnable_def)
  have np: "\<not> (dispatches s \<and> p = choice (aged s))" using p(4) by (auto simp: next_cur_def)
  then show wp: "wait_of s' p = wait_of s p + 1"
    using f(3) [OF p(1,2)] p(3) w ri [OF p(1,2)] by (auto simp: new_wait_def i32_id)
  show "choice (aged s) \<notin> rivals s' p" if "dispatches s"
    using that wp w f(3) by (auto simp: rivals_def f(1) new_wait_def)
  have "wait_of s p \<le> wait_of s q"
    if q: "valid_pid q" "active s q" "wait_of s p + 1 \<le> wait_of s' q" for q
  proof (rule ccontr)
    assume n: "\<not> wait_of s p \<le> wait_of s q"
    then have "i32 (wait_of s q + 1) = wait_of s q + 1" using ri [OF q(1,2)] w by (simp add: i32_id)
    then show False using q(3) n w f(3) [OF q(1,2)] by (auto simp: new_wait_def split: if_splits)
  qed
  then show "rivals s' p \<subseteq> rivals s p"
    using wp f(1,2) p(1) by (auto simp: rivals_def)
qed

lemma aged_wait:
  "procs_wf s \<Longrightarrow> valid_pid q \<Longrightarrow> active s q \<Longrightarrow> q \<noteq> cur s \<Longrightarrow> wait_of (aged s) q = i32 (wait_of s q + 1)"
  "procs_wf s \<Longrightarrow> wait_of (aged s) (cur s) = wait_of s (cur s)"
  using cur_valid [of s] by (simp_all add: wait_of_def active_def aged_spec(5) aged_pcb_def)

lemma aged_class_active:
  "procs_wf s \<Longrightarrow> valid_pid q \<Longrightarrow> class_of (aged s) q = class_of s q"
  "procs_wf s \<Longrightarrow> valid_pid q \<Longrightarrow> active (aged s) q = active s q"
  by (simp_all add: class_of_def active_def aged_spec(5))

text \<open>While a process waits, a hand-over either goes to it, uses up one of its rivals or switches to its class.\<close>

lemma choice_progress:
  assumes r: "runnable s" and p: "valid_pid p" "active s p" "p \<noteq> cur s"
    and w: "0 \<le> wait_of s p" "wait_of s p + 1 < 2 ^ 31"
  defines "n \<equiv> choice (aged s)"
  shows "n \<noteq> - 1" "class_of s n = class_of s p \<Longrightarrow> n = p \<or> n \<in> rivals s p"
    "class_of s n \<noteq> class_of s p \<Longrightarrow> class_of s (cur s) = class_of s p"
proof -
  have wf: "procs_wf s" using r by (simp add: runnable_def)
  note t = aged_spec [OF wf]
  have ri: "is_i32 (wait_of s q)" if "valid_pid q" "active s q" for q
    using r that by (simp add: runnable_def)
  have wp: "wait_of (aged s) p = wait_of s p + 1"
    using p w ri [of p] by (simp add: aged_wait wf i32_id)
  have cp: "candidate (aged s) (class_of s p) p"
    using p w wp by (simp add: candidate_def aged_class_active wf)
  let ?b = "\<lambda>ty. best (aged s) ty"
  have bp: "?b (class_of s p) \<noteq> - 1" using cp best_none by blast
  have cl: "class_of (aged s) (cur s) = class_of s (cur s)" "cur (aged s) = cur s"
    using cur_valid [OF wf] by (simp_all add: aged_class_active wf t(2))
  have act: "active s (cur s)" using r by (simp add: runnable_def)
  have cls: "class_of s q = BACKGROUND \<or> class_of s q = INTERACTIVE" if "valid_pid q" "active s q" for q
    using r that by (simp add: runnable_def)
  have oc: "class_of s p = other_class (class_of s (cur s))" if "class_of s p \<noteq> class_of s (cur s)"
    using that cls [OF p(1,2)] cls [OF cur_valid [OF wf] act]
    by (auto simp: other_class_def proc_consts)
  have n_def': "n = (if ?b (other_class (class_of s (cur s))) = - 1 then ?b (class_of s (cur s))
     else ?b (other_class (class_of s (cur s))))"
    by (simp add: n_def choice_def Let_def cl)
  show n1: "n \<noteq> - 1" using n_def' bp oc by (metis (no_types))
  obtain ty where ty: "n = ?b ty" using n_def' by metis
  have cn: "candidate (aged s) ty n" "\<forall>q. candidate (aged s) ty q \<longrightarrow> wait_of (aged s) q \<le> wait_of (aged s) n"
    using best_some [of "aged s" ty] n1 ty by simp_all
  have nv: "valid_pid n" "active s n" "class_of s n = ty"
    using cn(1) by (auto simp: candidate_def aged_class_active wf)
  show "class_of s (cur s) = class_of s p" if "class_of s n \<noteq> class_of s p"
  proof (rule ccontr)
    assume "class_of s (cur s) \<noteq> class_of s p"
    then have "n = ?b (class_of s p)" using oc bp n_def' by auto
    then have "class_of s n = class_of s p"
      using best_some [OF bp] by (auto simp: candidate_def aged_class_active wf)
    then show False using that by simp
  qed
  show "n = p \<or> n \<in> rivals s p" if "class_of s n = class_of s p"
  proof -
    have "wait_of s p + 1 \<le> wait_of (aged s) n" using cn(2) cp that nv(3) wp by auto
    moreover have "wait_of (aged s) n \<le> wait_of s n + 1"
      using nv aged_wait [OF wf] ri [OF nv(1,2)] i32_range [of "wait_of s n + 1"]
      by (cases "n = cur s"; cases "is_i32 (wait_of s n + 1)") (auto simp: i32_id)
    ultimately show ?thesis using nv that by (auto simp: rivals_def)
  qed
qed

lemma turns_decrease:
  assumes r: "runnable s" and c: "live_ctx c" and st: "sched_state s c = (s', c')"
    and p: "valid_pid p" "active s p" "p \<noteq> cur s" "next_cur s \<noteq> p"
    and w: "0 \<le> wait_of s p" "wait_of s p + 1 < 2 ^ 31"
  shows "turns s' p < turns s p"
proof -
  have wf: "procs_wf s" and len: "length (gpr c) = 13" using r c by (simp_all add: runnable_def live_ctx_def)
  note sp = sched_state_spec [OF wf len st]
  note f = sched_fields [OF r c st] and rs = rivals_step [OF r c st p w]
  note cg = choice_progress [OF r p(1-3) w]
  have fin: "finite (rivals s p)"
    by (rule finite_subset [of _ "{1..30}"]) (auto simp: rivals_def)
  have nv: "valid_pid (next_cur s)" by (rule next_cur_valid [OF wf])
  have cls': "class_of s' (cur s') = class_of s (next_cur s)" "class_of s' p = class_of s p"
    using f(2) nv p(1) sp(2) by simp_all
  have le: "card (rivals s' p) \<le> card (rivals s p)" using rs(2) fin by (rule card_mono [rotated])
  show ?thesis
  proof (cases "dispatches s")
    case False
    then have "time_left (prio (blk s (cur s))) > 0" using cg(1) by (simp add: dispatches_def)
    moreover have "nat (time_left (prio (blk s' (cur s')))) < nat (time_left (prio (blk s (cur s))))"
      using calculation False nv r sp(2) sp(4) [OF nv]
      by (simp add: next_cur_def sched_blk_def Let_def runnable_def i32_id)
    ultimately show ?thesis using False le cls' by (simp add: turns_def next_cur_def)
  next
    case True
    let ?n = "choice (aged s)"
    have n: "next_cur s = ?n" using True by (simp add: next_cur_def)
    have tl: "nat (time_left (prio (blk s' (cur s')))) \<le> 6"
      using True nv sp(2) sp(4) [OF nv] by (simp add: n sched_blk_def Let_def)
    show ?thesis
    proof (cases "class_of s ?n = class_of s p")
      case same: True
      then have "?n \<in> rivals s p" using cg(2) p(4) n by auto
      then have "rivals s' p \<subset> rivals s p" using rs(2) rs(3) [OF True] by blast
      then have "card (rivals s' p) < card (rivals s p)" by (rule psubset_card_mono [OF fin])
      then show ?thesis using tl cls' n by (simp add: turns_def)
    next
      case other: False
      then show ?thesis using cg(3) le tl cls' n by (simp add: turns_def)
    qed
  qed
qed

lemma turns_bound:
  assumes "runnable s" "valid_pid p"
  shows "turns s p \<le> 419"
proof -
  have "card (rivals s p) \<le> card ({1..30::int} - {p})" by (rule card_mono) (auto simp: rivals_def)
  then have "card (rivals s p) \<le> 29" using assms(2) by simp
  moreover have "time_left (prio (blk s (cur s))) \<le> 6" using assms(1) unfolding runnable_def by blast
  then have "nat (time_left (prio (blk s (cur s)))) \<le> 6" by simp
  ultimately show ?thesis by (simp add: turns_def)
qed

lemma sched_run_step:
  assumes "runnable s" "live_ctx c"
  obtains s' c' where "sched_state s c = (s', c')" "runnable s'" "cur s' = next_cur s"
    "sched_run s (c # cs) = do { (ps, t) \<leftarrow> sched_run s' cs; Some (next_cur s # ps, t) }"
proof -
  have wf: "procs_wf s" and len: "length (gpr c) = 13" using assms by (simp_all add: runnable_def live_ctx_def)
  obtain s' c' where st: "scheduler s c = Some (s', c')" "sched_state s c = (s', c')"
    by (rule scheduler_total [OF wf len])
  note sp = sched_state_spec [OF wf len st(2)]
  show ?thesis
    by (rule that [OF st(2) sched_runnable [OF assms st(2)] sp(2)]) (simp add: st(1) c_simps sp)
qed

lemma sched_run_total:
  assumes "runnable s" "\<forall>c \<in> set cs. live_ctx c"
  shows "\<exists>ps t. sched_run s cs = Some (ps, t) \<and> runnable t \<and> length ps = length cs"
  using assms
proof (induction cs arbitrary: s)
  case (Cons c cs)
  obtain s' c' where s': "runnable s'"
    "sched_run s (c # cs) = do { (ps, t) \<leftarrow> sched_run s' cs; Some (next_cur s # ps, t) }"
    using sched_run_step [of s c] Cons.prems by (metis list.set_intros(1))
  then show ?case using Cons.IH [OF s'(1)] Cons.prems(2) by auto
qed simp

lemma sched_run_reaches:
  assumes "runnable s" "\<forall>c \<in> set cs. live_ctx c" "valid_pid p" "active s p" "p \<noteq> cur s"
    "0 \<le> wait_of s p" "wait_of s p + int (length cs) < 2 ^ 31" "turns s p < length cs"
  shows "\<exists>ps t. sched_run s cs = Some (ps, t) \<and> p \<in> set ps"
  using assms
proof (induction cs arbitrary: s)
  case (Cons c cs)
  have c: "live_ctx c" "\<forall>c \<in> set cs. live_ctx c" using Cons.prems(2) by simp_all
  obtain s' c' where s': "sched_state s c = (s', c')" "runnable s'" "cur s' = next_cur s"
    "sched_run s (c # cs) = do { (ps, t) \<leftarrow> sched_run s' cs; Some (next_cur s # ps, t) }"
    by (rule sched_run_step [OF Cons.prems(1) c(1)])
  obtain ps t where run: "sched_run s' cs = Some (ps, t)" using sched_run_total [OF s'(2) c(2)] by blast
  show ?case
  proof (cases "next_cur s = p")
    case True
    then show ?thesis using s'(4) run by simp
  next
    case False
    have w: "wait_of s p + 1 < 2 ^ 31" using Cons.prems(7) by simp
    note rs = rivals_step [OF Cons.prems(1) c(1) s'(1) Cons.prems(3-5) False Cons.prems(6) w]
    note td = turns_decrease [OF Cons.prems(1) c(1) s'(1) Cons.prems(3-5) False Cons.prems(6) w]
    have "active s' p" using sched_fields(1) [OF Cons.prems(1) c(1) s'(1) Cons.prems(3)] Cons.prems(4) by simp
    then have "\<exists>ps t. sched_run s' cs = Some (ps, t) \<and> p \<in> set ps"
      using Cons.prems False rs(1) td s'(3)
      by (intro Cons.IH) (simp_all add: s'(2) c(2))
    then show ?thesis using s'(4) by auto
  qed
qed simp

lemma sched_run_serves:
  assumes "runnable s" "\<forall>c \<in> set cs. live_ctx c" "length cs = 421" "valid_pid p" "active s p"
    "0 \<le> wait_of s p" "wait_of s p < 2 ^ 31 - 421"
  shows "\<exists>ps t. sched_run s cs = Some (ps, t) \<and> p \<in> set ps"
proof (cases "p = cur s")
  case False
  then show ?thesis
    using turns_bound [OF assms(1,4)] by (intro sched_run_reaches [OF assms(1,2,4,5)]) (use assms in simp_all)
next
  case True
  obtain c ds where cs: "cs = c # ds" using assms(3) by (cases cs) auto
  have c: "live_ctx c" "\<forall>c \<in> set ds. live_ctx c" using assms(2) cs by simp_all
  obtain s' c' where s': "sched_state s c = (s', c')" "runnable s'" "cur s' = next_cur s"
    "sched_run s (c # ds) = do { (ps, t) \<leftarrow> sched_run s' ds; Some (next_cur s # ps, t) }"
    by (rule sched_run_step [OF assms(1) c(1)])
  obtain ps t where run: "sched_run s' ds = Some (ps, t)" using sched_run_total [OF s'(2) c(2)] by blast
  show ?thesis
  proof (cases "next_cur s = p")
    case True
    then show ?thesis using s'(4) run cs by simp
  next
    case False
    note f = sched_fields [OF assms(1) c(1) s'(1) assms(4)]
    have "wait_of s' p = wait_of s p"
      using f(3) [OF assms(5)] True False by (auto simp: new_wait_def next_cur_def)
    moreover have "active s' p" using f(1) assms(5) by simp
    ultimately have "\<exists>ps t. sched_run s' ds = Some (ps, t) \<and> p \<in> set ps"
      using turns_bound [OF s'(2) assms(4)] False assms cs s'(3)
      by (intro sched_run_reaches [OF s'(2) c(2) assms(4)]) simp_all
    then show ?thesis using s'(4) cs by auto
  qed
qed

end
