(* ===== verification/Ipc.thy ===== *)
theory Ipc
  imports Processes
begin

text \<open>
  Inter-process communication of \<open>src/question/kernel/processes.c\<close>: what the shared-memory locks,
  the wait lists and the per-process file tables do in a well-formed table. The locks are
  stated as a contract (\<open>mutex\<close>) from which mutual exclusion over any sequence of calls
  follows once.
\<close>

section \<open>Locks\<close>

datatype 'w lock_call = Acquire (caller: 'w) | Release (caller: 'w)

fun run_calls :: "('s \<Rightarrow> 'w \<Rightarrow> (int \<times> 's) option) \<Rightarrow> ('s \<Rightarrow> 'w \<Rightarrow> (int \<times> 's) option) \<Rightarrow>
    'w lock_call list \<Rightarrow> 's \<Rightarrow> (int list \<times> 's) option" where
  "run_calls acq rel [] s = Some ([], s)"
| "run_calls acq rel (Acquire w # cs) s = do {
     (r, s) \<leftarrow> acq s w; (rs, s) \<leftarrow> run_calls acq rel cs s; Some (r # rs, s) }"
| "run_calls acq rel (Release w # cs) s = do {
     (r, s) \<leftarrow> rel s w; (rs, s) \<leftarrow> run_calls acq rel cs s; Some (- r # rs, s) }"

locale mutex =
  fixes acquire :: "'s \<Rightarrow> 'w \<Rightarrow> (int \<times> 's) option"
    and release :: "'s \<Rightarrow> 'w \<Rightarrow> (int \<times> 's) option"
    and held :: "'s \<Rightarrow> bool" and able :: "'s \<Rightarrow> 'w \<Rightarrow> bool"
  assumes acquire_free: "able s w \<Longrightarrow> \<not> held s \<Longrightarrow>
      \<exists>s'. acquire s w = Some (1, s') \<and> held s' \<and> able s' = able s"
    and acquire_held: "able s w \<Longrightarrow> held s \<Longrightarrow> acquire s w = Some (0, s)"
    and release_held: "able s w \<Longrightarrow> held s \<Longrightarrow>
      \<exists>s'. release s w = Some (1, s') \<and> \<not> held s' \<and> able s' = able s"
    and release_free: "able s w \<Longrightarrow> \<not> held s \<Longrightarrow> release s w = Some (0, s)"
begin

text \<open>
  A successful acquire counts 1, a successful release \<open>- 1\<close>, a refused call 0: over any
  sequence of calls the sum is the change of the lock, so never two acquires without a
  release between them.
\<close>

lemma calls_balance:
  assumes "\<forall>c \<in> set cs. able s (caller c)"
  shows "\<exists>rs s'. run_calls acquire release cs s = Some (rs, s') \<and> length rs = length cs \<and> able s' = able s \<and>
    of_bool (held s) + sum_list rs = (of_bool (held s') :: int)"
  using assms
proof (induction cs arbitrary: s)
  case (Cons c cs)
  show ?case
  proof (cases c)
    case (Acquire w)
    then have w: "able s w" using Cons.prems by simp
    then obtain r s1 where s1: "acquire s w = Some (r, s1)" "able s1 = able s" "held s1"
      "r = (if held s then 0 else 1)"
      using acquire_free [of s w] acquire_held [of s w] by (cases "held s") auto
    moreover obtain rs s' where "run_calls acquire release cs s1 = Some (rs, s')" "length rs = length cs"
      "able s' = able s1" "of_bool (held s1) + sum_list rs = (of_bool (held s') :: int)"
      using Cons.IH [of s1] Cons.prems s1(2) by auto
    ultimately show ?thesis using Acquire by (cases "held s") auto
  next
    case (Release w)
    then have w: "able s w" using Cons.prems by simp
    then obtain r s1 where s1: "release s w = Some (r, s1)" "able s1 = able s" "\<not> held s1"
      "r = (if held s then 1 else 0)"
      using release_free [of s w] release_held [of s w] by (cases "held s") auto
    moreover obtain rs s' where "run_calls acquire release cs s1 = Some (rs, s')" "length rs = length cs"
      "able s' = able s1" "of_bool (held s1) + sum_list rs = (of_bool (held s') :: int)"
      using Cons.IH [of s1] Cons.prems s1(2) by auto
    ultimately show ?thesis using Release by (cases "held s") auto
  qed
qed simp

end

definition lock_owner :: "procs \<Rightarrow> int \<Rightarrow> u32 \<Rightarrow> int \<Rightarrow> bool" where
  "lock_owner s p a q \<longleftrightarrow> table_wf s \<and> valid_pid p \<and> valid_pid q \<and> ptr (shared (blk s q)) = a \<and>
     (q = p \<or> ptr (shared (blk s p)) \<noteq> a \<and> ppid (blk s p) = q)"

definition lock_held :: "procs \<Rightarrow> int \<Rightarrow> bool" where
  "lock_held s q \<longleftrightarrow> locked (shared (blk s q)) \<noteq> 0"

lemma is_shared_spec:
  assumes "table_wf s" "valid_pid p"
  shows "is_shared s p a =
    (if ptr (shared (blk s p)) = a then Some (Some (process p))
     else if ppid (blk s p) = 0 then None
     else Some (if ptr (shared (blk s (ppid (blk s p)))) = a
                then Some (process (ppid (blk s p))) else None))"
  using assms wf_blk [OF assms]
  by (simp add: is_shared_def c_simps pcb_wf_def)

lemma is_shared_owner: "lock_owner s p a q \<Longrightarrow> is_shared s p a = Some (Some (process q))"
  by (auto simp: lock_owner_def is_shared_spec)

lemma lock_spec:
  assumes "lock_owner s p a q"
  shows "lock s p a = Some (if lock_held s q then (0, s)
    else (1, upd s q ((blk s q)\<lparr>shared := (shared (blk s q))\<lparr>locked := 1\<rparr>\<rparr>)))"
  using assms is_shared_owner [OF assms]
  by (simp add: lock_def lock_held_def lock_owner_def c_simps)

lemma unlock_spec:
  assumes "lock_owner s p a q"
  shows "unlock s p a = Some (if lock_held s q
    then (1, upd s q ((blk s q)\<lparr>shared := (shared (blk s q))\<lparr>locked := 0\<rparr>\<rparr>)) else (0, s))"
  using assms is_shared_owner [OF assms]
  by (simp add: unlock_def lock_held_def lock_owner_def c_simps)

lemma lock_owner_upd:
  assumes "table_wf s" "valid_pid q"
  shows "lock_owner (upd s q ((blk s q)\<lparr>shared := (shared (blk s q))\<lparr>locked := v\<rparr>\<rparr>)) p a q
    = lock_owner s p a q"
proof -
  have "table_wf (upd s q ((blk s q)\<lparr>shared := (shared (blk s q))\<lparr>locked := v\<rparr>\<rparr>))"
    using assms by (intro wf_intros wf_blk) auto
  then show ?thesis using assms by (auto simp: lock_owner_def c_simps)
qed

lemma lock_held_upd:
  assumes "table_wf s" "valid_pid q"
  shows "lock_held (upd s q ((blk s q)\<lparr>shared := (shared (blk s q))\<lparr>locked := v\<rparr>\<rparr>)) q = (v \<noteq> 0)"
  using assms by (simp add: lock_held_def c_simps)

interpretation lk: mutex "\<lambda>s p. lock s p a" "\<lambda>s p. unlock s p a" "\<lambda>s. lock_held s q"
  "\<lambda>s p. lock_owner s p a q" for a q
proof unfold_locales
  fix s p assume own: "lock_owner s p a q"
  then have v: "table_wf s" "valid_pid q" by (simp_all add: lock_owner_def)
  show "\<not> lock_held s q \<Longrightarrow> \<exists>s'. lock s p a = Some (1, s') \<and> lock_held s' q \<and>
      (\<lambda>p. lock_owner s' p a q) = (\<lambda>p. lock_owner s p a q)"
    by (simp add: lock_spec [OF own] lock_owner_upd [OF v] lock_held_upd [OF v])
  show "lock_held s q \<Longrightarrow> lock s p a = Some (0, s)"
    by (simp add: lock_spec [OF own])
  show "lock_held s q \<Longrightarrow> \<exists>s'. unlock s p a = Some (1, s') \<and> \<not> lock_held s' q \<and>
      (\<lambda>p. lock_owner s' p a q) = (\<lambda>p. lock_owner s p a q)"
    by (simp add: unlock_spec [OF own] lock_owner_upd [OF v] lock_held_upd [OF v])
  show "\<not> lock_held s q \<Longrightarrow> unlock s p a = Some (0, s)"
    by (simp add: unlock_spec [OF own])
qed

section \<open>Waiting\<close>

text \<open>The slot in which a process waits for another, and the first free slot of each list.\<close>

definition wait_slot :: "procs \<Rightarrow> int \<Rightarrow> int \<Rightarrow> int option" where
  "wait_slot s p q = List.find (\<lambda>i. w_pid (waiting (blk s p) ! nat i) = q) [0..19]"

definition waiter_slot :: "procs \<Rightarrow> int \<Rightarrow> int \<Rightarrow> int option" where
  "waiter_slot s p q = List.find (\<lambda>i. wr_pid (waiters (blk s p) ! nat i) = q) [0..4]"

lemma find_upto_Some:
  assumes "List.find P [0..m] = Some i"
  shows "0 \<le> i \<and> i \<le> m \<and> P i \<and> (\<forall>j. 0 \<le> j \<and> j < i \<longrightarrow> \<not> P j)"
proof -
  obtain k where k: "k < length [0..m]" "P ([0..m] ! k)" "i = [0..m] ! k"
    "\<forall>j < k. \<not> P ([0..m] ! j)"
    using assms by (auto simp: find_Some_iff)
  then have i: "i = int k" by simp
  have "\<not> P j" if "0 \<le> j" "j < i" for j
  proof -
    have "nat j < k" "[0..m] ! nat j = j" using that i k(1) by auto
    then show ?thesis using k(4) by metis
  qed
  then show ?thesis using k i by auto
qed

lemma find_upto_None: "List.find P [0..m] = None \<longleftrightarrow> (\<forall>i. 0 \<le> i \<and> i \<le> m \<longrightarrow> \<not> P i)"
  by (auto simp: find_None_iff)

lemma get_waiting_spec:
  assumes "table_wf s" "valid_pid p"
  shows "get_waiting s p q = Some (map_option (\<lambda>i. (process p, i)) (wait_slot s p q))"
proof -
  have "length (waiting (blk s p)) = 20" using wf_blk [OF assms] by (simp add: pcb_wf_def)
  then have "find_first (\<lambda>i. do { b \<leftarrow> pcb_at s (process p); w \<leftarrow> rd (waiting b) i; Some (w_pid w = q) })
      [0..19] = Some (wait_slot s p q)"
    unfolding wait_slot_def by (intro find_first_find) (simp add: c_simps assms)
  then show ?thesis by (simp add: get_waiting_def MAX_WAITING_def)
qed

definition set_result :: "procs \<Rightarrow> int \<Rightarrow> int \<Rightarrow> waiting_t \<Rightarrow> procs" where
  "set_result s p i w = upd s p ((blk s p)\<lparr>waiting := (waiting (blk s p))[nat i := w]\<rparr>)"

lemma mod_waiting_spec:
  assumes "table_wf s" "valid_pid p" "0 \<le> i" "i \<le> 19"
  shows "mod_waiting s (process p, i) f = Some (set_result s p i (f (waiting (blk s p) ! nat i)))"
proof -
  have "length (waiting (blk s p)) = 20" using wf_blk [OF assms(1,2)] by (simp add: pcb_wf_def)
  then show ?thesis using assms by (simp add: mod_waiting_def set_result_def c_simps)
qed

lemma set_waiter_spec:
  assumes "table_wf s" "valid_pid p" "0 \<le> i" "i \<le> 4"
  shows "set_waiter s p i w =
    Some (upd s p ((blk s p)\<lparr>waiters := (waiters (blk s p))[nat i := w]\<rparr>))"
proof -
  have "length (waiters (blk s p)) = 5" using wf_blk [OF assms(1,2)] by (simp add: pcb_wf_def)
  then show ?thesis using assms by (simp add: set_waiter_def c_simps)
qed

lemma pcb_wf_waiting [wf_intros]:
  "pcb_wf p b \<Longrightarrow> pcb_wf p (b\<lparr>waiting := (waiting b)[i := w]\<rparr>)"
  by (simp add: pcb_wf_def)

lemma pcb_wf_waiters [wf_intros]:
  "pcb_wf p b \<Longrightarrow> 0 \<le> wr_pid w \<Longrightarrow> wr_pid w \<le> 30 \<Longrightarrow> pcb_wf p (b\<lparr>waiters := (waiters b)[i := w]\<rparr>)"
  using set_update_subset_insert [of "waiters b" i w] by (auto simp: pcb_wf_def)

lemma set_result_wf [wf_intros]:
  "table_wf s \<Longrightarrow> valid_pid p \<Longrightarrow> table_wf (set_result s p i w)"
  unfolding set_result_def by (intro wf_intros wf_blk) auto

text \<open>Everything of the table but the wait lists.\<close>

definition same_frame :: "procs \<Rightarrow> procs \<Rightarrow> bool" where
  "same_frame s t \<longleftrightarrow> current t = current s \<and> BURSTS t = BURSTS s \<and> sps t = sps s \<and> tos_P1 t = tos_P1 s \<and>
     (\<forall>q. valid_pid q \<longrightarrow> ppid (blk t q) = ppid (blk s q) \<and> ctx (blk t q) = ctx (blk s q) \<and>
        prio (blk t q) = prio (blk s q) \<and> shared (blk t q) = shared (blk s q) \<and>
        fd_table (blk t q) = fd_table (blk s q))"

lemma same_frame_refl [simp]: "same_frame s s"
  by (simp add: same_frame_def)

lemma same_frame_trans: "same_frame s t \<Longrightarrow> same_frame t u \<Longrightarrow> same_frame s u"
  by (simp add: same_frame_def)

lemma same_frame_active: "same_frame s t \<Longrightarrow> valid_pid q \<Longrightarrow> active t q = active s q"
  by (simp add: same_frame_def active_def)

lemma same_frame_procs_wf: "same_frame s t \<Longrightarrow> procs_wf s \<Longrightarrow> table_wf t \<Longrightarrow> procs_wf t"
  by (simp add: same_frame_def procs_wf_def)

lemma same_frame_cur: "same_frame s t \<Longrightarrow> cur t = cur s"
  by (simp add: same_frame_def cur_def)

lemma same_frame_lists:
  assumes "table_wf s" "valid_pid p"
  shows "same_frame s (upd s p ((blk s p)\<lparr>waiting := ws\<rparr>))"
    "same_frame s (upd s p ((blk s p)\<lparr>waiters := vs\<rparr>))"
  using assms by (auto simp: same_frame_def c_simps)

lemma set_result_frame: "table_wf s \<Longrightarrow> valid_pid p \<Longrightarrow> same_frame s (set_result s p i w)"
  unfolding set_result_def by (rule same_frame_lists)

lemma set_result_blk:
  assumes "table_wf s" "valid_pid p" "valid_pid q"
  shows "blk (set_result s p i w) q =
    (if q = p then (blk s p)\<lparr>waiting := (waiting (blk s p))[nat i := w]\<rparr> else blk s q)"
  using assms by (simp add: set_result_def c_simps)

lemma set_waiting_spec:
  assumes "table_wf s" "valid_pid p" "valid_pid q"
  shows "set_waiting s p q = Some
    (if \<not> active s q then (None, s)
     else case waiter_slot s q 0 of
       None \<Rightarrow> (None, s)
     | Some i \<Rightarrow>
         let s1 = upd s q ((blk s q)\<lparr>waiters := (waiters (blk s q))[nat i := \<lparr>wr_pid = p\<rparr>]\<rparr>)
         in case wait_slot s p 0 of
              None \<Rightarrow> (None, s1)
            | Some j \<Rightarrow> (Some (process p, j), set_result s1 p j \<lparr>w_pid = q, w_result = - 1\<rparr>))"
proof -
  have len: "length (waiters (blk s q)) = 5"
    using wf_blk [OF assms(1,3)] by (simp add: pcb_wf_def)
  have f1: "find_first (\<lambda>i. do { w \<leftarrow> rd (waiters (blk s q)) i; Some (wr_pid w = 0) })
      [0..4] = Some (waiter_slot s q 0)"
    unfolding waiter_slot_def using len by (intro find_first_find) (simp add: c_simps assms)
  have rest: "find_first (\<lambda>i. do { b \<leftarrow> pcb_at s1 (process p); w \<leftarrow> rd (waiting b) i; Some (w_pid w = 0) })
      [0..19] = Some (wait_slot s p 0)" (is ?f)
    and w1: "set_waiter s q i \<lparr>wr_pid = p\<rparr> = Some s1" (is ?w)
    and wf1: "table_wf s1"
    if s1: "s1 = upd s q ((blk s q)\<lparr>waiters := (waiters (blk s q))[nat i := \<lparr>wr_pid = p\<rparr>]\<rparr>)"
      and i: "waiter_slot s q 0 = Some i" for i s1
  proof -
    show wf1: "table_wf s1"
      unfolding s1 using assms by (intro wf_intros wf_blk) auto
    have "waiting (blk s1 p) = waiting (blk s p)"
      unfolding s1 using assms by (auto simp: c_simps)
    moreover have "length (waiting (blk s p)) = 20"
      using wf_blk [OF assms(1,2)] by (simp add: pcb_wf_def)
    ultimately show ?f
      unfolding wait_slot_def using wf1 by (intro find_first_find) (simp add: c_simps assms)
    have "0 \<le> i \<and> i \<le> 4" using i find_upto_Some unfolding waiter_slot_def by blast
    then show ?w unfolding s1 using assms by (simp add: set_waiter_spec)
  qed
  show ?thesis
  proof (cases "active s q")
    case False
    then show ?thesis by (simp add: set_waiting_def c_simps assms)
  next
    case True
    show ?thesis
    proof (cases "waiter_slot s q 0")
      case None
      then show ?thesis using True by (simp add: set_waiting_def c_simps assms f1 MAX_WAITERS_def)
    next
      case (Some i)
      show ?thesis
      proof (cases "wait_slot s p 0")
        case None
        then show ?thesis using True Some
          by (simp add: set_waiting_def c_simps assms f1 MAX_WAITERS_def MAX_WAITING_def
              w1 [OF refl Some] rest [OF refl Some] Let_def)
      next
        case (Some j)
        then have j: "0 \<le> j" "j \<le> 19" using find_upto_Some unfolding wait_slot_def by blast+
        show ?thesis using True \<open>waiter_slot s q 0 = Some i\<close> Some
          by (simp add: set_waiting_def c_simps assms f1 MAX_WAITERS_def MAX_WAITING_def
              w1 [OF refl \<open>waiter_slot s q 0 = Some i\<close>] rest [OF refl \<open>waiter_slot s q 0 = Some i\<close>]
              mod_waiting_spec [OF wf1 [OF refl \<open>waiter_slot s q 0 = Some i\<close>] assms(2) j] Let_def)
      qed
    qed
  qed
qed

subsection \<open>Delivering an exit status\<close>

text \<open>A waiter in slot \<open>j\<close> of \<open>p\<close> is registered when its own wait list names \<open>p\<close>.\<close>

definition registered :: "procs \<Rightarrow> int \<Rightarrow> nat \<Rightarrow> bool" where
  "registered s p j \<longleftrightarrow> (let w = wr_pid (waiters (blk s p) ! j) in w = 0 \<or> wait_slot s w p \<noteq> None)"

text \<open>The table after the first \<open>n\<close> waiters of \<open>p\<close> have been told the status \<open>r\<close>.\<close>

definition told :: "procs \<Rightarrow> int \<Rightarrow> int \<Rightarrow> nat \<Rightarrow> procs \<Rightarrow> bool" where
  "told s p r n t \<longleftrightarrow> table_wf t \<and> same_frame s t \<and>
     (\<forall>q. valid_pid q \<longrightarrow> map w_pid (waiting (blk t q)) = map w_pid (waiting (blk s q))) \<and>
     (\<forall>q. valid_pid q \<longrightarrow> (\<forall>i < 20. w_pid (waiting (blk s q) ! i) \<noteq> p \<longrightarrow>
        waiting (blk t q) ! i = waiting (blk s q) ! i)) \<and>
     (\<forall>q. valid_pid q \<and> q \<noteq> p \<longrightarrow> waiters (blk t q) = waiters (blk s q)) \<and>
     waiters (blk t p) = replicate n \<lparr>wr_pid = 0\<rparr> @ drop n (waiters (blk s p)) \<and>
     (\<forall>j < n. \<forall>k. wr_pid (waiters (blk s p) ! j) \<noteq> 0 \<longrightarrow>
        wait_slot s (wr_pid (waiters (blk s p) ! j)) p = Some k \<longrightarrow>
        w_result (waiting (blk t (wr_pid (waiters (blk s p) ! j))) ! nat k) = r)"

definition tell :: "int \<Rightarrow> int \<Rightarrow> int \<Rightarrow> procs \<Rightarrow> procs option" where
  "tell p r i t = do {
     b \<leftarrow> pcb_at t (process p);
     w \<leftarrow> rd (waiters b) i;
     if wr_pid w \<noteq> 0 then do {
       slot \<leftarrow> get_waiting t (wr_pid w) p;
       a \<leftarrow> slot;
       t \<leftarrow> mod_waiting t a (\<lambda>w. w\<lparr>w_result := r\<rparr>);
       set_waiter t p i (w\<lparr>wr_pid := 0\<rparr>)
     } else Some t
   }"

lemma update_waiters_tell: "update_waiters s p r = foreach (tell p r) [0..4] s"
  by (simp add: update_waiters_def tell_def [abs_def] MAX_WAITERS_def)

lemma wait_slot_cong:
  assumes "map w_pid (waiting (blk t q)) = map w_pid (waiting (blk s q))"
    and "length (waiting (blk s q)) = 20"
  shows "wait_slot t q p = wait_slot s q p"
proof -
  have len: "length (waiting (blk t q)) = 20" using assms by (metis length_map)
  have "w_pid (waiting (blk t q) ! nat i) = w_pid (waiting (blk s q) ! nat i)" if "0 \<le> i" "i \<le> 19" for i
  proof -
    have "map w_pid (waiting (blk t q)) ! nat i = map w_pid (waiting (blk s q)) ! nat i"
      using assms(1) by simp
    moreover have "nat i < 20" using that by simp
    ultimately show ?thesis using len assms(2) by simp
  qed
  then show ?thesis unfolding wait_slot_def by (intro find_cong) auto
qed

lemma waiter_entry:
  assumes "table_wf s" "valid_pid p" "n < 5"
  shows "length (waiters (blk s p)) = 5" "0 \<le> wr_pid (waiters (blk s p) ! n)"
    "wr_pid (waiters (blk s p) ! n) \<le> 30"
  using wf_blk [OF assms(1,2)] assms(3) by (auto simp: pcb_wf_def)

lemma waiter_cleared: "(w :: waiter_t)\<lparr>wr_pid := 0\<rparr> = \<lparr>wr_pid = 0\<rparr>"
  by (cases w) simp

lemma tell_step:
  assumes s: "table_wf s" "valid_pid p" and n: "n < 5" and t: "told s p r n t"
  shows "tell p r (int n) t =
    (let w = wr_pid (waiters (blk s p) ! n) in
     if w = 0 then Some t
     else case wait_slot s w p of
       None \<Rightarrow> None
     | Some k \<Rightarrow>
         let t1 = set_result t w k ((waiting (blk t w) ! nat k)\<lparr>w_result := r\<rparr>)
         in Some (upd t1 p ((blk t1 p)\<lparr>waiters := (waiters (blk t1 p))[n := \<lparr>wr_pid = 0\<rparr>]\<rparr>)))"
proof -
  define w where "w = wr_pid (waiters (blk s p) ! n)"
  have tw: "table_wf t" using t by (simp add: told_def)
  have wt: "waiters (blk t p) ! n = waiters (blk s p) ! n" "length (waiters (blk t p)) = 5"
    using t waiter_entry [OF s n] n by (auto simp: told_def nth_append)
  have range: "0 \<le> w" "w \<le> 30" using waiter_entry [OF s n] by (simp_all add: w_def)
  have slot: "wait_slot t w p = wait_slot s w p" if "w \<noteq> 0"
  proof -
    have "valid_pid w" using range that by linarith
    then show ?thesis using t wf_blk [OF s(1)]
      by (intro wait_slot_cong) (auto simp: told_def pcb_wf_def)
  qed
  have rdw: "rd (waiters (blk t p)) (int n) = Some (waiters (blk s p) ! n)"
    using wt n by (simp add: c_simps)
  show ?thesis
  proof (cases "w = 0")
    case True
    then show ?thesis using s tw rdw by (simp add: tell_def c_simps w_def)
  next
    case False
    then have vw: "valid_pid w" using range by linarith
    show ?thesis
    proof (cases "wait_slot s w p")
      case None
      then show ?thesis using False s tw rdw slot vw
        by (simp add: tell_def c_simps w_def get_waiting_spec)
    next
      case (Some k)
      then have k: "0 \<le> k" "k \<le> 19" using find_upto_Some unfolding wait_slot_def by blast+
      let ?t = "set_result t w k ((waiting (blk t w) ! nat k)\<lparr>w_result := r\<rparr>)"
      have "table_wf ?t" using tw vw by (rule set_result_wf)
      then show ?thesis using False s tw rdw slot vw Some n
        by (simp add: tell_def c_simps w_def [symmetric] get_waiting_spec mod_waiting_spec [OF tw vw k]
            set_waiter_spec waiter_cleared Let_def)
    qed
  qed
qed

lemma told_skip:
  assumes s: "table_wf s" "valid_pid p" and n: "n < 5" and t: "told s p r n t"
    and w: "wr_pid (waiters (blk s p) ! n) = 0"
  shows "told s p r (Suc n) t"
proof -
  have "waiters (blk s p) ! n = \<lparr>wr_pid = 0\<rparr>" using w by (cases "waiters (blk s p) ! n") simp
  then have "drop n (waiters (blk s p)) = \<lparr>wr_pid = 0\<rparr> # drop (Suc n) (waiters (blk s p))"
    using waiter_entry(1) [OF s n] n by (metis Cons_nth_drop_Suc)
  then have "replicate n \<lparr>wr_pid = 0\<rparr> @ drop n (waiters (blk s p)) =
      replicate (Suc n) \<lparr>wr_pid = 0\<rparr> @ drop (Suc n) (waiters (blk s p))"
    by (simp add: replicate_append_same)
  moreover have "j < Suc n \<longleftrightarrow> j < n \<or> j = n" for j by auto
  ultimately show ?thesis using t w unfolding told_def by auto
qed

lemma told_next:
  assumes s: "table_wf s" "valid_pid p" and n: "n < 5" and t: "told s p r n t"
    and w: "w = wr_pid (waiters (blk s p) ! n)" "w \<noteq> 0" and k: "wait_slot s w p = Some k"
    and t1: "t1 = set_result t w k ((waiting (blk t w) ! nat k)\<lparr>w_result := r\<rparr>)"
    and u: "u = upd t1 p ((blk t1 p)\<lparr>waiters := (waiters (blk t1 p))[n := \<lparr>wr_pid = 0\<rparr>]\<rparr>)"
  shows "told s p r (Suc n) u"
proof -
  have tw: "table_wf t" and fr: "same_frame s t" using t by (simp_all add: told_def)
  have vw: "valid_pid w" using waiter_entry [OF s n] w by auto
  have kr: "0 \<le> k" "k \<le> 19" "w_pid (waiting (blk s w) ! nat k) = p"
    using k find_upto_Some unfolding wait_slot_def by blast+
  have t1w: "table_wf t1" unfolding t1 using tw vw by (rule set_result_wf)
  have uw: "table_wf u" unfolding u using t1w s(2) by (intro wf_intros wf_blk) auto
  have wt1: "waiting (blk u q) = waiting (blk t1 q)" if "valid_pid q" for q
    unfolding u using t1w s(2) that by (simp add: c_simps)
  have len: "length (waiting (blk t q)) = 20" if "valid_pid q" for q
    using wf_blk [OF tw that] by (simp add: pcb_wf_def)
  have wt: "waiting (blk t1 q) = (if q = w then
      (waiting (blk t w))[nat k := (waiting (blk t w) ! nat k)\<lparr>w_result := r\<rparr>] else waiting (blk t q))"
    if "valid_pid q" for q
    unfolding t1 using tw vw that by (simp add: set_result_blk)
  have ws: "waiters (blk t1 q) = waiters (blk t q)" if "valid_pid q" for q
    unfolding t1 using tw vw that by (simp add: set_result_blk)
  have wsu: "waiters (blk u q) =
      (if q = p then (waiters (blk t p))[n := \<lparr>wr_pid = 0\<rparr>] else waiters (blk t q))"
    if "valid_pid q" for q
    unfolding u using t1w s(2) that ws by (simp add: c_simps)
  have wtp: "waiters (blk t p) = replicate n \<lparr>wr_pid = 0\<rparr> @ drop n (waiters (blk s p))"
    using t by (simp add: told_def)
  have dr: "drop n (waiters (blk s p)) = (waiters (blk s p) ! n) # drop (Suc n) (waiters (blk s p))"
    using waiter_entry(1) [OF s n] n by (simp add: Cons_nth_drop_Suc)
  have c1: "map w_pid (waiting (blk u q)) = map w_pid (waiting (blk s q))" if "valid_pid q" for q
  proof -
    have "map w_pid (waiting (blk t q)) = map w_pid (waiting (blk s q))"
      using t that by (simp add: told_def)
    moreover have "map w_pid (waiting (blk t1 q)) = map w_pid (waiting (blk t q))"
      using wt [OF that] len [OF vw] kr by (auto simp: map_update list_update_same_conv)
    ultimately show ?thesis using wt1 [OF that] by simp
  qed
  have c2: "waiting (blk u q) ! i = waiting (blk s q) ! i"
    if "valid_pid q" "i < 20" "w_pid (waiting (blk s q) ! i) \<noteq> p" for q i
  proof -
    have "waiting (blk t q) ! i = waiting (blk s q) ! i" using t that by (simp add: told_def)
    moreover have "q = w \<Longrightarrow> i \<noteq> nat k" using that kr by auto
    ultimately show ?thesis using wt [OF that(1)] wt1 [OF that(1)] by (auto simp: nth_list_update)
  qed
  have c4: "waiters (blk u p) = replicate (Suc n) \<lparr>wr_pid = 0\<rparr> @ drop (Suc n) (waiters (blk s p))"
    using wsu [OF s(2)] wtp dr by (simp add: list_update_append replicate_append_same)
  have c5: "w_result (waiting (blk u v) ! nat m) = r"
    if "j < Suc n" "v = wr_pid (waiters (blk s p) ! j)" "v \<noteq> 0" "wait_slot s v p = Some m" for j v m
  proof -
    have jn: "j < 5" "valid_pid v" "0 \<le> m" "m \<le> 19"
      using that n waiter_entry(2,3) [OF s, of j] find_upto_Some [of _ 19 m]
      unfolding wait_slot_def by auto
    have "w_result (waiting (blk t v) ! nat m) = r" if "v \<noteq> w \<or> m \<noteq> k"
    proof -
      have "j < n" using that \<open>j < Suc n\<close> \<open>v = _\<close> w k \<open>wait_slot s v p = Some m\<close>
        by (metis less_antisym option.inject)
      then show ?thesis using t \<open>v = _\<close> \<open>v \<noteq> 0\<close> \<open>wait_slot s v p = Some m\<close>
        unfolding told_def by blast
    qed
    then show ?thesis using wt [OF jn(2)] wt1 [OF jn(2)] jn len [OF vw] kr
      by (cases "v = w \<and> m = k") (auto simp: nth_list_update)
  qed
  have "same_frame t t1" unfolding t1 using tw vw by (rule set_result_frame)
  moreover have "same_frame t1 u" unfolding u using t1w s(2) by (rule same_frame_lists)
  ultimately have "same_frame s u" using fr by (blast intro: same_frame_trans)
  moreover have "\<forall>q. valid_pid q \<and> q \<noteq> p \<longrightarrow> waiters (blk u q) = waiters (blk s q)"
    using wsu t by (simp add: told_def)
  ultimately show ?thesis
    using uw c1 c2 c4 c5 unfolding told_def by blast
qed

lemma told_start: "table_wf s \<Longrightarrow> told s p r 0 s"
  by (simp add: told_def)

lemma tell_run:
  assumes s: "table_wf s" "valid_pid p" and "n \<le> 5" and "\<forall>j < n. registered s p j"
  shows "\<exists>t. foreach (tell p r) [0..int n - 1] s = Some t \<and> told s p r n t"
  using assms(3,4)
proof (induction n)
  case 0
  then show ?case using told_start [OF s(1)] by simp
next
  case (Suc n)
  then obtain t where t: "foreach (tell p r) [0..int n - 1] s = Some t" "told s p r n t" by auto
  have n: "n < 5" and reg: "registered s p n" using Suc.prems by auto
  have up: "[0..int n] = [0..int n - 1] @ [int n]"
    using upto_rec2 [of 0 "int n"] by simp
  have "\<exists>u. tell p r (int n) t = Some u \<and> told s p r (Suc n) u"
    using tell_step [OF s n t(2)] told_skip [OF s n t(2)] told_next [OF s n t(2) refl _ _ refl refl] reg
    by (auto simp: registered_def Let_def)
  then show ?case using t(1) by (auto simp: up foreach_append)
qed

lemma update_waiters_ok:
  assumes "table_wf s" "valid_pid p" "\<forall>j < 5. registered s p j"
  shows "\<exists>t. update_waiters s p r = Some t \<and> told s p r 5 t"
  using tell_run [of s p 5 r] assms by (simp add: update_waiters_tell)

lemma update_waiters_null:
  assumes s: "table_wf s" "valid_pid p" and j: "j < 5" "\<not> registered s p j"
  shows "update_waiters s p r = None"
proof -
  obtain i where i: "\<not> registered s p i" "\<forall>k < i. registered s p k"
    using j(2) exists_least_iff [of "\<lambda>i. \<not> registered s p i"] by auto
  then have i5: "i < 5" using j by (metis linorder_not_less order.strict_trans2 not_less_iff_gr_or_eq)
  obtain t where t: "foreach (tell p r) [0..int i - 1] s = Some t" "told s p r i t"
    using tell_run [OF s, of i r] i i5 by auto
  have "tell p r (int i) t = None"
    using tell_step [OF s i5 t(2)] i(1) by (auto simp: registered_def Let_def)
  moreover have "[0..4] = [0..int i - 1] @ int i # [int i + 1..4]"
    using i5 upto_split1 [of 0 "int i" 4] upto_rec1 [of "int i" 4] upto_split2 [of 0 "int i" 4] upto_rec2 [of 0 "int i"] by simp
  ultimately show ?thesis using t(1) by (simp add: update_waiters_tell foreach_append)
qed

end
