(* ===== verification/Proc_Files.thy ===== *)
theory Proc_Files
  imports Processes
begin

text \<open>
  The table of open file descriptors each process keeps
  (\<open>add_process_fd\<close>, \<open>remove_process_fd\<close> and \<open>proc_fd_open\<close> of
  \<open>src/question/kernel/processes.c\<close>), read as the list of its first \<open>count\<close> entries.
\<close>

definition open_fds :: "procs \<Rightarrow> int \<Rightarrow> int list" where
  "open_fds s p = take (nat (fd_count (fd_table (blk s p)))) (fd_open (fd_table (blk s p)))"

text \<open>What the overlapping move of \<open>remove_process_fd\<close> leaves: everything up to and including
  the closed entry stays, the entries after it are shifted up, the last one drops out.\<close>

definition shifted_out :: "'a list \<Rightarrow> nat \<Rightarrow> 'a list" where
  "shifted_out xs k = take (length xs - 1) (take (Suc k) xs @ drop k xs)"

lemma shifted_move:
  assumes "k < n" "n \<le> length l"
  shows "take (n - 1) (take (Suc k) l @ take (n - 1 - k) (drop k l) @ drop n l)
    = shifted_out (take n l) k"
proof (rule nth_equalityI)
  fix i assume "i < length (take (n - 1) (take (Suc k) l @ take (n - 1 - k) (drop k l) @ drop n l))"
  then have "i < n - 1" by (simp only: length_take min_less_iff_conj)
  then show "take (n - 1) (take (Suc k) l @ take (n - 1 - k) (drop k l) @ drop n l) ! i
      = shifted_out (take n l) k ! i"
    using assms by (auto simp: shifted_out_def nth_append min_absorb2 min_absorb1)
qed (use assms in \<open>simp add: shifted_out_def\<close>)

lemma fd_table_wf:
  assumes "table_wf s" "valid_pid p"
  shows "length (fd_open (fd_table (blk s p))) = 10" "0 \<le> fd_count (fd_table (blk s p))"
    "fd_count (fd_table (blk s p)) \<le> 10" "int (length (open_fds s p)) = fd_count (fd_table (blk s p))"
  using wf_blk [OF assms] by (auto simp: pcb_wf_def open_fds_def min_def)

lemma pcb_wf_fd_table:
  "pcb_wf p b \<Longrightarrow> 0 \<le> n \<Longrightarrow> n \<le> 10 \<Longrightarrow> length fds = 10 \<Longrightarrow>
    pcb_wf p (b\<lparr>fd_table := \<lparr>fd_count = n, fd_open = fds\<rparr>\<rparr>)"
  by (simp add: pcb_wf_def)

lemma find_fd:
  assumes "table_wf s" "valid_pid p"
  shows "find_first (\<lambda>i. do { x \<leftarrow> rd (fd_open (fd_table (blk s p))) i; Some (x = fd) })
      [0..fd_count (fd_table (blk s p)) - 1]
    = Some (List.find (\<lambda>i. open_fds s p ! nat i = fd) [0..int (length (open_fds s p)) - 1])"
proof -
  note t = fd_table_wf [OF assms]
  have "find_first (\<lambda>i. do { x \<leftarrow> rd (fd_open (fd_table (blk s p))) i; Some (x = fd) })
      [0..fd_count (fd_table (blk s p)) - 1]
    = Some (List.find (\<lambda>i. open_fds s p ! nat i = fd) [0..fd_count (fd_table (blk s p)) - 1])"
    using t(1-3) by (intro find_first_find) (simp add: c_simps open_fds_def)
  then show ?thesis by (simp only: t(4))
qed

lemma find_fd_cases:
  "List.find (\<lambda>i. xs ! nat i = x) [0..int (length xs) - 1] =
    (if x \<in> set xs then Some (int (LEAST k. k < length xs \<and> xs ! k = x)) else None)"
proof (cases "x \<in> set xs")
  case True
  let ?P = "\<lambda>k. k < length xs \<and> xs ! k = x"
  let ?k = "LEAST k. ?P k"
  have "\<exists>k. ?P k" using True by (auto simp: in_set_conv_nth)
  then have k: "?P ?k" by (rule LeastI_ex)
  have least: "\<not> ?P j" if "j < ?k" for j using that by (rule not_less_Least)
  have "\<exists>i < length [0..int (length xs) - 1]. xs ! nat ([0..int (length xs) - 1] ! i) = x \<and>
      int ?k = [0..int (length xs) - 1] ! i \<and> (\<forall>j < i. xs ! nat ([0..int (length xs) - 1] ! j) \<noteq> x)"
  proof (intro exI [of _ ?k] conjI allI impI)
    fix j assume "j < ?k"
    then show "xs ! nat ([0..int (length xs) - 1] ! j) \<noteq> x" using least [of j] k by simp
  qed (use k in auto)
  then show ?thesis using True by (simp add: find_Some_iff)
next
  case False
  then show ?thesis by (auto simp: find_None_iff in_set_conv_nth)
qed

lemma proc_fd_open_spec:
  assumes "table_wf s" "valid_pid p"
  shows "proc_fd_open s p fd = Some (if fd \<in> set (open_fds s p) then 1 else - 1)"
  using assms find_fd [OF assms, of fd]
  by (simp add: proc_fd_open_def c_simps find_fd_cases Let_def)

lemma add_process_fd_spec:
  assumes "table_wf s" "valid_pid p"
  shows "\<exists>r s'. add_process_fd s p fd = Some (r, s') \<and> table_wf s' \<and>
    (if length (open_fds s p) < 10
     then r = 0 \<and> open_fds s' p = open_fds s p @ [fd] else r = - 1 \<and> s' = s) \<and>
    (\<forall>q. valid_pid q \<and> q \<noteq> p \<longrightarrow> blk s' q = blk s q)"
proof (cases "length (open_fds s p) < 10")
  case True
  note t = fd_table_wf [OF assms]
  let ?n = "fd_count (fd_table (blk s p))" and ?l = "fd_open (fd_table (blk s p))"
  let ?s = "upd s p ((blk s p)\<lparr>fd_table := \<lparr>fd_count = ?n + 1, fd_open = ?l[nat ?n := fd]\<rparr>\<rparr>)"
  have n: "0 \<le> ?n" "?n < 10" using True t by linarith+
  have "add_process_fd s p fd = Some (0, ?s)"
    using n t assms by (simp add: add_process_fd_def c_simps MAX_OPEN_FILES_def)
  moreover have "table_wf ?s"
    using n t assms by (intro table_wf_upd pcb_wf_fd_table wf_blk) auto
  moreover have "open_fds ?s p = open_fds s p @ [fd]"
    using n t(1) assms by (simp add: open_fds_def c_simps nat_add_distrib take_Suc_conv_app_nth)
  ultimately show ?thesis using True assms by (auto simp: c_simps)
next
  case False
  then have "fd_count (fd_table (blk s p)) = 10" using fd_table_wf [OF assms] by linarith
  then show ?thesis using False assms by (simp add: add_process_fd_def c_simps MAX_OPEN_FILES_def)
qed

lemma remove_process_fd_spec:
  assumes "table_wf s" "valid_pid p"
  shows "\<exists>r s'. remove_process_fd s p fd = Some (r, s') \<and> table_wf s' \<and>
    (if fd \<in> set (open_fds s p)
     then r = 0 \<and> open_fds s' p = shifted_out (open_fds s p)
       (LEAST k. k < length (open_fds s p) \<and> open_fds s p ! k = fd)
     else r = - 1 \<and> s' = s) \<and>
    (\<forall>q. valid_pid q \<and> q \<noteq> p \<longrightarrow> blk s' q = blk s q)"
proof (cases "fd \<in> set (open_fds s p)")
  case True
  note t = fd_table_wf [OF assms]
  let ?n = "fd_count (fd_table (blk s p))" and ?l = "fd_open (fd_table (blk s p))"
  define k where "k = (LEAST k. k < length (open_fds s p) \<and> open_fds s p ! k = fd)"
  have k: "int k < ?n"
    using LeastI_ex [of "\<lambda>k. k < length (open_fds s p) \<and> open_fds s p ! k = fd"] True t(4)
    by (auto simp: in_set_conv_nth k_def)
  let ?m = "take (Suc k) ?l @ take (nat (?n - 1 - int k)) (drop k ?l) @ drop (nat ?n) ?l"
  let ?s = "upd s p ((blk s p)\<lparr>fd_table := \<lparr>fd_count = ?n - 1, fd_open = ?m\<rparr>\<rparr>)"
  have mv: "memmove_elems ?l (int k + 1) (int k) (?n - 1 - int k) = Some ?m"
    using k t by (simp add: memmove_elems_def nat_add_distrib)
  have "remove_process_fd s p fd = Some (0, ?s)"
    using True assms find_fd [OF assms, of fd] mv
    by (simp add: remove_process_fd_def c_simps find_fd_cases k_def [symmetric] Let_def)
  moreover have "table_wf ?s"
  proof -
    have "length ?m = 10" using k t by simp
    then show ?thesis using k t(3) assms by (intro table_wf_upd pcb_wf_fd_table wf_blk) auto
  qed
  moreover have "open_fds ?s p = shifted_out (open_fds s p) k"
  proof -
    have "nat (?n - 1) = nat ?n - 1" "nat (?n - 1 - int k) = nat ?n - 1 - k" by linarith+
    then have "open_fds ?s p = take (nat ?n - 1)
        (take (Suc k) ?l @ take (nat ?n - 1 - k) (drop k ?l) @ drop (nat ?n) ?l)"
      using assms by (simp add: open_fds_def c_simps del: take_append drop_append)
    then show ?thesis using shifted_move [of k "nat ?n" ?l] k t by (simp add: open_fds_def)
  qed
  ultimately show ?thesis using True assms by (auto simp: c_simps k_def)
next
  case False
  then show ?thesis using assms find_fd [OF assms, of fd]
    by (simp add: remove_process_fd_def c_simps find_fd_cases Let_def)
qed

end
