(* ===== verification/Serial.thy ===== *)
theory Serial
  imports Prelude
begin

text \<open>
  The PL011 serial driver, \<open>src/question/device/PL011.c\<close>.

  A UART is the list of bytes its receive FIFO holds (\<open>rx\<close>) and the state of whatever is
  connected to the other end of the line (\<open>peer\<close>); \<open>react\<close> says how that peer takes a
  transmitted byte and which bytes it sends back. A transmit never stays blocked, because
  the line drains the transmit FIFO; a receive from an empty FIFO blocks for ever, which
  is the outcome \<open>None\<close>. Every caller in the kernel passes \<open>f = true\<close> (blocking), so the
  flag is not a parameter here; \<open>Uart_Registers\<close> has both values, and the FIFOs.
\<close>

record 'p uart =
  rx :: "u8 list"
  peer :: 'p

type_synonym 'p react = "'p \<Rightarrow> u8 \<Rightarrow> 'p \<times> u8 list"

section \<open>Hexadecimal digits\<close>

definition xtoi :: "u8 \<Rightarrow> int" where
  "xtoi x =
     (if bstr ''0'' ! 0 \<le> x \<and> x \<le> bstr ''9'' ! 0 then 0 + (uint x - uint (bstr ''0'' ! 0))
      else if bstr ''a'' ! 0 \<le> x \<and> x \<le> bstr ''f'' ! 0 then 10 + (uint x - uint (bstr ''a'' ! 0))
      else if bstr ''A'' ! 0 \<le> x \<and> x \<le> bstr ''F'' ! 0 then 10 + (uint x - uint (bstr ''A'' ! 0))
      else - 1)"

definition itox :: "int \<Rightarrow> u8" where
  "itox x =
     (if 0 \<le> x \<and> x \<le> 9 then bstr ''0'' ! 0 + word_of_int (x - 0)
      else if 10 \<le> x \<and> x \<le> 15 then bstr ''A'' ! 0 + word_of_int (x - 10)
      else - 1)"

section \<open>Bytes on the line\<close>

definition PL011_can_getc :: "'p uart \<Rightarrow> bool" where
  "PL011_can_getc d \<longleftrightarrow> rx d \<noteq> []"

definition PL011_putc :: "'p react \<Rightarrow> 'p uart \<Rightarrow> u8 \<Rightarrow> 'p uart" where
  "PL011_putc react d x =
     (let (p, out) = react (peer d) x in d\<lparr>rx := rx d @ out, peer := p\<rparr>)"

definition PL011_getc :: "'p uart \<Rightarrow> (u8 \<times> 'p uart) option" where
  "PL011_getc d = (case rx d of [] \<Rightarrow> None | r # rs \<Rightarrow> Some (r, d\<lparr>rx := rs\<rparr>))"

definition PL011_puth :: "'p react \<Rightarrow> 'p uart \<Rightarrow> u8 \<Rightarrow> 'p uart" where
  "PL011_puth react d x =
     PL011_putc react
       (PL011_putc react d (itox (uint (drop_bit 4 x AND 0xF))))
       (itox (uint (drop_bit 0 x AND 0xF)))"

definition PL011_geth :: "'p uart \<Rightarrow> (u8 \<times> 'p uart) option" where
  "PL011_geth d = do {
     (c1, d) \<leftarrow> PL011_getc d;
     (c2, d) \<leftarrow> PL011_getc d;
     Some (push_bit 4 (word_of_int (xtoi c1)) OR push_bit 0 (word_of_int (xtoi c2)), d)
   }"

section \<open>Hexadecimal round trips\<close>

lemma xtoi_itox: "0 \<le> x \<Longrightarrow> x \<le> 15 \<Longrightarrow> xtoi (itox x) = x"
proof -
  assume "0 \<le> x" "x \<le> 15"
  then have "x = 0 \<or> x = 1 \<or> x = 2 \<or> x = 3 \<or> x = 4 \<or> x = 5 \<or> x = 6 \<or> x = 7 \<or>
      x = 8 \<or> x = 9 \<or> x = 10 \<or> x = 11 \<or> x = 12 \<or> x = 13 \<or> x = 14 \<or> x = 15"
    by presburger
  then show ?thesis
    by (elim disjE) (simp_all add: xtoi_def itox_def bstr_def)
qed

definition hex :: "u8 \<Rightarrow> u8 list" where
  "hex x = [itox (uint x div 16), itox (uint x mod 16)]"

lemma low_nibble: "uint ((w::u8) AND 0xF) = uint w mod 16"
proof -
  have "w AND 0xF = take_bit 4 w"
    by (simp add: take_bit_eq_mask mask_eq_exp_minus_1)
  then show ?thesis by (simp add: take_bit_eq_mod uint_mod_distrib)
qed

lemma high_nibble: "uint (drop_bit 4 (x::u8)) = uint x div 16"
  by (simp add: drop_bit_eq_div uint_div_distrib)

lemma uint_u8: "0 \<le> uint (x::u8)" "uint x < 256" "0 \<le> uint x div 16" "uint x div 16 \<le> 15"
  using uint_lt2p [of x] by (auto simp: pos_imp_zdiv_nonneg_iff)

lemma nibbles: "uint (drop_bit 4 (x::u8) AND 0xF) = uint x div 16"
  "uint (drop_bit 0 (x::u8) AND 0xF) = uint x mod 16"
  using uint_u8 [of x] by (simp_all only: low_nibble high_nibble drop_bit_0 id_apply) simp

lemma PL011_puth_hex:
  "PL011_puth react d x = foldl (PL011_putc react) d (hex x)"
  by (simp only: PL011_puth_def hex_def nibbles foldl.simps)

definition byte_of_digits :: "u8 \<Rightarrow> u8 \<Rightarrow> u8" where
  "byte_of_digits c1 c2 = push_bit 4 (word_of_int (xtoi c1)) OR word_of_int (xtoi c2)"

lemma byte_of_nibbles:
  fixes x :: u8
  assumes "xtoi c1 = uint x div 16" "xtoi c2 = uint x mod 16"
  shows "byte_of_digits c1 c2 = x"
proof (rule bit_eqI)
  fix n
  have "uint x div 16 = drop_bit 4 (uint x)" "uint x mod 16 = take_bit 4 (uint x)"
    by (simp_all add: drop_bit_eq_div take_bit_eq_mod)
  then show "bit (byte_of_digits c1 c2) n \<longleftrightarrow> bit x n"
    using assms by (auto simp: byte_of_digits_def bit_or_iff bit_push_bit_iff bit_word_of_int_iff
        bit_drop_bit_eq bit_take_bit_iff bit_uint_iff dest: bit_imp_le_length)
qed

lemma byte_of_hex: "byte_of_digits (hex x ! 0) (hex x ! 1) = x"
proof (rule byte_of_nibbles)
  show "xtoi (hex x ! 0) = uint x div 16" "xtoi (hex x ! 1) = uint x mod 16"
    using uint_u8 [of x] by (simp_all add: hex_def xtoi_itox)
qed

lemma PL011_geth_digits:
  "rx d = c1 # c2 # cs \<Longrightarrow> PL011_geth d = Some (byte_of_digits c1 c2, d\<lparr>rx := cs\<rparr>)"
  by (simp add: PL011_geth_def PL011_getc_def byte_of_digits_def)

end
