(* ===== verification/Utilities.thy ===== *)
theory Utilities
  imports Serial
begin

text \<open>
  \<open>src/question/kernel/utilities.c\<close>: the kernel's messages on standard error and the decimal
  conversion they use. A terminal on a serial line is a UART whose peer keeps the bytes it
  is sent; what the user types is in the receive FIFO. A C string argument is the list of
  its bytes up to the NUL. Signed overflow in \<open>sitoa\<close> (\<open>n *= 10\<close>, \<open>-x\<close>) is undefined in C
  and is the outcome \<open>None\<close>; the digit-counting loop is a \<open>partial_function\<close>, and
  \<open>sitoa_end_power\<close> shows that it ends.
\<close>

type_synonym terminal = "u8 list uart"

definition tty :: "u8 list react" where
  "tty log x = (log @ [x], [])"

section \<open>Definitions\<close>

definition put_string :: "terminal \<Rightarrow> u8 list \<Rightarrow> terminal" where
  "put_string d msg = fold (\<lambda>x d. PL011_putc tty d x) msg d"

partial_function (option) sitoa_end :: "int \<Rightarrow> int \<Rightarrow> int \<Rightarrow> int option" where
  "sitoa_end t n p =
     (if t \<ge> n then (if is_i32 (n * 10) then sitoa_end t (n * 10) (p + 1) else None)
      else Some p)"

function sitoa_digits :: "u8 list \<Rightarrow> int \<Rightarrow> int \<Rightarrow> (u8 list \<times> int) option" where
  "sitoa_digits r p t = do {
     r \<leftarrow> wr r p (word_of_int (48 + cmod t 10));
     if cdiv t 10 \<noteq> 0 then sitoa_digits r (p - 1) (cdiv t 10) else Some (r, p - 1)
   }"
  by pat_completeness auto
termination
proof (relation "measure (\<lambda>(r, p, t). nat \<bar>t\<bar>)")
  fix t :: int assume "cdiv t 10 \<noteq> 0"
  then have "t \<noteq> 0" by (auto simp: cdiv_def)
  then have "\<bar>cdiv t 10\<bar> < \<bar>t\<bar>" by (simp add: cdiv_def abs_mult)
  then show "((r, p - 1, cdiv t 10), (r', p', t)) \<in> measure (\<lambda>(r, p, t). nat \<bar>t\<bar>)"
    for r r' :: "u8 list" and p p' :: int by simp
qed simp

definition sitoa :: "u8 list \<Rightarrow> int \<Rightarrow> u8 list option" where
  "sitoa r x = do {
     let p = (if x < 0 then 1 else 0);
     t \<leftarrow> (if x < 0 then (if is_i32 (- x) then Some (- x) else None) else Some x);
     p \<leftarrow> sitoa_end t 1 p;
     r \<leftarrow> wr r p 0;
     (r, p) \<leftarrow> sitoa_digits r (p - 1) t;
     if x < 0 then wr r p (of_char (CHR ''-'')) else Some r
   }"

definition cstring :: "u8 list \<Rightarrow> u8 list" where
  "cstring b = takeWhile (\<lambda>x. x \<noteq> 0) b"

text \<open>The function \<open>s\<close> of the source: the buffer after the call and the string it returns.\<close>

definition s_c :: "u8 list \<Rightarrow> int \<Rightarrow> (u8 list \<times> u8 list) option" where
  "s_c b x = do {
     b \<leftarrow> wr b 0 0;
     if x = 0 then Some (b, bstr ''0'')
     else do { b \<leftarrow> sitoa b x; Some (b, cstring b) }
   }"

section \<open>The output of a message\<close>

lemma put_string_peer: "put_string d msg = d\<lparr>peer := peer d @ msg\<rparr>"
  by (induction msg arbitrary: d) (simp_all add: put_string_def PL011_putc_def tty_def)

section \<open>Decimal notation\<close>

fun digits :: "nat \<Rightarrow> u8 list" where
  "digits n = (if n < 10 then [] else digits (n div 10)) @ [word_of_int (48 + int (n mod 10))]"

declare digits.simps [simp del]

definition decimal :: "int \<Rightarrow> u8 list" where
  "decimal x = (if x < 0 then [of_char (CHR ''-'')] else []) @ digits (nat \<bar>x\<bar>)"

fun digits_value :: "u8 list \<Rightarrow> nat \<Rightarrow> nat" where
  "digits_value [] acc = acc"
| "digits_value (d # ds) acc = digits_value ds (10 * acc + (unat d - 48))"

lemma digits_value_append: "digits_value (xs @ ys) acc = digits_value ys (digits_value xs acc)"
  by (induction xs arbitrary: acc) simp_all

lemma digit_unat: "n < 10 \<Longrightarrow> unat (48 + word_of_nat n :: u8) = 48 + n"
proof -
  assume "n < 10"
  then have "unat (word_of_nat (48 + n) :: u8) = 48 + n" unfolding unat_of_nat by simp
  then show ?thesis by simp
qed

lemma digits_value_digits: "digits_value (digits n) 0 = n"
proof (induction n rule: digits.induct)
  case (1 n)
  then show ?case
    by (simp add: digits.simps [of n] digits_value_append digit_unat)
qed

lemma digits_length: "length (digits n) \<le> k \<longleftrightarrow> n < 10 ^ k" if "1 \<le> k"
  using that
proof (induction n arbitrary: k rule: digits.induct)
  case (1 n)
  show ?case
  proof (cases "n < 10")
    case True
    have "(10::nat) ^ 1 \<le> 10 ^ k" using 1(2) by (intro power_increasing) simp_all
    then show ?thesis using True 1(2) by (simp add: digits.simps [of n])
  next
    case False
    show ?thesis
    proof (cases k)
      case (Suc m)
      show ?thesis
      proof (cases "m = 0")
        case True
        have "digits (n div 10) \<noteq> []" by (simp add: digits.simps [of "n div 10"])
        then show ?thesis using False Suc True by (simp add: digits.simps [of n])
      next
        case m: False
        have "n div 10 < 10 ^ m \<longleftrightarrow> n < 10 ^ Suc m"
          by (simp add: div_less_iff_less_mult mult.commute)
        then show ?thesis using False Suc m 1(1) [of m] by (simp add: digits.simps [of n])
      qed
    qed (use 1(2) in simp)
  qed
qed

lemma digits_nonzero: "x \<in> set (digits n) \<Longrightarrow> x \<noteq> 0"
proof (induction n rule: digits.induct)
  case (1 n)
  have "word_of_int (48 + int (n mod 10)) \<noteq> (0 :: u8)"
    using digit_unat [of "n mod 10"] by auto
  then show ?case using 1 by (auto simp: digits.simps [of n] split: if_splits)
qed

lemma sitoa_end_power:
  assumes "0 \<le> t" "t < 10 ^ 9"
  shows "j \<le> 9 \<Longrightarrow> \<exists>k \<ge> j. k \<le> 9 \<and> sitoa_end t (10 ^ j) p = Some (p + int (k - j)) \<and>
    t < 10 ^ k \<and> (j < k \<longrightarrow> 10 ^ (k - 1) \<le> t)"
proof (induction "9 - j" arbitrary: j p)
  case 0
  then have "j = 9" by simp
  then show ?case using assms by (intro exI [of _ 9]) (simp add: sitoa_end.simps)
next
  case (Suc d)
  show ?case
  proof (cases "t < 10 ^ j")
    case True
    then show ?thesis using Suc.prems by (intro exI [of _ j]) (simp add: sitoa_end.simps)
  next
    case False
    have j: "Suc j \<le> 9" "d = 9 - Suc j" using Suc.hyps(2) by simp_all
    have "(10::int) ^ Suc j \<le> 10 ^ 9" using j(1) by (intro power_increasing) simp_all
    moreover have "(0::int) \<le> 10 ^ j" by simp
    ultimately have "is_i32 (10 ^ j * 10 :: int)" by (simp del: zero_le_power)
    then have st: "sitoa_end t (10 ^ j) p = sitoa_end t (10 ^ Suc j) (p + 1)"
      using False by (subst sitoa_end.simps) (simp add: mult.commute)
    obtain k where k: "k \<ge> Suc j" "k \<le> 9" "sitoa_end t (10 ^ Suc j) (p + 1) = Some (p + 1 + int (k - Suc j))"
      "t < 10 ^ k" "Suc j < k \<longrightarrow> 10 ^ (k - 1) \<le> t"
      using Suc.hyps(1) [OF j(2) j(1)] by blast
    have "10 ^ (k - 1) \<le> t" using k(1,5) False by (cases "k = Suc j") auto
    then show ?thesis using k st by (intro exI [of _ k]) auto
  qed
qed

lemma sitoa_end_digits:
  assumes "0 < t" "t < 10 ^ 9"
  shows "sitoa_end t 1 p = Some (p + int (length (digits (nat t))))"
proof -
  obtain k where k: "k \<le> 9" "sitoa_end t 1 p = Some (p + int k)" "t < 10 ^ k"
    "0 < k \<longrightarrow> 10 ^ (k - 1) \<le> t"
    using sitoa_end_power [of t 0 p] assms by auto
  have k0: "0 < k" using k(3) assms(1) by (cases k) simp_all
  have "nat t < 10 ^ k" using k(3) assms(1) by (simp add: nat_less_iff)
  then have "length (digits (nat t)) \<le> k" using digits_length k0 by simp
  moreover have "\<not> length (digits (nat t)) \<le> k - 1"
  proof (cases "k = 1")
    case True
    then show ?thesis by (simp add: digits.simps [of "nat t"])
  next
    case False
    have "10 ^ (k - 1) \<le> nat t" using k(4) k0 assms(1) by (simp add: le_nat_iff)
    then show ?thesis using digits_length [of "k - 1" "nat t"] k0 False by simp
  qed
  ultimately have "length (digits (nat t)) = k" by simp
  then show ?thesis using k(2) by simp
qed

declare sitoa_digits.simps [simp del]

lemma sitoa_digits_spec:
  assumes "length mid = length (digits n)"
  shows "sitoa_digits (pre @ mid @ post) (int (length pre + length mid) - 1) (int n) =
    Some (pre @ digits n @ post, int (length pre) - 1)"
  using assms
proof (induction n arbitrary: mid post rule: digits.induct)
  case (1 n)
  let ?x = "48 + word_of_nat (n mod 10) :: u8"
  have "mid \<noteq> []" using 1(2) by (auto simp: digits.simps [of n])
  then obtain mid' y where mid: "mid = mid' @ [y]" by (metis rev_exhaust)
  have cm: "word_of_int (48 + cmod (int n) 10) = ?x"
  proof -
    define m where "m = n mod 10"
    have "cmod (int n) 10 = int m" by (simp add: cmod_nonneg zmod_int m_def)
    then show ?thesis by (simp flip: m_def)
  qed
  have w: "wr (pre @ mid @ post) (int (length pre + length mid) - 1) ?x = Some (pre @ mid' @ ?x # post)"
    by (simp add: mid wr_def nat_add_distrib list_update_append)
  have c: "cdiv (int n) 10 = int (n div 10)" by (simp add: cdiv_nonneg zdiv_int)
  show ?case
  proof (cases "n < 10")
    case True
    then have "mid' = []" using 1(2) mid by (simp add: digits.simps [of n])
    then show ?thesis using True w c cm
      by (subst sitoa_digits.simps) (simp add: digits.simps [of n] mid)
  next
    case False
    have "length mid' = length (digits (n div 10))" using False 1(2) mid by (simp add: digits.simps [of n])
    moreover have "n div 10 \<noteq> 0" using False by simp
    ultimately show ?thesis using 1(1) [OF False, of mid' "?x # post"] False w c cm
      by (subst sitoa_digits.simps) (simp add: digits.simps [of n] mid add.commute)
  qed
qed

lemma sitoa_spec:
  assumes "x \<noteq> 0" "\<bar>x\<bar> < 10 ^ 9" "11 \<le> length b"
  shows "\<exists>post. sitoa b x = Some (decimal x @ 0 # post) \<and> length (decimal x @ 0 # post) = length b"
proof -
  define t where "t = nat \<bar>x\<bar>"
  define L where "L = length (digits t)"
  define g where "g = (if x < 0 then 1 else 0 :: nat)"
  have t: "0 < int t" "int t < 10 ^ 9" using assms(1,2) by (simp_all add: t_def)
  have L9: "L \<le> 9" using digits_length [of 9 t] t(2) by (simp add: L_def t_def nat_less_iff)
  have en: "sitoa_end (int t) 1 p = Some (p + int L)" for p
    using sitoa_end_digits [OF t] by (simp add: L_def)
  define mid where "mid = take L (drop g b)"
  define post where "post = drop (Suc (g + L)) b"
  have len: "g + L < length b" "length mid = L" "length (take g b) = g"
    using assms(3) L9 by (auto simp: mid_def g_def)
  have split: "b[g + L := 0] = take g b @ mid @ 0 # post"
  proof -
    have "b[g + L := 0] = take (g + L) b @ 0 # post"
      using len(1) by (simp add: upd_conv_take_nth_drop post_def)
    then show ?thesis by (simp add: take_add mid_def)
  qed
  have w: "wr b (int (g + L)) 0 = Some (take g b @ mid @ 0 # post)"
    unfolding split [symmetric] using len(1) by (simp add: wr_def nat_int_add)
  have d: "sitoa_digits (take g b @ mid @ 0 # post) (int (g + L) - 1) (int t) =
      Some (take g b @ digits t @ 0 # post, int g - 1)"
    using sitoa_digits_spec [of mid t "take g b" "0 # post"] len(2,3) by (simp add: L_def)
  have lb: "length b = g + L + Suc (length post)" using len(1) by (simp add: post_def)
  show ?thesis
  proof (cases "x < 0")
    case True
    then have g: "g = 1" and xt: "- x = int t" by (simp_all add: g_def t_def)
    have i: "is_i32 (int t)" using t by simp
    obtain y where y: "take 1 b = [y]" using assms(3) by (cases b) auto
    have "sitoa b x = Some (decimal x @ 0 # post)"
      using True w d g y i
      by (simp add: sitoa_def xt en decimal_def t_def [symmetric] add.commute wr_Some)
    moreover have "nat (- x) = t" using True by (simp add: t_def)
    ultimately show ?thesis using True g lb by (simp add: decimal_def L_def)
  next
    case False
    then have g: "g = 0" and xt: "x = int t" by (simp_all add: g_def t_def)
    have "sitoa b x = Some (decimal x @ 0 # post)"
      using False w d g by (simp add: sitoa_def xt en decimal_def)
    then show ?thesis using False g lb xt by (simp add: decimal_def L_def)
  qed
qed

lemma cstring_append: "0 \<notin> set xs \<Longrightarrow> cstring (xs @ 0 # ys) = xs"
  by (induction xs) (auto simp: cstring_def)

lemma decimal_nonzero: "0 \<notin> set (decimal x)"
  using digits_nonzero by (auto simp: decimal_def)

lemma s_c_spec:
  assumes "\<bar>x\<bar> < 10 ^ 9" "11 \<le> length b"
  shows "\<exists>b'. s_c b x = Some (b', decimal x) \<and> length b' = length b"
proof -
  have w: "wr b 0 0 = Some (b[0 := 0])" using assms(2) by (cases b) (simp_all add: wr_def)
  show ?thesis
  proof (cases "x = 0")
    case True
    then show ?thesis using w
      by (simp add: s_c_def decimal_def digits.simps [of 0] bstr_def)
  next
    case False
    obtain post where "sitoa (b[0 := 0]) x = Some (decimal x @ 0 # post)"
      "length (decimal x @ 0 # post) = length b"
      using sitoa_spec [OF False assms(1), of "b[0 := 0]"] assms(2) by auto
    then show ?thesis using False w
      by (simp add: s_c_def cstring_append decimal_nonzero)
  qed
qed

text \<open>Reading decimal notation back.\<close>

definition decimal_value :: "u8 list \<Rightarrow> int" where
  "decimal_value xs = (if hd xs = of_char (CHR ''-'') then - int (digits_value (tl xs) 0)
     else int (digits_value xs 0))"

lemma digits_range: "x \<in> set (digits n) \<Longrightarrow> 48 \<le> unat x"
proof (induction n rule: digits.induct)
  case (1 n)
  have "unat (48 + word_of_nat (n mod 10) :: u8) = 48 + n mod 10" by (rule digit_unat) simp
  then show ?case using 1 by (auto simp: digits.simps [of n] split: if_splits)
qed

lemma decimal_value_decimal: "decimal_value (decimal x) = x"
proof (cases "x < 0")
  case True
  then show ?thesis by (simp add: decimal_value_def decimal_def digits_value_digits)
next
  case False
  have "hd (digits n) \<noteq> of_char (CHR ''-'')" for n
  proof -
    have "digits n \<noteq> []" by (simp add: digits.simps [of n])
    then have "48 \<le> unat (hd (digits n))" by (intro digits_range [of _ n] hd_in_set)
    then show ?thesis by auto
  qed
  then show ?thesis using False by (simp add: decimal_value_def decimal_def digits_value_digits)
qed

end
