(* ===== verification/System_Calls.thy ===== *)
theory System_Calls
  imports Scheduler Ipc Proc_Files Utilities
begin

text \<open>
  The process system calls, \<open>src/question/kernel/system_calls.c\<close>. The state they share is the process
  table (\<open>tbl\<close>) and the serial line of standard error (\<open>uart1\<close>); it is an extensible record,
  so that the file system extends it. A call takes the live context \<open>ctx_t\<close> that the
  low-level handler has saved on the SVC stack and returns it updated. \<open>ps_stats\<close> prints through
  a local buffer of 1024 bytes, whose initial content is the argument \<open>b\<close>.
\<close>

record sys =
  tbl :: procs
  uart1 :: terminal

section \<open>Definitions\<close>

definition SIG_TERM :: u32 where "SIG_TERM = 0x00"
definition SIG_QUIT :: u32 where "SIG_QUIT = 0x01"
definition EXIT_FAILURE :: int where "EXIT_FAILURE = 1"

definition error :: "'a sys_scheme \<Rightarrow> string \<Rightarrow> 'a sys_scheme" where
  "error k msg = k\<lparr>uart1 := put_string (uart1 k) (bstr msg)\<rparr>"

definition error_bytes :: "'a sys_scheme \<Rightarrow> u8 list \<Rightarrow> 'a sys_scheme" where
  "error_bytes k msg = k\<lparr>uart1 := put_string (uart1 k) msg\<rparr>"

definition set_r0 :: "ctx_t \<Rightarrow> u32 \<Rightarrow> ctx_t option" where
  "set_r0 c x = do { g \<leftarrow> wr (gpr c) 0 x; Some (c\<lparr>gpr := g\<rparr>) }"

definition fix_orphaned_processes :: "procs \<Rightarrow> int \<Rightarrow> procs option" where
  "fix_orphaned_processes t pp =
     foreach (\<lambda>p t. do {
         b \<leftarrow> pcb_at t (process p);
         if ppid b = pp then mod_pcb t (process p) (\<lambda>b. b\<lparr>ppid := 0\<rparr>) else Some t })
       [1..MAX_PROCESSES] t"

definition sys_fork :: "'a sys_scheme \<Rightarrow> ctx_t \<Rightarrow> ('a sys_scheme \<times> ctx_t) option" where
  "sys_fork k c = do {
     p \<leftarrow> free_pid (tbl k);
     if p = - 1 then do {
       c \<leftarrow> set_r0 c (u32_of_int (- 1));
       Some (error k ''No free processes\<newline>'', c)
     } else do {
       cp \<leftarrow> current_pid (tbl k);
       t \<leftarrow> new_process (tbl k) p cp;
       t \<leftarrow> mod_pcb t (process p) (\<lambda>b. b\<lparr>ctx := c\<rparr>);
       c \<leftarrow> set_r0 c (u32_of_int p);
       b \<leftarrow> pcb_at t (process p);
       cc \<leftarrow> set_r0 (ctx b) (u32_of_int 0);
       t \<leftarrow> put_pcb t (process p) (b\<lparr>ctx := cc\<rparr>);
       (t, c) \<leftarrow> set_current t c p;
       Some (k\<lparr>tbl := t\<rparr>, c)
     }
   }"

definition sys_wait :: "'a sys_scheme \<Rightarrow> int \<Rightarrow> int \<Rightarrow> (int \<times> 'a sys_scheme) option" where
  "sys_wait k p q = do {
     w \<leftarrow> get_waiting (tbl k) p q;
     (w, t) \<leftarrow> (case w of None \<Rightarrow> set_waiting (tbl k) p q | Some a \<Rightarrow> Some (Some a, tbl k));
     case w of
       None \<Rightarrow> Some (- 2, error (k\<lparr>tbl := t\<rparr>) ''Couldn't set waiting\<newline>'')
     | Some a \<Rightarrow> do {
         b \<leftarrow> pcb_at t (fst a);
         e \<leftarrow> rd (waiting b) (snd a);
         if w_result e = - 1 then Some (- 1, k\<lparr>tbl := t\<rparr>)
         else do {
           t \<leftarrow> mod_waiting t a (\<lambda>_. \<lparr>w_pid = 0, w_result = - 1\<rparr>);
           Some (w_result e, k\<lparr>tbl := t\<rparr>)
         }
       }
   }"

definition sys_fork_wait :: "'a sys_scheme \<Rightarrow> ctx_t \<Rightarrow> ('a sys_scheme \<times> ctx_t) option" where
  "sys_fork_wait k c = do {
     previous \<leftarrow> current_pid (tbl k);
     (k, c) \<leftarrow> sys_fork k c;
     q \<leftarrow> current_pid (tbl k);
     (_, k) \<leftarrow> sys_wait k previous q;
     Some (k, c)
   }"

definition sys_exit :: "'a sys_scheme \<Rightarrow> ctx_t \<Rightarrow> int \<Rightarrow> ('a sys_scheme \<times> ctx_t) option" where
  "sys_exit k c x = do {
     cp \<leftarrow> current_pid (tbl k);
     t \<leftarrow> update_waiters (tbl k) cp x;
     t \<leftarrow> fix_orphaned_processes t cp;
     t \<leftarrow> new_process t cp 0;
     c \<leftarrow> reset_ctx t c cp;
     (t, c) \<leftarrow> scheduler t c;
     Some (k\<lparr>tbl := t\<rparr>, c)
   }"

definition sys_kill ::
  "'a sys_scheme \<Rightarrow> ctx_t \<Rightarrow> int \<Rightarrow> u32 \<Rightarrow> (int \<times> 'a sys_scheme \<times> ctx_t) option" where
  "sys_kill k c p sig = do {
     a \<leftarrow> active_process (tbl k) p;
     if \<not> a then Some (- 1, error k ''No process exists\<newline>'', c)
     else if sig = SIG_TERM then do {
       cp \<leftarrow> current_pid (tbl k);
       t \<leftarrow> fix_orphaned_processes (tbl k) cp;
       t \<leftarrow> update_waiters t cp EXIT_FAILURE;
       if cp = p then do {
         c \<leftarrow> reset_ctx t c p;
         (t, c) \<leftarrow> scheduler t c;
         Some (0, k\<lparr>tbl := t\<rparr>, c)
       } else do {
         b \<leftarrow> pcb_at t (process p);
         pc \<leftarrow> reset_ctx t (ctx b) p;
         t \<leftarrow> put_pcb t (process p) (b\<lparr>ctx := pc\<rparr>);
         Some (0, k\<lparr>tbl := t\<rparr>, c)
       }
     }
     else if sig = SIG_QUIT then Some (- 1, error k ''Unimplemented signal\<newline>'', c)
     else Some (- 1, error k ''Unknown signal\<newline>'', c)
   }"

definition sys_yield :: "'a sys_scheme \<Rightarrow> ctx_t \<Rightarrow> ('a sys_scheme \<times> ctx_t) option" where
  "sys_yield k c = do {
     t \<leftarrow> mod_current (tbl k) (\<lambda>b. b\<lparr>prio := (prio b)\<lparr>time_left := 0\<rparr>\<rparr>);
     (t, c) \<leftarrow> scheduler t c;
     Some (k\<lparr>tbl := t\<rparr>, c)
   }"

definition sys_exec ::
  "'a sys_scheme \<Rightarrow> ctx_t \<Rightarrow> u32 \<Rightarrow> int \<Rightarrow> u32 \<Rightarrow> ('a sys_scheme \<times> ctx_t) option" where
  "sys_exec k c x interactive args =
     (if x = 0 then sys_exit (error k ''Invalid program\<newline>'') c EXIT_FAILURE
      else do {
        cp \<leftarrow> current_pid (tbl k);
        b \<leftarrow> current_pcb (tbl k);
        cc \<leftarrow> reset_ctx (tbl k) (ctx b) cp;
        t \<leftarrow> mod_current (tbl k) (\<lambda>b. b\<lparr>ctx := cc\<lparr>pc := x\<rparr>\<rparr>);
        t \<leftarrow> (if interactive \<noteq> 0
             then mod_current t (\<lambda>b. b\<lparr>prio := (prio b)\<lparr>process_type := INTERACTIVE\<rparr>\<rparr>) else Some t);
        b \<leftarrow> current_pcb t;
        cc \<leftarrow> set_r0 (ctx b) args;
        t \<leftarrow> mod_current t (\<lambda>b. b\<lparr>ctx := cc\<rparr>);
        c \<leftarrow> load_ctx t;
        Some (k\<lparr>tbl := t\<rparr>, c)
      })"

definition ps_line :: "u8 list \<Rightarrow> 'a sys_scheme \<Rightarrow> (string \<times> int) list \<Rightarrow> (u8 list \<times> 'a sys_scheme) option" where
  "ps_line b k = foldl (\<lambda>r (label, x). do {
       (b, k) \<leftarrow> r;
       let k = error k label;
       (b, str) \<leftarrow> s_c b x;
       Some (b, error_bytes k str) }) (Some (b, k))"

definition ps_stats :: "u8 list \<Rightarrow> 'a sys_scheme \<Rightarrow> int \<Rightarrow> 'a sys_scheme option" where
  "ps_stats b k p = do {
     a \<leftarrow> active_process (tbl k) p;
     if \<not> a then Some (error k ''No process exists\<newline>'')
     else do {
       q \<leftarrow> pcb_at (tbl k) (process p);
       (b, k) \<leftarrow> ps_line b k
         [(''PID '', pid q), ('', PPID '', ppid q), ('', PRIORITY '', priority (prio q)),
          ('', CPU '', cpu_burst (prio q)), ('', IO '', io_burst (prio q)),
          ('', ARIVAL TIME '', arrival_time (prio q)), ('', TIME LEFT '', time_left (prio q))];
       Some (error k ''\<newline>'')
     }
   }"

definition sys_ps :: "u8 list \<Rightarrow> 'a sys_scheme \<Rightarrow> 'a sys_scheme option" where
  "sys_ps b k =
     foreach (\<lambda>p k. do {
         a \<leftarrow> active_process (tbl k) p;
         if a then ps_stats b k p else Some k })
       [1..MAX_PROCESSES] k"

definition sys_share :: "'a sys_scheme \<Rightarrow> u32 \<Rightarrow> (int \<times> 'a sys_scheme) option" where
  "sys_share k a = do {
     cp \<leftarrow> current_pid (tbl k);
     (r, t) \<leftarrow> share (tbl k) cp a;
     let k = k\<lparr>tbl := t\<rparr>;
     Some (r, if r = 0 then error k ''Couldn't be shared, something may already be shared\<newline>'' else k)
   }"

definition sys_unshare :: "'a sys_scheme \<Rightarrow> u32 \<Rightarrow> (int \<times> 'a sys_scheme) option" where
  "sys_unshare k a = do {
     cp \<leftarrow> current_pid (tbl k);
     (r, t) \<leftarrow> unshare (tbl k) cp a;
     let k = k\<lparr>tbl := t\<rparr>;
     Some (r, if r = 0 then error k ''Memory is not shared for unshare\<newline>'' else k)
   }"

definition sys_lock :: "'a sys_scheme \<Rightarrow> u32 \<Rightarrow> (int \<times> 'a sys_scheme) option" where
  "sys_lock k a = do {
     cp \<leftarrow> current_pid (tbl k);
     (r, t) \<leftarrow> lock (tbl k) cp a;
     let k = k\<lparr>tbl := t\<rparr>;
     Some (r, if r = - 1 then error k ''Memory not shared for lock\<newline>'' else k)
   }"

definition sys_unlock :: "'a sys_scheme \<Rightarrow> u32 \<Rightarrow> (int \<times> 'a sys_scheme) option" where
  "sys_unlock k a = do {
     cp \<leftarrow> current_pid (tbl k);
     (r, t) \<leftarrow> unlock (tbl k) cp a;
     let k = k\<lparr>tbl := t\<rparr>;
     Some (r, if r = - 1 then error k ''Memory not shared for unlock\<newline>'' else k)
   }"

section \<open>Orphans\<close>

definition orphan :: "int \<Rightarrow> pcb_t \<Rightarrow> pcb_t" where
  "orphan pp b = (if ppid b = pp then b\<lparr>ppid := 0\<rparr> else b)"

lemma orphan_fields [simp]:
  "ctx (orphan pp b) = ctx b" "prio (orphan pp b) = prio b" "shared (orphan pp b) = shared b"
  "waiting (orphan pp b) = waiting b" "waiters (orphan pp b) = waiters b"
  "fd_table (orphan pp b) = fd_table b" "pid (orphan pp b) = pid b"
  "ppid (orphan pp b) = (if ppid b = pp then 0 else ppid b)"
  by (simp_all add: orphan_def)

lemma pcb_wf_ppid [wf_intros]: "pcb_wf p b \<Longrightarrow> pcb_wf p (b\<lparr>ppid := 0\<rparr>)"
  by (simp add: pcb_wf_def)

lemma orphan_wf [wf_intros]: "pcb_wf p b \<Longrightarrow> pcb_wf p (orphan pp b)"
  by (simp add: pcb_wf_def orphan_def)

definition same_globals :: "procs \<Rightarrow> procs \<Rightarrow> bool" where
  "same_globals t u \<longleftrightarrow> current u = current t \<and> BURSTS u = BURSTS t \<and> sps u = sps t \<and> tos_P1 u = tos_P1 t"

lemma same_globals_simps [simp]:
  "same_globals t t" "same_globals t (upd u p b) = same_globals t u"
  by (simp_all add: same_globals_def)

lemma same_globals_wf: "same_globals t u \<Longrightarrow> procs_wf t \<Longrightarrow> table_wf u \<Longrightarrow> procs_wf u"
  by (simp add: same_globals_def procs_wf_def)

lemma same_globals_cur: "same_globals t u \<Longrightarrow> cur u = cur t"
  by (simp add: same_globals_def cur_def)

text \<open>A loop over all processes that rewrites each block on its own.\<close>

lemma each_process:
  assumes body: "\<And>p t. valid_pid p \<Longrightarrow> table_wf t \<Longrightarrow> f p t = Some (upd t p (g p (blk t p)))"
    and wf: "\<And>p b. valid_pid p \<Longrightarrow> pcb_wf p b \<Longrightarrow> pcb_wf p (g p b)"
    and t: "table_wf t"
  shows "\<exists>u. foreach f [1..30] t = Some u \<and> table_wf u \<and> same_globals t u \<and>
    (\<forall>q. valid_pid q \<longrightarrow> blk u q = g q (blk t q))"
proof -
  have "\<exists>u. foreach f [1..int n] t = Some u \<and> table_wf u \<and> same_globals t u \<and>
      (\<forall>q. valid_pid q \<longrightarrow> blk u q = (if q \<le> int n then g q (blk t q) else blk t q))" if "n \<le> 30" for n
    using that
  proof (induction n)
    case 0
    then show ?case using t by simp
  next
    case (Suc n)
    then obtain u where u: "foreach f [1..int n] t = Some u" "table_wf u" "same_globals t u"
      "\<forall>q. valid_pid q \<longrightarrow> blk u q = (if q \<le> int n then g q (blk t q) else blk t q)" by auto
    let ?p = "int n + 1"
    let ?u = "upd u ?p (g ?p (blk u ?p))"
    have p: "valid_pid ?p" using Suc.prems by simp
    have up: "[1..int (Suc n)] = [1..int n] @ [?p]"
      using upto_rec2 [of 1 ?p] by (simp add: add.commute)
    have "table_wf ?u" using u(2) p by (intro table_wf_upd wf wf_blk)
    moreover have "foreach f [1..int (Suc n)] t = Some ?u"
      unfolding up foreach_append using u(1) body [OF p u(2)] by simp
    moreover have "blk ?u q = (if q \<le> int (Suc n) then g q (blk t q) else blk t q)" if "valid_pid q" for q
      using u(2,4) p that by (auto simp: blk_upd)
    ultimately show ?case using u(3) by (intro exI [of _ ?u]) simp
  qed
  from this [of 30] show ?thesis by simp
qed

lemma fix_orphaned_spec:
  assumes "table_wf t"
  shows "\<exists>u. fix_orphaned_processes t pp = Some u \<and> table_wf u \<and> same_globals t u \<and>
    (\<forall>q. valid_pid q \<longrightarrow> blk u q = orphan pp (blk t q))"
  unfolding fix_orphaned_processes_def MAX_PROCESSES_def
  by (rule each_process [OF _ _ assms, where g = "\<lambda>_. orphan pp"])
    (auto simp: c_simps upd_same orphan_def [where pp = pp] intro: pcb_wf_ppid)

section \<open>Fork\<close>

definition with_r0 :: "ctx_t \<Rightarrow> u32 \<Rightarrow> ctx_t" where
  "with_r0 c x = c\<lparr>gpr := (gpr c)[0 := x]\<rparr>"

lemma set_r0_spec: "length (gpr c) = 13 \<Longrightarrow> set_r0 c x = Some (with_r0 c x)"
  by (simp add: set_r0_def with_r0_def wr_def)

lemma with_r0_simps [simp]:
  "pc (with_r0 c x) = pc c" "length (gpr (with_r0 c x)) = length (gpr c)"
  "length (gpr c) = 13 \<Longrightarrow> gpr (with_r0 c x) ! 0 = x" "sp (with_r0 c x) = sp c"
  by (simp_all add: with_r0_def)

lemma fork_failed:
  assumes "procs_wf (tbl k)" "length (gpr c) = 13" "\<forall>p. valid_pid p \<longrightarrow> active (tbl k) p"
  shows "sys_fork k c = Some (error k ''No free processes\<newline>'', with_r0 c (- 1))"
proof -
  have "free_pid (tbl k) = Some (- 1)"
    using assms(3) free_pid_spec [OF wf_table [OF assms(1)]] free_pid_cases [OF wf_table [OF assms(1)]]
    by (auto split: option.splits simp: find_Some_iff)
  then show ?thesis using assms(2) by (simp add: sys_fork_def set_r0_spec u32_of_int_def)
qed

lemma fork_ok:
  assumes wf: "procs_wf (tbl k)" and len: "length (gpr c) = 13"
    and p: "valid_pid p" "\<not> active (tbl k) p" "\<forall>q. 1 \<le> q \<and> q < p \<longrightarrow> active (tbl k) q"
    and act: "active (tbl k) (cur (tbl k))"
  shows "\<exists>t. sys_fork k c = Some (k\<lparr>tbl := t\<rparr>, with_r0 c 0) \<and> procs_wf t \<and> cur t = p \<and>
    blk t p = (fresh_pcb (tbl k) p (cur (tbl k)))\<lparr>ctx := with_r0 c 0\<rparr> \<and>
    blk t (cur (tbl k)) = (blk (tbl k) (cur (tbl k)))\<lparr>ctx := with_r0 c (word_of_int p)\<rparr> \<and>
    (\<forall>q. valid_pid q \<and> q \<noteq> p \<and> q \<noteq> cur (tbl k) \<longrightarrow> blk t q = blk (tbl k) q)"
proof -
  let ?t = "tbl k"
  let ?c = "cur ?t"
  have tw: "table_wf ?t" and cv: "valid_pid ?c" using wf by (simp_all add: wf_table cur_valid)
  have "free_pid ?t = Some p"
  proof -
    obtain r where r: "free_pid ?t = Some r" using free_pid_spec [OF tw] by blast
    have "r = p" using free_pid_cases [OF tw r] p by (metis linorder_neqE)
    then show ?thesis using r by simp
  qed
  have pc: "p \<noteq> ?c" using p(2) act by auto
  define t1 where "t1 = upd ?t p (fresh_pcb ?t p ?c)"
  have fw: "pcb_wf p (fresh_pcb ?t p ?c)" using cv by (intro fresh_pcb_wf) simp_all
  have t1: "procs_wf t1" unfolding t1_def using wf p(1) fw by (intro procs_wf_upd)
  define t2 where "t2 = upd t1 p ((blk t1 p)\<lparr>ctx := c\<rparr>)"
  have t2: "procs_wf t2" unfolding t2_def using t1 p(1) len by (intro procs_wf_upd pcb_wf_ctx wf_blk wf_table)
  define t3 where "t3 = upd t2 p ((blk t2 p)\<lparr>ctx := with_r0 c 0\<rparr>)"
  have t3: "procs_wf t3" unfolding t3_def using t2 p(1) len by (intro procs_wf_upd pcb_wf_ctx wf_blk wf_table) simp_all
  have b1: "blk t1 p = fresh_pcb ?t p ?c" using tw p(1) by (simp add: t1_def blk_upd)
  have b2: "blk t2 p = (fresh_pcb ?t p ?c)\<lparr>ctx := c\<rparr>" using p(1) b1 wf_table [OF t1] by (simp add: t2_def blk_upd)
  have b3: "blk t3 q = (if q = p then (fresh_pcb ?t p ?c)\<lparr>ctx := with_r0 c 0\<rparr> else blk ?t q)" if "valid_pid q" for q
  proof (cases "q = p")
    case True
    then show ?thesis using p(1) b2 wf_table [OF t2] by (simp add: t3_def blk_upd)
  next
    case False
    have "blk t3 q = blk t2 q" using False that p(1) wf_table [OF t2] by (simp add: t3_def blk_upd)
    also have "\<dots> = blk t1 q" using False that p(1) wf_table [OF t1] by (simp add: t2_def blk_upd)
    also have "\<dots> = blk ?t q" using False that p(1) tw by (simp add: t1_def blk_upd)
    finally show ?thesis using False by simp
  qed
  have c3: "cur t3 = ?c" by (simp add: t3_def t2_def t1_def)
  let ?cp = "with_r0 c (word_of_int p)"
  obtain t4 c4 where t4: "set_current t3 ?cp p = Some (t4, c4)"
    using set_current_spec [OF t3 p(1), of ?cp] len by (metis surj_pair with_r0_simps(2))
  have "sys_fork k c = Some (k\<lparr>tbl := t4\<rparr>, c4)"
    using \<open>free_pid ?t = Some p\<close> p(1) wf tw t4 len
    by (simp add: sys_fork_def current_pid_cur new_process_spec mod_pcb_upd pcb_at_blk put_pcb_upd
        wf_table t1 t2 set_r0_spec b2 u32_of_int_def flip: t1_def t2_def) (simp add: t3_def b2)
  moreover have "procs_wf t4 \<and> cur t4 = p"
    using set_current_wf [OF t3 p(1) _ t4] len by simp
  moreover have "c4 = with_r0 c 0"
    using t4 set_current_spec [OF t3 p(1), of ?cp] len pc b3 [OF p(1)] by (simp add: c3)
  moreover have "blk t4 q = (if q = ?c then (blk t3 q)\<lparr>ctx := ?cp\<rparr> else blk t3 q)" if "valid_pid q" for q
    using set_current_blk [OF t3 p(1) _ t4 that] len pc by (simp add: c3)
  ultimately show ?thesis using b3 p(1) cv pc by (intro exI [of _ t4]) auto
qed

section \<open>Exit\<close>

lemma wait_slot_waiting: "waiting (blk t q) = waiting (blk u q) \<Longrightarrow> wait_slot t q p = wait_slot u q p"
  by (simp add: wait_slot_def)

text \<open>The table that \<open>sys_exit\<close> hands to the scheduler: waiters told, children orphaned, block reset.\<close>

definition left :: "procs \<Rightarrow> int \<Rightarrow> int \<Rightarrow> procs \<Rightarrow> bool" where
  "left s p x t \<longleftrightarrow> procs_wf t \<and> same_globals s t \<and> blk t p = fresh_pcb s p 0 \<and>
     (\<exists>u. told s p x 5 u \<and> (\<forall>q. valid_pid q \<and> q \<noteq> p \<longrightarrow> blk t q = orphan p (blk u q)))"

lemma exit_prepares:
  assumes wf: "procs_wf s" and p: "p = cur s" and reg: "\<forall>j < 5. registered s p j"
  obtains t where "do { t \<leftarrow> update_waiters s p x; t \<leftarrow> fix_orphaned_processes t p; new_process t p 0 } = Some t"
    "left s p x t"
proof -
  have pv: "valid_pid p" using cur_valid [OF wf] p by simp
  obtain u where u: "update_waiters s p x = Some u" "told s p x 5 u"
    using update_waiters_ok [OF wf_table [OF wf] pv reg] by blast
  have uw: "table_wf u" and ug: "same_globals s u"
    using u(2) by (simp_all add: told_def same_frame_def same_globals_def)
  obtain v where v: "fix_orphaned_processes u p = Some v" "table_wf v" "same_globals u v"
    "\<forall>q. valid_pid q \<longrightarrow> blk v q = orphan p (blk u q)"
    using fix_orphaned_spec [OF uw] by blast
  let ?t = "upd v p (fresh_pcb v p 0)"
  have n: "new_process v p 0 = Some ?t" using new_process_spec [OF v(2) pv] .
  have f: "fresh_pcb v p 0 = fresh_pcb s p 0"
    using ug v(3) by (simp add: fresh_pcb_def same_globals_def)
  have tw: "table_wf ?t" using v(2) pv by (intro table_wf_upd fresh_pcb_wf) simp_all
  have sg: "same_globals s ?t" using ug v(3) by (simp add: same_globals_def)
  have "left s p x ?t"
    unfolding left_def
    using same_globals_wf [OF sg wf tw] sg f u(2) v(2,4) pv by (auto simp: blk_upd)
  then show ?thesis using that u(1) v(1) n by simp
qed

lemma left_blk:
  assumes l: "left s p x t" and q: "valid_pid q" "q \<noteq> p"
  shows "ctx (blk t q) = ctx (blk s q)" "prio (blk t q) = prio (blk s q)"
    "shared (blk t q) = shared (blk s q)" "fd_table (blk t q) = fd_table (blk s q)"
    "waiters (blk t q) = waiters (blk s q)"
    "map w_pid (waiting (blk t q)) = map w_pid (waiting (blk s q))"
    "ppid (blk t q) = (if ppid (blk s q) = p then 0 else ppid (blk s q))"
    "i < 20 \<Longrightarrow> w_pid (waiting (blk s q) ! i) \<noteq> p \<Longrightarrow> waiting (blk t q) ! i = waiting (blk s q) ! i"
proof -
  obtain u where u: "told s p x 5 u" "blk t q = orphan p (blk u q)"
    using l q by (auto simp: left_def)
  have f: "same_frame s u" "map w_pid (waiting (blk u q)) = map w_pid (waiting (blk s q))"
    "waiters (blk u q) = waiters (blk s q)"
    using u(1) q by (simp_all add: told_def)
  show "ctx (blk t q) = ctx (blk s q)" "prio (blk t q) = prio (blk s q)"
    "shared (blk t q) = shared (blk s q)" "fd_table (blk t q) = fd_table (blk s q)"
    "waiters (blk t q) = waiters (blk s q)"
    "map w_pid (waiting (blk t q)) = map w_pid (waiting (blk s q))"
    "ppid (blk t q) = (if ppid (blk s q) = p then 0 else ppid (blk s q))"
    using f u(2) q by (simp_all add: same_frame_def)
  show "waiting (blk t q) ! i = waiting (blk s q) ! i" if "i < 20" "w_pid (waiting (blk s q) ! i) \<noteq> p"
    using u that q by (simp add: told_def)
qed

lemma left_result:
  assumes l: "left s p x t" and j: "j < 5" "wr_pid (waiters (blk s p) ! j) = w" "w \<noteq> 0" "valid_pid w" "w \<noteq> p"
    and k: "wait_slot s w p = Some i"
  shows "w_result (waiting (blk t w) ! nat i) = x"
proof -
  obtain u where u: "told s p x 5 u" "blk t w = orphan p (blk u w)"
    using l j(4,5) by (auto simp: left_def)
  have "\<forall>j < 5. \<forall>k. wr_pid (waiters (blk s p) ! j) \<noteq> 0 \<longrightarrow>
        wait_slot s (wr_pid (waiters (blk s p) ! j)) p = Some k \<longrightarrow>
        w_result (waiting (blk u (wr_pid (waiters (blk s p) ! j))) ! nat k) = x"
    using u(1) unfolding told_def by blast
  then have "w_result (waiting (blk u w) ! nat i) = x" using j k by blast
  then show ?thesis using u(2) by simp
qed

lemma exit_ok:
  assumes wf: "procs_wf (tbl k)" and len: "length (gpr c) = 13"
    and reg: "\<forall>j < 5. registered (tbl k) (cur (tbl k)) j"
  obtains t0 t c0 c' where "left (tbl k) (cur (tbl k)) x t0" "pc c0 = 0" "length (gpr c0) = 13"
    "scheduler t0 c0 = Some (t, c')" "sys_exit k c x = Some (k\<lparr>tbl := t\<rparr>, c')" "cpsr c0 = 0x50"
proof -
  let ?p = "cur (tbl k)"
  obtain t0 where t0: "do { t \<leftarrow> update_waiters (tbl k) ?p x; t \<leftarrow> fix_orphaned_processes t ?p; new_process t ?p 0 } = Some t0"
    "left (tbl k) ?p x t0"
    by (rule exit_prepares [OF wf refl reg])
  have w0: "procs_wf t0" using t0(2) by (simp add: left_def)
  define c0 where "c0 = c\<lparr>pc := 0, cpsr := 0x50, gpr := replicate 13 0, sp := sps t0 ! nat (?p - 1), lr := 0\<rparr>"
  have r: "reset_ctx t0 c ?p = Some c0"
    unfolding c0_def using wf_table [OF w0] cur_valid [OF wf] by (intro reset_ctx_spec) (simp_all add: table_wf_def)
  have l0: "length (gpr c0) = 13" by (simp add: c0_def)
  obtain t c' where s: "scheduler t0 c0 = Some (t, c')" using scheduler_total [OF w0 l0] by metis
  have "sys_exit k c x = Some (k\<lparr>tbl := t\<rparr>, c')"
    using t0(1) r s wf by (auto simp: sys_exit_def current_pid_cur split: Option.bind_splits)
  then show ?thesis using that [OF t0(2) _ l0 s] by (simp add: c0_def)
qed

lemma exit_undefined:
  assumes wf: "procs_wf (tbl k)" and j: "j < 5" "\<not> registered (tbl k) (cur (tbl k)) j"
  shows "sys_exit k c x = None"
  using update_waiters_null [OF wf_table [OF wf] cur_valid [OF wf] j] wf
  by (simp add: sys_exit_def current_pid_cur)

section \<open>Wait\<close>

text \<open>Process \<open>p\<close> waits for \<open>q\<close>: it has a wait slot for \<open>q\<close>, and \<open>q\<close> has a waiter slot for it.\<close>

definition waits_for :: "procs \<Rightarrow> int \<Rightarrow> int \<Rightarrow> bool" where
  "waits_for s p q \<longleftrightarrow> wait_slot s p q \<noteq> None \<and> (\<exists>j < 5. wr_pid (waiters (blk s q) ! j) = p)"

lemma wait_slot_bounds: "wait_slot s p q = Some i \<Longrightarrow> 0 \<le> i \<and> i \<le> 19 \<and> w_pid (waiting (blk s p) ! nat i) = q"
  using find_upto_Some unfolding wait_slot_def by blast

lemma waiting_len: "table_wf s \<Longrightarrow> valid_pid p \<Longrightarrow> length (waiting (blk s p)) = 20"
  using wf_blk [of s p] by (simp add: pcb_wf_def)

lemma wait_known:
  assumes t: "table_wf (tbl k)" "valid_pid p" and i: "wait_slot (tbl k) p q = Some i"
  defines "r \<equiv> w_result (waiting (blk (tbl k) p) ! nat i)"
  shows "sys_wait k p q = Some (if r = - 1 then (- 1, k)
    else (r, k\<lparr>tbl := set_result (tbl k) p i \<lparr>w_pid = 0, w_result = - 1\<rparr>\<rparr>))"
proof -
  have b: "0 \<le> i" "i \<le> 19" using wait_slot_bounds [OF i] by simp_all
  have rd: "rd (waiting (blk (tbl k) p)) i = Some (waiting (blk (tbl k) p) ! nat i)"
    using b waiting_len [OF t] by (simp add: rd_Some)
  show ?thesis
    using t i rd
    by (simp add: sys_wait_def get_waiting_spec mod_waiting_spec [OF t b] c_simps r_def)
qed

lemma wait_starts:
  assumes t: "table_wf (tbl k)" "valid_pid p" "valid_pid q"
    and none: "wait_slot (tbl k) p q = None" and act: "active (tbl k) q"
    and i: "waiter_slot (tbl k) q 0 = Some i" and j: "wait_slot (tbl k) p 0 = Some j"
  shows "\<exists>u. sys_wait k p q = Some (- 1, k\<lparr>tbl := u\<rparr>) \<and> table_wf u \<and> same_frame (tbl k) u \<and> waits_for u p q \<and>
    w_result (waiting (blk u p) ! nat j) = - 1"
proof -
  let ?s = "tbl k"
  define s1 where "s1 = upd ?s q ((blk ?s q)\<lparr>waiters := (waiters (blk ?s q))[nat i := \<lparr>wr_pid = p\<rparr>]\<rparr>)"
  define u where "u = set_result s1 p j \<lparr>w_pid = q, w_result = - 1\<rparr>"
  have jb: "0 \<le> j" "j \<le> 19" using wait_slot_bounds [OF j] by simp_all
  have ib: "0 \<le> i" "i \<le> 4" using i find_upto_Some unfolding waiter_slot_def by blast+
  have w1: "table_wf s1" unfolding s1_def
    by (rule table_wf_upd [OF t(1,3)]) (use t in \<open>auto intro!: pcb_wf_waiters wf_blk\<close>)
  have wu: "table_wf u" unfolding u_def using w1 t(2) by (rule set_result_wf)
  have sw: "set_waiting ?s p q = Some (Some (process p, j), u)"
    using set_waiting_spec [OF t] act i j by (simp add: Let_def u_def s1_def)
  have len: "length (waiting (blk s1 p)) = 20" by (rule waiting_len [OF w1 t(2)])
  have bu: "blk u p = (blk s1 p)\<lparr>waiting := (waiting (blk s1 p))[nat j := \<lparr>w_pid = q, w_result = - 1\<rparr>]\<rparr>"
    using set_result_blk [OF w1 t(2) t(2)] by (simp add: u_def)
  have e: "waiting (blk u p) ! nat j = \<lparr>w_pid = q, w_result = - 1\<rparr>"
    using jb len bu by (simp add: nat_less_iff_int)
  have rd: "rd (waiting (blk u p)) j = Some \<lparr>w_pid = q, w_result = - 1\<rparr>"
    using jb e waiting_len [OF wu t(2)] by (simp add: rd_Some)
  have r: "sys_wait k p q = Some (- 1, k\<lparr>tbl := u\<rparr>)"
    using t wu rd none by (simp add: sys_wait_def get_waiting_spec sw pcb_at_blk)
  have fr: "same_frame ?s u"
  proof -
    have "same_frame ?s s1" unfolding s1_def by (rule same_frame_lists(2) [OF t(1,3)])
    then show ?thesis
      unfolding u_def using set_result_frame [OF w1 t(2)] by (rule same_frame_trans)
  qed
  have "waiters (blk u q) = waiters (blk s1 q)"
    using set_result_blk [OF w1 t(2,3)] by (simp add: u_def)
  also have "\<dots> = (waiters (blk ?s q))[nat i := \<lparr>wr_pid = p\<rparr>]"
    using t by (simp add: s1_def blk_upd)
  finally have "wr_pid (waiters (blk u q) ! nat i) = p"
    using ib waiter_entry(1) [OF t(1,3), of 0] by (simp add: nat_less_iff_int)
  moreover have "wait_slot u p q \<noteq> None"
    using e jb unfolding wait_slot_def find_upto_None by (metis waiting_t.select_convs(1))
  ultimately have "waits_for u p q"
    using ib unfolding waits_for_def by (intro conjI exI [of _ "nat i"]) (simp_all add: nat_less_iff_int)
  then show ?thesis using r wu fr e by auto
qed

lemma waits_for_scheduler:
  assumes "procs_wf s" "length (gpr c) = 13" "scheduler s c = Some (s', c')" "valid_pid p" "valid_pid q"
  shows "waits_for s' p q = waits_for s p q" "wait_slot s' p q = wait_slot s p q"
  using scheduler_frame [OF assms(1-4)] scheduler_frame [OF assms(1-3,5)] wait_slot_waiting [of s' p s]
  by (simp_all add: waits_for_def)

lemma wait_gets_status:
  assumes wf: "procs_wf (tbl k)" and len: "length (gpr c) = 13" and q: "q = cur (tbl k)"
    and reg: "\<forall>j < 5. registered (tbl k) q j"
    and p: "valid_pid p" "p \<noteq> q" "waits_for (tbl k) p q" and x: "x \<noteq> - 1"
  shows "\<exists>k1 c' k2. sys_exit k c x = Some (k1, c') \<and> sys_wait k1 p q = Some (x, k2)"
proof -
  have qv: "valid_pid q" using cur_valid [OF wf] q by simp
  obtain t0 t c0 c' where e: "left (tbl k) q x t0" "length (gpr c0) = 13"
    "scheduler t0 c0 = Some (t, c')" "sys_exit k c x = Some (k\<lparr>tbl := t\<rparr>, c')"
    using exit_ok [OF wf len, of x] reg q by metis
  have w0: "procs_wf t0" using e(1) by (simp add: left_def)
  obtain i where i: "wait_slot (tbl k) p q = Some i" using p(3) by (auto simp: waits_for_def)
  obtain j where j: "j < 5" "wr_pid (waiters (blk (tbl k) q) ! j) = p" using p(3) by (auto simp: waits_for_def)
  have r0: "w_result (waiting (blk t0 p) ! nat i) = x"
    using left_result [OF e(1) j _ p(1,2) i] p(1) by simp
  have "wait_slot t0 p q = Some i"
    using wait_slot_cong [OF left_blk(6) [OF e(1) p(1,2)], of q] i waiting_len [OF wf_table [OF wf] p(1)] by simp
  then have i': "wait_slot t p q = Some i"
    using waits_for_scheduler(2) [OF w0 e(2,3) p(1) qv] by simp
  have r: "w_result (waiting (blk t p) ! nat i) = x"
    using r0 scheduler_frame(4) [OF w0 e(2,3) p(1)] by simp
  have tw: "table_wf t"
    using sched_state_spec(1) [OF w0 e(2) scheduler_result [OF w0 e(2,3)]] by (rule wf_table)
  have "sys_wait (k\<lparr>tbl := t\<rparr>) p q =
      Some (x, k\<lparr>tbl := set_result t p i \<lparr>w_pid = 0, w_result = - 1\<rparr>\<rparr>)"
    using wait_known [of "k\<lparr>tbl := t\<rparr>" p q i] tw p(1) i' r x by simp
  then show ?thesis using e(4) by blast
qed

section \<open>Kill, yield and exec\<close>

lemma kill_other:
  assumes wf: "procs_wf (tbl k)" and p: "valid_pid p" "active (tbl k) p" "p \<noteq> cur (tbl k)"
    and reg: "\<forall>j < 5. registered (tbl k) (cur (tbl k)) j"
  obtains t where "sys_kill k c p SIG_TERM = Some (0, k\<lparr>tbl := t\<rparr>, c)" "procs_wf t" "cur t = cur (tbl k)"
    "\<not> active t p" "\<forall>q. valid_pid q \<longrightarrow> waiters (blk t q) =
       (if q = cur (tbl k) then replicate 5 \<lparr>wr_pid = 0\<rparr> else waiters (blk (tbl k) q))"
    "\<forall>q. valid_pid q \<longrightarrow> ppid (blk t q) = (if ppid (blk (tbl k) q) = cur (tbl k) then 0 else ppid (blk (tbl k) q))"
    "\<forall>q. valid_pid q \<and> q \<noteq> p \<longrightarrow> ctx (blk t q) = ctx (blk (tbl k) q)"
    "\<forall>q r. valid_pid q \<longrightarrow> wait_slot t q r = wait_slot (tbl k) q r"
    "\<forall>q i. valid_pid q \<and> i < 20 \<and> w_pid (waiting (blk (tbl k) q) ! i) \<noteq> cur (tbl k) \<longrightarrow>
       waiting (blk t q) ! i = waiting (blk (tbl k) q) ! i"
    "\<forall>q i. valid_pid q \<and> (\<exists>j < 5. wr_pid (waiters (blk (tbl k) (cur (tbl k))) ! j) = q) \<and>
       wait_slot (tbl k) q (cur (tbl k)) = Some i \<longrightarrow> w_result (waiting (blk t q) ! nat i) = EXIT_FAILURE"
proof -
  let ?c = "cur (tbl k)"
  have tw: "table_wf (tbl k)" and cv: "valid_pid ?c" using wf by (simp_all add: wf_table cur_valid)
  obtain v where v: "fix_orphaned_processes (tbl k) ?c = Some v" "table_wf v" "same_globals (tbl k) v"
    "\<forall>q. valid_pid q \<longrightarrow> blk v q = orphan ?c (blk (tbl k) q)"
    using fix_orphaned_spec [OF tw] by blast
  have regv: "\<forall>j < 5. registered v ?c j"
  proof (intro allI impI)
    fix j :: nat assume j: "j < 5"
    let ?w = "wr_pid (waiters (blk (tbl k) ?c) ! j)"
    have e: "0 \<le> ?w" "?w \<le> 30" using waiter_entry(2,3) [OF tw cv j] by simp_all
    have "wait_slot v ?w ?c = wait_slot (tbl k) ?w ?c" if "?w \<noteq> 0"
      using v(4) e that by (intro wait_slot_waiting) simp
    moreover have "?w = 0 \<or> wait_slot (tbl k) ?w ?c \<noteq> None"
      using reg j unfolding registered_def Let_def by blast
    moreover have "waiters (blk v ?c) = waiters (blk (tbl k) ?c)" using v(4) cv by simp
    ultimately show "registered v ?c j" unfolding registered_def Let_def by fastforce
  qed
  obtain u where u: "update_waiters v ?c EXIT_FAILURE = Some u" "told v ?c EXIT_FAILURE 5 u"
    using update_waiters_ok [OF v(2) cv regv] by blast
  have uw: "table_wf u" "same_frame v u" using u(2) by (simp_all add: told_def)
  define cc where "cc = (ctx (blk u p))\<lparr>pc := 0, cpsr := 0x50, gpr := replicate 13 0, sp := sps u ! nat (p - 1), lr := 0\<rparr>"
  have r: "reset_ctx u (ctx (blk u p)) p = Some cc"
    unfolding cc_def using uw(1) p(1) by (intro reset_ctx_spec) (simp_all add: table_wf_def)
  let ?t = "upd u p ((blk u p)\<lparr>ctx := cc\<rparr>)"
  have pu: "procs_wf u"
    using same_frame_procs_wf [OF uw(2) same_globals_wf [OF v(3) wf v(2)] uw(1)] .
  have tw': "procs_wf ?t"
    using pu p(1) by (intro procs_wf_upd pcb_wf_ctx wf_blk wf_table) (simp_all add: cc_def)
  have run: "sys_kill k c p SIG_TERM = Some (0, k\<lparr>tbl := ?t\<rparr>, c)"
    using p wf tw v(1) u(1) uw(1) r
    by (simp add: sys_kill_def active_process_active current_pid_cur pcb_at_blk put_pcb_upd)
  have cur: "cur ?t = ?c"
    using same_frame_cur [OF uw(2)] same_globals_cur [OF v(3)] by simp
  have bt: "blk ?t q = (if q = p then (blk u p)\<lparr>ctx := cc\<rparr> else blk u q)" if "valid_pid q" for q
    using uw(1) p(1) that by (simp add: blk_upd)
  have ws: "waiters (blk u q) = (if q = ?c then replicate 5 \<lparr>wr_pid = 0\<rparr> else waiters (blk (tbl k) q))"
    if q: "valid_pid q" for q
  proof (cases "q = ?c")
    case True
    have "waiters (blk u ?c) = replicate 5 \<lparr>wr_pid = 0\<rparr> @ drop 5 (waiters (blk v ?c))"
      using u(2) unfolding told_def by blast
    moreover have "length (waiters (blk v ?c)) = 5" using waiter_entry(1) [OF v(2) cv, of 0] by simp
    ultimately show ?thesis using True by simp
  next
    case False
    have "waiters (blk u q) = waiters (blk v q)" using u(2) q False unfolding told_def by blast
    then show ?thesis using False v(4) q by simp
  qed
  have vw: "waiting (blk v q) = waiting (blk (tbl k) q)" if "valid_pid q" for q using v(4) that by simp
  have pids: "map w_pid (waiting (blk u q)) = map w_pid (waiting (blk (tbl k) q))" if "valid_pid q" for q
    using u(2) vw [OF that] that unfolding told_def by metis
  have slots: "wait_slot u q r = wait_slot (tbl k) q r" if "valid_pid q" for q r
    using wf_blk [OF tw that] by (intro wait_slot_cong [OF pids [OF that]]) (simp add: pcb_wf_def)
  have wt: "waiting (blk ?t q) = waiting (blk u q)" if "valid_pid q" for q using bt [OF that] by simp
  have told: "w_result (waiting (blk u q) ! nat i) = EXIT_FAILURE"
    if q: "valid_pid q" "j < 5" "wr_pid (waiters (blk (tbl k) ?c) ! j) = q" "wait_slot (tbl k) q ?c = Some i" for q i j
  proof -
    have w: "waiters (blk v ?c) = waiters (blk (tbl k) ?c)" using v(4) cv by simp
    have "wait_slot v q ?c = Some i" using q(4) wait_slot_waiting [OF vw [OF q(1)], of ?c] by simp
    moreover have "\<forall>j < 5. \<forall>k. wr_pid (waiters (blk v ?c) ! j) \<noteq> 0 \<longrightarrow> wait_slot v (wr_pid (waiters (blk v ?c) ! j)) ?c = Some k \<longrightarrow>
        w_result (waiting (blk u (wr_pid (waiters (blk v ?c) ! j))) ! nat k) = EXIT_FAILURE"
      using u(2) unfolding told_def by blast
    ultimately show ?thesis using q(1-3) unfolding w by auto
  qed
  have kept: "waiting (blk u q) ! i = waiting (blk (tbl k) q) ! i"
    if "valid_pid q" "i < 20" "w_pid (waiting (blk (tbl k) q) ! i) \<noteq> ?c" for q i
    using u(2) vw [OF that(1)] that unfolding told_def by simp
  show ?thesis
  proof (rule that [OF run tw' cur])
    show "\<forall>q r. valid_pid q \<longrightarrow> wait_slot ?t q r = wait_slot (tbl k) q r"
      using slots wait_slot_waiting [OF wt] by simp
    show "\<forall>q i. valid_pid q \<and> i < 20 \<and> w_pid (waiting (blk (tbl k) q) ! i) \<noteq> ?c \<longrightarrow> waiting (blk ?t q) ! i = waiting (blk (tbl k) q) ! i"
      using kept wt by simp
    show "\<forall>q i. valid_pid q \<and> (\<exists>j < 5. wr_pid (waiters (blk (tbl k) ?c) ! j) = q) \<and> wait_slot (tbl k) q ?c = Some i \<longrightarrow>
        w_result (waiting (blk ?t q) ! nat i) = EXIT_FAILURE"
      using told wt by auto
    show "\<not> active ?t p" using bt [OF p(1)] by (simp add: active_def cc_def)
    show "\<forall>q. valid_pid q \<longrightarrow> waiters (blk ?t q) =
       (if q = ?c then replicate 5 \<lparr>wr_pid = 0\<rparr> else waiters (blk (tbl k) q))"
      using bt ws p(1) by auto
    show "\<forall>q. valid_pid q \<longrightarrow> ppid (blk ?t q) = (if ppid (blk (tbl k) q) = ?c then 0 else ppid (blk (tbl k) q))"
      using bt v(4) uw(2) p(1) by (auto simp: same_frame_def)
    show "\<forall>q. valid_pid q \<and> q \<noteq> p \<longrightarrow> ctx (blk ?t q) = ctx (blk (tbl k) q)"
      using bt v(4) uw(2) by (auto simp: same_frame_def)
  qed
qed

lemma exec_ok:
  fixes args :: u32
  assumes wf: "procs_wf (tbl k)" and x: "x \<noteq> 0"
  defines "p \<equiv> cur (tbl k)"
  defines "b \<equiv> blk (tbl k) p"
  defines "cc \<equiv> \<lparr>cpsr = 0x50, pc = x, gpr = args # replicate 12 0, sp = sps (tbl k) ! nat (p - 1), lr = 0\<rparr>"
  shows "sys_exec k c x i args = Some (k\<lparr>tbl := upd (tbl k) p (b\<lparr>ctx := cc,
      prio := (if i \<noteq> 0 then (prio b)\<lparr>process_type := INTERACTIVE\<rparr> else prio b)\<rparr>)\<rparr>, cc)"
proof -
  have tw: "table_wf (tbl k)" and pv: "valid_pid p" using wf by (simp_all add: wf_table cur_valid p_def)
  define rc where "rc = (ctx b)\<lparr>pc := 0, cpsr := 0x50, gpr := replicate 13 0, sp := sps (tbl k) ! nat (p - 1), lr := 0\<rparr>"
  have r: "reset_ctx (tbl k) (ctx b) p = Some rc"
    unfolding rc_def using tw pv by (intro reset_ctx_spec) (simp_all add: table_wf_def)
  define t1 where "t1 = upd (tbl k) p (b\<lparr>ctx := rc\<lparr>pc := x\<rparr>\<rparr>)"
  have bw: "pcb_wf p b" unfolding b_def using tw pv by (rule wf_blk)
  have t1: "procs_wf t1" "cur t1 = p" unfolding t1_def
    using wf pv bw by (auto intro!: procs_wf_upd pcb_wf_ctx simp: rc_def p_def)
  have b1: "blk t1 p = b\<lparr>ctx := rc\<lparr>pc := x\<rparr>\<rparr>" using tw pv by (simp add: t1_def blk_upd)
  define b2 where "b2 = (if i \<noteq> 0 then (blk t1 p)\<lparr>prio := (prio (blk t1 p))\<lparr>process_type := INTERACTIVE\<rparr>\<rparr> else blk t1 p)"
  define t2 where "t2 = upd t1 p b2"
  have bw1: "pcb_wf p (blk t1 p)" by (rule wf_blk [OF wf_table [OF t1(1)] pv])
  have bw2: "pcb_wf p b2" using bw1 by (simp add: b2_def pcb_wf_prio)
  have t2: "procs_wf t2" "cur t2 = p" "blk t2 p = b2"
    unfolding t2_def using t1 pv bw2 by (auto intro!: procs_wf_upd simp: blk_upd wf_table)
  have t2i: "(if i \<noteq> 0 then mod_current t1 (\<lambda>b. b\<lparr>prio := (prio b)\<lparr>process_type := INTERACTIVE\<rparr>\<rparr>) else Some t1) = Some t2"
    using t1 by (simp add: mod_current_upd t2_def b2_def upd_same)
  have c2: "ctx b2 = rc\<lparr>pc := x\<rparr>" by (simp add: b2_def b1)
  have cc: "set_r0 (rc\<lparr>pc := x\<rparr>) args = Some cc"
    unfolding set_r0_def rc_def cc_def by (simp add: wr_def numeral_eq_Suc)
  have t3: "procs_wf (upd t2 p (b2\<lparr>ctx := cc\<rparr>))"
    using t2 pv bw2 by (intro procs_wf_upd pcb_wf_ctx) (simp_all add: cc_def)
  have l: "load_ctx (upd t2 p (b2\<lparr>ctx := cc\<rparr>)) = Some cc"
    using t3 t2 pv by (simp add: load_ctx_def current_pcb_blk blk_upd wf_table)
  have tail: "do { b \<leftarrow> current_pcb t2; cc \<leftarrow> set_r0 (ctx b) args; t \<leftarrow> mod_current t2 (\<lambda>b. b\<lparr>ctx := cc\<rparr>);
      c \<leftarrow> load_ctx t; Some (k\<lparr>tbl := t\<rparr>, c) } = Some (k\<lparr>tbl := upd t2 p (b2\<lparr>ctx := cc\<rparr>)\<rparr>, cc)"
    using t2 l c2 cc by (simp add: current_pcb_blk mod_current_upd)
  have "mod_current (tbl k) (\<lambda>b. b\<lparr>ctx := rc\<lparr>pc := x\<rparr>\<rparr>) = Some t1"
    using wf by (simp add: mod_current_upd t1_def b_def p_def)
  then have "sys_exec k c x i args = Some (k\<lparr>tbl := upd t2 p (b2\<lparr>ctx := cc\<rparr>)\<rparr>, cc)"
    using x wf r t2i unfolding tail [symmetric]
    by (cases "i = 0") (simp_all add: sys_exec_def current_pid_cur current_pcb_blk
        b_def [symmetric] p_def [symmetric])
  moreover have "upd t2 p B = upd (tbl k) p B" for B by (simp add: t2_def t1_def upd_upd)
  moreover have "b2\<lparr>ctx := cc\<rparr> = b\<lparr>ctx := cc,
      prio := (if i \<noteq> 0 then (prio b)\<lparr>process_type := INTERACTIVE\<rparr> else prio b)\<rparr>"
    by (simp add: b2_def b1)
  ultimately show ?thesis by simp
qed

end
