(* ===== verification/Bytes.thy ===== *)
theory Bytes
  imports Prelude
begin

text \<open>
  Little-endian byte sequences: how the ARM target and the disk's wire protocol lay out a
  32-bit value, with the contract of a fixed-width encoding (\<open>codec\<close>) and the encodings of
  arrays that any element encoding gives.
\<close>

section \<open>32-bit words\<close>

definition le32 :: "u32 \<Rightarrow> u8 list" where
  "le32 w = [ucast w, ucast (drop_bit 8 w), ucast (drop_bit 16 w), ucast (drop_bit 24 w)]"

definition word_of_bytes :: "u8 \<Rightarrow> u8 \<Rightarrow> u8 \<Rightarrow> u8 \<Rightarrow> u32" where
  "word_of_bytes x0 x1 x2 x3 =
     push_bit 0 (ucast x0) OR push_bit 8 (ucast x1) OR push_bit 16 (ucast x2) OR push_bit 24 (ucast x3)"

fun un_le32 :: "u8 list \<Rightarrow> u32" where
  "un_le32 (x0 # x1 # x2 # x3 # _) = word_of_bytes x0 x1 x2 x3"
| "un_le32 _ = 0"

lemma length_le32 [simp]: "length (le32 w) = 4"
  by (simp add: le32_def)

lemma le32_not_Nil [simp]: "le32 w \<noteq> []"
  by (simp add: le32_def)

lemma un_le32_le32 [simp]: "un_le32 (le32 w @ bs) = w"
proof (rule bit_eqI)
  fix n assume "possible_bit TYPE(u32) n"
  then have "n < 32" by simp
  then have "n < 8 \<or> 8 \<le> n \<and> n < 16 \<or> 16 \<le> n \<and> n < 24 \<or> 24 \<le> n \<and> n < 32" by linarith
  then show "bit (un_le32 (le32 w @ bs)) n \<longleftrightarrow> bit w n"
    by (elim disjE)
      (auto simp: le32_def word_of_bytes_def bit_or_iff bit_push_bit_iff bit_ucast_iff bit_drop_bit_eq
        dest: bit_imp_le_length)
qed

lemma le32_word_of_bytes: "le32 (word_of_bytes a b c d) = [a, b, c, d]"
proof -
  have "ucast (word_of_bytes a b c d) = a" "ucast (drop_bit 8 (word_of_bytes a b c d)) = b"
    "ucast (drop_bit 16 (word_of_bytes a b c d)) = c"
    "ucast (drop_bit 24 (word_of_bytes a b c d)) = d"
    by (rule bit_eqI, auto simp: word_of_bytes_def bit_or_iff bit_push_bit_iff bit_ucast_iff
        bit_drop_bit_eq dest: bit_imp_le_length)+
  then show ?thesis by (simp add: le32_def)
qed

section \<open>Fixed-width encodings\<close>

definition enc_array :: "('a \<Rightarrow> u8 list) \<Rightarrow> 'a list \<Rightarrow> u8 list" where
  "enc_array enc xs = concat (map enc xs)"

fun dec_array :: "(u8 list \<Rightarrow> 'a) \<Rightarrow> nat \<Rightarrow> nat \<Rightarrow> u8 list \<Rightarrow> 'a list" where
  "dec_array dec width 0 bs = []"
| "dec_array dec width (Suc n) bs = dec bs # dec_array dec width n (drop width bs)"

lemma length_dec_array [simp]: "length (dec_array dec width n bs) = n"
  by (induction n arbitrary: bs) auto

locale codec =
  fixes enc :: "'a \<Rightarrow> u8 list" and dec :: "u8 list \<Rightarrow> 'a"
    and width :: nat and wf :: "'a \<Rightarrow> bool"
  assumes enc_width: "wf x \<Longrightarrow> length (enc x) = width"
    and dec_enc: "wf x \<Longrightarrow> dec (enc x @ bs) = x"
begin

lemma enc_array_width:
  "\<forall>x \<in> set xs. wf x \<Longrightarrow> length (enc_array enc xs) = width * length xs"
  by (induction xs) (auto simp: enc_array_def enc_width)

lemma dec_enc_array:
  "\<forall>x \<in> set xs. wf x \<Longrightarrow> dec_array dec width (length xs) (enc_array enc xs @ bs) = xs"
  by (induction xs) (auto simp: enc_array_def enc_width dec_enc)

lemma enc_inj: "wf x \<Longrightarrow> wf y \<Longrightarrow> enc x = enc y \<Longrightarrow> x = y"
  using dec_enc [of x "[]"] dec_enc [of y "[]"] by simp

end

end
