(* ===== verification/Flags.thy ===== *)
theory Flags
  imports Prelude
begin

text \<open>
  The contract between an allocation map and the allocators that search it: marks are
  kept per index, \<open>abs\<close> is the set of marked indices, and an index that is not \<open>backed\<close>
  has no storage, so marking it has no effect. The two allocators of
  \<open>src/question/kernel/fs.c\<close> (data blocks and inodes) are clients of this contract; the
  word arrays of \<open>bitmap.c\<close> provide it.
\<close>

definition first_free :: "(int \<Rightarrow> int option) \<Rightarrow> int list \<Rightarrow> int option option" where
  "first_free test ns = find_first (\<lambda>n. do { b \<leftarrow> test n; Some (b = 0) }) ns"

locale flag_store =
  fixes mark :: "'s \<Rightarrow> int \<Rightarrow> 's option"
    and unmark :: "'s \<Rightarrow> int \<Rightarrow> 's option"
    and test :: "'s \<Rightarrow> int \<Rightarrow> int option"
    and valid :: "'s \<Rightarrow> int \<Rightarrow> bool"
    and backed :: "int \<Rightarrow> bool"
    and abs :: "'s \<Rightarrow> int set"
  assumes mark_law: "valid s n \<Longrightarrow>
      \<exists>s'. mark s n = Some s' \<and> valid s' = valid s \<and>
           abs s' = (if backed n then insert n (abs s) else abs s)"
    and unmark_law: "valid s n \<Longrightarrow>
      \<exists>s'. unmark s n = Some s' \<and> valid s' = valid s \<and> abs s' = abs s - {n}"
    and test_law: "valid s n \<Longrightarrow> test s n = Some (if n \<in> abs s then 1 else 0)"
begin

lemma first_free_find:
  "\<forall>n \<in> set ns. valid s n \<Longrightarrow> first_free (test s) ns = Some (List.find (\<lambda>n. n \<notin> abs s) ns)"
  unfolding first_free_def by (rule find_first_find) (simp add: test_law)

lemma first_free_Some:
  assumes "\<forall>n \<in> set ns. valid s n" "first_free (test s) ns = Some (Some n)"
  shows "n \<in> set ns \<and> n \<notin> abs s"
proof -
  have "List.find (\<lambda>n. n \<notin> abs s) ns = Some n"
    using assms first_free_find by simp
  then show ?thesis by (auto simp: find_Some_iff)
qed

lemma first_free_None:
  assumes "\<forall>n \<in> set ns. valid s n" "first_free (test s) ns = Some None"
  shows "set ns \<subseteq> abs s"
proof -
  have "List.find (\<lambda>n. n \<notin> abs s) ns = None"
    using assms first_free_find by simp
  then show ?thesis by (auto simp: find_None_iff)
qed

lemma alloc_fresh:
  assumes valid: "\<forall>m \<in> set ns. valid s m" and free: "first_free (test s) ns = Some (Some n)"
    and marked: "mark s n = Some s'" and backed: "backed n"
  shows "first_free (test s') ns \<noteq> Some (Some n)"
proof -
  have n: "n \<in> set ns" using first_free_Some [OF valid free] by simp
  then have "valid s' = valid s" "n \<in> abs s'"
    using mark_law [of s n] valid marked backed by auto
  then show ?thesis using first_free_Some [of ns s' n] valid by auto
qed

lemma alloc_stuck:
  assumes valid: "\<forall>m \<in> set ns. valid s m" and free: "first_free (test s) ns = Some (Some n)"
    and marked: "mark s n = Some s'" and unbacked: "\<not> backed n"
  shows "first_free (test s') ns = Some (Some n)"
proof -
  have n: "n \<in> set ns" using first_free_Some [OF valid free] by simp
  then have same: "valid s' = valid s" "abs s' = abs s"
    using mark_law [of s n] valid marked unbacked by auto
  then have "first_free (test s') ns = first_free (test s) ns"
    using first_free_find [of ns s] first_free_find [of ns s'] valid by simp
  then show ?thesis using free by simp
qed

end

end
