(* ===== verification/Bitmap.thy ===== *)
theory Bitmap
  imports Flags
begin

text \<open>
  The allocation bitmaps: \<open>src/question/kernel/bitmap.h\<close> and \<open>bitmap.c\<close>.

  \<open>BITS_PER_WORD\<close> is \<open>sizeof(word_t) * 32\<close>, that is 128 and not 32, so bit \<open>n\<close> is kept in
  word \<open>n / 128\<close> under the mask \<open>1 << (n % 128)\<close>. For a shift of 32 or more C leaves the
  result undefined; the build is for the Cortex-A8 (\<open>src/question/Makefile\<close>), whose
  register shift takes the low byte of the amount and yields 0 from 32 on, and that is
  what \<open>lsl1\<close> computes. \<open>shift_defined\<close> says where C itself defines the result.
\<close>

section \<open>The operations\<close>

definition BITS_PER_WORD :: int where
  "BITS_PER_WORD = 4 * 32"

definition WORD_OFFSET :: "int \<Rightarrow> int" where
  "WORD_OFFSET b = cdiv b BITS_PER_WORD"

definition BIT_OFFSET :: "int \<Rightarrow> int" where
  "BIT_OFFSET b = cmod b BITS_PER_WORD"

definition shift_defined :: "int \<Rightarrow> bool" where
  "shift_defined b \<longleftrightarrow> 0 \<le> b \<and> b < 32"

definition lsl1 :: "int \<Rightarrow> u32" where
  "lsl1 b = push_bit (nat (b mod 256)) 1"

definition set_bit_c :: "u32 list \<Rightarrow> int \<Rightarrow> u32 list option" where
  "set_bit_c words n = do {
     w \<leftarrow> rd words (WORD_OFFSET n);
     wr words (WORD_OFFSET n) (w OR lsl1 (BIT_OFFSET n))
   }"

definition clear_bit :: "u32 list \<Rightarrow> int \<Rightarrow> u32 list option" where
  "clear_bit words n = do {
     w \<leftarrow> rd words (WORD_OFFSET n);
     wr words (WORD_OFFSET n) (w AND NOT (lsl1 (BIT_OFFSET n)))
   }"

definition get_bit :: "u32 list \<Rightarrow> int \<Rightarrow> int option" where
  "get_bit words n = do {
     w \<leftarrow> rd words (WORD_OFFSET n);
     Some (if w AND lsl1 (BIT_OFFSET n) \<noteq> 0 then 1 else 0)
   }"

section \<open>The set a bitmap stands for\<close>

text \<open>An index is backed when the bitmap has a bit for it: its shift stays inside the word.\<close>

definition backed :: "int \<Rightarrow> bool" where
  "backed n \<longleftrightarrow> 0 \<le> n \<and> n mod 128 < 32"

definition in_bitmap :: "u32 list \<Rightarrow> int \<Rightarrow> bool" where
  "in_bitmap ws n \<longleftrightarrow> 0 \<le> n \<and> n < 128 * int (length ws)"

definition bits :: "u32 list \<Rightarrow> int set" where
  "bits ws = {n. in_bitmap ws n \<and> backed n \<and> bit (ws ! nat (n div 128)) (nat (n mod 128))}"

lemma bits_zero [simp]: "bits (replicate n 0) = {}"
  by (auto simp: bits_def in_bitmap_def)

lemma offset_simps [c_simps]:
  "0 \<le> n \<Longrightarrow> WORD_OFFSET n = n div 128"
  "0 \<le> n \<Longrightarrow> BIT_OFFSET n = n mod 128"
  by (simp_all add: WORD_OFFSET_def BIT_OFFSET_def BITS_PER_WORD_def cdiv_nonneg cmod_nonneg)

lemma bit_lsl1:
  assumes "0 \<le> b" "b < 128"
  shows "bit (lsl1 b) k \<longleftrightarrow> int k = b \<and> b < 32"
proof -
  from assms have "b mod 256 = b" by simp
  then show ?thesis
    using assms by (auto simp: lsl1_def bit_exp_iff)
qed

lemma lsl1_zero: "0 \<le> b \<Longrightarrow> b < 128 \<Longrightarrow> 32 \<le> b \<Longrightarrow> lsl1 b = 0"
  by (rule bit_eqI) (simp add: bit_lsl1)

lemma and_lsl1:
  assumes "0 \<le> b" "b < 128"
  shows "w AND lsl1 b \<noteq> 0 \<longleftrightarrow> b < 32 \<and> bit w (nat b)"
  unfolding word_nonzero_bit using assms
  by (auto simp: bit_and_iff bit_lsl1 intro: exI [of _ "nat b"])

lemma in_bitmap_word: "in_bitmap ws n \<Longrightarrow> 0 \<le> n div 128 \<and> n div 128 < int (length ws)"
  by (auto simp: in_bitmap_def)

lemma get_bit_bits:
  assumes "in_bitmap ws n"
  shows "get_bit ws n = Some (if n \<in> bits ws then 1 else 0)"
proof -
  have "0 \<le> n" using assms by (simp add: in_bitmap_def)
  then show ?thesis
    using assms in_bitmap_word [OF assms]
    by (simp add: get_bit_def c_simps and_lsl1 bits_def backed_def)
qed

text \<open>The word of an index, and the bit of the index inside it, under one update.\<close>

lemma bits_update:
  assumes n: "in_bitmap ws n" and m: "in_bitmap ws m" "backed m"
    and w: "\<And>k. k < 32 \<Longrightarrow> bit w k \<longleftrightarrow>
      (if int k = n mod 128 then v else bit (ws ! nat (n div 128)) k)"
  shows "m \<in> bits (ws[nat (n div 128) := w]) \<longleftrightarrow> (if m = n then v else m \<in> bits ws)"
proof -
  have pos: "0 \<le> n" "0 \<le> m" using n m by (simp_all add: in_bitmap_def)
  have len: "nat (n div 128) < length ws"
    using in_bitmap_word [OF n] by linarith
  have k: "nat (m mod 128) < 32" using m pos by (auto simp: backed_def)
  have mem: "m \<in> bits ws' \<longleftrightarrow> bit (ws' ! nat (m div 128)) (nat (m mod 128))"
    if "length ws' = length ws" for ws'
    using that m by (simp add: bits_def in_bitmap_def)
  show ?thesis
  proof (cases "m div 128 = n div 128")
    case True
    then have "m = n \<longleftrightarrow> m mod 128 = n mod 128" by (metis mult_div_mod_eq)
    with True show ?thesis using w [OF k] len pos by (simp add: mem)
  next
    case False
    then have "m \<noteq> n" "nat (m div 128) \<noteq> nat (n div 128)"
      using pos by (auto simp: nat_eq_iff)
    then show ?thesis by (simp add: mem)
  qed
qed

lemma bits_eqI:
  assumes "length ws' = length ws"
    and "\<And>m. in_bitmap ws m \<Longrightarrow> backed m \<Longrightarrow> m \<in> bits ws' \<longleftrightarrow> m \<in> bits ws \<and> m \<notin> D \<or> m \<in> A"
    and "\<And>m. m \<in> A \<Longrightarrow> in_bitmap ws m \<and> backed m"
  shows "bits ws' = bits ws - D \<union> A"
proof (intro set_eqI)
  fix m
  have "in_bitmap ws' m = in_bitmap ws m" using assms(1) by (simp add: in_bitmap_def)
  then show "m \<in> bits ws' \<longleftrightarrow> m \<in> bits ws - D \<union> A"
    using assms(2) [of m] assms(3) [of m]
    by (cases "in_bitmap ws m \<and> backed m") (auto simp: bits_def)
qed

lemma set_bit_c_bits:
  assumes n: "in_bitmap ws n"
  shows "\<exists>ws'. set_bit_c ws n = Some ws' \<and> length ws' = length ws \<and>
           bits ws' = (if backed n then insert n (bits ws) else bits ws)"
proof -
  let ?w = "ws ! nat (n div 128) OR lsl1 (n mod 128)"
  let ?ws = "ws[nat (n div 128) := ?w]"
  have pos: "0 \<le> n" using n by (simp add: in_bitmap_def)
  have "set_bit_c ws n = Some ?ws"
    using pos in_bitmap_word [OF n] by (simp add: set_bit_c_def c_simps)
  moreover have "bits ?ws = bits ws - {} \<union> (if backed n then {n} else {})"
  proof (rule bits_eqI)
    fix m assume m: "in_bitmap ws m" "backed m"
    have "m \<in> bits ?ws \<longleftrightarrow> (if m = n then True else m \<in> bits ws)" if "backed n"
      using that pos by (intro bits_update n m) (auto simp: bit_or_iff bit_lsl1 backed_def)
    moreover have "?ws = ws" if "\<not> backed n"
      using that pos by (simp add: lsl1_zero backed_def)
    ultimately show "m \<in> bits ?ws \<longleftrightarrow>
        m \<in> bits ws \<and> m \<notin> {} \<or> m \<in> (if backed n then {n} else {})"
      using m by (cases "backed n") auto
  qed (use n in \<open>auto split: if_splits\<close>)
  ultimately show ?thesis by auto
qed

lemma clear_bit_bits:
  assumes n: "in_bitmap ws n"
  shows "\<exists>ws'. clear_bit ws n = Some ws' \<and> length ws' = length ws \<and> bits ws' = bits ws - {n}"
proof -
  let ?w = "ws ! nat (n div 128) AND NOT (lsl1 (n mod 128))"
  let ?ws = "ws[nat (n div 128) := ?w]"
  have pos: "0 \<le> n" using n by (simp add: in_bitmap_def)
  have "clear_bit ws n = Some ?ws"
    using pos in_bitmap_word [OF n] by (simp add: clear_bit_def c_simps)
  moreover have "bits ?ws = bits ws - {n} \<union> {}"
  proof (rule bits_eqI)
    fix m assume m: "in_bitmap ws m" "backed m"
    have "m \<in> bits ?ws \<longleftrightarrow> (if m = n then False else m \<in> bits ws)"
      using pos by (intro bits_update n m) (auto simp: bit_and_iff bit_not_iff bit_lsl1)
    then show "m \<in> bits ?ws \<longleftrightarrow> m \<in> bits ws \<and> m \<notin> {n} \<or> m \<in> {}" by auto
  qed auto
  ultimately show ?thesis by auto
qed

lemma in_bitmap_cong: "length ws' = length ws \<Longrightarrow> in_bitmap ws' = in_bitmap ws"
  by (rule ext) (simp add: in_bitmap_def)

interpretation bm: flag_store set_bit_c clear_bit get_bit in_bitmap backed bits
proof unfold_locales
  fix ws n assume n: "in_bitmap ws n"
  show "\<exists>s'. set_bit_c ws n = Some s' \<and> in_bitmap s' = in_bitmap ws \<and>
      bits s' = (if backed n then insert n (bits ws) else bits ws)"
    using set_bit_c_bits [OF n] in_bitmap_cong by blast
  show "\<exists>s'. clear_bit ws n = Some s' \<and> in_bitmap s' = in_bitmap ws \<and> bits s' = bits ws - {n}"
    using clear_bit_bits [OF n] in_bitmap_cong by blast
  show "get_bit ws n = Some (if n \<in> bits ws then 1 else 0)"
    by (rule get_bit_bits [OF n])
qed

end
