(* ===== verification/Layout.thy ===== *)
theory Layout
  imports Bytes Bitmap
begin

text \<open>
  The on-disk structures of \<open>src/question/kernel/fs.h\<close> and their bytes: the code casts a pointer to
  the structure to \<open>uint8_t*\<close> and copies \<open>sizeof\<close> bytes to or from blocks, so the layout is
  the one of the little-endian ARM target, without padding (every field is a multiple of 4
  bytes, aligned at 4). Each structure is a \<open>codec\<close>: what is written is read back.
\<close>

section \<open>Constants\<close>

definition MAX_INODE_BLOCKS :: int where "MAX_INODE_BLOCKS = 6"
definition MAX_NUMBER_OF_BLOCKS :: int where "MAX_NUMBER_OF_BLOCKS = 16384"
definition MIN_BLOCK_LENGTH :: int where "MIN_BLOCK_LENGTH = 16"
definition MAX_NUMBER_OF_INODES :: int where "MAX_NUMBER_OF_INODES = cdiv MAX_NUMBER_OF_BLOCKS MIN_BLOCK_LENGTH"
definition MAX_BLOCK_LEN :: int where "MAX_BLOCK_LEN = 1024"
definition MAX_BLOCK_BITMAP_SIZE :: int where "MAX_BLOCK_BITMAP_SIZE = cdiv (MAX_NUMBER_OF_BLOCKS + BITS_PER_WORD - 1) BITS_PER_WORD"
definition MAX_INODE_BITMAP_SIZE :: int where "MAX_INODE_BITMAP_SIZE = cdiv (MAX_NUMBER_OF_INODES + BITS_PER_WORD - 1) BITS_PER_WORD"
definition INODE_UNALLOCATED :: int where "INODE_UNALLOCATED = 0"
definition INODE_FILE :: int where "INODE_FILE = 1"
definition INODE_DIRECTORY :: int where "INODE_DIRECTORY = 2"
definition INODE_DEVICE :: int where "INODE_DEVICE = 3"
definition MAX_PATH_LENGTH :: int where "MAX_PATH_LENGTH = 1024"
definition MAX_FILE_NAME_LENGTH :: int where "MAX_FILE_NAME_LENGTH = 100"
definition MAX_FILES_IN_DIRECTORY :: int where "MAX_FILES_IN_DIRECTORY = 10"
definition READ :: int where "READ = 0"
definition WRITE :: int where "WRITE = 1"
definition READ_WRITE :: int where "READ_WRITE = 2"
definition READ_GLOBAL :: int where "READ_GLOBAL = 3"
definition WRITE_GLOBAL :: int where "WRITE_GLOBAL = 4"

lemmas inode_types = INODE_UNALLOCATED_def INODE_FILE_def INODE_DIRECTORY_def INODE_DEVICE_def

text \<open>The lengths of the two bitmaps in the superblock.\<close>

lemma MAX_NUMBER_OF_INODES_eq: "MAX_NUMBER_OF_INODES = 1024"
  by (simp add: MAX_NUMBER_OF_INODES_def MAX_NUMBER_OF_BLOCKS_def MIN_BLOCK_LENGTH_def cdiv_nonneg)

lemma bitmap_sizes: "MAX_INODE_BITMAP_SIZE = 8" "MAX_BLOCK_BITMAP_SIZE = 128"
  by (simp_all add: MAX_INODE_BITMAP_SIZE_def MAX_BLOCK_BITMAP_SIZE_def MAX_NUMBER_OF_INODES_eq MAX_NUMBER_OF_BLOCKS_def BITS_PER_WORD_def cdiv_nonneg)

lemmas fs_consts = MAX_INODE_BLOCKS_def MAX_NUMBER_OF_BLOCKS_def MAX_NUMBER_OF_INODES_eq
  MAX_BLOCK_LEN_def MAX_PATH_LENGTH_def MAX_FILE_NAME_LENGTH_def MAX_FILES_IN_DIRECTORY_def

section \<open>Structures\<close>

record superblock_t =
  disk_block_num :: int
  disk_block_length :: int
  inode_num :: int
  inode_start :: u32
  free_inode_bitmap :: "u32 list"
  data_block_start :: u32
  free_block_bitmap :: "u32 list"

record inode_t =
  ino_id :: int
  ino_type :: int
  ino_size :: int
  blocks_allocated :: int
  creation_time :: u32
  modification_time :: u32
  blocks :: "u32 list"

record file_stat_t =
  stat_type :: int
  stat_size :: int
  stat_creation_time :: u32
  stat_modification_time :: u32

record file_link_t =
  link_inode_id :: int
  filename :: "u8 list"

record directory_t =
  files_count :: int
  links :: "file_link_t list"

definition sizeof_superblock :: int where "sizeof_superblock = 564"
definition sizeof_inode :: int where "sizeof_inode = 48"
definition sizeof_directory :: int where "sizeof_directory = 1044"

lemmas sizeofs = sizeof_superblock_def sizeof_inode_def sizeof_directory_def

section \<open>Bytes of a structure\<close>

definition enc_int :: "int \<Rightarrow> u8 list" where
  "enc_int x = le32 (u32_of_int x)"

definition dec_int :: "u8 list \<Rightarrow> int" where
  "dec_int bs = int_of_u32 (un_le32 bs)"

definition enc_superblock :: "superblock_t \<Rightarrow> u8 list" where
  "enc_superblock b =
     enc_int (disk_block_num b) @ enc_int (disk_block_length b) @ enc_int (inode_num b) @
     le32 (inode_start b) @ enc_array le32 (free_inode_bitmap b) @ le32 (data_block_start b) @
     enc_array le32 (free_block_bitmap b)"

definition dec_superblock :: "u8 list \<Rightarrow> superblock_t" where
  "dec_superblock bs =
     \<lparr>disk_block_num = dec_int bs, disk_block_length = dec_int (drop 4 bs),
      inode_num = dec_int (drop 8 bs), inode_start = un_le32 (drop 12 bs),
      free_inode_bitmap = dec_array un_le32 4 8 (drop 16 bs),
      data_block_start = un_le32 (drop 48 bs),
      free_block_bitmap = dec_array un_le32 4 128 (drop 52 bs)\<rparr>"

definition enc_inode :: "inode_t \<Rightarrow> u8 list" where
  "enc_inode i =
     enc_int (ino_id i) @ enc_int (ino_type i) @ enc_int (ino_size i) @ enc_int (blocks_allocated i) @
     le32 (creation_time i) @ le32 (modification_time i) @ enc_array le32 (blocks i)"

definition dec_inode :: "u8 list \<Rightarrow> inode_t" where
  "dec_inode bs =
     \<lparr>ino_id = dec_int bs, ino_type = dec_int (drop 4 bs), ino_size = dec_int (drop 8 bs),
      blocks_allocated = dec_int (drop 12 bs), creation_time = un_le32 (drop 16 bs),
      modification_time = un_le32 (drop 20 bs), blocks = dec_array un_le32 4 6 (drop 24 bs)\<rparr>"

definition enc_file_stat :: "file_stat_t \<Rightarrow> u8 list" where
  "enc_file_stat s =
     enc_int (stat_type s) @ enc_int (stat_size s) @ le32 (stat_creation_time s) @ le32 (stat_modification_time s)"

definition dec_file_stat :: "u8 list \<Rightarrow> file_stat_t" where
  "dec_file_stat bs =
     \<lparr>stat_type = dec_int bs, stat_size = dec_int (drop 4 bs),
      stat_creation_time = un_le32 (drop 8 bs), stat_modification_time = un_le32 (drop 12 bs)\<rparr>"

definition enc_link :: "file_link_t \<Rightarrow> u8 list" where
  "enc_link l = enc_int (link_inode_id l) @ filename l"

definition dec_link :: "u8 list \<Rightarrow> file_link_t" where
  "dec_link bs = \<lparr>link_inode_id = dec_int bs, filename = take 100 (drop 4 bs)\<rparr>"

definition enc_directory :: "directory_t \<Rightarrow> u8 list" where
  "enc_directory d = enc_int (files_count d) @ enc_array enc_link (links d)"

definition dec_directory :: "u8 list \<Rightarrow> directory_t" where
  "dec_directory bs = \<lparr>files_count = dec_int bs, links = dec_array dec_link 104 10 (drop 4 bs)\<rparr>"

section \<open>Well-formed structures\<close>

definition superblock_wf :: "superblock_t \<Rightarrow> bool" where
  "superblock_wf b \<longleftrightarrow> is_i32 (disk_block_num b) \<and> is_i32 (disk_block_length b) \<and> is_i32 (inode_num b) \<and>
     length (free_inode_bitmap b) = 8 \<and> length (free_block_bitmap b) = 128"

definition inode_wf :: "inode_t \<Rightarrow> bool" where
  "inode_wf i \<longleftrightarrow> is_i32 (ino_id i) \<and> is_i32 (ino_type i) \<and> is_i32 (ino_size i) \<and>
     is_i32 (blocks_allocated i) \<and> length (blocks i) = 6"

definition file_stat_wf :: "file_stat_t \<Rightarrow> bool" where
  "file_stat_wf s \<longleftrightarrow> is_i32 (stat_type s) \<and> is_i32 (stat_size s)"

definition link_wf :: "file_link_t \<Rightarrow> bool" where
  "link_wf l \<longleftrightarrow> is_i32 (link_inode_id l) \<and> length (filename l) = 100"

definition directory_wf :: "directory_t \<Rightarrow> bool" where
  "directory_wf d \<longleftrightarrow> is_i32 (files_count d) \<and> length (links d) = 10 \<and> (\<forall>l \<in> set (links d). link_wf l)"

section \<open>The encodings are codecs\<close>

lemma length_enc_int [simp]: "length (enc_int x) = 4"
  by (simp add: enc_int_def)

interpretation w32: codec le32 un_le32 4 "\<lambda>_. True"
  by unfold_locales simp_all

interpretation cint: codec enc_int dec_int 4 is_i32
  by unfold_locales (simp_all add: enc_int_def dec_int_def c_simps)

lemma u32s_width [simp]: "length (enc_array le32 ws) = 4 * length ws"
  by (rule w32.enc_array_width) simp

lemma u32s_dec: "length ws = n \<Longrightarrow> dec_array un_le32 4 n (enc_array le32 ws @ bs) = ws"
  using w32.dec_enc_array [of ws bs] by simp

lemmas dec_enc_int = cint.dec_enc [simplified]

interpretation sbc: codec enc_superblock dec_superblock 564 superblock_wf
proof unfold_locales
  fix b bs assume wf: "superblock_wf b"
  then show "length (enc_superblock b) = 564" by (simp add: enc_superblock_def superblock_wf_def)
  show "dec_superblock (enc_superblock b @ bs) = b"
    using wf u32s_dec [of "free_inode_bitmap b" 8] u32s_dec [of "free_block_bitmap b" 128]
    by (cases b) (simp add: enc_superblock_def dec_superblock_def superblock_wf_def cint.dec_enc)
qed

interpretation inc: codec enc_inode dec_inode 48 inode_wf
proof unfold_locales
  fix i bs assume wf: "inode_wf i"
  then show "length (enc_inode i) = 48" by (simp add: enc_inode_def inode_wf_def)
  show "dec_inode (enc_inode i @ bs) = i"
    using wf u32s_dec [of "blocks i" 6]
    by (cases i) (simp add: enc_inode_def dec_inode_def inode_wf_def cint.dec_enc)
qed

interpretation stc: codec enc_file_stat dec_file_stat 16 file_stat_wf
proof unfold_locales
  fix s bs assume wf: "file_stat_wf s"
  then show "length (enc_file_stat s) = 16" by (simp add: enc_file_stat_def)
  show "dec_file_stat (enc_file_stat s @ bs) = s"
    using wf by (cases s) (simp add: enc_file_stat_def dec_file_stat_def file_stat_wf_def cint.dec_enc)
qed

interpretation lnc: codec enc_link dec_link 104 link_wf
proof unfold_locales
  fix l bs assume wf: "link_wf l"
  then show "length (enc_link l) = 104" by (simp add: enc_link_def link_wf_def)
  show "dec_link (enc_link l @ bs) = l"
    using wf by (cases l) (simp add: enc_link_def dec_link_def link_wf_def cint.dec_enc)
qed

interpretation drc: codec enc_directory dec_directory 1044 directory_wf
proof unfold_locales
  fix d bs assume wf: "directory_wf d"
  then show "length (enc_directory d) = 1044"
    by (simp add: enc_directory_def directory_wf_def lnc.enc_array_width)
  show "dec_directory (enc_directory d @ bs) = d"
    using wf lnc.dec_enc_array [of "links d" bs]
    by (cases d) (simp add: enc_directory_def dec_directory_def directory_wf_def cint.dec_enc)
qed

section \<open>What any 564, 48 or 1044 bytes decode to\<close>

lemma dec_int_i32 [simp]: "is_i32 (dec_int bs)"
  using int_of_u32_range by (simp add: dec_int_def)

lemma dec_superblock_wf [simp]: "superblock_wf (dec_superblock bs)"
  using dec_int_i32 by (simp add: dec_superblock_def superblock_wf_def)

lemma dec_inode_wf [simp]: "inode_wf (dec_inode bs)"
  using dec_int_i32 by (simp add: dec_inode_def inode_wf_def)

lemma dec_links_wf:
  "104 * n \<le> length bs \<Longrightarrow> \<forall>l \<in> set (dec_array dec_link 104 n bs). link_wf l"
proof (induction n arbitrary: bs)
  case (Suc n)
  have "link_wf (dec_link bs)" using dec_int_i32 Suc.prems by (simp add: dec_link_def link_wf_def)
  then show ?case using Suc.IH [of "drop 104 bs"] Suc.prems by simp
qed simp

lemma dec_directory_wf: "length bs = 1044 \<Longrightarrow> directory_wf (dec_directory bs)"
  using dec_links_wf [of 10 "drop 4 bs"] dec_int_i32 by (simp add: dec_directory_def directory_wf_def)

end
