(* ===== verification/Disk_Server.thy ===== *)
theory Disk_Server
  imports Serial Bytes
begin

text \<open>
  The emulated disk at the other end of UART2, \<open>src/question/device/disk.py\<close>: a process
  that reads one request per line, works on an image file and answers with one line.

  \<^item> \<open>img\<close> is the image file, \<open>block_num\<close> and \<open>block_len\<close> are the command-line arguments,
    \<open>line\<close> the request received so far.
  \<^item> A request the Python code raises an exception on (a missing field, an odd number of
    hexadecimal digits, a negative seek) ends the process: \<open>alive\<close> becomes false and the
    line stays silent from then on.
  \<^item> \<open>os.write\<close> to a regular file writes all the data, past the end by extending the file,
    so the check for a short write never fires; logging and \<open>fsync\<close> are not modelled.
\<close>

record disk_server =
  img :: "u8 list"
  block_num :: int
  block_len :: int
  line :: "u8 list"
  alive :: bool

section \<open>Python library functions\<close>

definition hexlify :: "u8 list \<Rightarrow> u8 list" where
  "hexlify bs = concat (map (\<lambda>x. [bstr ''0123456789abcdef'' ! nat (uint x div 16),
                                   bstr ''0123456789abcdef'' ! nat (uint x mod 16)]) bs)"

fun unhexlify :: "u8 list \<Rightarrow> u8 list option" where
  "unhexlify [] = Some []"
| "unhexlify [c] = None"
| "unhexlify (c1 # c2 # cs) =
     (if xtoi c1 < 0 \<or> xtoi c2 < 0 then None
      else map_option ((#) (byte_of_digits c1 c2)) (unhexlify cs))"

definition pack_l :: "int \<Rightarrow> u8 list option" where
  "pack_l n = (if is_i32 n then Some (le32 (u32_of_int n)) else None)"

definition unpack_l :: "u8 list \<Rightarrow> int option" where
  "unpack_l bs = (if length bs = 4 then Some (int_of_u32 (un_le32 bs)) else None)"

definition py_space :: "u8 \<Rightarrow> bool" where
  "py_space c \<longleftrightarrow> c \<in> {32, 9, 10, 11, 12, 13}"

definition strip :: "u8 list \<Rightarrow> u8 list" where
  "strip s = rev (dropWhile py_space (rev (dropWhile py_space s)))"

fun split_space :: "u8 list \<Rightarrow> u8 list list" where
  "split_space [] = [[]]"
| "split_space (c # cs) =
     (if c = 32 then [] # split_space cs
      else case split_space cs of [] \<Rightarrow> [[c]] | f # fs \<Rightarrow> (c # f) # fs)"

section \<open>Requests\<close>

definition REQ_CONF :: "u8 list" where "REQ_CONF = bstr ''00''"
definition REQ_WR :: "u8 list" where "REQ_WR = bstr ''01''"
definition REQ_RD :: "u8 list" where "REQ_RD = bstr ''02''"
definition ACK_OKAY :: "u8 list" where "ACK_OKAY = bstr ''00''"
definition ACK_FAIL :: "u8 list" where "ACK_FAIL = bstr ''01''"

lemmas disk_codes = REQ_CONF_def REQ_WR_def REQ_RD_def ACK_OKAY_def ACK_FAIL_def

definition conf :: "disk_server \<Rightarrow> (u8 list list \<times> disk_server) option" where
  "conf s = do {
     a \<leftarrow> pack_l (block_num s);
     b \<leftarrow> pack_l (block_len s);
     Some ([ACK_OKAY, a @ b], s)
   }"

definition file_write :: "nat \<Rightarrow> u8 list \<Rightarrow> u8 list \<Rightarrow> u8 list" where
  "file_write off bs f =
     take off f @ replicate (off - length f) 0 @ bs @ drop (off + length bs) f"

definition file_read :: "nat \<Rightarrow> nat \<Rightarrow> u8 list \<Rightarrow> u8 list" where
  "file_read off n f = take n (drop off f)"

definition wr_req :: "disk_server \<Rightarrow> u8 list list \<Rightarrow> (u8 list list \<times> disk_server) option" where
  "wr_req s req = do {
     r1 \<leftarrow> rd req 1;
     b1 \<leftarrow> unhexlify r1;
     address \<leftarrow> unpack_l b1;
     r2 \<leftarrow> rd req 2;
     bs \<leftarrow> unhexlify r2;
     if address \<ge> block_num s then Some ([ACK_FAIL], s)
     else if int (length bs) \<noteq> block_len s then Some ([ACK_FAIL], s)
     else if address * block_len s < 0 then None
     else Some ([ACK_OKAY], s\<lparr>img := file_write (nat (address * block_len s)) bs (img s)\<rparr>)
   }"

definition rd_req :: "disk_server \<Rightarrow> u8 list list \<Rightarrow> (u8 list list \<times> disk_server) option" where
  "rd_req s req = do {
     r1 \<leftarrow> rd req 1;
     b1 \<leftarrow> unhexlify r1;
     address \<leftarrow> unpack_l b1;
     if address \<ge> block_num s then Some ([ACK_FAIL], s)
     else if address * block_len s < 0 \<or> block_len s < 0 then None
     else let bs = file_read (nat (address * block_len s)) (nat (block_len s)) (img s) in
       if int (length bs) \<noteq> block_len s then Some ([ACK_FAIL], s)
       else Some ([ACK_OKAY, bs], s)
   }"

definition serve :: "disk_server \<Rightarrow> u8 list \<Rightarrow> (u8 list \<times> disk_server) option" where
  "serve s l = do {
     let req = split_space (strip l);
     (ack, s') \<leftarrow>
       (if req ! 0 = REQ_CONF then conf s
        else if req ! 0 = REQ_WR then wr_req s req
        else if req ! 0 = REQ_RD then rd_req s req
        else Some ([ACK_FAIL], s));
     Some ((if length ack > 1 then ack ! 0 @ bstr '' '' @ hexlify (ack ! 1) else ack ! 0) @ [10], s')
   }"

definition disk_react :: "disk_server \<Rightarrow> u8 \<Rightarrow> disk_server \<times> u8 list" where
  "disk_react s c =
     (if \<not> alive s then (s, [])
      else if c \<noteq> 10 then (s\<lparr>line := line s @ [c]\<rparr>, [])
      else case serve (s\<lparr>line := []\<rparr>) (line s) of
             None \<Rightarrow> (s\<lparr>line := [], alive := False\<rparr>, [])
           | Some (reply, s') \<Rightarrow> (s', reply))"

section \<open>Parsing what the driver sends\<close>

lemma hex_no_space: "c \<in> set (hex x) \<Longrightarrow> c \<noteq> 32 \<and> \<not> py_space c"
proof -
  have "itox v \<noteq> 32 \<and> \<not> py_space (itox v)" if "0 \<le> v" "v \<le> 15" for v
  proof -
    have "xtoi (itox v) \<ge> 0" using that by (simp add: xtoi_itox)
    then show ?thesis by (auto simp: xtoi_def py_space_def bstr_def split: if_splits)
  qed
  then show "c \<in> set (hex x) \<Longrightarrow> c \<noteq> 32 \<and> \<not> py_space c"
    using uint_u8 [of x] by (auto simp: hex_def)
qed

lemma xtoi_hex: "xtoi (hex x ! 0) \<ge> 0" "xtoi (hex x ! 1) \<ge> 0"
  using uint_u8 [of x] by (simp_all add: hex_def xtoi_itox)

lemma hex_nth: "hex x = [hex x ! 0, hex x ! 1]"
  by (simp add: hex_def)

lemma unhexlify_hex: "unhexlify (concat (map hex bs)) = Some bs"
proof (induction bs)
  case (Cons b bs)
  have "unhexlify (hex b @ concat (map hex bs)) = Some (b # bs)"
    using Cons xtoi_hex [of b] byte_of_hex [of b] by (subst hex_nth) (simp add: not_less)
  then show ?case by simp
qed simp

lemma split_space_word:
  "32 \<notin> set w \<Longrightarrow> split_space w = [w]"
  "32 \<notin> set w \<Longrightarrow> split_space (w @ 32 # cs) = w # split_space cs"
  by (induction w) auto

lemma strip_id:
  assumes "s \<noteq> []" "\<not> py_space (hd s)" "\<not> py_space (last s)"
  shows "strip s = s"
proof -
  have "dropWhile py_space s = s" using assms by (cases s) auto
  moreover have "dropWhile py_space (rev s) = rev s"
    using assms by (cases s rule: rev_cases) auto
  ultimately show ?thesis by (simp add: strip_def)
qed

lemma lower_digit: "0 \<le> v \<Longrightarrow> v \<le> 15 \<Longrightarrow> xtoi (bstr ''0123456789abcdef'' ! nat v) = v"
proof -
  assume "0 \<le> v" "v \<le> 15"
  then have "v = 0 \<or> v = 1 \<or> v = 2 \<or> v = 3 \<or> v = 4 \<or> v = 5 \<or> v = 6 \<or> v = 7 \<or>
      v = 8 \<or> v = 9 \<or> v = 10 \<or> v = 11 \<or> v = 12 \<or> v = 13 \<or> v = 14 \<or> v = 15"
    by presburger
  then show ?thesis
    by (elim disjE) (simp_all add: xtoi_def bstr_def)
qed

lemma hexlify_Nil [simp]: "hexlify [] = []"
  by (simp add: hexlify_def)

lemma hexlify_append: "hexlify (xs @ ys) = hexlify xs @ hexlify ys"
  by (simp add: hexlify_def)

lemma hexlify_byte: "\<exists>c1 c2. hexlify [b] = [c1, c2] \<and> byte_of_digits c1 c2 = b"
  using uint_u8 [of b]
  by (auto simp: hexlify_def intro!: byte_of_nibbles lower_digit)

lemma hexes_no_space: "c \<in> set (concat (map hex bs)) \<Longrightarrow> \<not> py_space c"
  using hex_no_space by auto

lemma request_fields:
  assumes "op \<in> {0, 1, 2}" "data \<noteq> []"
  shows "split_space (strip (hex op @ 32 # concat (map hex a) @ 32 # concat (map hex data)))
    = [hex op, concat (map hex a), concat (map hex data)]"
proof -
  let ?l = "hex op @ 32 # concat (map hex a) @ 32 # concat (map hex data)"
  have ns: "32 \<notin> set (hex b)" "32 \<notin> set (concat (map hex bs))" for b bs
    using hex_no_space by auto
  have "concat (map hex data) \<noteq> []" using assms(2) by (simp add: hex_def)
  then have "last ?l = last (concat (map hex data))" "concat (map hex data) \<noteq> []"
    by (simp_all only: last_append last.simps append_is_Nil_conv list.distinct if_False simp_thms)
  then have "last ?l \<in> set (concat (map hex data))" by (simp only: last_in_set not_False_eq_True)
  then have "\<not> py_space (last ?l)" by (rule hexes_no_space)
  moreover have "hd ?l \<in> set (hex op)" by (simp add: hex_def)
  then have "\<not> py_space (hd ?l)" using hex_no_space by blast
  ultimately have "strip ?l = ?l" by (intro strip_id) auto
  then show ?thesis using ns by (simp add: split_space_word)
qed

lemma request_fields_short:
  assumes "op \<in> {0, 1, 2}" "a \<noteq> []"
  shows "split_space (strip (hex op @ 32 # concat (map hex a))) = [hex op, concat (map hex a)]"
proof -
  let ?l = "hex op @ 32 # concat (map hex a)"
  have ns: "32 \<notin> set (hex b)" "32 \<notin> set (concat (map hex bs))" for b bs
    using hex_no_space by auto
  have "concat (map hex a) \<noteq> []" using assms(2) by (simp add: hex_def)
  then have "last ?l = last (concat (map hex a))" "concat (map hex a) \<noteq> []"
    by (simp_all only: last_append last.simps append_is_Nil_conv list.distinct if_False simp_thms)
  then have "last ?l \<in> set (concat (map hex a))" by (simp only: last_in_set not_False_eq_True)
  then have "\<not> py_space (last ?l)" by (rule hexes_no_space)
  moreover have "hd ?l \<in> set (hex op)" by (simp add: hex_def)
  then have "\<not> py_space (hd ?l)" using hex_no_space by blast
  ultimately have "strip ?l = ?l" by (intro strip_id) auto
  then show ?thesis using ns by (simp add: split_space_word)
qed

lemma hex_ops: "hex 0 = bstr ''00''" "hex 1 = bstr ''01''" "hex 2 = bstr ''02''"
  by (simp_all add: hex_def itox_def bstr_def)

lemma unpack_le32: "unpack_l (le32 a) = Some (int_of_u32 a)"
  using un_le32_le32 [of a "[]"] by (simp add: unpack_l_def)

lemma serve_wr:
  assumes "data \<noteq> []"
  shows "serve s (hex 1 @ 32 # concat (map hex (le32 a)) @ 32 # concat (map hex data)) =
    (if int_of_u32 a \<ge> block_num s \<or> int (length data) \<noteq> block_len s then Some (bstr ''01'' @ [10], s)
     else if int_of_u32 a * block_len s < 0 then None
     else Some (bstr ''00'' @ [10],
       s\<lparr>img := file_write (nat (int_of_u32 a * block_len s)) data (img s)\<rparr>))"
  using assms request_fields [of 1 data "le32 a"]
  by (simp add: serve_def wr_req_def rd_def unhexlify_hex unpack_le32 hex_ops disk_codes bstr_def)

lemma strip_trailing_blank:
  assumes "s \<noteq> []" "\<not> py_space (hd s)" "\<not> py_space (last s)"
  shows "strip (s @ [32]) = s"
proof -
  have "dropWhile py_space (s @ [32]) = s @ [32]" using assms by (cases s) auto
  moreover have "dropWhile py_space (rev s) = rev s"
    using assms by (cases s rule: rev_cases) auto
  ultimately show ?thesis by (simp add: strip_def py_space_def)
qed

lemma serve_wr_empty: "serve s (hex 1 @ 32 # concat (map hex (le32 a)) @ [32]) = None"
proof -
  let ?l = "hex 1 @ 32 # concat (map hex (le32 a))"
  have ne: "concat (map hex (le32 a)) \<noteq> []" by (simp add: hex_def le32_def)
  then have "last ?l \<in> set (concat (map hex (le32 a)))" by (simp only: last_append last.simps append_is_Nil_conv list.distinct if_False simp_thms last_in_set not_False_eq_True)
  then have "\<not> py_space (last ?l)" by (rule hexes_no_space)
  moreover have "hd ?l \<in> set (hex 1)" by (simp add: hex_def)
  then have "\<not> py_space (hd ?l)" using hex_no_space by blast
  ultimately have l: "strip (?l @ [32]) = ?l" by (intro strip_trailing_blank) auto
  moreover have "strip ?l = ?l" using \<open>\<not> py_space (last ?l)\<close> \<open>\<not> py_space (hd ?l)\<close> by (intro strip_id) auto
  ultimately have "split_space (strip (?l @ [32])) = [hex 1, concat (map hex (le32 a))]"
    using request_fields_short [of 1 "le32 a"] by (simp add: le32_def)
  then show ?thesis
    by (simp add: serve_def wr_req_def rd_def hex_ops disk_codes bstr_def unhexlify_hex unpack_le32)
qed

lemma serve_rd:
  "serve s (hex 2 @ 32 # concat (map hex (le32 a))) =
    (if int_of_u32 a \<ge> block_num s then Some (bstr ''01'' @ [10], s)
     else if int_of_u32 a * block_len s < 0 \<or> block_len s < 0 then None
     else let bs = file_read (nat (int_of_u32 a * block_len s)) (nat (block_len s)) (img s) in
       if int (length bs) \<noteq> block_len s then Some (bstr ''01'' @ [10], s)
       else Some (bstr ''00 '' @ hexlify bs @ [10], s))"
  using request_fields_short [of 2 "le32 a"]
  by (simp add: serve_def rd_req_def rd_def unhexlify_hex unpack_le32 hex_ops disk_codes bstr_def Let_def)

lemma serve_conf:
  assumes "is_i32 (block_num s)" "is_i32 (block_len s)"
  shows "serve s (hex 0) = Some (bstr ''00 '' @
    hexlify (le32 (u32_of_int (block_num s)) @ le32 (u32_of_int (block_len s))) @ [10], s)"
proof -
  have "split_space (strip (bstr ''00'')) = [bstr ''00'']"
    by (simp add: strip_def bstr_def py_space_def)
  then show ?thesis using assms
    by (simp add: serve_def conf_def pack_l_def hex_ops disk_codes bstr_def)
qed

end
