(* ===== verification/Disk.thy ===== *)
theory Disk
  imports Disk_Server
begin

text \<open>
  The disk driver, \<open>src/question/device/disk.c\<close> and \<open>disk.h\<close>: it talks to the disk over UART2, here
  a serial line whose peer is the server of \<open>Disk_Server\<close>, and gives up after
  \<open>DISK_RETRY\<close> refused requests. The second half shows that on an idle line the driver and the
  server together are a plain array of blocks (\<open>disk_wr_idle\<close>, \<open>disk_rd_idle\<close>), states that
  as the contract \<open>block_device\<close>, and proves what any client of that contract may assume.
\<close>

definition DISK_RETRY :: nat where "DISK_RETRY = 3"
definition DISK_SUCCESS :: int where "DISK_SUCCESS = 0"
definition DISK_FAILURE :: int where "DISK_FAILURE = - 1"

type_synonym disk = "disk_server uart"

abbreviation uart2_putc :: "disk \<Rightarrow> u8 \<Rightarrow> disk" where
  "uart2_putc \<equiv> PL011_putc disk_react"

abbreviation uart2_puth :: "disk \<Rightarrow> u8 \<Rightarrow> disk" where
  "uart2_puth \<equiv> PL011_puth disk_react"

section \<open>The driver\<close>

definition addr_puth :: "disk \<Rightarrow> u32 \<Rightarrow> disk" where
  "addr_puth d x =
     (let d = uart2_puth d (ucast (drop_bit 0 x AND 0xFF));
          d = uart2_puth d (ucast (drop_bit 8 x AND 0xFF));
          d = uart2_puth d (ucast (drop_bit 16 x AND 0xFF))
      in uart2_puth d (ucast (drop_bit 24 x AND 0xFF)))"

definition data_puth :: "disk \<Rightarrow> u8 list \<Rightarrow> int \<Rightarrow> disk option" where
  "data_puth d x n =
     foreach (\<lambda>i d. do { b \<leftarrow> rd x i; Some (uart2_puth d b) }) [0..n - 1] d"

definition data_geth :: "disk \<Rightarrow> u8 list \<Rightarrow> int \<Rightarrow> (u8 list \<times> disk) option" where
  "data_geth d x n =
     foreach (\<lambda>i (x, d). do { (b, d) \<leftarrow> PL011_geth d; x \<leftarrow> wr x i b; Some (x, d) })
       [0..n - 1] (x, d)"

fun disk_get_block_num_retry :: "nat \<Rightarrow> disk \<Rightarrow> (int \<times> disk) option" where
  "disk_get_block_num_retry 0 d = Some (DISK_FAILURE, d)"
| "disk_get_block_num_retry (Suc i) d = do {
     let d = uart2_puth d 0x00;
     let d = uart2_putc d 10;
     (c, d) \<leftarrow> PL011_geth d;
     if c = 0x00 then do {
       (_, d) \<leftarrow> PL011_getc d;
       (x, d) \<leftarrow> data_geth d (replicate 8 0) 8;
       (_, d) \<leftarrow> PL011_getc d;
       Some (int_of_u32 (word_of_bytes (x ! 0) (x ! 1) (x ! 2) (x ! 3)), d)
     } else do {
       (_, d) \<leftarrow> PL011_getc d;
       disk_get_block_num_retry i d
     }
   }"

definition disk_get_block_num :: "disk \<Rightarrow> (int \<times> disk) option" where
  "disk_get_block_num d = disk_get_block_num_retry DISK_RETRY d"

fun disk_get_block_len_retry :: "nat \<Rightarrow> disk \<Rightarrow> (int \<times> disk) option" where
  "disk_get_block_len_retry 0 d = Some (DISK_FAILURE, d)"
| "disk_get_block_len_retry (Suc i) d = do {
     let d = uart2_puth d 0x00;
     let d = uart2_putc d 10;
     (c, d) \<leftarrow> PL011_geth d;
     if c = 0x00 then do {
       (_, d) \<leftarrow> PL011_getc d;
       (x, d) \<leftarrow> data_geth d (replicate 8 0) 8;
       (_, d) \<leftarrow> PL011_getc d;
       Some (int_of_u32 (word_of_bytes (x ! 4) (x ! 5) (x ! 6) (x ! 7)), d)
     } else do {
       (_, d) \<leftarrow> PL011_getc d;
       disk_get_block_len_retry i d
     }
   }"

definition disk_get_block_len :: "disk \<Rightarrow> (int \<times> disk) option" where
  "disk_get_block_len d = disk_get_block_len_retry DISK_RETRY d"

fun disk_wr_retry :: "nat \<Rightarrow> disk \<Rightarrow> u32 \<Rightarrow> u8 list \<Rightarrow> int \<Rightarrow> (int \<times> disk) option" where
  "disk_wr_retry 0 d a x n = Some (DISK_FAILURE, d)"
| "disk_wr_retry (Suc i) d a x n = do {
     let d = uart2_puth d 0x01;
     let d = uart2_putc d 32;
     let d = addr_puth d a;
     let d = uart2_putc d 32;
     d \<leftarrow> data_puth d x n;
     let d = uart2_putc d 10;
     (c, d) \<leftarrow> PL011_geth d;
     if c = 0x00 then do {
       (_, d) \<leftarrow> PL011_getc d;
       Some (DISK_SUCCESS, d)
     } else do {
       (_, d) \<leftarrow> PL011_getc d;
       disk_wr_retry i d a x n
     }
   }"

definition disk_wr :: "disk \<Rightarrow> u32 \<Rightarrow> u8 list \<Rightarrow> int \<Rightarrow> (int \<times> disk) option" where
  "disk_wr d a x n = disk_wr_retry DISK_RETRY d a x n"

fun disk_rd_retry :: "nat \<Rightarrow> disk \<Rightarrow> u32 \<Rightarrow> u8 list \<Rightarrow> int \<Rightarrow> (int \<times> u8 list \<times> disk) option" where
  "disk_rd_retry 0 d a x n = Some (DISK_FAILURE, x, d)"
| "disk_rd_retry (Suc i) d a x n = do {
     let d = uart2_puth d 0x02;
     let d = uart2_putc d 32;
     let d = addr_puth d a;
     let d = uart2_putc d 10;
     (c, d) \<leftarrow> PL011_geth d;
     if c = 0x00 then do {
       (_, d) \<leftarrow> PL011_getc d;
       (x, d) \<leftarrow> data_geth d x n;
       (_, d) \<leftarrow> PL011_getc d;
       Some (DISK_SUCCESS, x, d)
     } else do {
       (_, d) \<leftarrow> PL011_getc d;
       disk_rd_retry i d a x n
     }
   }"

definition disk_rd :: "disk \<Rightarrow> u32 \<Rightarrow> u8 list \<Rightarrow> int \<Rightarrow> (int \<times> u8 list \<times> disk) option" where
  "disk_rd d a x n = disk_rd_retry DISK_RETRY d a x n"

section \<open>What the peer sees\<close>

definition sends :: "disk \<Rightarrow> u8 list \<Rightarrow> disk" where
  "sends d cs = foldl uart2_putc d cs"

lemma sends_Nil [simp]: "sends d [] = d"
  by (simp add: sends_def)

lemma sends_simps:
  "uart2_putc d c = sends d [c]" "uart2_puth d x = sends d (hex x)"
  "sends (sends d cs) cs' = sends d (cs @ cs')"
  by (simp_all only: sends_def foldl.simps foldl_append PL011_puth_hex)

lemma addr_puth_sends: "addr_puth d a = sends d (concat (map hex (le32 a)))"
proof -
  have "ucast (w AND 0xFF) = (ucast w :: u8)" for w :: u32
  proof -
    have "w AND 0xFF = take_bit 8 w" by (simp add: take_bit_eq_mask mask_eq_exp_minus_1)
    then show ?thesis by (simp add: unsigned_take_bit_eq) (rule bit_eqI, simp add: bit_simps)
  qed
  then show ?thesis by (simp only: addr_puth_def Let_def sends_simps le32_def) simp
qed

lemma data_puth_sends:
  assumes "int k \<le> int (length x)"
  shows "data_puth d x (int k) = Some (sends d (concat (map hex (take k x))))"
  using assms
proof (induction k)
  case 0
  then show ?case by (simp add: data_puth_def)
next
  case (Suc k)
  have "[0..int (Suc k) - 1] = [0..int k - 1] @ [int k]"
    using upto_rec2 [of 0 "int k"] by simp
  then show ?case
    using Suc by (simp add: data_puth_def foreach_append rd_Some take_Suc_conv_app_nth sends_simps)
qed

lemma sends_line:
  assumes "10 \<notin> set cs" "alive (peer d)"
  shows "sends d cs = d\<lparr>peer := peer d\<lparr>line := line (peer d) @ cs\<rparr>\<rparr>"
  using assms
proof (induction cs arbitrary: d)
  case (Cons c cs)
  have "sends d (c # cs) = sends (uart2_putc d c) cs" by (simp add: sends_def)
  then show ?case using Cons by (simp add: PL011_putc_def disk_react_def)
qed (simp add: sends_def)

section \<open>Requests on an idle line\<close>

text \<open>The line is idle when no answer is pending, no request is half sent and the server runs.\<close>

definition idle :: "disk \<Rightarrow> bool" where
  "idle d \<longleftrightarrow> rx d = [] \<and> line (peer d) = [] \<and> alive (peer d)"

lemma newline_free: "10 \<notin> set (hex b)" "10 \<notin> set (concat (map hex bs))"
  using hex_no_space [of 10] by (auto simp: py_space_def)

lemma no_partial_line: "line s = [] \<Longrightarrow> s\<lparr>line := []\<rparr> = s"
  by (cases s) simp

lemma request_reply:
  assumes "idle d" "10 \<notin> set cs" "serve (peer d) cs = Some (reply, s)"
  shows "uart2_putc (sends d cs) 10 = d\<lparr>rx := reply, peer := s\<rparr>"
  using assms by (simp add: sends_line idle_def PL011_putc_def disk_react_def no_partial_line)

lemma request_crash:
  assumes "idle d" "10 \<notin> set cs" "serve (peer d) cs = None"
  shows "rx (uart2_putc (sends d cs) 10) = []"
  using assms by (simp add: sends_line idle_def PL011_putc_def disk_react_def no_partial_line)

lemma wr_request:
  assumes "0 \<le> n" "n \<le> int (length x)"
  shows "(let d = uart2_puth d 0x01; d = uart2_putc d 32; d = addr_puth d a; d = uart2_putc d 32
      in data_puth d x n)
    = Some (sends d (hex 1 @ 32 # concat (map hex (le32 a)) @ 32 # concat (map hex (take (nat n) x))))"
  using data_puth_sends [of "nat n" x] assms
  by (simp add: addr_puth_sends Let_def sends_simps)

lemma rd_request:
  "(let d = uart2_puth d 0x02; d = uart2_putc d 32 in addr_puth d a)
    = sends d (hex 2 @ 32 # concat (map hex (le32 a)))"
  by (simp add: addr_puth_sends Let_def sends_simps)

lemma geth_status:
  "rx d = bstr ''00'' @ cs \<Longrightarrow> PL011_geth d = Some (0, d\<lparr>rx := cs\<rparr>)"
  "rx d = bstr ''01'' @ cs \<Longrightarrow> PL011_geth d = Some (1, d\<lparr>rx := cs\<rparr>)"
  by (simp_all add: bstr_def PL011_geth_digits byte_of_digits_def xtoi_def)

lemma geth_crash: "rx d = [] \<Longrightarrow> PL011_geth d = None"
  by (simp add: PL011_geth_def PL011_getc_def)

lemma data_geth_hexlify:
  assumes "length bs \<le> length x" "rx d = hexlify bs @ cs"
  shows "data_geth d x (int (length bs)) = Some (bs @ drop (length bs) x, d\<lparr>rx := cs\<rparr>)"
  using assms
proof (induction bs arbitrary: cs rule: rev_induct)
  case Nil
  then show ?case by (cases d) (simp add: data_geth_def)
next
  case (snoc b bs)
  obtain c1 c2 where c: "hexlify [b] = [c1, c2]" "byte_of_digits c1 c2 = b"
    using hexlify_byte by blast
  have up: "[0..int (length bs)] = [0..int (length bs) - 1] @ [int (length bs)]"
    using upto_rec2 [of 0 "int (length bs)"] by simp
  have IH: "data_geth d x (int (length bs)) =
      Some (bs @ drop (length bs) x, d\<lparr>rx := hexlify [b] @ cs\<rparr>)"
    using snoc by (intro snoc.IH) (simp_all add: hexlify_append)
  show ?case
    using IH snoc.prems c
    by (simp add: data_geth_def up foreach_append PL011_geth_digits [where cs = cs] wr_Some
        list_update_append Cons_nth_drop_Suc [symmetric])
qed

text \<open>The blocks of the disk, and one block replaced.\<close>

definition get_block :: "disk \<Rightarrow> u32 \<Rightarrow> u8 list" where
  "get_block d a =
     file_read (unat a * nat (block_len (peer d))) (nat (block_len (peer d))) (img (peer d))"

definition put_block :: "disk \<Rightarrow> u32 \<Rightarrow> u8 list \<Rightarrow> disk" where
  "put_block d a bs =
     d\<lparr>peer := peer d\<lparr>img := file_write (unat a * nat (block_len (peer d))) bs (img (peer d))\<rparr>\<rparr>"

definition disk_wf :: "disk \<Rightarrow> bool" where
  "disk_wf d \<longleftrightarrow> idle d \<and> is_i32 (block_num (peer d)) \<and> is_i32 (block_len (peer d)) \<and>
     0 \<le> block_num (peer d) \<and> 0 < block_len (peer d) \<and>
     int (length (img (peer d))) = block_num (peer d) * block_len (peer d)"

definition on_disk :: "disk \<Rightarrow> u32 \<Rightarrow> bool" where
  "on_disk d a \<longleftrightarrow> 0 \<le> int_of_u32 a \<and> int_of_u32 a < block_num (peer d)"

definition past_disk :: "disk \<Rightarrow> u32 \<Rightarrow> bool" where
  "past_disk d a \<longleftrightarrow> block_num (peer d) \<le> int_of_u32 a"

lemma disk_offset:
  assumes "disk_wf d" "on_disk d a"
  shows "nat (int_of_u32 a * block_len (peer d)) = unat a * nat (block_len (peer d))"
    and "\<not> int_of_u32 a * block_len (peer d) < 0"
    and "unat a * nat (block_len (peer d)) + nat (block_len (peer d)) \<le> length (img (peer d))"
proof -
  let ?n = "block_num (peer d)" and ?l = "block_len (peer d)"
  have a: "int_of_u32 a = int (unat a)" "int (unat a) < ?n"
    using assms(2) int_of_u32_unat [of a] by (auto simp: on_disk_def)
  have l: "0 < ?l" "int (length (img (peer d))) = ?n * ?l" using assms(1) by (simp_all add: disk_wf_def)
  show "nat (int_of_u32 a * ?l) = unat a * nat ?l" "\<not> int_of_u32 a * ?l < 0"
    using a l by (simp_all add: nat_mult_distrib not_less)
  have "(int (unat a) + 1) * ?l \<le> ?n * ?l" using a l by (intro mult_right_mono) auto
  then have "int (unat a) * ?l + ?l \<le> int (length (img (peer d)))" using l by (simp add: distrib_right)
  moreover have "int (unat a * nat ?l + nat ?l) = int (unat a) * ?l + ?l" using l by simp
  ultimately show "unat a * nat ?l + nat ?l \<le> length (img (peer d))" by linarith
qed

lemma wr_line_free: "10 \<notin> set (hex op @ 32 # concat (map hex a) @ 32 # concat (map hex b))"
  using newline_free by simp

lemma rd_line_free: "10 \<notin> set (hex op @ 32 # concat (map hex a))"
  using newline_free by simp

lemma idle_update: "rx d = [] \<Longrightarrow> d\<lparr>rx := [], peer := p\<rparr> = d\<lparr>peer := p\<rparr>"
  "rx d = [] \<Longrightarrow> d\<lparr>rx := []\<rparr> = d"
  by (cases d, simp)+

lemma disk_wr_ok:
  assumes wf: "disk_wf d" and a: "on_disk d a"
    and n: "n = block_len (peer d)" "n \<le> int (length x)"
  shows "disk_wr d a x n = Some (DISK_SUCCESS, put_block d a (take (nat n) x))"
proof -
  have idle: "idle d" and n0: "0 < n" using wf n by (simp_all add: disk_wf_def)
  let ?s = "(peer d)\<lparr>img := file_write (unat a * nat (block_len (peer d))) (take (nat n) x) (img (peer d))\<rparr>"
  have data: "take (nat n) x \<noteq> []" "int (length (take (nat n) x)) = n" using n n0 by auto
  have reply: "uart2_putc (sends d (hex 1 @ 32 # concat (map hex (le32 a)) @ 32 #
      concat (map hex (take (nat n) x)))) 10 = d\<lparr>rx := bstr ''00'' @ [10], peer := ?s\<rparr>"
    using disk_offset [OF wf a] a n data
    by (intro request_reply [OF idle wr_line_free]) (simp add: serve_wr on_disk_def)
  show ?thesis
    unfolding disk_wr_def DISK_RETRY_def numeral_3_eq_3
    using wr_request [of n x d a, unfolded Let_def] n(2) n0 idle
    by (simp add: Let_def reply geth_status PL011_getc_def put_block_def idle_update idle_def)
qed

lemma disk_wr_refused:
  assumes idle: "idle d" and a: "past_disk d a \<or> n \<noteq> block_len (peer d)"
    and n: "0 < n" "n \<le> int (length x)"
  shows "disk_wr d a x n = Some (DISK_FAILURE, d)"
proof -
  have data: "take (nat n) x \<noteq> []" "int (length (take (nat n) x)) = n" using n by auto
  have reply: "uart2_putc (sends d (hex 1 @ 32 # concat (map hex (le32 a)) @ 32 #
      concat (map hex (take (nat n) x)))) 10 = d\<lparr>rx := bstr ''01'' @ [10], peer := peer d\<rparr>"
    using a data
    by (intro request_reply [OF idle wr_line_free]) (auto simp: serve_wr past_disk_def)
  have step: "disk_wr_retry (Suc i) d a x n = disk_wr_retry i d a x n" for i
    using wr_request [of n x d a, unfolded Let_def] n idle
    by (simp add: Let_def reply geth_status PL011_getc_def idle_def idle_update)
  show ?thesis
    unfolding disk_wr_def DISK_RETRY_def numeral_3_eq_3 step by simp
qed

lemma disk_wr_crash:
  assumes wf: "disk_wf d" and a: "int_of_u32 a < 0"
    and n: "n = block_len (peer d)" "n \<le> int (length x)"
  shows "disk_wr d a x n = None"
proof -
  have idle: "idle d" and n0: "0 < n" "0 \<le> block_num (peer d)"
    using wf n by (simp_all add: disk_wf_def)
  have data: "take (nat n) x \<noteq> []" "int (length (take (nat n) x)) = n" using n n0 by auto
  have "rx (uart2_putc (sends d (hex 1 @ 32 # concat (map hex (le32 a)) @ 32 #
      concat (map hex (take (nat n) x)))) 10) = []"
    using a n n0 data
    by (intro request_crash [OF idle wr_line_free]) (simp add: serve_wr mult_less_0_iff)
  then show ?thesis
    unfolding disk_wr_def DISK_RETRY_def numeral_3_eq_3
    using wr_request [of n x d a, unfolded Let_def] n n0
    by (simp add: Let_def geth_crash)
qed

lemma length_get_block:
  "disk_wf d \<Longrightarrow> on_disk d a \<Longrightarrow> length (get_block d a) = nat (block_len (peer d))"
  using disk_offset(3) [of d a] by (simp add: get_block_def file_read_def)

lemma disk_rd_ok:
  assumes wf: "disk_wf d" and a: "on_disk d a"
    and n: "n = block_len (peer d)" "n \<le> int (length x)"
  shows "disk_rd d a x n = Some (DISK_SUCCESS, get_block d a @ drop (nat n) x, d)"
proof -
  have idle: "idle d" and n0: "0 < n" using wf n by (simp_all add: disk_wf_def)
  have len: "length (get_block d a) = nat n" using length_get_block [OF wf a] n by simp
  have reply: "uart2_putc (sends d (hex 2 @ 32 # concat (map hex (le32 a)))) 10
      = d\<lparr>rx := bstr ''00 '' @ hexlify (get_block d a) @ [10], peer := peer d\<rparr>"
    using disk_offset(1,2) [OF wf a] a n n0 len
    by (intro request_reply [OF idle rd_line_free])
      (auto simp: serve_rd on_disk_def get_block_def [symmetric])
  have getd: "data_geth (d\<lparr>rx := hexlify (get_block d a) @ [10]\<rparr>) x n =
      Some (get_block d a @ drop (nat n) x, d\<lparr>rx := [10]\<rparr>)"
    using data_geth_hexlify [of "get_block d a" x "d\<lparr>rx := hexlify (get_block d a) @ [10]\<rparr>" "[10]"]
      len n n0 by simp
  have sp: "bstr ''00 '' = bstr ''00'' @ [32]" by (simp add: bstr_def)
  show ?thesis
    unfolding disk_rd_def DISK_RETRY_def numeral_3_eq_3
    using rd_request [of d a, unfolded Let_def] idle
    by (simp add: Let_def reply sp geth_status PL011_getc_def getd idle_def)
qed

lemma disk_rd_refused:
  assumes idle: "idle d" and a: "past_disk d a"
  shows "disk_rd d a x n = Some (DISK_FAILURE, x, d)"
proof -
  have reply: "uart2_putc (sends d (hex 2 @ 32 # concat (map hex (le32 a)))) 10
      = d\<lparr>rx := bstr ''01'' @ [10], peer := peer d\<rparr>"
    using a by (intro request_reply [OF idle rd_line_free]) (simp add: serve_rd past_disk_def)
  have step: "disk_rd_retry (Suc i) d a x n = disk_rd_retry i d a x n" for i
    using rd_request [of d a, unfolded Let_def] idle
    by (simp add: Let_def reply geth_status PL011_getc_def idle_def idle_update)
  show ?thesis
    unfolding disk_rd_def DISK_RETRY_def numeral_3_eq_3 step by simp
qed

lemma disk_wr_empty:
  assumes "idle d"
  shows "disk_wr d a x 0 = None"
proof -
  have "rx (uart2_putc (sends d (hex 1 @ 32 # concat (map hex (le32 a)) @ [32])) 10) = []"
    using assms newline_free by (intro request_crash) (simp_all add: serve_wr_empty)
  then show ?thesis
    unfolding disk_wr_def DISK_RETRY_def numeral_3_eq_3
    using wr_request [of 0 x d a, unfolded Let_def]
    by (simp add: Let_def geth_crash)
qed

lemma disk_rd_crash:
  assumes wf: "disk_wf d" and a: "int_of_u32 a < 0"
  shows "disk_rd d a x n = None"
proof -
  have i: "idle d" "0 < block_len (peer d)" "0 \<le> block_num (peer d)" using wf by (simp_all add: disk_wf_def)
  then have "rx (uart2_putc (sends d (hex 2 @ 32 # concat (map hex (le32 a)))) 10) = []"
    using a by (intro request_crash rd_line_free) (simp_all add: serve_rd mult_less_0_iff)
  then show ?thesis
    unfolding disk_rd_def DISK_RETRY_def numeral_3_eq_3
    using rd_request [of d a, unfolded Let_def]
    by (simp add: Let_def geth_crash)
qed

lemma conf_request:
  assumes "disk_wf d"
  shows "uart2_putc (uart2_puth d 0) 10 = d\<lparr>rx := bstr ''00 '' @
    hexlify (le32 (u32_of_int (block_num (peer d))) @ le32 (u32_of_int (block_len (peer d)))) @ [10]\<rparr>"
proof -
  have "serve (peer d) (hex 0) = Some (bstr ''00 '' @
    hexlify (le32 (u32_of_int (block_num (peer d))) @ le32 (u32_of_int (block_len (peer d)))) @ [10], peer d)"
    using assms by (intro serve_conf) (simp_all add: disk_wf_def)
  then show ?thesis
    using assms request_reply [of d "hex 0"] newline_free(1)
    by (simp add: sends_simps(2) disk_wf_def)
qed

lemma geometry_data:
  assumes "disk_wf d"
  shows "data_geth (d\<lparr>rx := hexlify (le32 v @ le32 w) @ [10]\<rparr>) (replicate 8 0) 8 =
    Some (le32 v @ le32 w, d\<lparr>rx := [10]\<rparr>)"
  using data_geth_hexlify [of "le32 v @ le32 w" "replicate 8 0" "d\<lparr>rx := hexlify (le32 v @ le32 w) @ [10]\<rparr>"
      "[10]"] by simp

lemma le32_nth: "word_of_bytes (le32 w ! 0) (le32 w ! 1) (le32 w ! 2) (le32 w ! 3) = w"
  using un_le32_le32 [of w "[]"] by (simp add: le32_def)

lemma disk_get_block_num_ok: "disk_wf d \<Longrightarrow> disk_get_block_num d = Some (block_num (peer d), d)"
proof -
  assume wf: "disk_wf d"
  have sp: "bstr ''00 '' = bstr ''00'' @ [32]" by (simp add: bstr_def)
  have "rx d = []" "is_i32 (block_num (peer d))" using wf by (simp_all add: disk_wf_def idle_def)
  then show ?thesis
    unfolding disk_get_block_num_def DISK_RETRY_def numeral_3_eq_3
    using geometry_data [OF wf] le32_nth [of "u32_of_int (block_num (peer d))"]
    by (simp add: Let_def conf_request [OF wf] sp geth_status PL011_getc_def nth_append
        idle_update c_simps)
qed

lemma disk_get_block_len_ok: "disk_wf d \<Longrightarrow> disk_get_block_len d = Some (block_len (peer d), d)"
proof -
  assume wf: "disk_wf d"
  have sp: "bstr ''00 '' = bstr ''00'' @ [32]" by (simp add: bstr_def)
  have "rx d = []" "is_i32 (block_len (peer d))" using wf by (simp_all add: disk_wf_def idle_def)
  then show ?thesis
    unfolding disk_get_block_len_def DISK_RETRY_def numeral_3_eq_3
    using geometry_data [OF wf] le32_nth [of "u32_of_int (block_len (peer d))"]
    by (simp add: Let_def conf_request [OF wf] sp geth_status PL011_getc_def nth_append
        idle_update c_simps)
qed

section \<open>The contract of a block device\<close>

fun write_all :: "('d \<Rightarrow> u32 \<Rightarrow> u8 list \<Rightarrow> int \<Rightarrow> (int \<times> 'd) option) \<Rightarrow> int \<Rightarrow> (u32 \<times> u8 list) list \<Rightarrow> 'd \<Rightarrow> 'd option" where
  "write_all put n [] d = Some d"
| "write_all put n ((a, x) # ws) d = do { (r, d) \<leftarrow> put d a x n; write_all put n ws d }"

locale block_device =
  fixes dwr :: "'d \<Rightarrow> u32 \<Rightarrow> u8 list \<Rightarrow> int \<Rightarrow> (int \<times> 'd) option"
    and drd :: "'d \<Rightarrow> u32 \<Rightarrow> u8 list \<Rightarrow> int \<Rightarrow> (int \<times> u8 list \<times> 'd) option"
    and ok :: "'d \<Rightarrow> bool" and bsize :: "'d \<Rightarrow> int"
    and addr_ok :: "'d \<Rightarrow> u32 \<Rightarrow> bool" and blk :: "'d \<Rightarrow> u32 \<Rightarrow> u8 list"
  assumes write_law: "ok d \<Longrightarrow> addr_ok d a \<Longrightarrow> bsize d \<le> int (length x) \<Longrightarrow>
      \<exists>d'. dwr d a x (bsize d) = Some (0, d') \<and> ok d' \<and> bsize d' = bsize d \<and>
           addr_ok d' = addr_ok d \<and> blk d' = (blk d)(a := take (nat (bsize d)) x)"
    and read_law: "ok d \<Longrightarrow> addr_ok d a \<Longrightarrow> bsize d \<le> int (length x) \<Longrightarrow>
      drd d a x (bsize d) = Some (0, blk d a @ drop (nat (bsize d)) x, d)"
    and block_size_law: "ok d \<Longrightarrow> addr_ok d a \<Longrightarrow> length (blk d a) = nat (bsize d)"
begin

lemma write_read_same:
  assumes "ok d" "addr_ok d a" "bsize d = int (length x)" "dwr d a x (bsize d) = Some (r, d')"
    and "bsize d \<le> int (length y)"
  shows "drd d' a y (bsize d) = Some (0, x @ drop (length x) y, d')"
  using write_law [of d a x] read_law [of d' a y] assms by auto

lemma write_all_blocks:
  assumes "ok d" "\<forall>(a, x) \<in> set ws. addr_ok d a \<and> bsize d = int (length x)"
  shows "\<exists>d'. write_all dwr (bsize d) ws d = Some d' \<and> ok d' \<and> bsize d' = bsize d \<and> addr_ok d' = addr_ok d \<and>
    blk d' = foldl (\<lambda>m (a, x). m(a := x)) (blk d) ws"
  using assms
proof (induction ws arbitrary: d)
  case (Cons w ws)
  obtain a x where w: "w = (a, x)" by force
  obtain d' where d': "dwr d a x (bsize d) = Some (0, d')" "ok d'" "bsize d' = bsize d"
    "addr_ok d' = addr_ok d" "blk d' = (blk d)(a := x)"
    using write_law [of d a x] Cons.prems w by auto
  show ?case using Cons.IH [of d'] Cons.prems d' w by auto
qed simp

lemma untouched_block:
  "b \<notin> fst ` set ws \<Longrightarrow> foldl (\<lambda>m (a, x). m(a := x)) m ws b = m b"
  by (induction ws arbitrary: m) auto

end

lemma file_read_write_same:
  "off + length bs \<le> length f \<Longrightarrow> file_read off (length bs) (file_write off bs f) = bs"
  by (simp add: file_read_def file_write_def)

lemma length_file_write: "off + length bs \<le> length f \<Longrightarrow> length (file_write off bs f) = length f"
  by (simp add: file_write_def)

lemma file_read_write_other:
  assumes "off + length bs \<le> length f" "o2 + n \<le> off \<or> off + length bs \<le> o2"
  shows "file_read o2 n (file_write off bs f) = file_read o2 n f"
proof (rule nth_equalityI)
  fix i assume "i < length (file_read o2 n (file_write off bs f))"
  then show "file_read o2 n (file_write off bs f) ! i = file_read o2 n f ! i"
    using assms by (auto simp: file_read_def file_write_def nth_append)
qed (use assms in \<open>simp add: file_read_def length_file_write\<close>)

lemma put_block_ok:
  assumes wf: "disk_wf d" and a: "on_disk d a" and b: "int (length bs) = block_len (peer d)"
  shows "disk_wf (put_block d a bs)" and "on_disk (put_block d a bs) = on_disk d"
    and "get_block (put_block d a bs) = (get_block d)(a := bs)"
proof -
  have l: "nat (block_len (peer d)) = length bs" using b by simp
  have off: "unat a * length bs + length bs \<le> length (img (peer d))"
    using disk_offset(3) [OF wf a] l by simp
  show "disk_wf (put_block d a bs)"
    using wf off l by (simp add: disk_wf_def put_block_def idle_def length_file_write)
  show "on_disk (put_block d a bs) = on_disk d"
    by (rule ext) (simp add: on_disk_def put_block_def)
  show "get_block (put_block d a bs) = (get_block d)(a := bs)"
  proof
    fix c
    have "unat c * length bs + length bs \<le> unat a * length bs \<or>
        unat a * length bs + length bs \<le> unat c * length bs" if "c \<noteq> a"
    proof -
      have "unat c + 1 \<le> unat a \<or> unat a + 1 \<le> unat c" using that by (metis Suc_eq_plus1 Suc_leI linorder_neqE_nat word_unat_eq_iff)
      then show ?thesis
        by (metis add.commute add_mult_distrib mult_1 mult_le_mono1)
    qed
    then show "get_block (put_block d a bs) c = ((get_block d)(a := bs)) c"
      using off l by (simp add: get_block_def put_block_def file_read_write_same file_read_write_other)
  qed
qed

text \<open>A request sent while \<open>j\<close> refusals are still unread on the line.\<close>

definition pending :: "nat \<Rightarrow> string \<Rightarrow> u8 list" where
  "pending j ack = concat (replicate j (bstr ack @ [10]))"

lemma pending_simps: "pending 0 ack = []" "pending (Suc j) ack = bstr ack @ [10] @ pending j ack"
  by (simp_all add: pending_def)

lemma pending_snoc: "pending j ack @ bstr ack @ [10] = pending (Suc j) ack"
  by (induction j) (simp_all add: pending_simps)

lemma put_block_twice:
  assumes "disk_wf d" "on_disk d a" "int (length bs) = block_len (peer d)"
  shows "put_block (put_block d a bs) a bs = put_block d a bs"
proof -
  let ?o = "unat a * nat (block_len (peer d))"
  have "?o + length bs \<le> length (img (peer d))" using disk_offset(3) [OF assms(1,2)] assms(3) by simp
  then have "file_write ?o bs (file_write ?o bs (img (peer d))) = file_write ?o bs (img (peer d))"
    by (simp add: file_write_def)
  then show ?thesis by (simp add: put_block_def)
qed

lemma wr_sent:
  assumes wf: "disk_wf d" and a: "on_disk d a"
    and n: "n = block_len (peer d)" "n \<le> int (length x)"
    and e: "peer e = peer d \<or> peer e = peer (put_block d a (take (nat n) x))"
  shows "uart2_putc (sends e (hex 1 @ 32 # concat (map hex (le32 a)) @ 32 # concat (map hex (take (nat n) x)))) 10 =
    (put_block d a (take (nat n) x))\<lparr>rx := rx e @ bstr ''00'' @ [10]\<rparr>"
proof -
  let ?d = "put_block d a (take (nat n) x)"
  have len: "int (length (take (nat n) x)) = block_len (peer d)" using wf n by (simp add: disk_wf_def)
  note ok = put_block_ok [OF wf a len]
  have data: "take (nat n) x \<noteq> []" using wf n by (auto simp: disk_wf_def)
  have serve: "serve (peer d') (hex 1 @ 32 # concat (map hex (le32 a)) @ 32 # concat (map hex (take (nat n) x))) =
      Some (bstr ''00'' @ [10], peer (put_block d' a (take (nat n) x)))"
    if "disk_wf d'" "on_disk d' a" "n = block_len (peer d')" for d' :: disk
    using disk_offset [OF that(1,2)] that len n data by (simp add: serve_wr on_disk_def put_block_def)
  have lens: "block_len (peer ?d) = block_len (peer d)" by (simp add: put_block_def)
  have "serve (peer e) (hex 1 @ 32 # concat (map hex (le32 a)) @ 32 # concat (map hex (take (nat n) x))) =
      Some (bstr ''00'' @ [10], peer ?d)"
    using serve [OF wf a n(1)] serve [OF ok(1)] e ok(2) a n(1) put_block_twice [OF wf a len] lens by auto
  moreover have "line (peer e) = []" "alive (peer e)"
    using e wf ok(1) by (auto simp: disk_wf_def idle_def)
  ultimately have "uart2_putc (sends e (hex 1 @ 32 # concat (map hex (le32 a)) @ 32 # concat (map hex (take (nat n) x)))) 10 =
      e\<lparr>rx := rx e @ bstr ''00'' @ [10], peer := peer ?d\<rparr>"
    using wr_line_free [of 1 "le32 a" "take (nat n) x"]
    by (simp add: sends_line PL011_putc_def disk_react_def no_partial_line)
  then show ?thesis by simp
qed

lemma wr_retry_pending:
  assumes wf: "disk_wf d" and a: "on_disk d a"
    and n: "n = block_len (peer d)" "n \<le> int (length x)"
    and e: "peer e = peer d \<or> peer e = peer (put_block d a (take (nat n) x))"
      "rx e = pending j ''01'' @ pending l ''00''"
  shows "disk_wr_retry i e a x n = Some (if j < i then DISK_SUCCESS else DISK_FAILURE,
    if i = 0 then e else (put_block d a (take (nat n) x))
      \<lparr>rx := pending (j - i) ''01'' @ pending (l + min j i) ''00''\<rparr>)"
  using e
proof (induction i arbitrary: e j l)
  case (Suc i)
  let ?d = "put_block d a (take (nat n) x)"
  have n0: "0 \<le> n" using wf n by (simp add: disk_wf_def)
  note sent = wr_sent [OF wf a n Suc.prems(1)]
  have go: "disk_wr_retry (Suc i) e a x n = (let d = ?d\<lparr>rx := rx e @ bstr ''00'' @ [10]\<rparr> in do {
     (c, d) \<leftarrow> PL011_geth d;
     if c = 0x00 then do { (_, d) \<leftarrow> PL011_getc d; Some (DISK_SUCCESS, d) }
     else do { (_, d) \<leftarrow> PL011_getc d; disk_wr_retry i d a x n } })"
    using wr_request [of n x e a, unfolded Let_def] n0 n(2) by (simp add: Let_def sent)
  show ?case
  proof (cases j)
    case 0
    have "rx e @ bstr ''00'' @ [10] = bstr ''00'' @ [10] @ pending l ''00''"
      using Suc.prems(2) 0 pending_snoc [of l "''00''"] by (simp add: pending_simps)
    then show ?thesis using go 0
      by (simp add: geth_status PL011_getc_def pending_simps)
  next
    case (Suc j')
    have r: "rx e @ bstr ''00'' @ [10] = bstr ''01'' @ [10] @ pending j' ''01'' @ pending (Suc l) ''00''"
      using Suc.prems(2) Suc pending_snoc [of l "''00''"] by (simp add: pending_simps)
    have IH: "disk_wr_retry i (?d\<lparr>rx := pending j' ''01'' @ pending (Suc l) ''00''\<rparr>) a x n =
        Some (if j' < i then DISK_SUCCESS else DISK_FAILURE,
          if i = 0 then ?d\<lparr>rx := pending j' ''01'' @ pending (Suc l) ''00''\<rparr>
          else ?d\<lparr>rx := pending (j' - i) ''01'' @ pending (Suc l + min j' i) ''00''\<rparr>)"
      by (subst Suc.IH [where j = j' and l = "Suc l"]) simp_all
    show ?thesis using go IH Suc
      by (simp add: r geth_status PL011_getc_def)
  qed
qed simp

lemma disk_wr_outcome:
  assumes "disk_wf d" "0 \<le> n" "n \<le> int (length x)"
  shows "disk_wr d a x n =
    (if n = 0 then None
     else if past_disk d a \<or> n \<noteq> block_len (peer d) then Some (DISK_FAILURE, d)
     else if int_of_u32 a < 0 then None
     else Some (DISK_SUCCESS, put_block d a (take (nat n) x)))"
proof -
  have "idle d" using assms(1) by (simp add: disk_wf_def)
  then show ?thesis
    using assms disk_wr_empty [of d a x] disk_wr_refused [of d a n x] disk_wr_crash [of d a n x] disk_wr_ok [of d a n x]
    by (auto simp: past_disk_def on_disk_def)
qed

interpretation bd: block_device disk_wr disk_rd disk_wf "\<lambda>d. block_len (peer d)" on_disk get_block
proof unfold_locales
  fix d a and x :: "u8 list"
  assume d: "disk_wf d" and a: "on_disk d a" and x: "block_len (peer d) \<le> int (length x)"
  have "0 < block_len (peer d)" using d by (simp add: disk_wf_def)
  then have "int (length (take (nat (block_len (peer d))) x)) = block_len (peer d)" using x by simp
  then show "\<exists>d'. disk_wr d a x (block_len (peer d)) = Some (0, d') \<and> disk_wf d' \<and>
      block_len (peer d') = block_len (peer d) \<and> on_disk d' = on_disk d \<and>
      get_block d' = (get_block d)(a := take (nat (block_len (peer d))) x)"
    using disk_wr_ok [OF d a refl x] put_block_ok [OF d a]
    by (auto simp: DISK_SUCCESS_def put_block_def)
  show "disk_rd d a x (block_len (peer d)) =
      Some (0, get_block d a @ drop (nat (block_len (peer d))) x, d)"
    using disk_rd_ok [OF d a refl x] by (simp add: DISK_SUCCESS_def)
next
  fix d a assume "disk_wf d" "on_disk d a"
  then show "length (get_block d a) = nat (block_len (peer d))" by (rule length_get_block)
qed

end
