(* ===== verification/Fs_Blocks.thy ===== *)
theory Fs_Blocks
  imports Layout Disk Bitmap
begin

text \<open>
  Block and superblock operations of \<open>src/question/kernel/fs.c\<close>. The state is the in-memory
  superblock (\<open>sb\<close>, the object every call of the file system passes by pointer) and the disk
  behind the driver (\<open>dk\<close>). The local block buffers of the C functions start with whatever
  the stack holds: the parameter \<open>junk\<close>, 1024 arbitrary bytes.

  A write of a structure reads its bytes through the pointer block by block, after the
  allocation of each block has been marked. For the superblock itself the marks change the
  bytes that are being written, so a write takes the source as a function \<open>src\<close> of the
  superblock.
\<close>

record fs =
  sb :: superblock_t
  dk :: disk

section \<open>Raw memory\<close>

definition sub_bytes :: "u8 list \<Rightarrow> int \<Rightarrow> int \<Rightarrow> u8 list option" where
  "sub_bytes xs pos n =
     (if 0 \<le> pos \<and> 0 \<le> n \<and> pos + n \<le> int (length xs) then Some (take (nat n) (drop (nat pos) xs)) else None)"

definition put_bytes :: "u8 list \<Rightarrow> int \<Rightarrow> u8 list \<Rightarrow> u8 list option" where
  "put_bytes xs pos ys =
     (if 0 \<le> pos \<and> pos + int (length ys) \<le> int (length xs)
      then Some (take (nat pos) xs @ ys @ drop (nat pos + length ys) xs) else None)"

section \<open>One block\<close>

definition disk_write :: "u8 list \<Rightarrow> disk \<Rightarrow> int \<Rightarrow> u32 \<Rightarrow> u8 list \<Rightarrow> int \<Rightarrow> int \<Rightarrow> (int \<times> disk) option" where
  "disk_write junk d blen a x pos n = do {
     bs \<leftarrow> sub_bytes x pos n;
     data \<leftarrow> put_bytes junk 0 bs;
     disk_wr d a data blen
   }"

definition disk_read ::
  "u8 list \<Rightarrow> disk \<Rightarrow> int \<Rightarrow> u32 \<Rightarrow> u8 list \<Rightarrow> int \<Rightarrow> int \<Rightarrow> (int \<times> u8 list \<times> disk) option" where
  "disk_read junk d blen a x pos n = do {
     (status, data, d) \<leftarrow> disk_rd d a junk blen;
     bs \<leftarrow> sub_bytes data 0 n;
     x \<leftarrow> put_bytes x pos bs;
     Some (status, x, d)
   }"

section \<open>Allocation of data blocks\<close>

definition blocks_occupied :: "int \<Rightarrow> int \<Rightarrow> u32 option" where
  "blocks_occupied block_size bytes =
     (if block_size = 0 then None
      else Some (u32_of_int (cdiv (i32 (block_size + bytes - 1)) block_size)))"

definition allocate_block :: "superblock_t \<Rightarrow> u32 \<Rightarrow> superblock_t option" where
  "allocate_block b a = do {
     ws \<leftarrow> set_bit_c (free_block_bitmap b) (int_of_u32 a);
     Some (b\<lparr>free_block_bitmap := ws\<rparr>)
   }"

definition unallocate_block :: "superblock_t \<Rightarrow> u32 \<Rightarrow> superblock_t option" where
  "unallocate_block b a = do {
     ws \<leftarrow> clear_bit (free_block_bitmap b) (int_of_u32 a);
     Some (b\<lparr>free_block_bitmap := ws\<rparr>)
   }"

definition addrs :: "u32 \<Rightarrow> u32 \<Rightarrow> int list" where
  "addrs a b = [uint a..uint b - 1]"

definition free_data_block :: "superblock_t \<Rightarrow> u32 option" where
  "free_data_block b = do {
     r \<leftarrow> first_free (\<lambda>a. get_bit (free_block_bitmap b) (i32 a))
            (addrs (data_block_start b) (u32_of_int (disk_block_num b)));
     Some (case r of Some a \<Rightarrow> u32_of_int a | None \<Rightarrow> 0)
   }"

section \<open>A run of blocks\<close>

fun write_blocks :: "u8 list \<Rightarrow> int \<Rightarrow> (superblock_t \<Rightarrow> u8 list) \<Rightarrow> int list \<Rightarrow> int \<Rightarrow> int \<Rightarrow> fs \<Rightarrow> (int \<times> fs) option" where
  "write_blocks junk block_size src [] bytes_left pos f = Some (0, f)"
| "write_blocks junk block_size src (a # as) bytes_left pos f = do {
     let n = (if bytes_left < block_size then bytes_left else block_size);
     b \<leftarrow> allocate_block (sb f) (u32_of_int a);
     (status, d) \<leftarrow> disk_write junk (dk f) block_size (u32_of_int a) (src b) pos n;
     let f = \<lparr>sb = b, dk = d\<rparr>;
     if status < 0 then Some (- 1, f)
     else if bytes_left - n \<le> 0 then Some (0, f)
     else write_blocks junk block_size src as (bytes_left - n) (pos + n) f
   }"

definition write_sequential_blocks ::
  "u8 list \<Rightarrow> fs \<Rightarrow> int \<Rightarrow> u32 \<Rightarrow> (superblock_t \<Rightarrow> u8 list) \<Rightarrow> int \<Rightarrow> (int \<times> fs) option" where
  "write_sequential_blocks junk f block_size first src bytes = do {
     n \<leftarrow> blocks_occupied block_size bytes;
     write_blocks junk block_size src (addrs first (first + n)) bytes 0 f
   }"

fun read_blocks :: "u8 list \<Rightarrow> int \<Rightarrow> int list \<Rightarrow> int \<Rightarrow> int \<Rightarrow> u8 list \<Rightarrow> disk \<Rightarrow> (int \<times> u8 list \<times> disk) option" where
  "read_blocks junk block_size [] bytes_left pos x d = Some (0, x, d)"
| "read_blocks junk block_size (a # as) bytes_left pos x d = do {
     let n = (if bytes_left < block_size then bytes_left else block_size);
     (status, x, d) \<leftarrow> disk_read junk d block_size (u32_of_int a) x pos n;
     if status < 0 then Some (- 1, x, d)
     else if bytes_left - n \<le> 0 then Some (0, x, d)
     else read_blocks junk block_size as (bytes_left - n) (pos + n) x d
   }"

definition read_sequential_blocks ::
  "u8 list \<Rightarrow> disk \<Rightarrow> int \<Rightarrow> u32 \<Rightarrow> u8 list \<Rightarrow> int \<Rightarrow> (int \<times> u8 list \<times> disk) option" where
  "read_sequential_blocks junk d block_size first x bytes = do {
     n \<leftarrow> blocks_occupied block_size bytes;
     read_blocks junk block_size (addrs first (first + n)) bytes 0 x d
   }"

section \<open>The superblock\<close>

definition read_superblock :: "u8 list \<Rightarrow> fs \<Rightarrow> (int \<times> fs) option" where
  "read_superblock junk f = do {
     (blen, d) \<leftarrow> disk_get_block_len (dk f);
     (status, x, d) \<leftarrow> read_sequential_blocks junk d blen 0 (enc_superblock (sb f)) sizeof_superblock;
     Some (status, \<lparr>sb = dec_superblock x, dk = d\<rparr>)
   }"

definition valid_superblock :: "fs \<Rightarrow> (bool \<times> fs) option" where
  "valid_superblock f = do {
     (bnum, d) \<leftarrow> disk_get_block_num (dk f);
     Some (disk_block_num (sb f) = bnum, f\<lparr>dk := d\<rparr>)
   }"

definition write_superblock :: "u8 list \<Rightarrow> fs \<Rightarrow> (int \<times> fs) option" where
  "write_superblock junk f =
     write_sequential_blocks junk f (disk_block_length (sb f)) 0 enc_superblock sizeof_superblock"

definition zero_superblock :: superblock_t where
  "zero_superblock = \<lparr>disk_block_num = 0, disk_block_length = 0, inode_num = 0, inode_start = 0,
     free_inode_bitmap = replicate 8 0, data_block_start = 0, free_block_bitmap = replicate 128 0\<rparr>"

definition new_superblock :: "fs \<Rightarrow> fs option" where
  "new_superblock f = do {
     (bnum, d) \<leftarrow> disk_get_block_num (dk f);
     (blen, d) \<leftarrow> disk_get_block_len d;
     let n = cdiv bnum MAX_INODE_BLOCKS;
     let n = (if n > MAX_NUMBER_OF_INODES then MAX_NUMBER_OF_INODES else n);
     start \<leftarrow> blocks_occupied blen sizeof_superblock;
     per_inode \<leftarrow> blocks_occupied blen sizeof_inode;
     Some \<lparr>sb = zero_superblock\<lparr>disk_block_num := bnum, disk_block_length := blen, inode_num := n,
             inode_start := start, data_block_start := per_inode * u32_of_int n + start\<rparr>,
           dk = d\<rparr>
   }"

end
