(* ===== verification/Fs_Inodes.thy ===== *)
theory Fs_Inodes
  imports Fs_Blocks
begin

text \<open>
  Inode operations of \<open>src/question/kernel/fs.c\<close>. A local structure that the C function does not
  initialise holds whatever was on the stack: the parameter \<open>z\<close> of type \<open>stack\<close> fixes that
  content (a block buffer, an inode, a directory, and \<open>s_ret\<close>, what the return register holds
  when a function ends without \<open>return\<close>), and every theorem holds for any \<open>z\<close>.
  \<open>_rw_inode\<close> is split by its flag into \<open>write_to_inode\<close> and \<open>read_from_inode\<close>.
\<close>

record stack =
  s_block :: "u8 list"
  s_inode :: inode_t
  s_dir :: directory_t
  s_ret :: int

definition stack_wf :: "stack \<Rightarrow> bool" where
  "stack_wf z \<longleftrightarrow> length (s_block z) = 1024 \<and> inode_wf (s_inode z) \<and> directory_wf (s_dir z)"

section \<open>Inodes on the disk\<close>

definition id_to_addr :: "superblock_t \<Rightarrow> int \<Rightarrow> u32 option" where
  "id_to_addr b i = do {
     n \<leftarrow> blocks_occupied (disk_block_length b) sizeof_inode;
     Some (inode_start b + u32_of_int i * n)
   }"

definition new_inode :: "int \<Rightarrow> inode_t" where
  "new_inode i = \<lparr>ino_id = i, ino_type = 0, ino_size = 0, blocks_allocated = 0, creation_time = 0,
     modification_time = 0, blocks = replicate 6 0\<rparr>"

definition read_inode :: "stack \<Rightarrow> fs \<Rightarrow> int \<Rightarrow> inode_t \<Rightarrow> (int \<times> inode_t \<times> fs) option" where
  "read_inode z f i inode =
     (if i < 0 then Some (- 1, inode, f)
      else do {
        a \<leftarrow> id_to_addr (sb f) i;
        (status, x, d) \<leftarrow> read_sequential_blocks (s_block z) (dk f) (disk_block_length (sb f)) a
          (enc_inode inode) sizeof_inode;
        Some (status, dec_inode x, f\<lparr>dk := d\<rparr>)
      })"

definition write_inode :: "stack \<Rightarrow> fs \<Rightarrow> inode_t \<Rightarrow> (int \<times> fs) option" where
  "write_inode z f inode = do {
     a \<leftarrow> id_to_addr (sb f) (ino_id inode);
     (status, f) \<leftarrow> write_sequential_blocks (s_block z) f (disk_block_length (sb f)) a
       (\<lambda>_. enc_inode inode) sizeof_inode;
     if status < 0 then Some (- 1, f) else write_superblock (s_block z) f
   }"

definition allocate_inode :: "superblock_t \<Rightarrow> int \<Rightarrow> superblock_t option" where
  "allocate_inode b i = do {
     ws \<leftarrow> set_bit_c (free_inode_bitmap b) i;
     Some (b\<lparr>free_inode_bitmap := ws\<rparr>)
   }"

definition unallocate_inode :: "superblock_t \<Rightarrow> int \<Rightarrow> superblock_t option" where
  "unallocate_inode b i = do {
     ws \<leftarrow> clear_bit (free_inode_bitmap b) i;
     Some (b\<lparr>free_inode_bitmap := ws\<rparr>)
   }"

definition free_inode_id :: "superblock_t \<Rightarrow> int option" where
  "free_inode_id b = do {
     r \<leftarrow> first_free (get_bit (free_inode_bitmap b)) [0..inode_num b - 1];
     Some (case r of Some i \<Rightarrow> i | None \<Rightarrow> - 1)
   }"

definition free_inode :: "stack \<Rightarrow> fs \<Rightarrow> inode_t \<Rightarrow> (int \<times> inode_t \<times> fs) option" where
  "free_inode z f inode = do {
     i \<leftarrow> free_inode_id (sb f);
     read_inode z f i inode
   }"

definition create_inode_type :: "stack \<Rightarrow> fs \<Rightarrow> int \<Rightarrow> (int \<times> fs) option" where
  "create_inode_type z f ty = do {
     i \<leftarrow> free_inode_id (sb f);
     if i < 0 then Some (- 1, f)
     else do {
       b \<leftarrow> allocate_inode (sb f) i;
       let inode = (s_inode z)\<lparr>ino_id := i, ino_type := ty, creation_time := 1\<rparr>;
       (status, f) \<leftarrow> write_inode z (f\<lparr>sb := b\<rparr>) inode;
       if status < 0 then Some (- 1, f) else Some (i, f)
     }
   }"

definition delete_inode :: "stack \<Rightarrow> fs \<Rightarrow> inode_t \<Rightarrow> (int \<times> inode_t \<times> fs) option" where
  "delete_inode z f inode = do {
     b \<leftarrow> foreach (\<lambda>i b. do { a \<leftarrow> rd (blocks inode) i; unallocate_block b a })
            [0..blocks_allocated inode - 1] (sb f);
     b \<leftarrow> unallocate_inode b (ino_id inode);
     let inode = new_inode (ino_id inode);
     (status, f) \<leftarrow> write_inode z (f\<lparr>sb := b\<rparr>) inode;
     Some (status, inode, f)
   }"

section \<open>File contents\<close>

fun write_inode_blocks ::
  "stack \<Rightarrow> int list \<Rightarrow> bool \<Rightarrow> int \<Rightarrow> int \<Rightarrow> int \<Rightarrow> u8 list \<Rightarrow> inode_t \<Rightarrow> fs \<Rightarrow> (int \<times> inode_t \<times> fs) option" where
  "write_inode_blocks z [] first offset bytes_left pos x inode f = Some (0, inode, f)"
| "write_inode_blocks z (i # is) first offset bytes_left pos x inode f = do {
     a \<leftarrow> free_data_block (sb f);
     let a = (if first then a + u32_of_int offset else a);
     let bytes_in_block = (if first then disk_block_length (sb f) - offset else disk_block_length (sb f));
     let n = (if bytes_left < bytes_in_block then bytes_left else bytes_in_block);
     bl \<leftarrow> wr (blocks inode) i a;
     let inode = inode\<lparr>blocks := bl\<rparr>;
     b \<leftarrow> allocate_block (sb f) a;
     (status, d) \<leftarrow> disk_write (s_block z) (dk f) (disk_block_length b) a x pos n;
     let f = \<lparr>sb = b, dk = d\<rparr>;
     if status < 0 then Some (- 1, inode, f)
     else if bytes_left - n \<le> 0 then Some (0, inode, f)
     else write_inode_blocks z is False offset (bytes_left - n) (pos + n) x inode f
   }"

fun read_inode_blocks ::
  "stack \<Rightarrow> int list \<Rightarrow> bool \<Rightarrow> int \<Rightarrow> int \<Rightarrow> int \<Rightarrow> u8 list \<Rightarrow> inode_t \<Rightarrow> fs \<Rightarrow> (int \<times> u8 list \<times> fs) option" where
  "read_inode_blocks z [] first offset bytes_left pos x inode f = Some (0, x, f)"
| "read_inode_blocks z (i # is) first offset bytes_left pos x inode f = do {
     a \<leftarrow> rd (blocks inode) i;
     let a = (if first then a + u32_of_int offset else a);
     let bytes_in_block = (if first then disk_block_length (sb f) - offset else disk_block_length (sb f));
     let n = (if bytes_left < bytes_in_block then bytes_left else bytes_in_block);
     (status, x, d) \<leftarrow> disk_read (s_block z) (dk f) (disk_block_length (sb f)) a x pos n;
     let f = f\<lparr>dk := d\<rparr>;
     if status < 0 then Some (- 1, x, f)
     else if bytes_left - n \<le> 0 then Some (0, x, f)
     else read_inode_blocks z is False offset (bytes_left - n) (pos + n) x inode f
   }"

text \<open>What both directions compute first: the block count, the inode with it, the first block and the offset.\<close>

definition rw_setup :: "fs \<Rightarrow> inode_t \<Rightarrow> u32 \<Rightarrow> int \<Rightarrow> (inode_t \<times> int \<times> int) option option" where
  "rw_setup f inode file_pointer data_size = do {
     n \<leftarrow> blocks_occupied (disk_block_length (sb f)) data_size;
     let num_of_blocks = int_of_u32 n;
     if num_of_blocks > MAX_INODE_BLOCKS then Some None
     else do {
       let inode = (if num_of_blocks > blocks_allocated inode
                    then inode\<lparr>blocks_allocated := num_of_blocks\<rparr> else inode);
       let l = u32_of_int (disk_block_length (sb f));
       Some (Some (inode, int_of_u32 (file_pointer div l), int_of_u32 (file_pointer mod l)))
     }
   }"

definition write_to_inode ::
  "stack \<Rightarrow> fs \<Rightarrow> inode_t \<Rightarrow> u32 \<Rightarrow> u8 list \<Rightarrow> int \<Rightarrow> (int \<times> inode_t \<times> u32 \<times> fs) option" where
  "write_to_inode z f inode file_pointer x data_size = do {
     r \<leftarrow> rw_setup f inode file_pointer data_size;
     case r of
       None \<Rightarrow> Some (- 1, inode, file_pointer, f)
     | Some (inode, block_id, offset) \<Rightarrow> do {
         (status, inode, f) \<leftarrow> write_inode_blocks z [block_id..blocks_allocated inode - 1] True offset
           data_size 0 x inode f;
         if status < 0 then Some (- 1, inode, file_pointer, f)
         else do {
           let inode = inode\<lparr>ino_size := data_size\<rparr>;
           (status, f) \<leftarrow> write_inode z f inode;
           Some (status, inode, file_pointer + u32_of_int data_size, f)
         }
       }
   }"

definition read_from_inode ::
  "stack \<Rightarrow> fs \<Rightarrow> inode_t \<Rightarrow> u32 \<Rightarrow> u8 list \<Rightarrow> int \<Rightarrow> (int \<times> u8 list \<times> inode_t \<times> u32 \<times> fs) option" where
  "read_from_inode z f inode file_pointer x data_size = do {
     r \<leftarrow> rw_setup f inode file_pointer data_size;
     case r of
       None \<Rightarrow> Some (- 1, x, inode, file_pointer, f)
     | Some (inode, block_id, offset) \<Rightarrow> do {
         (status, x, f) \<leftarrow> read_inode_blocks z [block_id..blocks_allocated inode - 1] True offset
           data_size 0 x inode f;
         if status < 0 then Some (- 1, x, inode, file_pointer, f)
         else Some (0, x, inode, file_pointer + u32_of_int data_size, f)
       }
   }"

end
