(* ===== verification/Fs_Dirs.thy ===== *)
theory Fs_Dirs
  imports Fs_Inodes
begin

text \<open>
  Directories, paths, file descriptors and files of \<open>src/question/kernel/fs.c\<close>. A C string argument
  is the list of its bytes before the NUL; a copy into an array that is too short for it is
  undefined (\<open>None\<close>), and so is a comparison that runs past the end of a file name's array.
\<close>

section \<open>Strings\<close>

fun strcmp_eq :: "u8 list \<Rightarrow> u8 list \<Rightarrow> bool option" where
  "strcmp_eq xs [] = None"
| "strcmp_eq [] (b # bs) = Some (b = 0)"
| "strcmp_eq (x # xs) (b # bs) = (if x = b then strcmp_eq xs bs else Some False)"

definition strcpy :: "int \<Rightarrow> u8 list \<Rightarrow> u8 list option" where
  "strcpy cap xs = (if int (length xs) + 1 \<le> cap then Some (replicate_to (nat cap) xs) else None)"

definition slash :: u8 where "slash = 47"

text \<open>All the parts that repeated calls of \<open>strtok\<close> with one separator give.\<close>

fun strtok_all :: "u8 \<Rightarrow> u8 list \<Rightarrow> u8 list list" where
  "strtok_all sep [] = []"
| "strtok_all sep (c # cs) =
     (if c = sep then strtok_all sep cs
      else case cs of
             [] \<Rightarrow> [[c]]
           | c' # _ \<Rightarrow> if c' = sep then [c] # strtok_all sep cs
                       else case strtok_all sep cs of [] \<Rightarrow> [[c]] | t # ts \<Rightarrow> (c # t) # ts)"

abbreviation tokens :: "u8 list \<Rightarrow> u8 list list" where
  "tokens \<equiv> strtok_all slash"

section \<open>Directories\<close>

definition zero_directory :: directory_t where
  "zero_directory = \<lparr>files_count = 0, links = replicate 10 \<lparr>link_inode_id = 0, filename = replicate 100 0\<rparr>\<rparr>"

definition write_dir :: "stack \<Rightarrow> fs \<Rightarrow> directory_t \<Rightarrow> (int \<times> fs) option" where
  "write_dir z f dir = do {
     dot \<leftarrow> rd (links dir) 0;
     let i = link_inode_id dot;
     (_, inode, f) \<leftarrow> read_inode z f i (s_inode z);
     (status, _, _, f) \<leftarrow> write_to_inode z f inode 0 (enc_directory dir) sizeof_directory;
     Some (if status < 0 then - 1 else i, f)
   }"

definition read_dir :: "stack \<Rightarrow> fs \<Rightarrow> inode_t \<Rightarrow> directory_t \<Rightarrow> (int \<times> directory_t \<times> inode_t \<times> fs) option" where
  "read_dir z f inode dir =
     (if ino_type inode \<noteq> INODE_DIRECTORY then Some (- 1, dir, inode, f)
      else do {
        (status, x, inode, _, f) \<leftarrow> read_from_inode z f inode 0 (enc_directory dir) sizeof_directory;
        Some (status, dec_directory x, inode, f)
      })"

definition find_link :: "directory_t \<Rightarrow> u8 list \<Rightarrow> int option option" where
  "find_link dir name =
     find_first (\<lambda>i. do { l \<leftarrow> rd (links dir) i; strcmp_eq name (filename l) }) [0..files_count dir - 1]"

definition delete_file_link :: "directory_t \<Rightarrow> u8 list \<Rightarrow> (int \<times> directory_t) option" where
  "delete_file_link dir name = do {
     r \<leftarrow> find_link dir name;
     case r of
       None \<Rightarrow> Some (- 1, dir)
     | Some index \<Rightarrow> do {
         let n = files_count dir - 1;
         ls \<leftarrow> memmove_elems (links dir) index (index + 1) (n - index);
         Some (0, dir\<lparr>files_count := n, links := ls\<rparr>)
       }
   }"

definition directory_lookup :: "directory_t \<Rightarrow> u8 list \<Rightarrow> int option" where
  "directory_lookup dir name = do {
     r \<leftarrow> find_link dir name;
     case r of
       None \<Rightarrow> Some (- 1)
     | Some i \<Rightarrow> do { l \<leftarrow> rd (links dir) i; Some (link_inode_id l) }
   }"

definition link_to :: "int \<Rightarrow> u8 list \<Rightarrow> file_link_t option" where
  "link_to i name = do { fn \<leftarrow> strcpy MAX_FILE_NAME_LENGTH name; Some \<lparr>link_inode_id = i, filename = fn\<rparr> }"

definition create_file :: "stack \<Rightarrow> fs \<Rightarrow> directory_t \<Rightarrow> u8 list \<Rightarrow> int \<Rightarrow> (int \<times> directory_t \<times> fs) option" where
  "create_file z f dir name ty = do {
     r \<leftarrow> directory_lookup dir name;
     if r \<ge> 0 then Some (- 1, dir, f)
     else do {
       let index = files_count dir;
       if index + 1 \<ge> MAX_FILES_IN_DIRECTORY then Some (- 1, dir, f)
       else do {
         (i, f) \<leftarrow> create_inode_type z f ty;
         if i < 0 then Some (- 1, dir, f)
         else do {
           l \<leftarrow> link_to i name;
           ls \<leftarrow> wr (links dir) index l;
           let dir = dir\<lparr>files_count := index + 1, links := ls\<rparr>;
           (status, f) \<leftarrow> write_dir z f dir;
           Some (if status < 0 then - 1 else i, dir, f)
         }
       }
     }
   }"

definition create_directory ::
  "stack \<Rightarrow> fs \<Rightarrow> directory_t \<Rightarrow> u8 list \<Rightarrow> directory_t \<Rightarrow> (int \<times> directory_t \<times> directory_t \<times> fs) option" where
  "create_directory z f parent name dir = do {
     (i, parent, f) \<leftarrow> create_file z f parent name INODE_DIRECTORY;
     if i < 0 then Some (- 1, parent, dir, f)
     else do {
       dot \<leftarrow> link_to i (bstr ''.'');
       up \<leftarrow> rd (links parent) 0;
       dotdot \<leftarrow> link_to (link_inode_id up) (bstr ''..'');
       ls \<leftarrow> wr (links dir) 0 dot;
       ls \<leftarrow> wr ls 1 dotdot;
       let dir = \<lparr>files_count = 2, links = ls\<rparr>;
       (status, f) \<leftarrow> write_dir z f dir;
       Some (status, parent, dir, f)
     }
   }"

section \<open>Paths\<close>

fun walk :: "stack \<Rightarrow> fs \<Rightarrow> u8 list list \<Rightarrow> int \<Rightarrow> inode_t \<Rightarrow> directory_t \<Rightarrow> (int \<times> fs) option" where
  "walk z f [] i inode dir = Some (i, f)"
| "walk z f (part # parts) i inode dir = do {
     i \<leftarrow> directory_lookup dir part;
     (_, inode, f) \<leftarrow> read_inode z f i inode;
     if ino_type inode = INODE_DIRECTORY then do {
       (_, dir, inode, f) \<leftarrow> read_dir z f inode dir;
       walk z f parts i inode dir
     }
     else Some (if parts \<noteq> [] then - 1 else i, f)
   }"

definition path_to_inode_id :: "stack \<Rightarrow> fs \<Rightarrow> directory_t \<Rightarrow> u8 list \<Rightarrow> (int \<times> fs) option" where
  "path_to_inode_id z f dir path = do {
     _ \<leftarrow> strcpy MAX_PATH_LENGTH path;
     let parts = (case tokens path of [] \<Rightarrow> [bstr ''.''] | ts \<Rightarrow> ts);
     walk z f parts (- 1) (s_inode z) dir
   }"

definition parse_filename :: "u8 list \<Rightarrow> (int \<times> u8 list \<times> u8 list) option" where
  "parse_filename input = do {
     _ \<leftarrow> strcpy MAX_PATH_LENGTH input;
     c \<leftarrow> rd input (int (length input) - 1);
     if c = slash then Some (- 1, [], [])
     else do {
       let part = (case tokens input of [] \<Rightarrow> input | ts \<Rightarrow> last ts);
       _ \<leftarrow> strcpy MAX_FILE_NAME_LENGTH part;
       let cut = int (length input) - int (length part) - 1;
       if cut < 0 then None
       else Some (0, part, take (nat cut) input)
     }
   }"

end
