(* ===== verification/Fs_Files.thy ===== *)
theory Fs_Files
  imports Fs_Dirs
begin

text \<open>
  Open files and the initialisation of a disk, \<open>src/question/kernel/fs.c\<close>. The table of
  open files is the caller's; a descriptor pointer is its index in the table.
\<close>

definition MAX_OPEN_FDS :: int where "MAX_OPEN_FDS = 10"

record file_descriptor_t =
  fd_id :: int
  fd_flags :: int
  fd_inode_id :: int

record fd_table_t =
  fdt_count :: int
  fdt_open :: "file_descriptor_t list"

definition zero_fd_table :: fd_table_t where
  "zero_fd_table = \<lparr>fdt_count = 0, fdt_open = replicate 10 \<lparr>fd_id = 0, fd_flags = 0, fd_inode_id = 0\<rparr>\<rparr>"

section \<open>File descriptors\<close>

definition find_fd :: "fd_table_t \<Rightarrow> (file_descriptor_t \<Rightarrow> bool) \<Rightarrow> int option option" where
  "find_fd t P = find_first (\<lambda>i. do { e \<leftarrow> rd (fdt_open t) i; Some (P e) }) [0..fdt_count t - 1]"

definition fdid_to_fd :: "fd_table_t \<Rightarrow> int \<Rightarrow> int option option" where
  "fdid_to_fd t i = find_fd t (\<lambda>e. fd_id e = i)"

definition fdid_to_inode :: "stack \<Rightarrow> fs \<Rightarrow> fd_table_t \<Rightarrow> int \<Rightarrow> inode_t \<Rightarrow> (int \<times> inode_t \<times> fs) option" where
  "fdid_to_inode z f t i inode = do {
     r \<leftarrow> fdid_to_fd t i;
     case r of
       None \<Rightarrow> Some (- 1, inode, f)
     | Some k \<Rightarrow> do { e \<leftarrow> rd (fdt_open t) k; read_inode z f (fd_inode_id e) inode }
   }"

definition global_flags :: "int \<Rightarrow> bool" where
  "global_flags x \<longleftrightarrow> x = READ_GLOBAL \<or> x = WRITE_GLOBAL"

definition add_fd :: "fd_table_t \<Rightarrow> int \<Rightarrow> int \<Rightarrow> (int \<times> fd_table_t) option" where
  "add_fd t inode_id flags =
     (if fdt_count t \<ge> MAX_OPEN_FDS then Some (- 1, t)
      else do {
        r \<leftarrow> find_fd t (\<lambda>e. fd_inode_id e = inode_id);
        case r of
          Some k \<Rightarrow> do {
            e \<leftarrow> rd (fdt_open t) k;
            Some (if global_flags (fd_flags e) then fd_id e else - 1, t)
          }
        | None \<Rightarrow> do {
            let n = fdt_count t;
            es \<leftarrow> wr (fdt_open t) n \<lparr>fd_id = n, fd_flags = flags, fd_inode_id = inode_id\<rparr>;
            Some (n, \<lparr>fdt_count = n + 1, fdt_open = es\<rparr>)
          }
      })"

section \<open>Files\<close>

definition open_file ::
  "stack \<Rightarrow> fs \<Rightarrow> fd_table_t \<Rightarrow> directory_t \<Rightarrow> u8 list \<Rightarrow> int \<Rightarrow> (int \<times> fd_table_t \<times> fs) option" where
  "open_file z f t dir path_and_filename flags = do {
     (status, name, path) \<leftarrow> parse_filename path_and_filename;
     if status < 0 then Some (- 1, t, f)
     else do {
       (dir, f) \<leftarrow>
         (if path = [] then Some (dir, f)
          else do {
            (i, f) \<leftarrow> path_to_inode_id z f dir path;
            (_, inode, f) \<leftarrow> read_inode z f i (s_inode z);
            (_, dir, _, f) \<leftarrow> read_dir z f inode (s_dir z);
            Some (dir, f)
          });
       (i, f) \<leftarrow> path_to_inode_id z f dir name;
       if i < 0 \<and> \<not> (flags = WRITE \<or> flags = READ_WRITE \<or> flags = WRITE_GLOBAL) then Some (- 1, t, f)
       else do {
         (i, f) \<leftarrow>
           (if i < 0 then do { (i, _, f) \<leftarrow> create_file z f dir name INODE_FILE; Some (i, f) }
            else Some (i, f));
         (fd, t) \<leftarrow> add_fd t i flags;
         Some (fd, t, f)
       }
     }
   }"

definition close_file :: "fd_table_t \<Rightarrow> int \<Rightarrow> (int \<times> fd_table_t) option" where
  "close_file t i = do {
     r \<leftarrow> find_fd t (\<lambda>e. fd_id e = i);
     case r of
       None \<Rightarrow> Some (- 1, t)
     | Some index \<Rightarrow> do {
         e \<leftarrow> rd (fdt_open t) index;
         if global_flags (fd_flags e) then Some (0, t)
         else do {
           let n = fdt_count t - 1;
           es \<leftarrow> memmove_elems (fdt_open t) index (index + 1) (n - index);
           Some (0, \<lparr>fdt_count = n, fdt_open = es\<rparr>)
         }
       }
   }"

section \<open>A new disk\<close>

fun init_inodes_from :: "stack \<Rightarrow> int list \<Rightarrow> fs \<Rightarrow> (int \<times> fs) option" where
  "init_inodes_from z [] f = Some (0, f)"
| "init_inodes_from z (i # is) f = do {
     (status, f) \<leftarrow> write_inode z f (new_inode i);
     if status < 0 then Some (- 1, f) else init_inodes_from z is f
   }"

definition init_inodes :: "stack \<Rightarrow> fs \<Rightarrow> (int \<times> fs) option" where
  "init_inodes z f = init_inodes_from z [0..inode_num (sb f) - 1] f"

definition create_root_directory :: "stack \<Rightarrow> fs \<Rightarrow> (int \<times> directory_t \<times> fs) option" where
  "create_root_directory z f = do {
     (i, f) \<leftarrow> create_inode_type z f INODE_DIRECTORY;
     if i < 0 then Some (- 1, zero_directory, f)
     else do {
       dot \<leftarrow> link_to i (bstr ''.'');
       dotdot \<leftarrow> link_to i (bstr ''..'');
       ls \<leftarrow> wr (links zero_directory) 0 dot;
       ls \<leftarrow> wr ls 1 dotdot;
       let dir = \<lparr>files_count = 2, links = ls\<rparr>;
       (status, f) \<leftarrow> write_dir z f dir;
       Some (status, dir, f)
     }
   }"

text \<open>Statuses are combined with \<open>|=\<close>.\<close>

definition or_status :: "int \<Rightarrow> int \<Rightarrow> int" where
  "or_status a b = int_of_u32 (u32_of_int a OR u32_of_int b)"

definition init_disk :: "stack \<Rightarrow> fs \<Rightarrow> (int \<times> directory_t \<times> fs) option" where
  "init_disk z f = do {
     f \<leftarrow> new_superblock f;
     (s1, f) \<leftarrow> write_superblock (s_block z) f;
     (s2, f) \<leftarrow> init_inodes z f;
     (s3, dir, f) \<leftarrow> create_root_directory z f;
     Some (or_status (or_status (or_status 0 s1) s2) s3, dir, f)
   }"

definition read_root_dir :: "stack \<Rightarrow> fs \<Rightarrow> directory_t \<Rightarrow> (int \<times> directory_t \<times> fs) option" where
  "read_root_dir z f dir = do {
     (status, inode, f) \<leftarrow> read_inode z f 0 (s_inode z);
     if status < 0 then Some (- 1, dir, f)
     else do {
       (status, dir, _, f) \<leftarrow> read_dir z f inode dir;
       Some (status, dir, f)
     }
   }"

definition create_io_devices :: "stack \<Rightarrow> fs \<Rightarrow> directory_t \<Rightarrow> (int \<times> directory_t \<times> fs) option" where
  "create_io_devices z f root = do {
     (status, root, dev, f) \<leftarrow> create_directory z f root (bstr ''dev'') zero_directory;
     if status < 0 then Some (- 1, root, f)
     else do {
       (i1, dev, f) \<leftarrow> create_file z f dev (bstr ''stdin'') INODE_DEVICE;
       if i1 < 0 then Some (- 1, root, f)
       else do {
         (i2, dev, f) \<leftarrow> create_file z f dev (bstr ''stdout'') INODE_DEVICE;
         if i2 < 0 then Some (- 1, root, f)
         else do {
           (i3, dev, f) \<leftarrow> create_file z f dev (bstr ''stderr'') INODE_DEVICE;
           Some (if i3 < 0 then - 1 else 0, root, f)
         }
       }
     }
   }"

end
