(* ===== verification/File_System_Calls.thy ===== *)
theory File_System_Calls
  imports System_Calls Fs_Files
begin

text \<open>
  The file system calls, \<open>src/question/kernel/file_system_calls.c\<close>. The kernel state extends the
  process state with the second serial line, the disk, the mounted superblock and root
  directory (\<open>None\<close> for the NULL that \<open>sys_unmount\<close> stores), the table of open files, the
  descriptors of the standard streams and the memory of the user programs, to which the pointer
  arguments refer. A path argument is the string in that memory, which the dispatcher reads.
  A function that ends without a \<open>return\<close> yields \<open>s_ret\<close>.
\<close>

record kernel = sys +
  uart0 :: terminal
  dsk :: disk
  mounted :: "superblock_t option"
  root_dir :: "directory_t option"
  open_files :: fd_table_t
  STDIN_FD :: int
  STDOUT_FD :: int
  STDERR_FD :: int
  mem :: "u32 \<Rightarrow> u8"

section \<open>User memory\<close>

partial_function (option) cstr_at :: "(u32 \<Rightarrow> u8) \<Rightarrow> u32 \<Rightarrow> u8 list option" where
  "cstr_at m a = (if m a = 0 then Some [] else do { s \<leftarrow> cstr_at m (a + 1); Some (m a # s) })"

definition load_bytes :: "(u32 \<Rightarrow> u8) \<Rightarrow> u32 \<Rightarrow> int \<Rightarrow> u8 list" where
  "load_bytes m a n = map (\<lambda>i. m (a + u32_of_int i)) [0..n - 1]"

fun store_bytes :: "(u32 \<Rightarrow> u8) \<Rightarrow> u32 \<Rightarrow> u8 list \<Rightarrow> u32 \<Rightarrow> u8" where
  "store_bytes m a [] = m"
| "store_bytes m a (x # xs) = store_bytes (m(a := x)) (a + 1) xs"

definition strcat :: "(u32 \<Rightarrow> u8) \<Rightarrow> u32 \<Rightarrow> u8 list \<Rightarrow> (u32 \<Rightarrow> u8) option" where
  "strcat m a xs = do {
     s \<leftarrow> cstr_at m a;
     Some (store_bytes m (a + of_nat (length s)) (xs @ [0]))
   }"

definition buf_string :: "u8 list \<Rightarrow> u8 list option" where
  "buf_string xs = (if 0 \<in> set xs then Some (takeWhile (\<lambda>x. x \<noteq> 0) xs) else None)"

section \<open>Access to the mounted disk\<close>

definition fs_of :: "kernel \<Rightarrow> fs option" where
  "fs_of k = do { b \<leftarrow> mounted k; Some \<lparr>sb = b, dk = dsk k\<rparr> }"

definition put_fs :: "kernel \<Rightarrow> fs \<Rightarrow> kernel" where
  "put_fs k f = k\<lparr>mounted := Some (sb f), dsk := dk f\<rparr>"

section \<open>Mounting\<close>

definition init_disk_globals :: "kernel \<Rightarrow> kernel option" where
  "init_disk_globals k = do {
     _ \<leftarrow> mounted k;
     _ \<leftarrow> root_dir k;
     Some (k\<lparr>mounted := Some zero_superblock, root_dir := Some zero_directory,
             open_files := zero_fd_table\<rparr>)
   }"

definition open_io_devices :: "stack \<Rightarrow> kernel \<Rightarrow> (int \<times> kernel) option" where
  "open_io_devices z k = do {
     f \<leftarrow> fs_of k;
     dir \<leftarrow> root_dir k;
     (i, t, f) \<leftarrow> open_file z f (open_files k) dir (bstr ''/dev/stdin'') READ_GLOBAL;
     (j, t, f) \<leftarrow> open_file z f t dir (bstr ''/dev/stdout'') WRITE_GLOBAL;
     (l, t, f) \<leftarrow> open_file z f t dir (bstr ''/dev/stderr'') WRITE_GLOBAL;
     let k = (put_fs k f)\<lparr>open_files := t, STDIN_FD := i, STDOUT_FD := j, STDERR_FD := l\<rparr>;
     Some (if i < 0 \<or> j < 0 \<or> l < 0 then - 1 else 0, k)
   }"

definition sys_mount :: "stack \<Rightarrow> kernel \<Rightarrow> (int \<times> kernel) option" where
  "sys_mount z k = do {
     k \<leftarrow> init_disk_globals k;
     f \<leftarrow> fs_of k;
     dir \<leftarrow> root_dir k;
     (ok, f) \<leftarrow> valid_superblock f;
     if ok then Some (- 1, error (put_fs k f) ''Disk already mounted\<newline>'')
     else do {
       (status, f) \<leftarrow> read_superblock (s_block z) f;
       (ok, f) \<leftarrow> valid_superblock f;
       (status, dir, f) \<leftarrow>
         (if \<not> ok then do {
            (s1, dir, f) \<leftarrow> init_disk z f;
            (s2, dir, f) \<leftarrow> create_io_devices z f dir;
            Some (or_status (or_status status s1) s2, dir, f)
          } else do {
            (s1, dir, f) \<leftarrow> read_root_dir z f dir;
            Some (or_status status s1, dir, f)
          });
       let k = (put_fs k f)\<lparr>root_dir := Some dir\<rparr>;
       (s3, k) \<leftarrow> open_io_devices z k;
       let status = or_status status s3;
       f \<leftarrow> fs_of k;
       (_, f) \<leftarrow> write_superblock (s_block z) f;
       let k = put_fs k f;
       Some (if status < 0 then (- 1, error k ''Error mounting disk\<newline>'') else (0, k))
     }
   }"

text \<open>
  The loop of \<open>sys_unmount\<close> reads the count of open files again in every round; closing never
  increases it, so the indices below the first count are all it can visit.
\<close>

fun close_all :: "int list \<Rightarrow> fd_table_t \<Rightarrow> (int \<times> fd_table_t) option" where
  "close_all [] t = Some (0, t)"
| "close_all (i # is) t =
     (if i \<ge> fdt_count t then Some (0, t)
      else do {
        e \<leftarrow> rd (fdt_open t) i;
        (r, t) \<leftarrow> close_file t (fd_id e);
        if r < 0 then Some (- 1, t) else close_all is t
      })"

definition sys_unmount :: "stack \<Rightarrow> kernel \<Rightarrow> (int \<times> kernel) option" where
  "sys_unmount z k =
     (if mounted k = None then Some (- 1, error k ''Disk not mounted\<newline>'')
      else do {
        (r, t) \<leftarrow> close_all [0..fdt_count (open_files k) - 1] (open_files k);
        let k = k\<lparr>open_files := t\<rparr>;
        if r < 0 then Some (- 1, error k ''Couldn't close all open files\<newline>'')
        else do {
          f \<leftarrow> fs_of k;
          (r, f) \<leftarrow> write_superblock (s_block z) f;
          let k = put_fs k f;
          if r < 0 then Some (- 1, error k ''Failed to unmount disk\<newline>'')
          else Some (0, k\<lparr>mounted := None, root_dir := None\<rparr>)
        }
      })"

section \<open>Open and close\<close>

definition refresh_root :: "stack \<Rightarrow> kernel \<Rightarrow> (int \<times> kernel) option" where
  "refresh_root z k = do {
     f \<leftarrow> fs_of k;
     dir \<leftarrow> root_dir k;
     (r, dir, f) \<leftarrow> read_root_dir z f dir;
     Some (r, (put_fs k f)\<lparr>root_dir := Some dir\<rparr>)
   }"

definition sys_open :: "stack \<Rightarrow> kernel \<Rightarrow> u8 list \<Rightarrow> int \<Rightarrow> (int \<times> kernel) option" where
  "sys_open z k path flags = do {
     (parsed, _, _) \<leftarrow> parse_filename path;
     (fd, k) \<leftarrow>
       (if parsed < 0 then Some (- 1, k)
        else do {
          f \<leftarrow> fs_of k;
          dir \<leftarrow> root_dir k;
          (fd, t, f) \<leftarrow> open_file z f (open_files k) dir path flags;
          Some (fd, (put_fs k f)\<lparr>open_files := t\<rparr>)
        });
     if fd < 0 then Some (- 1, error k ''Failed to open file\<newline>'')
     else do {
       (r, k) \<leftarrow> refresh_root z k;
       if r < 0 then Some (- 1, error k ''Failed to read root dir\<newline>'')
       else do {
         p \<leftarrow> current_pid (tbl k);
         (r, t) \<leftarrow> add_process_fd (tbl k) p fd;
         let k = k\<lparr>tbl := t\<rparr>;
         Some (if r < 0 then - 1 else fd, k)
       }
     }
   }"

definition sys_close :: "kernel \<Rightarrow> int \<Rightarrow> (int \<times> kernel) option" where
  "sys_close k fd = do {
     (r, t) \<leftarrow> close_file (open_files k) fd;
     let k = k\<lparr>open_files := t\<rparr>;
     if r < 0 then Some (- 1, error k ''Failed to close file\<newline>'')
     else do {
       p \<leftarrow> current_pid (tbl k);
       (r, t) \<leftarrow> remove_process_fd (tbl k) p fd;
       Some (r, k\<lparr>tbl := t\<rparr>)
     }
   }"

section \<open>Reading and writing\<close>

definition process_has_file_permission :: "kernel \<Rightarrow> int \<Rightarrow> int \<Rightarrow> int \<Rightarrow> int option" where
  "process_has_file_permission k p fdid mode = do {
     r \<leftarrow> fdid_to_fd (open_files k) fdid;
     case r of
       None \<Rightarrow> Some (- 1)
     | Some i \<Rightarrow> do {
         e \<leftarrow> rd (fdt_open (open_files k)) i;
         if (mode = READ \<and> fd_flags e = READ_GLOBAL) \<or> (mode = WRITE \<and> fd_flags e = WRITE_GLOBAL)
         then Some 1
         else if fd_flags e \<noteq> READ_WRITE \<and> fd_flags e \<noteq> mode then Some (- 1)
         else proc_fd_open (tbl k) p fdid
       }
   }"

definition write_device :: "kernel \<Rightarrow> int \<Rightarrow> u32 \<Rightarrow> int \<Rightarrow> int \<times> kernel" where
  "write_device k fd x n =
     (if fd = STDOUT_FD k then (n, k\<lparr>uart0 := put_string (uart0 k) (load_bytes (mem k) x n)\<rparr>)
      else if fd = STDERR_FD k then (n, k\<lparr>uart1 := put_string (uart1 k) (load_bytes (mem k) x n)\<rparr>)
      else (- 1, error k ''Unknown device\<newline>''))"

fun read_chars :: "int list \<Rightarrow> u32 \<Rightarrow> kernel \<Rightarrow> kernel option" where
  "read_chars [] x k = Some k"
| "read_chars (i # is) x k = do {
     (c, d) \<leftarrow> PL011_getc (uart1 k);
     let k = k\<lparr>uart1 := d, mem := (mem k)(x + u32_of_int i := c)\<rparr>;
     if c = 0x1B then Some k else read_chars is x k
   }"

definition read_device :: "kernel \<Rightarrow> int \<Rightarrow> u32 \<Rightarrow> int \<Rightarrow> (int \<times> kernel) option" where
  "read_device k fd x n =
     (if fd = STDIN_FD k then do { k \<leftarrow> read_chars [0..n - 1] x k; Some (n, k) }
      else Some (- 1, error k ''Unknown device\<newline>''))"

definition sys_write :: "stack \<Rightarrow> kernel \<Rightarrow> int \<Rightarrow> u32 \<Rightarrow> int \<Rightarrow> (int \<times> kernel) option" where
  "sys_write z k fd x n = do {
     p \<leftarrow> current_pid (tbl k);
     r \<leftarrow> process_has_file_permission k p fd WRITE;
     if r < 0 then Some (- 1, error k ''File not open\<newline>'')
     else do {
       f \<leftarrow> fs_of k;
       (r, inode, f) \<leftarrow> fdid_to_inode z f (open_files k) fd (s_inode z);
       let k = put_fs k f;
       if r < 0 then Some (- 1, error k ''Failed to open\<newline>'')
       else if ino_type inode = INODE_DEVICE then Some (write_device k fd x n)
       else if ino_type inode \<noteq> INODE_FILE
       then Some (- 1, error k ''Cannot write to this type of file\<newline>'')
       else do {
         (r, _, _, f) \<leftarrow> write_to_inode z f inode 0 (load_bytes (mem k) x n) n;
         let k = put_fs k f;
         Some (if r < 0 then (- 1, error k ''Failed to write\<newline>'') else (n, k))
       }
     }
   }"

definition sys_read :: "stack \<Rightarrow> kernel \<Rightarrow> int \<Rightarrow> u32 \<Rightarrow> int \<Rightarrow> (int \<times> kernel) option" where
  "sys_read z k fd x n = do {
     p \<leftarrow> current_pid (tbl k);
     r \<leftarrow> process_has_file_permission k p fd READ;
     if r < 0 then Some (- 1, error k ''File not open\<newline>'')
     else do {
       f \<leftarrow> fs_of k;
       (r, inode, f) \<leftarrow> fdid_to_inode z f (open_files k) fd (s_inode z);
       let k = put_fs k f;
       if r < 0 then Some (- 1, error k ''Failed to open\<newline>'')
       else if ino_type inode = INODE_DEVICE then do {
         t \<leftarrow> mod_current (tbl k) (\<lambda>b. b\<lparr>prio := (prio b)\<lparr>io_burst := i32 (io_burst (prio b) + 1)\<rparr>\<rparr>);
         read_device (k\<lparr>tbl := t\<rparr>) fd x n
       }
       else if ino_type inode \<noteq> INODE_FILE
       then Some (- 1, error k ''Cannot read this type of file\<newline>'')
       else do {
         (r, bs, _, _, f) \<leftarrow> read_from_inode z f inode 0 (load_bytes (mem k) x n) n;
         let k = (put_fs k f)\<lparr>mem := store_bytes (mem k) x bs\<rparr>;
         Some (if r < 0 then (- 1, error k ''Failed to read\<newline>'') else (n, k))
       }
     }
   }"

section \<open>Directories\<close>

definition sys_ls :: "stack \<Rightarrow> kernel \<Rightarrow> u8 list \<Rightarrow> u32 \<Rightarrow> (int \<times> kernel) option" where
  "sys_ls z k path file_list = do {
     f \<leftarrow> fs_of k;
     dir \<leftarrow> root_dir k;
     (i, f) \<leftarrow> path_to_inode_id z f dir path;
     if i < 0 then Some (- 1, put_fs k f)
     else do {
       (r, inode, f) \<leftarrow> read_inode z f i (s_inode z);
       if r < 0 then Some (- 1, put_fs k f)
       else do {
         (r, dir, _, f) \<leftarrow> read_dir z f inode (s_dir z);
         let k = put_fs k f;
         if r < 0 then Some (- 1, error k ''This is not a directory\<newline>'')
         else do {
           m \<leftarrow> foreach (\<lambda>i m. do {
                  l \<leftarrow> rd (links dir) i;
                  name \<leftarrow> buf_string (filename l);
                  m \<leftarrow> strcat m file_list name;
                  strcat m file_list [10] }) [0..files_count dir - 1] (mem k);
           Some (0, k\<lparr>mem := m\<rparr>)
         }
       }
     }
   }"

definition sys_stat :: "stack \<Rightarrow> kernel \<Rightarrow> u8 list \<Rightarrow> u32 \<Rightarrow> (int \<times> kernel) option" where
  "sys_stat z k path info = do {
     f \<leftarrow> fs_of k;
     dir \<leftarrow> root_dir k;
     (i, f) \<leftarrow> path_to_inode_id z f dir path;
     if i < 0 then Some (- 1, error (put_fs k f) ''No such file\<newline>'')
     else do {
       (r, inode, f) \<leftarrow> read_inode z f i (s_inode z);
       let k = put_fs k f;
       if r < 0 then Some (- 1, k)
       else Some (0, k\<lparr>mem := store_bytes (mem k) info
         (enc_file_stat \<lparr>stat_type = ino_type inode, stat_size = ino_size inode,
            stat_creation_time = creation_time inode, stat_modification_time = modification_time inode\<rparr>)\<rparr>)
     }
   }"

text \<open>The directory part of a path: the root for an empty path, otherwise what the path leads to.\<close>

definition parent_dir :: "stack \<Rightarrow> fs \<Rightarrow> directory_t \<Rightarrow> u8 list \<Rightarrow> inode_t \<Rightarrow> (directory_t \<times> inode_t \<times> fs) option" where
  "parent_dir z f root path inode =
     (if path = [] then Some (root, inode, f)
      else do {
        (i, f) \<leftarrow> path_to_inode_id z f root path;
        (_, inode, f) \<leftarrow> read_inode z f i inode;
        (_, dir, inode, f) \<leftarrow> read_dir z f inode (s_dir z);
        Some (dir, inode, f)
      })"

definition sys_mkdir :: "stack \<Rightarrow> kernel \<Rightarrow> u8 list \<Rightarrow> (int \<times> kernel) option" where
  "sys_mkdir z k path_and_filename = do {
     (r, name, path) \<leftarrow> parse_filename path_and_filename;
     if r < 0 then Some (- 1, error k ''Failed to parse path\<newline>'')
     else do {
       f \<leftarrow> fs_of k;
       root \<leftarrow> root_dir k;
       (r1, r2, parent, f) \<leftarrow>
         (if path = [] then Some (0, 0, root, f)
          else do {
            (i, f) \<leftarrow> path_to_inode_id z f root path;
            (r1, inode, f) \<leftarrow> read_inode z f i (s_inode z);
            if r1 < 0 then Some (r1, 0, s_dir z, f)
            else do {
              (r2, dir, _, f) \<leftarrow> read_dir z f inode (s_dir z);
              Some (0, r2, dir, f)
            }
          });
       if r1 < 0 then Some (- 1, error (put_fs k f) ''Failed to read inode\<newline>'')
       else if r2 < 0 then Some (- 1, error (put_fs k f) ''Failed to read dir\<newline>'')
       else do {
         (r, _, _, f) \<leftarrow> create_directory z f parent name zero_directory;
         let k = put_fs k f;
         if r < 0 then Some (- 1, error k ''Failed to write dir\<newline>'')
         else do {
           (r, k) \<leftarrow> refresh_root z k;
           Some (if r < 0 then (- 1, error k ''Failed to read root dir\<newline>'') else (s_ret z, k))
         }
       }
     }
   }"

definition sys_rmdir :: "stack \<Rightarrow> kernel \<Rightarrow> u8 list \<Rightarrow> (int \<times> kernel) option" where
  "sys_rmdir z k path_and_filename = do {
     (r, name, path) \<leftarrow> parse_filename path_and_filename;
     if r < 0 then Some (- 1, error k ''Failed to parse path\<newline>'')
     else do {
       f \<leftarrow> fs_of k;
       root \<leftarrow> root_dir k;
       (parent, inode, f) \<leftarrow> parent_dir z f root path (s_inode z);
       (i, f) \<leftarrow> path_to_inode_id z f parent name;
       (_, inode, f) \<leftarrow> read_inode z f i inode;
       (r, dir, inode, f) \<leftarrow> read_dir z f inode (s_dir z);
       if r < 0 then Some (- 1, error (put_fs k f) ''File is not a directory\<newline>'')
       else if files_count dir > 2 then Some (- 1, error (put_fs k f) ''Directory not empty\<newline>'')
       else do {
         (_, parent) \<leftarrow> delete_file_link parent name;
         (_, f) \<leftarrow> write_dir z f parent;
         (r, _, f) \<leftarrow> delete_inode z f inode;
         Some (r, put_fs k f)
       }
     }
   }"

definition sys_rm :: "stack \<Rightarrow> kernel \<Rightarrow> u8 list \<Rightarrow> (int \<times> kernel) option" where
  "sys_rm z k path_and_filename = do {
     (r, name, path) \<leftarrow> parse_filename path_and_filename;
     if r < 0 then Some (- 1, error k ''Failed to parse path\<newline>'')
     else do {
       f \<leftarrow> fs_of k;
       root \<leftarrow> root_dir k;
       (parent, inode, f) \<leftarrow> parent_dir z f root path (s_inode z);
       (i, f) \<leftarrow> path_to_inode_id z f parent name;
       (r, inode, f) \<leftarrow> read_inode z f i inode;
       if r < 0 then Some (- 1, put_fs k f)
       else do {
         (r, parent) \<leftarrow> delete_file_link parent name;
         if r < 0 then Some (- 1, error (put_fs k f) ''Failed to delete link\<newline>'')
         else do {
           (r, f) \<leftarrow> write_dir z f parent;
           if r < 0 then Some (- 1, error (put_fs k f) ''Failed to write dir\<newline>'')
           else do {
             (r, _, f) \<leftarrow> delete_inode z f inode;
             let k = put_fs k f;
             if r < 0 then Some (- 1, error k ''Failed to delete inode\<newline>'')
             else do {
               (r, k) \<leftarrow> refresh_root z k;
               Some (if r < 0 then (- 1, error k ''Failed to read root dir\<newline>'') else (s_ret z, k))
             }
           }
         }
       }
     }
   }"

end
