(* ===== verification/Hilevel.thy ===== *)
theory Hilevel
  imports File_System_Calls
begin

text \<open>
  The high-level interrupt handlers, \<open>src/question/kernel/hilevel.c\<close>: reset, timer interrupt and
  supervisor call. A handler takes the context the low-level code (\<open>lolevel.s\<close>) saved from the user
  program and returns the context it restores (\<open>Lolevel\<close>). An interrupt is the identifier read from the
  controller; the accesses to the registers of timer and controller are added in \<open>Interrupts\<close>.

  Between handlers a user program runs: it may change its own context and its memory in any
  way. \<open>kstep\<close> is one such round, an arbitrary user action followed by a handler.
\<close>

section \<open>System call numbers\<close>

definition SYS_YIELD :: u32 where "SYS_YIELD = 0x00"
definition SYS_WRITE :: u32 where "SYS_WRITE = 0x01"
definition SYS_READ :: u32 where "SYS_READ = 0x02"
definition SYS_FORK :: u32 where "SYS_FORK = 0x03"
definition SYS_EXIT :: u32 where "SYS_EXIT = 0x04"
definition SYS_EXEC :: u32 where "SYS_EXEC = 0x05"
definition SYS_KILL :: u32 where "SYS_KILL = 0x06"
definition SYS_PS :: u32 where "SYS_PS = 0x07"
definition SYS_SHARE :: u32 where "SYS_SHARE = 0x08"
definition SYS_UNSHARE :: u32 where "SYS_UNSHARE = 0x09"
definition SYS_LOCK :: u32 where "SYS_LOCK = 0x10"
definition SYS_UNLOCK :: u32 where "SYS_UNLOCK = 0x11"
definition SYS_WAIT :: u32 where "SYS_WAIT = 0x12"
definition SYS_FORKWAIT :: u32 where "SYS_FORKWAIT = 0x13"
definition SYS_OPEN :: u32 where "SYS_OPEN = 0x14"
definition SYS_CLOSE :: u32 where "SYS_CLOSE = 0x15"
definition SYS_MOUNT :: u32 where "SYS_MOUNT = 0x16"
definition SYS_UNMOUNT :: u32 where "SYS_UNMOUNT = 0x17"
definition SYS_LS :: u32 where "SYS_LS = 0x18"
definition SYS_STAT :: u32 where "SYS_STAT = 0x19"
definition SYS_MKDIR :: u32 where "SYS_MKDIR = 0x20"
definition SYS_RMDIR :: u32 where "SYS_RMDIR = 0x21"
definition SYS_RM :: u32 where "SYS_RM = 0x22"

lemmas sys_nums = SYS_YIELD_def SYS_WRITE_def SYS_READ_def SYS_FORK_def SYS_EXIT_def SYS_EXEC_def
  SYS_KILL_def SYS_PS_def SYS_SHARE_def SYS_UNSHARE_def SYS_LOCK_def SYS_UNLOCK_def SYS_WAIT_def
  SYS_FORKWAIT_def SYS_OPEN_def SYS_CLOSE_def SYS_MOUNT_def SYS_UNMOUNT_def SYS_LS_def SYS_STAT_def
  SYS_MKDIR_def SYS_RMDIR_def SYS_RM_def

definition GIC_SOURCE_TIMER0 :: u32 where "GIC_SOURCE_TIMER0 = 36"

section \<open>The handlers\<close>

definition hilevel_handler_rst :: "u32 \<Rightarrow> kernel \<Rightarrow> (kernel \<times> ctx_t) option" where
  "hilevel_handler_rst main_console k = do {
     t \<leftarrow> init_pcbs (tbl k);
     t \<leftarrow> mod_pcb t (process 1) (\<lambda>b. b\<lparr>ctx := (ctx b)\<lparr>pc := main_console\<rparr>\<rparr>);
     let t = t\<lparr>current := Some (process 1)\<rparr>;
     t \<leftarrow> mod_current t (\<lambda>b. b\<lparr>prio := (prio b)\<lparr>process_type := INTERACTIVE\<rparr>\<rparr>);
     c \<leftarrow> load_ctx t;
     Some (k\<lparr>tbl := t\<rparr>, c)
   }"

definition hilevel_handler_irq :: "kernel \<Rightarrow> ctx_t \<Rightarrow> u32 \<Rightarrow> (kernel \<times> ctx_t) option" where
  "hilevel_handler_irq k c n =
     (if n = GIC_SOURCE_TIMER0 then do {
        let t = (tbl k)\<lparr>BURSTS := i32 (BURSTS (tbl k) + 1)\<rparr>;
        (t, c) \<leftarrow> scheduler t c;
        Some (k\<lparr>tbl := t\<rparr>, c)
      } else Some (k, c))"

text \<open>The result of a call in \<open>r0\<close>, for the calls that leave the context alone.\<close>

definition ret :: "ctx_t \<Rightarrow> (int \<times> kernel) option \<Rightarrow> (kernel \<times> ctx_t) option" where
  "ret c r = do { (x, k) \<leftarrow> r; c \<leftarrow> set_r0 c (u32_of_int x); Some (k, c) }"

definition hilevel_handler_svc :: "stack \<Rightarrow> u8 list \<Rightarrow> kernel \<Rightarrow> ctx_t \<Rightarrow> u32 \<Rightarrow> (kernel \<times> ctx_t) option" where
  "hilevel_handler_svc z b k c n = do {
     r0 \<leftarrow> rd (gpr c) 0;
     r1 \<leftarrow> rd (gpr c) 1;
     r2 \<leftarrow> rd (gpr c) 2;
     if n = SYS_FORK then sys_fork k c
     else if n = SYS_EXIT then sys_exit k c (int_of_u32 r0)
     else if n = SYS_KILL then do {
       (status, k, c) \<leftarrow> sys_kill k c (int_of_u32 r0) r1;
       c \<leftarrow> set_r0 c (u32_of_int status);
       Some (k, c)
     }
     else if n = SYS_WRITE then ret c (sys_write z k (int_of_u32 r0) r1 (int_of_u32 r2))
     else if n = SYS_READ then ret c (sys_read z k (int_of_u32 r0) r1 (int_of_u32 r2))
     else if n = SYS_OPEN then do {
       path \<leftarrow> cstr_at (mem k) r0;
       ret c (sys_open z k path (int_of_u32 r1))
     }
     else if n = SYS_CLOSE then ret c (sys_close k (int_of_u32 r0))
     else if n = SYS_MOUNT then ret c (sys_mount z k)
     else if n = SYS_UNMOUNT then ret c (sys_unmount z k)
     else if n = SYS_YIELD then sys_yield k c
     else if n = SYS_EXEC then sys_exec k c r0 (int_of_u32 r1) r2
     else if n = SYS_PS then do {
       k \<leftarrow> (if int_of_u32 r0 = 0 then sys_ps b k else ps_stats b k (int_of_u32 r0));
       Some (k, c)
     }
     else if n = SYS_SHARE then ret c (sys_share k r0)
     else if n = SYS_UNSHARE then ret c (sys_unshare k r0)
     else if n = SYS_LOCK then ret c (sys_lock k r0)
     else if n = SYS_UNLOCK then ret c (sys_unlock k r0)
     else if n = SYS_WAIT then do {
       p \<leftarrow> current_pid (tbl k);
       ret c (sys_wait k p (int_of_u32 r0))
     }
     else if n = SYS_FORKWAIT then sys_fork_wait k c
     else if n = SYS_LS then do {
       path \<leftarrow> cstr_at (mem k) r0;
       ret c (sys_ls z k path r1)
     }
     else if n = SYS_STAT then do {
       path \<leftarrow> cstr_at (mem k) r0;
       ret c (sys_stat z k path r1)
     }
     else if n = SYS_RMDIR then do { path \<leftarrow> cstr_at (mem k) r0; ret c (sys_rmdir z k path) }
     else if n = SYS_MKDIR then do { path \<leftarrow> cstr_at (mem k) r0; ret c (sys_mkdir z k path) }
     else if n = SYS_RM then do { path \<leftarrow> cstr_at (mem k) r0; ret c (sys_rm z k path) }
     else Some (error k ''unknown/unsupported system call\<newline>'', c)
   }"

section \<open>File system calls leave the process table alone\<close>

lemmas run_splits = Option.bind_splits prod.splits if_splits option.splits

lemma tbl_simps [simp]:
  "tbl (put_fs k f) = tbl k" "tbl (error k' m) = tbl k'"
  by (simp_all add: put_fs_def error_def)

lemma open_io_tbl: "open_io_devices z k = Some (r, k') \<Longrightarrow> tbl k' = tbl k"
  by (auto simp: open_io_devices_def Let_def split: run_splits)

lemma init_globals_tbl: "init_disk_globals k = Some k' \<Longrightarrow> tbl k' = tbl k"
  by (auto simp: init_disk_globals_def split: run_splits)

lemma mount_tbl: "sys_mount z k = Some (r, k') \<Longrightarrow> tbl k' = tbl k"
  by (auto simp: sys_mount_def Let_def dest!: open_io_tbl init_globals_tbl split: run_splits)

lemma unmount_tbl: "sys_unmount z k = Some (r, k') \<Longrightarrow> tbl k' = tbl k"
  by (auto simp: sys_unmount_def Let_def split: run_splits)

lemma refresh_tbl: "refresh_root z k = Some (r, k') \<Longrightarrow> tbl k' = tbl k"
  by (auto simp: refresh_root_def split: run_splits)

lemma write_tbl: "sys_write z k fd x n = Some (r, k') \<Longrightarrow> tbl k' = tbl k"
  by (auto simp: sys_write_def Let_def write_device_def split: run_splits)

lemma ls_tbl: "sys_ls z k path a = Some (r, k') \<Longrightarrow> tbl k' = tbl k"
  by (auto simp: sys_ls_def Let_def split: run_splits)

lemma stat_tbl: "sys_stat z k path a = Some (r, k') \<Longrightarrow> tbl k' = tbl k"
  by (auto simp: sys_stat_def Let_def split: run_splits)

lemma mkdir_tbl: "sys_mkdir z k path = Some (r, k') \<Longrightarrow> tbl k' = tbl k"
  by (auto simp: sys_mkdir_def Let_def dest!: refresh_tbl split: run_splits)

lemma rmdir_tbl: "sys_rmdir z k path = Some (r, k') \<Longrightarrow> tbl k' = tbl k"
  by (auto simp: sys_rmdir_def Let_def split: run_splits)

lemma rm_tbl: "sys_rm z k path = Some (r, k') \<Longrightarrow> tbl k' = tbl k"
  by (auto simp: sys_rm_def Let_def dest!: refresh_tbl split: run_splits)

lemmas fs_tbl = mount_tbl unmount_tbl write_tbl ls_tbl stat_tbl mkdir_tbl rmdir_tbl rm_tbl

lemma fd_current:
  "add_process_fd t p fd = Some (r, t') \<Longrightarrow> current t' = current t"
  "remove_process_fd t p fd = Some (r, t') \<Longrightarrow> current t' = current t"
  by (auto simp: add_process_fd_def remove_process_fd_def put_pcb_def Let_def split: run_splits)

lemma fd_procs_wf:
  assumes "procs_wf t" "valid_pid p"
  shows "add_process_fd t p fd = Some (r, t') \<Longrightarrow> procs_wf t'"
    "remove_process_fd t p fd = Some (r, t') \<Longrightarrow> procs_wf t'"
  using add_process_fd_spec [OF wf_table [OF assms(1)] assms(2), of fd]
    remove_process_fd_spec [OF wf_table [OF assms(1)] assms(2), of fd] fd_current [of t p fd r t'] assms(1)
  by (auto simp: procs_wf_def)

lemma fd_procs_wf_cur:
  "procs_wf t \<Longrightarrow> add_process_fd t (cur t) fd = Some (r, t') \<Longrightarrow> procs_wf t'"
  "procs_wf t \<Longrightarrow> remove_process_fd t (cur t) fd = Some (r, t') \<Longrightarrow> procs_wf t'"
  using fd_procs_wf cur_valid by blast+

lemma open_wf: "sys_open z k path x = Some (r, k') \<Longrightarrow> procs_wf (tbl k) \<Longrightarrow> procs_wf (tbl k')"
  by (auto simp: sys_open_def Let_def current_pid_cur dest!: refresh_tbl
      intro: fd_procs_wf_cur split: run_splits)

lemma close_wf: "sys_close k fd = Some (r, k') \<Longrightarrow> procs_wf (tbl k) \<Longrightarrow> procs_wf (tbl k')"
  by (auto simp: sys_close_def Let_def current_pid_cur intro: fd_procs_wf_cur split: run_splits)

lemma read_chars_tbl: "read_chars is x k = Some k' \<Longrightarrow> tbl k' = tbl k"
  by (induction "is" arbitrary: k) (auto simp: Let_def split: run_splits)

lemma read_wf: "sys_read z k fd x n = Some (r, k') \<Longrightarrow> procs_wf (tbl k) \<Longrightarrow> procs_wf (tbl k')"
  by (auto simp: sys_read_def read_device_def Let_def mod_current_upd dest!: read_chars_tbl
      intro!: procs_wf_upd pcb_wf_prio wf_blk wf_table cur_valid split: run_splits)

lemmas file_calls_wf = open_wf close_wf read_wf

section \<open>Process calls keep the table well formed\<close>

lemma updated_registered:
  assumes "table_wf s" "valid_pid p" "update_waiters s p r = Some t"
  shows "\<forall>j < 5. registered s p j"
  using update_waiters_null [OF assms(1,2)] assms(3) by fastforce

definition good :: "kernel \<times> ctx_t \<Rightarrow> bool" where
  "good kc \<longleftrightarrow> procs_wf (tbl (fst kc)) \<and> length (gpr (snd kc)) = 13"

lemma good_pair [simp]: "good (k, c) \<longleftrightarrow> procs_wf (tbl k) \<and> length (gpr c) = 13"
  by (simp add: good_def)

lemma scheduler_good:
  assumes "procs_wf s" "length (gpr c) = 13" "scheduler s c = Some (s', c')"
  shows "procs_wf s' \<and> length (gpr c') = 13"
  using sched_state_spec(1,3) [OF assms(1,2) scheduler_result [OF assms]] by simp

text \<open>A \<open>fork\<close> that finds a free slot fills it, and then changes to it as \<open>set_current\<close> does.\<close>

lemma fork_shape:
  assumes g: "good (k, c)" and r: "sys_fork k c = Some (k', c')"
  obtains (full) "k' = error k ''No free processes\<newline>''" "c' = with_r0 c (u32_of_int (- 1))"
  | (child) p t t' where "valid_pid p" "\<not> active (tbl k) p" "procs_wf t" "cur t = cur (tbl k)"
      "\<forall>q. valid_pid q \<longrightarrow> ctx (blk t q) = (if q = p then with_r0 c 0 else ctx (blk (tbl k) q))"
      "set_current t (with_r0 c (u32_of_int p)) p = Some (t', c')" "k' = k\<lparr>tbl := t'\<rparr>"
proof -
  have wf: "procs_wf (tbl k)" and len: "length (gpr c) = 13" using g by simp_all
  obtain p where p: "free_pid (tbl k) = Some p" using r by (auto simp: sys_fork_def split: run_splits)
  show ?thesis
  proof (cases "p = - 1")
    case True
    then show ?thesis using r p len by (intro full) (auto simp: sys_fork_def set_r0_spec)
  next
    case False
    have pv: "valid_pid p" "\<not> active (tbl k) p" using free_pid_cases [OF wf_table [OF wf] p] False by auto
    define t1 where "t1 = upd (tbl k) p (fresh_pcb (tbl k) p (cur (tbl k)))"
    have t1: "procs_wf t1" unfolding t1_def
      using wf pv(1) cur_valid [OF wf] by (intro procs_wf_upd fresh_pcb_wf) simp_all
    define t2 where "t2 = upd t1 p ((blk t1 p)\<lparr>ctx := c\<rparr>)"
    have t2: "procs_wf t2" unfolding t2_def
      using t1 pv(1) len by (intro procs_wf_upd pcb_wf_ctx wf_blk wf_table)
    have b2: "ctx (blk t2 p) = c" using pv(1) wf_table [OF t1] by (simp add: t2_def blk_upd)
    define t3 where "t3 = upd t2 p ((blk t2 p)\<lparr>ctx := with_r0 c 0\<rparr>)"
    have t3: "procs_wf t3" unfolding t3_def
      using t2 pv(1) len by (intro procs_wf_upd pcb_wf_ctx wf_blk wf_table) simp_all
    have b3: "\<forall>q. valid_pid q \<longrightarrow> ctx (blk t3 q) = (if q = p then with_r0 c 0 else ctx (blk (tbl k) q))"
      using pv(1) wf_table [OF wf] wf_table [OF t1] wf_table [OF t2]
      by (simp add: t3_def t2_def blk_upd) (simp add: t1_def blk_upd)
    have "do { (t, c) \<leftarrow> set_current t3 (with_r0 c (u32_of_int p)) p; Some (k\<lparr>tbl := t\<rparr>, c) } = Some (k', c')"
      using r False p pv(1) wf len t1 t2 b2
      by (simp add: sys_fork_def current_pid_cur new_process_spec mod_pcb_upd pcb_at_blk put_pcb_upd
          wf_table set_r0_spec u32_of_int_def flip: t1_def t2_def) (simp add: t3_def b2)
    then obtain t where "set_current t3 (with_r0 c (u32_of_int p)) p = Some (t, c')" "k' = k\<lparr>tbl := t\<rparr>"
      by (auto split: run_splits)
    then show ?thesis using pv t3 b3 by (intro child) (simp_all add: t3_def t2_def t1_def)
  qed
qed

lemma fork_good:
  assumes g: "good (k, c)" and r: "sys_fork k c = Some (k', c')"
  shows "good (k', c')"
  using g r
proof (cases rule: fork_shape)
  case full
  then show ?thesis using g by simp
next
  case (child p t t')
  then show ?thesis using set_current_wf [OF child(3,1) _ child(6)] g by simp
qed

lemma wait_wf:
  assumes wf: "procs_wf (tbl k)" and p: "valid_pid p" and r: "sys_wait k p q = Some (x, k')"
  shows "procs_wf (tbl k')" "current (tbl k') = current (tbl k)" "same_frame (tbl k) (tbl k')"
proof -
  have tw: "table_wf (tbl k)" by (rule wf_table [OF wf])
  have frame: "table_wf t \<and> same_frame (tbl k) t \<and> (\<forall>a. w = Some a \<longrightarrow> (\<exists>j. a = (process p, j) \<and> 0 \<le> j \<and> j \<le> 19))"
    if t: "set_waiting (tbl k) p q = Some (w, t)" for w t
  proof -
    have "valid_pid q \<or> pcb_at (tbl k) (process q) = None"
      using tw by (auto simp: pcb_at_def process_def rd_def table_wf_def)
    then have qv: "valid_pid q" using t by (auto simp: set_waiting_def active_process_def)
    show ?thesis
    proof (cases "active (tbl k) q \<and> waiter_slot (tbl k) q 0 \<noteq> None")
      case False
      then show ?thesis using t set_waiting_spec [OF tw p qv] tw by (auto split: if_splits)
    next
      case True
      then obtain i where i: "waiter_slot (tbl k) q 0 = Some i" by auto
      let ?s1 = "upd (tbl k) q ((blk (tbl k) q)\<lparr>waiters := (waiters (blk (tbl k) q))[nat i := \<lparr>wr_pid = p\<rparr>]\<rparr>)"
      have w1: "table_wf ?s1"
        by (rule table_wf_upd [OF tw qv]) (use tw p qv in \<open>auto intro!: pcb_wf_waiters wf_blk\<close>)
      have f1: "same_frame (tbl k) ?s1" by (rule same_frame_lists(2) [OF tw qv])
      consider (full) "t = ?s1" "w = None"
        | (slot) j v where "t = set_result ?s1 p j v" "w = Some (process p, j)" "wait_slot (tbl k) p 0 = Some j"
        using t set_waiting_spec [OF tw p qv] True i by (auto simp: Let_def split: option.splits)
      then show ?thesis
      proof cases
        case full
        then show ?thesis using w1 f1 by simp
      next
        case slot
        then show ?thesis
          using set_result_wf [OF w1 p] same_frame_trans [OF f1 set_result_frame [OF w1 p]]
            wait_slot_bounds [OF slot(3)] by simp
      qed
    qed
  qed
  have step: "table_wf u \<and> same_frame (tbl k) u"
    if "table_wf t \<and> same_frame (tbl k) t" "mod_waiting t (process p, i) g = Some u" "0 \<le> i" "i \<le> 19" for t u i g
    using that p set_result_wf set_result_frame same_frame_trans by (auto simp: mod_waiting_spec)
  have "table_wf (tbl k') \<and> same_frame (tbl k) (tbl k')"
  proof (cases "wait_slot (tbl k) p q")
    case (Some i)
    then have b: "0 \<le> i" "i \<le> 19" using wait_slot_bounds by blast+
    show ?thesis using r wait_known [OF tw p Some] set_result_wf [OF tw p] set_result_frame [OF tw p] tw
      by (auto split: if_splits)
  next
    case None
    then obtain w t where t: "set_waiting (tbl k) p q = Some (w, t)"
      using r tw p by (auto simp: sys_wait_def get_waiting_spec split: run_splits)
    note ft = frame [OF t]
    show ?thesis
    proof (cases w)
      case None
      then show ?thesis using r t ft \<open>wait_slot (tbl k) p q = None\<close> tw p
        by (auto simp: sys_wait_def get_waiting_spec error_def)
    next
      case (Some a)
      then obtain i where i: "a = (process p, i)" "0 \<le> i" "i \<le> 19" using ft by blast
      have "tbl k' = t \<or> (\<exists>g. mod_waiting t (process p, i) g = Some (tbl k'))"
        using r t Some i(1) \<open>wait_slot (tbl k) p q = None\<close> tw p
        by (auto simp: sys_wait_def get_waiting_spec Let_def split: run_splits)
      then show ?thesis using step i(2,3) ft by blast
    qed
  qed
  then show "procs_wf (tbl k')" "current (tbl k') = current (tbl k)" "same_frame (tbl k) (tbl k')"
    using same_frame_procs_wf wf by (auto simp: same_frame_def)
qed

lemma fork_wait_good:
  assumes g: "good (k, c)" and r: "sys_fork_wait k c = Some (k', c')"
  shows "good (k', c')"
proof -
  have wf: "procs_wf (tbl k)" using g by simp
  obtain k1 c1 x where f: "sys_fork k c = Some (k1, c1)"
    "sys_wait k1 (cur (tbl k)) (cur (tbl k1)) = Some (x, k')" "c' = c1"
    using r wf fork_good [OF g] by (auto simp: sys_fork_wait_def current_pid_cur split: run_splits)
  have g1: "good (k1, c1)" by (rule fork_good [OF g f(1)])
  then show ?thesis using wait_wf(1) [OF _ cur_valid [OF wf] f(2)] f(3) by simp
qed

lemma exit_good:
  assumes g: "good (k, c)" and r: "sys_exit k c x = Some (k', c')"
  shows "good (k', c')"
proof -
  have wf: "procs_wf (tbl k)" and len: "length (gpr c) = 13" using g by simp_all
  have "\<forall>j < 5. registered (tbl k) (cur (tbl k)) j"
    using exit_undefined [OF wf] r by (metis option.distinct(1))
  then obtain t0 t c0 c1 where e: "left (tbl k) (cur (tbl k)) x t0" "length (gpr c0) = 13"
    "scheduler t0 c0 = Some (t, c1)" "sys_exit k c x = Some (k\<lparr>tbl := t\<rparr>, c1)"
    using exit_ok [OF wf len] by metis
  have "procs_wf t0" using e(1) by (simp add: left_def)
  then show ?thesis using scheduler_good [OF _ e(2,3)] e(4) r by simp
qed

lemma orphaned_wf:
  assumes "procs_wf t" "fix_orphaned_processes t p = Some u"
  shows "procs_wf u" "cur u = cur t"
  using fix_orphaned_spec [OF wf_table [OF assms(1)], of p] assms
    same_globals_wf [OF _ assms(1)] same_globals_cur by auto

lemma update_waiters_wf:
  assumes "procs_wf s" "valid_pid p" "update_waiters s p r = Some t"
  shows "procs_wf t" "cur t = cur s" "same_frame s t"
proof -
  note tw = wf_table [OF assms(1)]
  have "told s p r 5 t"
    using update_waiters_ok [OF tw assms(2) updated_registered [OF tw assms(2,3)], of r] assms(3) by simp
  then have "table_wf t" "same_frame s t" by (simp_all add: told_def)
  then show "procs_wf t" "cur t = cur s" "same_frame s t" using same_frame_procs_wf assms(1) same_frame_cur by blast+
qed

lemma reset_ctx_len: "reset_ctx t c p = Some c' \<Longrightarrow> length (gpr c') = 13"
  by (auto simp: reset_ctx_def split: run_splits)

text \<open>\<open>kill\<close> does nothing, or ends the calling process and calls the scheduler, or ends another one. The waiters of the calling process
  are told in both cases.\<close>

lemma kill_shape:
  assumes g: "good (k, c)" and r: "sys_kill k c p sig = Some (x, k', c')"
  obtains (none) "tbl k' = tbl k" "c' = c"
  | (self) u c1 where "p = cur (tbl k)" "sig = SIG_TERM" "procs_wf u" "cur u = cur (tbl k)" "\<forall>q. valid_pid q \<longrightarrow> ctx (blk u q) = ctx (blk (tbl k) q)"
      "reset_ctx u c p = Some c1" "scheduler u c1 = Some (tbl k', c')"
  | (other) u c1 where "valid_pid p" "p \<noteq> cur (tbl k)" "procs_wf u" "cur u = cur (tbl k)" "\<forall>q. valid_pid q \<longrightarrow> ctx (blk u q) = ctx (blk (tbl k) q)"
      "reset_ctx u (ctx (blk u p)) p = Some c1" "c' = c" "tbl k' = upd u p ((blk u p)\<lparr>ctx := c1\<rparr>)"
proof -
  have wf: "procs_wf (tbl k)" using g by simp
  have pv: "valid_pid p"
    using r wf_table [OF wf] by (auto simp: sys_kill_def active_process_def pcb_at_def process_def rd_def
        table_wf_def split: run_splits)
  show ?thesis
  proof (cases "active (tbl k) p \<and> sig = SIG_TERM")
    case False
    then show ?thesis using r wf pv
      by (intro none) (auto simp: sys_kill_def active_process_active wf_table split: if_splits)
  next
    case True
    obtain t u where t: "fix_orphaned_processes (tbl k) (cur (tbl k)) = Some t"
      "update_waiters t (cur (tbl k)) EXIT_FAILURE = Some u"
      using r True wf pv by (auto simp: sys_kill_def active_process_active current_pid_cur wf_table split: run_splits)
    note tw = orphaned_wf [OF wf t(1)]
    note uw = update_waiters_wf [OF tw(1) cur_valid [OF wf] t(2)]
    have c: "\<forall>q. valid_pid q \<longrightarrow> ctx (blk u q) = ctx (blk (tbl k) q)"
      using fix_orphaned_spec [OF wf_table [OF wf], of "cur (tbl k)"] t(1) uw(3) by (auto simp: same_frame_def)
    have cu: "cur u = cur (tbl k)" using uw(2) tw(2) by simp
    show ?thesis
    proof (cases "p = cur (tbl k)")
      case same: True
      then obtain c1 s2 where s: "reset_ctx u c p = Some c1" "scheduler u c1 = Some (s2, c')" "k' = k\<lparr>tbl := s2\<rparr>"
        using r True wf pv t
        by (auto simp: sys_kill_def active_process_active current_pid_cur wf_table split: run_splits)
      show ?thesis by (rule self [OF same _ uw(1) cu c s(1)]) (use True s in simp_all)
    next
      case diff: False
      then obtain c1 where s: "reset_ctx u (ctx (blk u p)) p = Some c1" "c' = c"
        "k' = k\<lparr>tbl := upd u p ((blk u p)\<lparr>ctx := c1\<rparr>)\<rparr>"
        using r True wf pv t uw(1)
        by (auto simp: sys_kill_def active_process_active current_pid_cur wf_table pcb_at_blk put_pcb_upd
            split: run_splits)
      show ?thesis by (rule other [OF pv diff uw(1) cu c s(1,2)]) (use s in simp)
    qed
  qed
qed

lemma kill_good:
  assumes g: "good (k, c)" and r: "sys_kill k c p sig = Some (x, k', c')"
  shows "good (k', c')"
  using g r
proof (cases rule: kill_shape)
  case none
  then show ?thesis using g by simp
next
  case (self u c1)
  then show ?thesis using scheduler_good [OF self(3) reset_ctx_len] by simp
next
  case (other u c1)
  then have "procs_wf (tbl k')" using reset_ctx_len by (auto intro!: procs_wf_upd pcb_wf_ctx wf_blk wf_table)
  then show ?thesis using g other(7) by simp
qed

lemma yield_good:
  assumes g: "good (k, c)" and r: "sys_yield k c = Some (k', c')"
  shows "good (k', c')"
proof -
  have wf: "procs_wf (tbl k)" and len: "length (gpr c) = 13" using g by simp_all
  let ?b = "blk (tbl k) (cur (tbl k))"
  have "procs_wf (upd (tbl k) (cur (tbl k)) (?b\<lparr>prio := (prio ?b)\<lparr>time_left := 0\<rparr>\<rparr>))"
    using wf cur_valid [OF wf] by (intro procs_wf_upd pcb_wf_prio wf_blk wf_table)
  then show ?thesis using r wf scheduler_good [OF _ len]
    by (auto simp: sys_yield_def mod_current_upd split: run_splits)
qed

lemma exec_good:
  assumes g: "good (k, c)" and r: "sys_exec k c x i args = Some (k', c')"
  shows "good (k', c')"
proof (cases "x = 0")
  case True
  then have "sys_exit (error k ''Invalid program\<newline>'') c EXIT_FAILURE = Some (k', c')"
    using r by (simp add: sys_exec_def)
  then show ?thesis by (rule exit_good [rotated]) (use g in simp)
next
  case False
  have wf: "procs_wf (tbl k)" using g by simp
  show ?thesis
    using exec_ok [OF wf False, of c i args] r wf cur_valid [OF wf] wf_blk [OF wf_table [OF wf] cur_valid [OF wf]]
    by (auto intro!: procs_wf_upd simp: pcb_wf_def)
qed

lemma ps_line_tbl: "ps_line b k xs = Some (b', k') \<Longrightarrow> tbl k' = tbl k"
proof (induction xs arbitrary: b' k' rule: rev_induct)
  case (snoc x xs)
  obtain b1 k1 where "ps_line b k xs = Some (b1, k1)"
    using snoc.prems by (auto simp: ps_line_def split: run_splits)
  then show ?case using snoc.IH snoc.prems
    by (auto simp: ps_line_def error_bytes_def Let_def split: run_splits)
qed (simp add: ps_line_def)

lemma ps_stats_tbl: "ps_stats b k p = Some k' \<Longrightarrow> tbl k' = tbl k"
  by (auto simp: ps_stats_def dest!: ps_line_tbl split: run_splits)

lemma foreach_keeps:
  "foreach f is s = Some s' \<Longrightarrow> (\<And>i s s'. f i s = Some s' \<Longrightarrow> P s \<Longrightarrow> P s') \<Longrightarrow> P s \<Longrightarrow> P s'"
  by (induction "is" arbitrary: s) (auto split: run_splits)

lemma sys_ps_tbl:
  assumes "sys_ps b k = Some k'"
  shows "tbl k' = tbl k"
  by (rule foreach_keeps [OF assms [unfolded sys_ps_def]])
    (auto dest: ps_stats_tbl split: run_splits)

lemma share_wf:
  assumes "procs_wf t" "valid_pid p"
  shows "share t p a = Some (r, t') \<Longrightarrow> procs_wf t'" "unshare t p a = Some (r, t') \<Longrightarrow> procs_wf t'"
  using assms by (auto simp: share_def unshare_def wf_table pcb_at_blk mod_pcb_upd
      intro!: procs_wf_upd pcb_wf_shared wf_blk split: if_splits)

lemma lock_wf:
  assumes wf: "procs_wf t" and p: "valid_pid p"
  shows "lock t p a = Some (r, t') \<Longrightarrow> procs_wf t'" "unlock t p a = Some (r, t') \<Longrightarrow> procs_wf t'"
proof -
  have own: "\<exists>q. valid_pid q \<and> i = process q" if "is_shared t p a = Some (Some i)" for i
  proof -
    have "valid_pid (ppid (blk t p))" if "ppid (blk t p) \<noteq> 0"
      using wf_blk [OF wf_table [OF wf] p] that by (auto simp: pcb_wf_def)
    then show ?thesis using that is_shared_spec [OF wf_table [OF wf] p, of a] p by (auto split: if_splits)
  qed
  show "lock t p a = Some (r, t') \<Longrightarrow> procs_wf t'" "unlock t p a = Some (r, t') \<Longrightarrow> procs_wf t'"
    using wf by (auto simp: lock_def unlock_def wf_table pcb_at_blk mod_pcb_upd
        intro!: procs_wf_upd pcb_wf_shared wf_blk dest!: own split: run_splits)
qed

lemma shared_calls_wf:
  assumes wf: "procs_wf (tbl k)"
  shows "sys_share k a = Some (r, k') \<Longrightarrow> procs_wf (tbl k')"
    "sys_unshare k a = Some (r, k') \<Longrightarrow> procs_wf (tbl k')"
    "sys_lock k a = Some (r, k') \<Longrightarrow> procs_wf (tbl k')"
    "sys_unlock k a = Some (r, k') \<Longrightarrow> procs_wf (tbl k')"
  using share_wf [OF wf cur_valid [OF wf]] lock_wf [OF wf cur_valid [OF wf]] wf
  by (auto simp: sys_share_def sys_unshare_def sys_lock_def sys_unlock_def current_pid_cur Let_def split: run_splits)

section \<open>Every handler keeps the kernel well formed\<close>

lemma ret_some:
  assumes "ret c r = Some (k', c')" "length (gpr c) = 13"
  shows "\<exists>x. r = Some (x, k') \<and> length (gpr c') = 13"
  using assms by (auto simp: ret_def set_r0_spec split: run_splits)

lemma tbl_wf: "tbl k' = tbl k \<Longrightarrow> procs_wf (tbl k) \<Longrightarrow> procs_wf (tbl k')"
  by simp

lemmas fs_calls_wf = fs_tbl [THEN tbl_wf]

lemma if_SomeE:
  assumes "(if b then x else y) = Some r" "b \<Longrightarrow> x = Some r \<Longrightarrow> P" "\<not> b \<Longrightarrow> y = Some r \<Longrightarrow> P"
  shows P
  using assms by (cases b) simp_all

lemma svc_good:
  assumes g: "good (k, c)" and r: "hilevel_handler_svc z b k c n = Some (k', c')"
  shows "good (k', c')"
proof -
  have wf: "procs_wf (tbl k)" and len: "length (gpr c) = 13" using g by simp_all
  have rds: "rd (gpr c) 0 = Some (gpr c ! 0)" "rd (gpr c) 1 = Some (gpr c ! 1)" "rd (gpr c) 2 = Some (gpr c ! 2)"
    using len by (simp_all add: rd_def)
  have kill: "procs_wf (tbl k1) \<and> length (gpr c1) = 13"
    if "sys_kill k c p s = Some (st, k1, c1)" for p s st k1 c1
    using kill_good [OF g that] by simp
  note proc_calls = fork_good [OF g] fork_wait_good [OF g] exit_good [OF g] yield_good [OF g] exec_good [OF g]
  have rets: "good (k', c')" if "ret c q = Some (k', c')" "\<And>x. q = Some (x, k') \<Longrightarrow> procs_wf (tbl k')" for q
    using ret_some [OF that(1) len] that(2) by auto
  note io = shared_calls_wf [OF wf] open_wf [OF _ wf] close_wf [OF _ wf] read_wf [OF _ wf]
    wait_wf(1) [OF wf cur_valid [OF wf]] fs_calls_wf [OF _ wf]
  have killed: "good (k', c')"
    if "do { (status, k, c) \<leftarrow> sys_kill k c p s; c \<leftarrow> set_r0 c (u32_of_int status); Some (k, c) } = Some (k', c')" for p s
    using that kill by (auto simp: set_r0_spec split: run_splits)
  have paths: "good (k', c')"
    if d: "do { path \<leftarrow> cstr_at (mem k) a; ret c (f path) } = Some (k', c')"
      and f: "\<And>x path. f path = Some (x, k') \<Longrightarrow> procs_wf (tbl k')" for a f
  proof -
    obtain path where "ret c (f path) = Some (k', c')"
      using d by (cases "cstr_at (mem k) a") simp_all
    then show ?thesis using rets f by blast
  qed
  have ps: "good (k', c')"
    if "do { k \<leftarrow> (if v then sys_ps b k else ps_stats b k p); Some (k, c) } = Some (k', c')" for v p
    using that wf len by (auto dest!: sys_ps_tbl ps_stats_tbl split: run_splits)
  have wait: "good (k', c')" if "do { p \<leftarrow> current_pid (tbl k); ret c (sys_wait k p q) } = Some (k', c')" for q
    using that rets wf io(8) by (auto simp: current_pid_cur)
  show ?thesis
    using r unfolding hilevel_handler_svc_def rds Option.bind.bind_lunit
    by (elim if_SomeE)
      (erule proc_calls killed ps wait | (erule rets, erule io) | (erule paths, erule io)
        | use wf len in auto)+
qed

section \<open>Runs of the kernel\<close>

text \<open>
  One round: the running program leaves any context and memory behind, characters may arrive on the
  input line, then a system call or an interrupt is handled.
\<close>

inductive kstep :: "stack \<Rightarrow> u8 list \<Rightarrow> kernel \<times> ctx_t \<Rightarrow> kernel \<times> ctx_t \<Rightarrow> bool" for z b where
  svc: "length (gpr u) = 13 \<Longrightarrow>
    hilevel_handler_svc z b (k\<lparr>mem := m, uart1 := (uart1 k)\<lparr>rx := rx (uart1 k) @ typed\<rparr>\<rparr>) u n = Some kc \<Longrightarrow>
    kstep z b (k, c) kc"
| irq: "length (gpr u) = 13 \<Longrightarrow>
    hilevel_handler_irq (k\<lparr>mem := m, uart1 := (uart1 k)\<lparr>rx := rx (uart1 k) @ typed\<rparr>\<rparr>) u n = Some kc \<Longrightarrow>
    kstep z b (k, c) kc"

inductive_cases kstepE: "kstep z b (k, c) kc"

text \<open>The states reachable from a reset with any contents of the RAM-resident tables.\<close>

inductive reachable :: "stack \<Rightarrow> u8 list \<Rightarrow> kernel \<times> ctx_t \<Rightarrow> bool" for z b where
  reset: "length (pcb (tbl k)) = 30 \<Longrightarrow> length (sps (tbl k)) = 30 \<Longrightarrow>
    hilevel_handler_rst main_console k = Some kc \<Longrightarrow> reachable z b kc"
| round: "reachable z b kc \<Longrightarrow> kstep z b kc kc' \<Longrightarrow> reachable z b kc'"

lemma irq_good:
  assumes "good (k, c)" "hilevel_handler_irq k c n = Some (k', c')"
  shows "good (k', c')"
proof (cases "n = GIC_SOURCE_TIMER0")
  case True
  let ?t = "(tbl k)\<lparr>BURSTS := i32 (BURSTS (tbl k) + 1)\<rparr>"
  have wf: "procs_wf ?t" "length (gpr c) = 13" using assms(1) by (simp_all add: procs_wf_def table_wf_def)
  obtain t where "scheduler ?t c = Some (t, c')" "k' = k\<lparr>tbl := t\<rparr>"
    using assms(2) True by (cases "scheduler ?t c") (auto simp: hilevel_handler_irq_def Let_def)
  then show ?thesis using scheduler_good [OF wf] by simp
next
  case False
  then show ?thesis using assms by (simp add: hilevel_handler_irq_def)
qed

lemma rst_ok:
  assumes "length (pcb (tbl k)) = 30" "length (sps (tbl k)) = 30"
  obtains t c where "hilevel_handler_rst main_console k = Some (k\<lparr>tbl := t\<rparr>, c)" "procs_wf t" "cur t = 1"
    "pc c = main_console" "cpsr c = 0x50" "length (gpr c) = 13" "ctx (blk t 1) = c"
    "class_of t 1 = INTERACTIVE" "\<forall>p. 2 \<le> p \<and> p \<le> 30 \<longrightarrow> \<not> active t p"
    "\<forall>p. valid_pid p \<longrightarrow> cpsr (ctx (blk t p)) = 0x50" "wait_of t 1 = 0"
proof -
  obtain s where s: "init_pcbs (tbl k) = Some s" "table_wf s"
    "\<forall>p. valid_pid p \<longrightarrow> \<not> active s p \<and> blk s p = fresh_pcb s p 0"
    using init_pcbs_spec [OF assms] by blast
  have f: "blk s 1 = fresh_pcb s 1 0" using s(3) by simp
  define b1 where "b1 = (fresh_pcb s 1 0)\<lparr>ctx := (ctx (fresh_pcb s 1 0))\<lparr>pc := main_console\<rparr>\<rparr>"
  define b2 where "b2 = b1\<lparr>prio := (prio b1)\<lparr>process_type := INTERACTIVE\<rparr>\<rparr>"
  define s1 where "s1 = upd s 1 b1"
  define s2 where "s2 = s1\<lparr>current := Some (process 1)\<rparr>"
  define t where "t = upd s2 1 b2"
  have fw: "pcb_wf 1 (fresh_pcb s 1 0)" by (rule fresh_pcb_wf) simp_all
  then have bw: "pcb_wf 1 b1" "pcb_wf 1 b2"
    by (simp_all add: b2_def b1_def pcb_wf_prio pcb_wf_def)
  have w1: "table_wf s1" unfolding s1_def using s(2) bw by (intro table_wf_upd) simp_all
  have e1: "mod_pcb s (process 1) (\<lambda>b. b\<lparr>ctx := (ctx b)\<lparr>pc := main_console\<rparr>\<rparr>) = Some s1"
    using s(2) f by (simp add: mod_pcb_upd s1_def b1_def)
  have w2: "procs_wf s2" unfolding procs_wf_def s2_def using w1 by (simp add: table_wf_def process_def)
  have c2: "cur s2 = 1" by (simp add: s2_def)
  have "blk s2 1 = b1" using s(2) by (simp add: s2_def s1_def blk_upd)
  then have e2: "mod_current s2 (\<lambda>b. b\<lparr>prio := (prio b)\<lparr>process_type := INTERACTIVE\<rparr>\<rparr>) = Some t"
    using w2 c2 by (simp add: mod_current_upd t_def b2_def)
  have t: "procs_wf t" "cur t = 1"
    unfolding t_def using procs_wf_upd [OF w2 _ bw(2)] c2 by simp_all
  have b: "blk t 1 = b2" using wf_table [OF w2] by (simp add: t_def blk_upd)
  have e3: "load_ctx t = Some (ctx b2)" using t b by (simp add: load_ctx_def current_pcb_blk)
  have run: "hilevel_handler_rst main_console k = Some (k\<lparr>tbl := t\<rparr>, ctx b2)"
    unfolding hilevel_handler_rst_def s(1) Option.bind.bind_lunit e1 Let_def s2_def [symmetric] e2 e3 by simp
  have others: "blk t q = blk s q" if "2 \<le> q" "q \<le> 30" for q
    using that wf_table [OF w2] s(2) by (simp add: t_def blk_upd) (simp add: s2_def s1_def blk_upd)
  show ?thesis
  proof (rule that [OF run t])
    show "pc (ctx b2) = main_console" "cpsr (ctx b2) = 0x50"
      by (simp_all add: b2_def b1_def fresh_pcb_def)
    show "length (gpr (ctx b2)) = 13" using bw(2) by (simp add: pcb_wf_def)
    show "ctx (blk t 1) = ctx b2" by (simp add: b)
    show "class_of t 1 = INTERACTIVE" "wait_of t 1 = 0"
      by (simp_all add: class_of_def wait_of_def b b2_def b1_def reset_priority_def)
    show "\<forall>p. 2 \<le> p \<and> p \<le> 30 \<longrightarrow> \<not> active t p" using s(3) by (simp add: active_def others)
    have fc: "cpsr (ctx (fresh_pcb s q 0)) = 0x50" for q by (simp add: fresh_pcb_def)
    show "\<forall>p. valid_pid p \<longrightarrow> cpsr (ctx (blk t p)) = 0x50"
    proof (intro allI impI)
      fix p :: int assume p: "valid_pid p"
      show "cpsr (ctx (blk t p)) = 0x50"
        by (cases "p = 1") (use p s(3) in \<open>simp_all add: b b2_def b1_def others fc\<close>)
    qed
  qed
qed

lemma reachable_good:
  assumes "reachable z b kc"
  shows "good kc"
  using assms
proof (induction rule: reachable.induct)
  case (reset k main_console kc)
  obtain t c where t: "hilevel_handler_rst main_console k = Some (k\<lparr>tbl := t\<rparr>, c)" "procs_wf t" "length (gpr c) = 13"
    by (rule rst_ok [OF reset(1,2)]) blast
  have "kc = (k\<lparr>tbl := t\<rparr>, c)" using reset(3) t(1) by simp
  then show ?case using t(2,3) by simp
next
  case (round kc kc')
  obtain k c k' c' where kc: "kc = (k, c)" "kc' = (k', c')" by force
  have g: "procs_wf (tbl k)" using round.IH kc by simp
  from round.hyps(2) [unfolded kc] show ?case unfolding kc(2)
    by (elim kstepE) (erule svc_good [rotated] irq_good [rotated], simp add: g)+
qed

end
