(* ===== verification/Fs_Store.thy ===== *)
theory Fs_Store
  imports Fs_Inodes
begin

text \<open>
  What the block, superblock and inode operations do on a mounted disk: the lemmas behind
  the round trips of \<open>Storage_Properties\<close>. \<open>fs_ok\<close> is the state they need: a superblock that agrees
  with the disk behind the driver, and blocks large enough for a superblock
  (564 bytes, as in the configuration of \<open>src/question/Makefile.disk\<close>) and not larger than the
  kernel's block buffers.
\<close>

section \<open>Raw memory\<close>

lemma sub_bytes_ok: "0 \<le> pos \<Longrightarrow> 0 \<le> n \<Longrightarrow> pos + n \<le> int (length xs) \<Longrightarrow>
    sub_bytes xs pos n = Some (take (nat n) (drop (nat pos) xs))"
  by (simp add: sub_bytes_def)

lemma put_bytes_ok: "0 \<le> pos \<Longrightarrow> pos + int (length ys) \<le> int (length xs) \<Longrightarrow>
    put_bytes xs pos ys = Some (take (nat pos) xs @ ys @ drop (nat pos + length ys) xs)"
  by (simp add: put_bytes_def)

section \<open>One block\<close>

definition fs_ok :: "fs \<Rightarrow> bool" where
  "fs_ok f \<longleftrightarrow> superblock_wf (sb f) \<and> disk_wf (dk f) \<and> disk_block_num (sb f) = block_num (peer (dk f)) \<and>
     disk_block_length (sb f) = block_len (peer (dk f)) \<and> 564 \<le> block_len (peer (dk f)) \<and>
     block_len (peer (dk f)) \<le> 1024 \<and> 1 \<le> block_num (peer (dk f))"

abbreviation blen :: "fs \<Rightarrow> int" where
  "blen f \<equiv> block_len (peer (dk f))"

text \<open>The block that \<open>disk_write\<close> stores: the data, then what the buffer held before.\<close>

definition padded :: "u8 list \<Rightarrow> int \<Rightarrow> u8 list \<Rightarrow> u8 list" where
  "padded junk l bs = take (nat l) (bs @ drop (length bs) junk)"

lemma length_padded: "length bs \<le> length junk \<Longrightarrow> nat l \<le> length junk \<Longrightarrow> length (padded junk l bs) = nat l"
  by (simp add: padded_def)

lemma take_padded: "length bs \<le> nat l \<Longrightarrow> take (length bs) (padded junk l bs) = bs"
  by (simp add: padded_def min_def)

lemma disk_write_ok:
  assumes d: "disk_wf d" "on_disk d a" and l: "l = block_len (peer d)" "l \<le> 1024" and junk: "length junk = 1024"
    and x: "0 \<le> pos" "0 \<le> n" "n \<le> l" "pos + n \<le> int (length x)"
  shows "disk_write junk d l a x pos n =
    Some (0, put_block d a (padded junk l (take (nat n) (drop (nat pos) x))))"
proof -
  let ?bs = "take (nat n) (drop (nat pos) x)"
  have len: "length ?bs = nat n" using x by simp
  have put: "put_bytes junk 0 ?bs = Some (?bs @ drop (length ?bs) junk)"
    using len x l junk by (simp add: put_bytes_ok)
  have "disk_wr d a (?bs @ drop (length ?bs) junk) l = Some (0, put_block d a (take (nat l) (?bs @ drop (length ?bs) junk)))"
    using disk_wr_ok [OF d l(1)] len x l junk by (simp add: DISK_SUCCESS_def)
  then show ?thesis using put x by (simp add: disk_write_def sub_bytes_ok padded_def)
qed

lemma disk_read_ok:
  assumes d: "disk_wf d" "on_disk d a" and l: "l = block_len (peer d)" "l \<le> 1024" and junk: "length junk = 1024"
    and x: "0 \<le> pos" "0 \<le> n" "n \<le> l" "pos + n \<le> int (length x)"
  shows "disk_read junk d l a x pos n =
    Some (0, take (nat pos) x @ take (nat n) (get_block d a) @ drop (nat (pos + n)) x, d)"
proof -
  have len: "length (get_block d a) = nat l" using length_get_block [OF d] l by simp
  have r: "disk_rd d a junk l = Some (0, get_block d a @ drop (nat l) junk, d)"
    using disk_rd_ok [OF d l(1)] l junk by (simp add: DISK_SUCCESS_def)
  have s: "sub_bytes (get_block d a @ drop (nat l) junk) 0 n = Some (take (nat n) (get_block d a))"
    using x len by (simp add: sub_bytes_ok)
  have p: "put_bytes x pos (take (nat n) (get_block d a)) =
      Some (take (nat pos) x @ take (nat n) (get_block d a) @ drop (nat (pos + n)) x)"
    using x len by (simp add: put_bytes_ok nat_add_distrib)
  show ?thesis by (simp add: disk_read_def r s p)
qed

lemma put_block_padded:
  assumes "disk_wf d" "on_disk d a" "l = block_len (peer d)" "l \<le> 1024" "length junk = 1024" "int (length bs) \<le> l"
  shows "disk_wf (put_block d a (padded junk l bs))" "on_disk (put_block d a (padded junk l bs)) = on_disk d"
    "get_block (put_block d a (padded junk l bs)) = (get_block d)(a := padded junk l bs)"
    "block_len (peer (put_block d a (padded junk l bs))) = block_len (peer d)"
    "block_num (peer (put_block d a (padded junk l bs))) = block_num (peer d)"
proof -
  have "0 < l" using assms(1,3) by (simp add: disk_wf_def)
  then have "int (length (padded junk l bs)) = block_len (peer d)"
    using assms by (subst length_padded) auto
  note p = put_block_ok [OF assms(1,2) this]
  show "disk_wf (put_block d a (padded junk l bs))" "on_disk (put_block d a (padded junk l bs)) = on_disk d"
    "get_block (put_block d a (padded junk l bs)) = (get_block d)(a := padded junk l bs)"
    using p by simp_all
qed (simp_all add: put_block_def)

section \<open>Marking blocks\<close>

definition used :: "superblock_t \<Rightarrow> int set" where
  "used b = bits (free_block_bitmap b)"

lemma allocate_ok:
  assumes b: "superblock_wf b" and a: "0 \<le> a" "a < 16384"
  shows "\<exists>ws. allocate_block b (u32_of_int a) = Some (b\<lparr>free_block_bitmap := ws\<rparr>) \<and> length ws = 128 \<and>
    bits ws = (if backed a then insert a (used b) else used b)"
proof -
  have "in_bitmap (free_block_bitmap b) a" using b a by (simp add: superblock_wf_def in_bitmap_def)
  from set_bit_c_bits [OF this] show ?thesis
    using b a by (auto simp: allocate_block_def used_def superblock_wf_def int_of_u32_of_int i32_id)
qed

lemma blocks_occupied_ok:
  assumes "0 < l" "l \<le> 1024" "0 \<le> n" "n \<le> 2 ^ 20"
  shows "blocks_occupied l n = Some (word_of_int ((l + n - 1) div l))"
  using assms by (simp add: blocks_occupied_def i32_id cdiv_nonneg u32_of_int_def)

lemma one_block: "0 < n \<Longrightarrow> n \<le> l \<Longrightarrow> (l + n - 1) div l = (1::int)"
  using div_add_self1 [of l "n - 1"] div_pos_pos_trivial [of "n - 1" l] by (simp add: algebra_simps)

lemma addrs_one: "uint a < 2 ^ 31 \<Longrightarrow> addrs a (a + 1) = [uint a]"
proof -
  assume a: "uint a < 2 ^ 31"
  have "uint (a + 1) = uint a + 1" using a by (simp add: uint_plus_if')
  then show ?thesis by (simp add: addrs_def)
qed

section \<open>One structure in one block\<close>

lemma on_disk_uint: "on_disk d a \<Longrightarrow> uint a < 2 ^ 31 \<and> uint a < block_num (peer d)"
  using int_of_u32_unat [of a] int_of_u32_range [of a] by (auto simp: on_disk_def)

lemma write_one_block:
  assumes f: "fs_ok f" and a: "on_disk (dk f) a" "uint a < 16384" and junk: "length junk = 1024"
    and src: "\<And>b. superblock_wf b \<Longrightarrow> int (length (src b)) = n" and n: "0 < n" "n \<le> 564"
  shows "\<exists>ws f'. write_sequential_blocks junk f (disk_block_length (sb f)) a src n = Some (0, f') \<and>
    length ws = 128 \<and> bits ws = (if backed (uint a) then insert (uint a) (used (sb f)) else used (sb f)) \<and>
    sb f' = (sb f)\<lparr>free_block_bitmap := ws\<rparr> \<and> fs_ok f' \<and> on_disk (dk f') = on_disk (dk f) \<and>
    blen f' = blen f \<and>
    get_block (dk f') = (get_block (dk f))(a := padded junk (blen f) (src (sb f')))"
proof -
  have l: "0 < blen f" "blen f \<le> 1024" "disk_block_length (sb f) = blen f" "n \<le> blen f"
    using f n by (auto simp: fs_ok_def)
  have sw: "superblock_wf (sb f)" using f by (simp add: fs_ok_def)
  obtain ws where ws: "allocate_block (sb f) (u32_of_int (uint a)) = Some ((sb f)\<lparr>free_block_bitmap := ws\<rparr>)"
    "length ws = 128" "bits ws = (if backed (uint a) then insert (uint a) (used (sb f)) else used (sb f))"
    using allocate_ok [OF sw, of "uint a"] a(2) by auto
  let ?b = "(sb f)\<lparr>free_block_bitmap := ws\<rparr>"
  have bw: "superblock_wf ?b" using sw ws(2) by (simp add: superblock_wf_def)
  have len: "int (length (src ?b)) = n" by (rule src [OF bw])
  have ua: "u32_of_int (uint a) = a" by (simp add: u32_of_int_def)
  have d: "disk_wf (dk f)" using f by (simp add: fs_ok_def)
  have dw: "disk_write junk (dk f) (blen f) a (src ?b) 0 n = Some (0, put_block (dk f) a (padded junk (blen f) (src ?b)))"
    using disk_write_ok [OF d a(1) refl l(2) junk, of 0 n "src ?b"] n(1) l(4) len by auto
  have occ: "blocks_occupied (blen f) n = Some 1"
    using blocks_occupied_ok [of "blen f" n] one_block [of n "blen f"] l n by simp
  have ad: "addrs a (a + 1) = [uint a]" using on_disk_uint [OF a(1)] by (intro addrs_one) simp
  let ?f = "\<lparr>sb = ?b, dk = put_block (dk f) a (padded junk (blen f) (src ?b))\<rparr>"
  have run: "write_sequential_blocks junk f (disk_block_length (sb f)) a src n = Some (0, ?f)"
    using n l dw ws(1) ua occ
    by (cases "n = blen f") (simp_all add: write_sequential_blocks_def ad Let_def)
  have "int (length (src ?b)) \<le> blen f" using len l(4) by simp
  note p = put_block_padded [OF d a(1) refl l(2) junk this]
  have "fs_ok ?f" using f p bw by (simp add: fs_ok_def)
  then show ?thesis using run ws(2,3) p by (intro exI [of _ ws] exI [of _ ?f]) simp
qed

lemma read_one_block:
  assumes f: "fs_ok f" and a: "on_disk (dk f) a" and junk: "length junk = 1024"
    and x: "int (length x) = n" and n: "0 < n" "n \<le> 564"
  shows "read_sequential_blocks junk (dk f) (blen f) a x n = Some (0, take (nat n) (get_block (dk f) a), dk f)"
proof -
  have l: "0 < blen f" "blen f \<le> 1024" "n \<le> blen f" using f n by (auto simp: fs_ok_def)
  have d: "disk_wf (dk f)" using f by (simp add: fs_ok_def)
  have occ: "blocks_occupied (blen f) n = Some 1"
    using blocks_occupied_ok [of "blen f" n] one_block [of n "blen f"] l n by simp
  have ad: "addrs a (a + 1) = [uint a]" using on_disk_uint [OF a(1)] by (intro addrs_one) simp
  have "disk_read junk (dk f) (blen f) a x 0 n = Some (0, take (nat n) (get_block (dk f) a), dk f)"
    using disk_read_ok [OF d a refl l(2) junk, of 0 n x] n(1) l(3) x by auto
  then show ?thesis using n l occ
    by (cases "n = blen f") (simp_all add: read_sequential_blocks_def ad Let_def u32_of_int_def)
qed

section \<open>The superblock\<close>

lemma zero_on_disk: "fs_ok f \<Longrightarrow> on_disk (dk f) 0"
  by (simp add: fs_ok_def on_disk_def int_of_u32_def)

lemma write_superblock_ok:
  assumes f: "fs_ok f" and junk: "length junk = 1024"
  shows "\<exists>ws f'. write_superblock junk f = Some (0, f') \<and> length ws = 128 \<and> bits ws = insert 0 (used (sb f)) \<and>
    sb f' = (sb f)\<lparr>free_block_bitmap := ws\<rparr> \<and> fs_ok f' \<and> on_disk (dk f') = on_disk (dk f) \<and>
    blen f' = blen f \<and>
    get_block (dk f') = (get_block (dk f))(0 := padded junk (blen f) (enc_superblock (sb f')))"
proof -
  have "int (length (enc_superblock b)) = 564" if "superblock_wf b" for b
    using sbc.enc_width [OF that] by simp
  then show ?thesis
    using write_one_block [OF f zero_on_disk [OF f] _ junk, of enc_superblock 564]
    by (simp add: write_superblock_def sizeof_superblock_def backed_def)
qed

lemma read_superblock_ok:
  assumes f: "fs_ok f" and junk: "length junk = 1024" and g: "superblock_wf (sb g)" "dk g = dk f"
    and blk0: "get_block (dk f) 0 = padded junk' (blen f) (enc_superblock b)" "superblock_wf b"
  shows "read_superblock junk g = Some (0, \<lparr>sb = b, dk = dk f\<rparr>)"
proof -
  have d: "disk_wf (dk f)" and l: "564 \<le> blen f" using f by (simp_all add: fs_ok_def)
  have len: "length (enc_superblock b) = 564" by (rule sbc.enc_width [OF blk0(2)])
  have "take (nat 564) (get_block (dk f) 0) = enc_superblock b"
    using take_padded [of "enc_superblock b" "blen f" junk'] l len by (simp add: blk0(1))
  moreover have "read_sequential_blocks junk (dk f) (blen f) 0 (enc_superblock (sb g)) 564 =
      Some (0, take (nat 564) (get_block (dk f) 0), dk f)"
    using sbc.enc_width [OF g(1)] by (intro read_one_block [OF f zero_on_disk [OF f] junk]) simp_all
  moreover have "dec_superblock (enc_superblock b) = b" using sbc.dec_enc [OF blk0(2), of "[]"] by simp
  ultimately show ?thesis
    by (simp add: read_superblock_def g(2) disk_get_block_len_ok [OF d] sizeof_superblock_def)
qed

section \<open>Inodes\<close>

text \<open>The inode \<open>i\<close> has a block of its own: on the disk, past the superblock, with a bit in the bitmap's range.\<close>

definition inode_addr :: "superblock_t \<Rightarrow> int \<Rightarrow> u32" where
  "inode_addr b i = inode_start b + word_of_int i"

lemma inode_addr_marks [simp]: "inode_addr (b\<lparr>free_block_bitmap := ws\<rparr>) i = inode_addr b i"
  by (simp add: inode_addr_def)

definition inode_slot :: "fs \<Rightarrow> int \<Rightarrow> bool" where
  "inode_slot f i \<longleftrightarrow> 0 \<le> i \<and> on_disk (dk f) (inode_addr (sb f) i) \<and> uint (inode_addr (sb f) i) < 16384 \<and>
     inode_addr (sb f) i \<noteq> 0"

lemma id_to_addr_ok:
  assumes f: "fs_ok f"
  shows "id_to_addr (sb f) i = Some (inode_addr (sb f) i)"
proof -
  have l: "0 < blen f" "blen f \<le> 1024" "48 \<le> blen f" "disk_block_length (sb f) = blen f"
    using f by (auto simp: fs_ok_def)
  then have "blocks_occupied (blen f) 48 = Some 1"
    using blocks_occupied_ok [of "blen f" 48] one_block [of 48 "blen f"] by simp
  then show ?thesis using l by (simp add: id_to_addr_def sizeof_inode_def inode_addr_def u32_of_int_def)
qed

lemma write_inode_ok:
  assumes f: "fs_ok f" and z: "length (s_block z) = 1024" and i: "inode_wf inode" "inode_slot f (ino_id inode)"
  shows "\<exists>ws f'. write_inode z f inode = Some (0, f') \<and> length ws = 128 \<and>
    bits ws = used (sb f) \<union> ({uint (inode_addr (sb f) (ino_id inode)), 0} \<inter> Collect backed) \<and>
    sb f' = (sb f)\<lparr>free_block_bitmap := ws\<rparr> \<and> fs_ok f' \<and> on_disk (dk f') = on_disk (dk f) \<and> blen f' = blen f \<and>
    get_block (dk f') = (get_block (dk f))(
      inode_addr (sb f) (ino_id inode) := padded (s_block z) (blen f) (enc_inode inode),
      0 := padded (s_block z) (blen f) (enc_superblock (sb f')))"
proof -
  let ?a = "inode_addr (sb f) (ino_id inode)"
  have a: "on_disk (dk f) ?a" "uint ?a < 16384" using i(2) by (simp_all add: inode_slot_def)
  have len: "int (length (enc_inode inode)) = 48" using inc.enc_width [OF i(1)] by simp
  obtain ws f1 where f1: "write_sequential_blocks (s_block z) f (disk_block_length (sb f)) ?a (\<lambda>_. enc_inode inode) 48 = Some (0, f1)"
    "bits ws = (if backed (uint ?a) then insert (uint ?a) (used (sb f)) else used (sb f))"
    "sb f1 = (sb f)\<lparr>free_block_bitmap := ws\<rparr>" "fs_ok f1" "on_disk (dk f1) = on_disk (dk f)" "blen f1 = blen f"
    "get_block (dk f1) = (get_block (dk f))(?a := padded (s_block z) (blen f) (enc_inode inode))"
    using write_one_block [OF f a z, of "\<lambda>_. enc_inode inode" 48] len by auto
  obtain vs f2 where f2: "write_superblock (s_block z) f1 = Some (0, f2)" "length vs = 128"
    "bits vs = insert 0 (used (sb f1))" "sb f2 = (sb f1)\<lparr>free_block_bitmap := vs\<rparr>" "fs_ok f2"
    "on_disk (dk f2) = on_disk (dk f1)" "blen f2 = blen f1"
    "get_block (dk f2) = (get_block (dk f1))(0 := padded (s_block z) (blen f1) (enc_superblock (sb f2)))"
    using write_superblock_ok [OF f1(4) z] by blast
  have "write_inode z f inode = Some (0, f2)"
    using f1(1) f2(1) by (simp add: write_inode_def id_to_addr_ok [OF f] sizeof_inode_def)
  moreover have "bits vs = used (sb f) \<union> ({uint ?a, 0} \<inter> Collect backed)"
    using f1(2,3) f2(3) by (auto simp: used_def backed_def)
  ultimately show ?thesis using f1 f2 by (intro exI [of _ vs] exI [of _ f2]) simp
qed

lemma read_inode_ok:
  assumes f: "fs_ok f" and z: "length (s_block z) = 1024" and i: "0 \<le> i" "on_disk (dk f) (inode_addr (sb f) i)"
    and blk: "get_block (dk f) (inode_addr (sb f) i) = padded junk (blen f) (enc_inode inode)" "inode_wf inode"
    and old: "inode_wf old"
  shows "read_inode z f i old = Some (0, inode, f)"
proof -
  have l: "564 \<le> blen f" "disk_block_length (sb f) = blen f" using f by (simp_all add: fs_ok_def)
  have len: "length (enc_inode inode) = 48" by (rule inc.enc_width [OF blk(2)])
  have "take (nat 48) (get_block (dk f) (inode_addr (sb f) i)) = enc_inode inode"
    using take_padded [of "enc_inode inode" "blen f" junk] l(1) len by (simp add: blk(1))
  moreover have "read_sequential_blocks (s_block z) (dk f) (blen f) (inode_addr (sb f) i) (enc_inode old) 48 =
      Some (0, take (nat 48) (get_block (dk f) (inode_addr (sb f) i)), dk f)"
    using inc.enc_width [OF old] by (intro read_one_block [OF f i(2) z]) simp_all
  moreover have "dec_inode (enc_inode inode) = inode" using inc.dec_enc [OF blk(2), of "[]"] by simp
  ultimately show ?thesis using i(1) l(2)
    by (simp add: read_inode_def id_to_addr_ok [OF f] sizeof_inode_def)
qed

section \<open>Free data blocks\<close>

definition free_list :: "superblock_t \<Rightarrow> int list" where
  "free_list b = filter (\<lambda>a. a \<notin> used b) (addrs (data_block_start b) (u32_of_int (disk_block_num b)))"

lemma find_first_head:
  assumes "filter P is = y # ys" "\<And>i. i \<in> set is \<Longrightarrow> i \<le> (y::int) \<Longrightarrow> p i = Some (P i)" "sorted is"
  shows "find_first p is = Some (Some y)"
  using assms
proof (induction "is")
  case (Cons i "is")
  have y: "y \<in> set (i # is)" using Cons.prems(1) by (metis filter_is_subset list.set_intros(1) subsetD)
  then have iy: "i \<le> y" using Cons.prems(3) by auto
  have pi: "p i = Some (P i)" using Cons.prems(2) iy by simp
  show ?case
  proof (cases "P i")
    case True
    then show ?thesis using pi Cons.prems(1) by simp
  next
    case False
    then have "find_first p is = Some (Some y)" using Cons.prems by (intro Cons.IH) simp_all
    then show ?thesis using pi False by simp
  qed
qed simp

lemma free_data_block_ok:
  assumes b: "superblock_wf b" and fl: "free_list b = a # as" "a < 16384"
  shows "free_data_block b = Some (u32_of_int a)"
proof -
  have "find_first (\<lambda>n. do { v \<leftarrow> get_bit (free_block_bitmap b) (i32 n); Some (v = 0) })
      (addrs (data_block_start b) (u32_of_int (disk_block_num b))) = Some (Some a)"
  proof (rule find_first_head [OF fl(1) [unfolded free_list_def]])
    fix n assume n: "n \<in> set (addrs (data_block_start b) (u32_of_int (disk_block_num b)))" "n \<le> a"
    have r: "0 \<le> n" "n < 16384" using n fl(2) by (auto simp: addrs_def intro: order_trans [OF uint_ge_0])
    have "in_bitmap (free_block_bitmap b) n" using r b by (simp add: in_bitmap_def superblock_wf_def)
    then show "do { v \<leftarrow> get_bit (free_block_bitmap b) (i32 n); Some (v = 0) } = Some (n \<notin> used b)"
      using get_bit_bits r by (simp add: i32_id used_def)
  qed (simp add: addrs_def)
  then show ?thesis by (simp add: free_data_block_def first_free_def)
qed

lemma free_list_mark:
  assumes "free_list b = a # as" "bits ws = insert a (used b)"
  shows "free_list (b\<lparr>free_block_bitmap := ws\<rparr>) = as"
proof -
  let ?L = "addrs (data_block_start b) (u32_of_int (disk_block_num b))"
  have "distinct ?L" by (simp add: addrs_def)
  then have "a \<notin> set as" using assms(1) unfolding free_list_def
    by (metis distinct.simps(2) distinct_filter)
  have "free_list (b\<lparr>free_block_bitmap := ws\<rparr>) = filter (\<lambda>n. n \<noteq> a) (filter (\<lambda>n. n \<notin> used b) ?L)"
    using assms(2) by (simp add: free_list_def used_def conj_commute)
  also have "\<dots> = as" using assms(1) \<open>a \<notin> set as\<close> by (simp add: free_list_def filter_id_conv) (metis filter_True)
  finally show ?thesis .
qed

lemma filter_drop:
  assumes "distinct xs"
  shows "filter (\<lambda>a. a \<notin> set (take k xs)) xs = drop k xs"
proof -
  let ?P = "\<lambda>a. a \<notin> set (take k xs)"
  have "set (take k xs) \<inter> set (drop k xs) = {}" using assms set_take_disj_set_drop_if_distinct [of xs k k] by simp
  then have "filter ?P (drop k xs) = drop k xs" "filter ?P (take k xs) = []"
    by (auto simp: filter_empty_conv intro: filter_True)
  moreover have "filter ?P xs = filter ?P (take k xs) @ filter ?P (drop k xs)"
    by (metis append_take_drop_id filter_append)
  ultimately show ?thesis by simp
qed

lemma free_list_drop:
  assumes "bits ws = used b \<union> set (take k (free_list b)) \<union> X" "X \<inter> set (free_list b) = {}"
  shows "free_list (b\<lparr>free_block_bitmap := ws\<rparr>) = drop k (free_list b)"
proof -
  let ?L = "addrs (data_block_start b) (u32_of_int (disk_block_num b))"
  have "free_list (b\<lparr>free_block_bitmap := ws\<rparr>) = filter (\<lambda>a. a \<notin> set (take k (free_list b)) \<union> X) (free_list b)"
    using assms(1) by (auto simp: free_list_def used_def intro: filter_cong)
  also have "\<dots> = filter (\<lambda>a. a \<notin> set (take k (free_list b))) (free_list b)"
    using assms(2) by (intro filter_cong) auto
  also have "\<dots> = drop k (free_list b)"
    by (rule filter_drop) (simp add: free_list_def addrs_def)
  finally show ?thesis .
qed

lemma free_list_range: "a \<in> set (free_list b) \<Longrightarrow> uint (data_block_start b) \<le> a \<and> a < uint (u32_of_int (disk_block_num b))"
  by (auto simp: free_list_def addrs_def)

section \<open>File contents\<close>

text \<open>\<open>k\<close> blocks of \<open>l\<close> bytes are what \<open>n\<close> bytes need.\<close>

definition needs :: "int \<Rightarrow> int \<Rightarrow> nat \<Rightarrow> bool" where
  "needs l n k \<longleftrightarrow> 1 \<le> k \<and> l * (int k - 1) < n \<and> n \<le> l * int k"

lemma needs_one: "needs l n (Suc 0) \<longleftrightarrow> 0 < n \<and> n \<le> l"
  by (simp add: needs_def)

lemma needs_more: "0 < l \<Longrightarrow> needs l n (Suc (Suc k)) \<longleftrightarrow> l < n \<and> needs l (n - l) (Suc k)"
proof -
  assume l: "0 < l"
  have m: "0 \<le> l * int k" using l by simp
  have e: "l * (int (Suc (Suc k)) - 1) = l * int k + l" "l * int (Suc (Suc k)) = l * int k + l + l"
    "l * (int (Suc k) - 1) = l * int k" "l * int (Suc k) = l * int k + l"
    by (simp_all add: distrib_left)
  show ?thesis unfolding needs_def e using m by linarith
qed

lemma u32_inj:
  assumes "0 \<le> a" "a < 2 ^ 31" "0 \<le> b" "b < 2 ^ 31" "u32_of_int a = u32_of_int b"
  shows "a = b"
proof -
  have "int_of_u32 (u32_of_int a) = a" "int_of_u32 (u32_of_int b) = b"
    unfolding int_of_u32_of_int by (rule i32_id, use assms(1-4) in simp)+
  then show ?thesis using assms(5) by metis
qed

definition data_block :: "disk \<Rightarrow> int \<Rightarrow> bool" where
  "data_block d a \<longleftrightarrow> 0 \<le> a \<and> a < 16384 \<and> backed a \<and> on_disk d (u32_of_int a)"

lemma read_inode_blocks_ok:
  assumes "fs_ok f" "length (s_block z) = 1024" "needs (blen f) left k" "k \<le> length ixs"
    and "\<forall>i \<in> set (take k ixs). 0 \<le> i \<and> i < int (length (blocks inode)) \<and> on_disk (dk f) (blocks inode ! nat i)"
    and "0 \<le> pos" "pos + left \<le> int (length x)"
  shows "read_inode_blocks z ixs first 0 left pos x inode f = Some (0,
    take (nat pos) x @ take (nat left) (concat (map (\<lambda>i. get_block (dk f) (blocks inode ! nat i)) (take k ixs))) @
    drop (nat (pos + left)) x, f)"
  using assms
proof (induction k arbitrary: ixs left pos x first)
  case 0
  then show ?case by (simp add: needs_def)
next
  case (Suc k)
  let ?l = "blen f"
  obtain i js where ixs: "ixs = i # js" using Suc.prems(4) by (cases ixs) auto
  let ?a = "blocks inode ! nat i"
  have l: "0 < ?l" "?l \<le> 1024" "disk_block_length (sb f) = ?l" using Suc.prems(1) by (auto simp: fs_ok_def)
  have d: "disk_wf (dk f)" using Suc.prems(1) by (simp add: fs_ok_def)
  have i: "0 \<le> i" "i < int (length (blocks inode))" "on_disk (dk f) ?a" using Suc.prems(5) ixs by simp_all
  have rdi: "rd (blocks inode) i = Some ?a" using i by (simp add: rd_Some)
  have len: "length (get_block (dk f) ?a) = nat ?l" by (rule length_get_block [OF d i(3)])
  show ?case
  proof (cases k)
    case 0
    then have n: "0 < left" "left \<le> ?l" using Suc.prems(3) by (simp_all add: needs_one)
    have r: "disk_read (s_block z) (dk f) ?l ?a x pos left =
        Some (0, take (nat pos) x @ take (nat left) (get_block (dk f) ?a) @ drop (nat (pos + left)) x, dk f)"
      using disk_read_ok [OF d i(3) refl l(2) Suc.prems(2,6), of left x] n Suc.prems(7) by simp
    have nn: "(if left < ?l then left else ?l) = left" using n by simp
    show ?thesis
      unfolding ixs 0 read_inode_blocks.simps rdi Option.bind.bind_lunit Let_def l(3) diff_0_right if_cancel nn
      by (simp add: r u32_of_int_def)
  next
    case (Suc k')
    then have n: "?l < left" "needs ?l (left - ?l) k" using Suc.prems(3) needs_more [OF l(1)] by simp_all
    let ?x = "take (nat pos) x @ take (nat ?l) (get_block (dk f) ?a) @ drop (nat (pos + ?l)) x"
    have r: "disk_read (s_block z) (dk f) ?l ?a x pos ?l = Some (0, ?x, dk f)"
      using disk_read_ok [OF d i(3) refl l(2) Suc.prems(2,6), of ?l x] n l Suc.prems(7) by simp
    have lx: "length ?x = length x" using len l Suc.prems(6,7) n by simp
    have IH: "read_inode_blocks z js False 0 (left - ?l) (pos + ?l) ?x inode f = Some (0,
      take (nat (pos + ?l)) ?x @ take (nat (left - ?l)) (concat (map (\<lambda>i. get_block (dk f) (blocks inode ! nat i)) (take k js))) @
      drop (nat (pos + ?l + (left - ?l))) ?x, f)"
      using Suc.prems ixs n(2) l(1) lx by (intro Suc.IH) auto
    have e1: "take (nat (pos + ?l)) ?x = take (nat pos) x @ get_block (dk f) ?a"
      using len l Suc.prems(6,7) n by (simp add: nat_add_distrib)
    have e2: "drop (nat (pos + left)) ?x = drop (nat (pos + left)) x"
    proof -
      have "nat (pos + left) = nat pos + (nat ?l + nat (left - ?l))" using l n Suc.prems(6) by simp
      then show ?thesis using len l Suc.prems(6,7) n by (simp add: nat_add_distrib add.assoc) (simp add: ac_simps)
    qed
    have e3: "take (nat left) (concat (map (\<lambda>i. get_block (dk f) (blocks inode ! nat i)) (take (Suc k) ixs))) =
      get_block (dk f) ?a @ take (nat (left - ?l)) (concat (map (\<lambda>i. get_block (dk f) (blocks inode ! nat i)) (take k js)))"
      using ixs len l n by (simp add: nat_diff_distrib)
    have nn: "(if left < ?l then left else ?l) = ?l" using n by simp
    have "read_inode_blocks z ixs first 0 left pos x inode f = read_inode_blocks z js False 0 (left - ?l) (pos + ?l) ?x inode f"
      unfolding ixs read_inode_blocks.simps rdi Option.bind.bind_lunit Let_def l(3) diff_0_right if_cancel nn
      using n(1) by (simp add: r u32_of_int_def)
    then show ?thesis unfolding IH e1 e3 using e2 by simp
  qed
qed

text \<open>One block of a write: allocate the first free block, record it, store the chunk.\<close>

lemma write_step:
  assumes f: "fs_ok f" and z: "length (s_block z) = 1024" and i: "0 \<le> i" "i < int (length (blocks inode))"
    and fl: "free_list (sb f) = a # as" and a: "data_block (dk f) a"
    and x: "0 \<le> pos" "0 < n" "n \<le> blen f" "pos + n \<le> int (length x)"
  obtains ws f1 where "allocate_block (sb f) (u32_of_int a) = Some ((sb f)\<lparr>free_block_bitmap := ws\<rparr>)"
    "free_data_block (sb f) = Some (u32_of_int a)" "wr (blocks inode) i (u32_of_int a) = Some ((blocks inode)[nat i := u32_of_int a])"
    "disk_write (s_block z) (dk f) (blen f) (u32_of_int a) x pos n = Some (0, dk f1)"
    "sb f1 = (sb f)\<lparr>free_block_bitmap := ws\<rparr>" "length ws = 128" "bits ws = insert a (used (sb f))"
    "fs_ok f1" "on_disk (dk f1) = on_disk (dk f)" "blen f1 = blen f" "free_list (sb f1) = as"
    "get_block (dk f1) = (get_block (dk f))(u32_of_int a := padded (s_block z) (blen f) (take (nat n) (drop (nat pos) x)))"
proof -
  have sw: "superblock_wf (sb f)" and d: "disk_wf (dk f)" and l: "blen f \<le> 1024" using f by (simp_all add: fs_ok_def)
  have ab: "0 \<le> a" "a < 16384" "backed a" "on_disk (dk f) (u32_of_int a)" using a by (simp_all add: data_block_def)
  obtain ws where ws: "allocate_block (sb f) (u32_of_int a) = Some ((sb f)\<lparr>free_block_bitmap := ws\<rparr>)" "length ws = 128"
    "bits ws = insert a (used (sb f))"
    using allocate_ok [OF sw ab(1,2)] ab(3) by auto
  let ?bs = "take (nat n) (drop (nat pos) x)"
  let ?d = "put_block (dk f) (u32_of_int a) (padded (s_block z) (blen f) ?bs)"
  let ?f = "\<lparr>sb = (sb f)\<lparr>free_block_bitmap := ws\<rparr>, dk = ?d\<rparr>"
  have dw: "disk_write (s_block z) (dk f) (blen f) (u32_of_int a) x pos n = Some (0, ?d)"
    using disk_write_ok [OF d ab(4) refl l z x(1) _ x(3,4)] x(2) by simp
  have "int (length ?bs) \<le> blen f" using x by simp
  note p = put_block_padded [OF d ab(4) refl l z this]
  have "superblock_wf ((sb f)\<lparr>free_block_bitmap := ws\<rparr>)" using sw ws(2) by (simp add: superblock_wf_def)
  then have ok: "fs_ok ?f" using f p by (simp add: fs_ok_def)
  show ?thesis
    using that [of ws ?f] ws free_data_block_ok [OF sw fl ab(2)] i dw p ok free_list_mark [OF fl ws(3)]
    by (simp add: wr_Some)
qed

lemma write_inode_blocks_ok:
  assumes "fs_ok f" "length (s_block z) = 1024" "needs (blen f) left k" "k \<le> length ixs" "distinct ixs"
    and "\<forall>i \<in> set ixs. 0 \<le> i \<and> i < int (length (blocks inode))"
    and "k \<le> length (free_list (sb f))" "\<forall>a \<in> set (take k (free_list (sb f))). data_block (dk f) a"
    and "0 \<le> pos" "pos + left \<le> int (length x)"
  shows "\<exists>bl ws f'. write_inode_blocks z ixs first 0 left pos x inode f = Some (0, inode\<lparr>blocks := bl\<rparr>, f') \<and>
    length bl = length (blocks inode) \<and>
    map (\<lambda>i. bl ! nat i) (take k ixs) = map u32_of_int (take k (free_list (sb f))) \<and>
    (\<forall>j. 0 \<le> j \<and> j \<notin> set (take k ixs) \<longrightarrow> bl ! nat j = blocks inode ! nat j) \<and>
    sb f' = (sb f)\<lparr>free_block_bitmap := ws\<rparr> \<and> length ws = 128 \<and>
    bits ws = used (sb f) \<union> set (take k (free_list (sb f))) \<and>
    fs_ok f' \<and> on_disk (dk f') = on_disk (dk f) \<and> blen f' = blen f \<and>
    (\<forall>b. b \<notin> u32_of_int ` set (take k (free_list (sb f))) \<longrightarrow> get_block (dk f') b = get_block (dk f) b) \<and>
    take (nat left) (concat (map (\<lambda>a. get_block (dk f') (u32_of_int a)) (take k (free_list (sb f))))) =
      take (nat left) (drop (nat pos) x)"
  using assms
proof (induction k arbitrary: ixs left pos first inode f)
  case 0
  then show ?case by (simp add: needs_def)
next
  case (Suc k)
  let ?l = "blen f"
  obtain i js where ixs: "ixs = i # js" using Suc.prems(4) by (cases ixs) auto
  obtain a as where fl: "free_list (sb f) = a # as" using Suc.prems(7) by (cases "free_list (sb f)") auto
  have l: "0 < ?l" "?l \<le> 1024" "disk_block_length (sb f) = ?l" using Suc.prems(1) by (auto simp: fs_ok_def)
  have i: "0 \<le> i" "i < int (length (blocks inode))" "i \<notin> set js" using Suc.prems(5,6) ixs by simp_all
  have a: "data_block (dk f) a" using Suc.prems(8) fl by simp
  show ?case
  proof (cases k)
    case 0
    then have n: "0 < left" "left \<le> ?l" using Suc.prems(3) by (simp_all add: needs_one)
    obtain ws f1 where s: "allocate_block (sb f) (u32_of_int a) = Some ((sb f)\<lparr>free_block_bitmap := ws\<rparr>)"
      "free_data_block (sb f) = Some (u32_of_int a)" "wr (blocks inode) i (u32_of_int a) = Some ((blocks inode)[nat i := u32_of_int a])"
      "disk_write (s_block z) (dk f) ?l (u32_of_int a) x pos left = Some (0, dk f1)"
      "sb f1 = (sb f)\<lparr>free_block_bitmap := ws\<rparr>" "length ws = 128" "bits ws = insert a (used (sb f))"
      "fs_ok f1" "on_disk (dk f1) = on_disk (dk f)" "blen f1 = ?l" "free_list (sb f1) = as"
      "get_block (dk f1) = (get_block (dk f))(u32_of_int a := padded (s_block z) ?l (take (nat left) (drop (nat pos) x)))"
      by (rule write_step [OF Suc.prems(1,2) i(1,2) fl a Suc.prems(9) n Suc.prems(10)])
    have f1: "\<lparr>sb = (sb f)\<lparr>free_block_bitmap := ws\<rparr>, dk = dk f1\<rparr> = f1" using s(5) by (cases f1) simp
    have nn: "(if left < ?l then left else ?l) = left" using n by simp
    have run: "write_inode_blocks z ixs first 0 left pos x inode f =
        Some (0, inode\<lparr>blocks := (blocks inode)[nat i := u32_of_int a]\<rparr>, f1)"
      unfolding ixs write_inode_blocks.simps s(2) Option.bind.bind_lunit Let_def l(3) diff_0_right if_cancel nn
      using s(1,3,4) l(3) f1 by (simp add: u32_of_int_def)
    have len: "length (take (nat left) (drop (nat pos) x)) = nat left" using n Suc.prems(9,10) by simp
    have e: "take (nat left) (padded (s_block z) ?l (take (nat left) (drop (nat pos) x))) = take (nat left) (drop (nat pos) x)"
      using take_padded [of "take (nat left) (drop (nat pos) x)" ?l "s_block z"] len n by simp
    show ?thesis
      unfolding run unfolding fl 0 ixs
    proof (intro exI conjI)
      show "Some (0, inode\<lparr>blocks := (blocks inode)[nat i := u32_of_int a]\<rparr>, f1) =
        Some (0, inode\<lparr>blocks := (blocks inode)[nat i := u32_of_int a]\<rparr>, f1)" by (rule refl)
      show "map (\<lambda>j. (blocks inode)[nat i := u32_of_int a] ! nat j) (take (Suc 0) (i # js)) =
        map u32_of_int (take (Suc 0) (a # as))"
        using i(1,2) by (simp add: nat_less_iff_int)
      show "\<forall>j. 0 \<le> j \<and> j \<notin> set (take (Suc 0) (i # js)) \<longrightarrow> (blocks inode)[nat i := u32_of_int a] ! nat j = blocks inode ! nat j"
        using i(1) by (auto simp: eq_nat_nat_iff)
      show "sb f1 = (sb f)\<lparr>free_block_bitmap := ws\<rparr>" by (rule s(5))
      show "\<forall>b. b \<notin> u32_of_int ` set (take (Suc 0) (a # as)) \<longrightarrow> get_block (dk f1) b = get_block (dk f) b"
        using s(12) by simp
      show "take (nat left) (concat (map (\<lambda>a. get_block (dk f1) (u32_of_int a)) (take (Suc 0) (a # as)))) =
        take (nat left) (drop (nat pos) x)"
        using s(12) e by simp
    qed (use s in simp_all)
  next
    case (Suc k')
    then have n: "?l < left" "needs ?l (left - ?l) k" using Suc.prems(3) needs_more [OF l(1)] by simp_all
    have pl: "pos + ?l \<le> int (length x)" using n Suc.prems(10) by simp
    obtain ws f1 where s: "allocate_block (sb f) (u32_of_int a) = Some ((sb f)\<lparr>free_block_bitmap := ws\<rparr>)"
      "free_data_block (sb f) = Some (u32_of_int a)" "wr (blocks inode) i (u32_of_int a) = Some ((blocks inode)[nat i := u32_of_int a])"
      "disk_write (s_block z) (dk f) ?l (u32_of_int a) x pos ?l = Some (0, dk f1)"
      "sb f1 = (sb f)\<lparr>free_block_bitmap := ws\<rparr>" "length ws = 128" "bits ws = insert a (used (sb f))"
      "fs_ok f1" "on_disk (dk f1) = on_disk (dk f)" "blen f1 = ?l" "free_list (sb f1) = as"
      "get_block (dk f1) = (get_block (dk f))(u32_of_int a := padded (s_block z) ?l (take (nat ?l) (drop (nat pos) x)))"
      by (rule write_step [OF Suc.prems(1,2) i(1,2) fl a Suc.prems(9) l(1) order_refl pl])
    have f1: "\<lparr>sb = (sb f)\<lparr>free_block_bitmap := ws\<rparr>, dk = dk f1\<rparr> = f1" using s(5) by (cases f1) simp
    let ?in = "inode\<lparr>blocks := (blocks inode)[nat i := u32_of_int a]\<rparr>"
    have nn: "(if left < ?l then left else ?l) = ?l" using n by simp
    have run: "write_inode_blocks z ixs first 0 left pos x inode f = write_inode_blocks z js False 0 (left - ?l) (pos + ?l) x ?in f1"
      unfolding ixs write_inode_blocks.simps s(2) Option.bind.bind_lunit Let_def l(3) diff_0_right if_cancel nn
      using s(1,3,4) l(3) f1 n(1) by (simp add: u32_of_int_def)
    have asd: "\<forall>b \<in> set (take k as). data_block (dk f) b" "k \<le> length as" using Suc.prems(7,8) fl by simp_all
    obtain bl vs f' where r: "write_inode_blocks z js False 0 (left - ?l) (pos + ?l) x ?in f1 = Some (0, ?in\<lparr>blocks := bl\<rparr>, f')"
      "length bl = length (blocks inode)" "map (\<lambda>i. bl ! nat i) (take k js) = map u32_of_int (take k as)"
      "\<forall>j. 0 \<le> j \<and> j \<notin> set (take k js) \<longrightarrow> bl ! nat j = blocks ?in ! nat j"
      "sb f' = (sb f1)\<lparr>free_block_bitmap := vs\<rparr>" "length vs = 128" "bits vs = used (sb f1) \<union> set (take k as)"
      "fs_ok f'" "on_disk (dk f') = on_disk (dk f1)" "blen f' = blen f1"
      "\<forall>b. b \<notin> u32_of_int ` set (take k as) \<longrightarrow> get_block (dk f') b = get_block (dk f1) b"
      "take (nat (left - ?l)) (concat (map (\<lambda>a. get_block (dk f') (u32_of_int a)) (take k as))) =
        take (nat (left - ?l)) (drop (nat (pos + ?l)) x)"
      using Suc.IH [of f1 "left - ?l" js ?in "pos + ?l" False] s(8-11) n(2) Suc.prems ixs asd l(1)
      by (auto simp: data_block_def)
    have "distinct (a # as)" using fl unfolding free_list_def addrs_def by (metis distinct_filter distinct_upto)
    then have nt: "a \<notin> set (take k as)" by (auto dest: in_set_takeD)
    have ar: "0 \<le> a" "a < 2 ^ 31" using a by (simp_all add: data_block_def)
    have na: "u32_of_int a \<notin> u32_of_int ` set (take k as)"
    proof
      assume "u32_of_int a \<in> u32_of_int ` set (take k as)"
      then obtain b where b: "b \<in> set (take k as)" "u32_of_int a = u32_of_int b" by blast
      then have "data_block (dk f) b" using asd(1) by blast
      then have "0 \<le> b" "b < 2 ^ 31" by (simp_all add: data_block_def)
      then have "a = b" using u32_inj [OF ar _ _ b(2)] by blast
      then show False using b(1) nt by blast
    qed
    have bi: "bl ! nat i = u32_of_int a" using r(4) i by (auto dest: in_set_takeD)
    have ga: "get_block (dk f') (u32_of_int a) = take (nat ?l) (drop (nat pos) x)"
    proof -
      have "get_block (dk f') (u32_of_int a) = padded (s_block z) ?l (take (nat ?l) (drop (nat pos) x))"
        using r(11) na s(12) by simp
      then show ?thesis using l Suc.prems(2,9) pl by (simp add: padded_def)
    qed
    have content: "take (nat left) (concat (map (\<lambda>a. get_block (dk f') (u32_of_int a)) (take (Suc k) (a # as)))) =
        take (nat left) (drop (nat pos) x)"
    proof -
      have "nat left = nat ?l + nat (left - ?l)" using n l by simp
      then show ?thesis using r(12) l Suc.prems(9) pl
        by (simp add: ga take_add nat_add_distrib add.commute)
    qed
    show ?thesis
      unfolding run unfolding r(1) unfolding fl ixs
    proof (intro exI conjI)
      show "Some (0, ?in\<lparr>blocks := bl\<rparr>, f') = Some (0, inode\<lparr>blocks := bl\<rparr>, f')" by simp
      show "map (\<lambda>i. bl ! nat i) (take (Suc k) (i # js)) = map u32_of_int (take (Suc k) (a # as))"
        using bi r(3) by simp
      show "\<forall>j. 0 \<le> j \<and> j \<notin> set (take (Suc k) (i # js)) \<longrightarrow> bl ! nat j = blocks inode ! nat j"
        using r(4) i(1) by (auto simp: eq_nat_nat_iff)
      show "sb f' = (sb f)\<lparr>free_block_bitmap := vs\<rparr>" using r(5) s(5) by simp
      show "bits vs = used (sb f) \<union> set (take (Suc k) (a # as))"
        using r(7) s(5,7) by (auto simp: used_def)
      show "\<forall>b. b \<notin> u32_of_int ` set (take (Suc k) (a # as)) \<longrightarrow> get_block (dk f') b = get_block (dk f) b"
        using r(11) s(12) by auto
    qed (use r s content in simp_all)
  qed
qed

section \<open>A whole file\<close>

lemma needs_div: "0 < l \<Longrightarrow> needs l n k \<Longrightarrow> (l + n - 1) div l = int k"
proof -
  assume l: "0 < l" and n: "needs l n k"
  have "l * int k - l < n" "n \<le> l * int k" using n by (simp_all add: needs_def right_diff_distrib)
  then show ?thesis using l by (intro int_div_pos_eq [of _ _ _ "l + n - 1 - l * int k"]) auto
qed

lemma needs_bound: "0 < l \<Longrightarrow> l \<le> 1024 \<Longrightarrow> needs l n k \<Longrightarrow> k \<le> 6 \<Longrightarrow> 0 < n \<and> n \<le> 6144"
proof -
  assume l: "0 < l" "l \<le> 1024" and n: "needs l n k" "k \<le> 6"
  have "l * int k \<le> 1024 * 6" using l n(2) by (intro mult_mono) auto
  moreover have "0 \<le> l * (int k - 1)" using l n(1) by (simp add: needs_def)
  ultimately show ?thesis using n(1) by (auto simp: needs_def)
qed

lemma rw_setup_ok:
  assumes f: "fs_ok f" and n: "needs (blen f) n k" "k \<le> 6"
  shows "rw_setup f inode 0 n = Some (Some
    (inode\<lparr>blocks_allocated := max (int k) (blocks_allocated inode)\<rparr>, 0, 0))"
proof -
  have l: "0 < blen f" "blen f \<le> 1024" "disk_block_length (sb f) = blen f" using f by (auto simp: fs_ok_def)
  have "0 < n \<and> n \<le> 6144" using needs_bound [OF l(1,2) n] .
  then have occ: "blocks_occupied (blen f) n = Some (word_of_int (int k))"
    using blocks_occupied_ok [OF l(1,2), of n] needs_div [OF l(1) n(1)] by simp
  have k: "int_of_u32 (word_of_int (int k)) = int k"
    using int_of_u32_of_int [of "int k"] n(2) by (simp add: u32_of_int_def i32_id)
  have z: "int_of_u32 0 = 0" by (simp add: int_of_u32_def)
  have e: "(if int k > blocks_allocated inode then inode\<lparr>blocks_allocated := int k\<rparr> else inode) =
      inode\<lparr>blocks_allocated := max (int k) (blocks_allocated inode)\<rparr>" by (simp add: max_def)
  have k6: "\<not> int k > 6" using n(2) by simp
  show ?thesis
    unfolding rw_setup_def l(3) occ Option.bind.bind_lunit Let_def k MAX_INODE_BLOCKS_def e
    using k6 z by simp
qed

lemma take_upto: "int k \<le> m \<Longrightarrow> take k [0..m - 1] = [0..int k - 1]"
proof (rule nth_equalityI)
  assume "int k \<le> m"
  then show "length (take k [0..m - 1]) = length [0..int k - 1]" by simp
qed simp

text \<open>The file \<open>inode\<close> can take \<open>n\<close> bytes: at most 6 blocks, all free, on the disk and behind the inodes.\<close>

definition room_for :: "fs \<Rightarrow> inode_t \<Rightarrow> int \<Rightarrow> nat \<Rightarrow> bool" where
  "room_for f inode n k \<longleftrightarrow> needs (blen f) n k \<and> k \<le> 6 \<and> blocks_allocated inode \<le> 6 \<and>
     k \<le> length (free_list (sb f)) \<and> (\<forall>a \<in> set (take k (free_list (sb f))). data_block (dk f) a) \<and>
     uint (inode_addr (sb f) (ino_id inode)) < uint (data_block_start (sb f))"

lemma data_blocks_apart:
  assumes "uint i < uint (data_block_start b)" "a \<in> set (free_list b)" "a < 16384"
  shows "u32_of_int a \<noteq> i" "u32_of_int a \<noteq> 0"
proof -
  have a: "uint (data_block_start b) \<le> a" using free_list_range [OF assms(2)] by simp
  have "0 \<le> a" using a uint_ge_0 [of "data_block_start b"] by linarith
  then have u: "uint (u32_of_int a) = a" using assms(3) by (simp add: u32_of_int_def uint_word_of_int_eq take_bit_int_eq_self)
  show "u32_of_int a \<noteq> i" using u a assms(1) by auto
  show "u32_of_int a \<noteq> 0"
  proof
    assume "u32_of_int a = 0"
    then have "a = 0" using u by simp
    then show False using a assms(1) uint_ge_0 [of i] by simp
  qed
qed

lemma write_to_inode_ok:
  assumes f: "fs_ok f" and z: "length (s_block z) = 1024" and i: "inode_wf inode" "inode_slot f (ino_id inode)"
    and room: "room_for f inode n k" and x: "int (length x) = n"
  obtains inode' f' where "write_to_inode z f inode 0 x n = Some (0, inode', u32_of_int n, f')"
    "fs_ok f'" "on_disk (dk f') = on_disk (dk f)" "blen f' = blen f" "inode_wf inode'" "ino_id inode' = ino_id inode"
    "ino_size inode' = n" "ino_type inode' = ino_type inode" "inode_start (sb f') = inode_start (sb f)"
    "map (\<lambda>i. blocks inode' ! nat i) [0..int k - 1] = map u32_of_int (take k (free_list (sb f)))"
    "int k \<le> blocks_allocated inode'" "blocks_allocated inode' \<le> 6"
    "take (nat n) (concat (map (\<lambda>a. get_block (dk f') (u32_of_int a)) (take k (free_list (sb f))))) = x"
    "get_block (dk f') (inode_addr (sb f) (ino_id inode)) = padded (s_block z) (blen f) (enc_inode inode')"
    "\<forall>b. b \<notin> u32_of_int ` set (take k (free_list (sb f))) \<and> b \<noteq> inode_addr (sb f) (ino_id inode) \<and> b \<noteq> 0 \<longrightarrow>
       get_block (dk f') b = get_block (dk f) b"
    "sb f' = (sb f)\<lparr>free_block_bitmap := free_block_bitmap (sb f')\<rparr>"
    "free_list (sb f') = drop k (free_list (sb f))"
    "blocks_allocated inode' = max (int k) (blocks_allocated inode)"
    "\<forall>j. int k \<le> j \<longrightarrow> blocks inode' ! nat j = blocks inode ! nat j"
proof -
  let ?L = "take k (free_list (sb f))" and ?ia = "inode_addr (sb f) (ino_id inode)"
  define in1 where "in1 = inode\<lparr>blocks_allocated := max (int k) (blocks_allocated inode)\<rparr>"
  have n: "needs (blen f) n k" "k \<le> 6" and ba: "blocks_allocated inode \<le> 6"
    and fl: "k \<le> length (free_list (sb f))" "\<forall>a \<in> set ?L. data_block (dk f) a"
    and below: "uint ?ia < uint (data_block_start (sb f))"
    using room by (simp_all add: room_for_def)
  have bm: "blocks_allocated in1 \<le> 6" "int k \<le> blocks_allocated in1" using ba n(2) by (simp_all add: in1_def)
  have k1: "1 \<le> int k" using n(1) by (simp add: needs_def)
  have len6: "length (blocks in1) = 6" using i(1) by (simp add: in1_def inode_wf_def)
  have tk: "take k [0..blocks_allocated in1 - 1] = [0..int k - 1]"
    by (rule take_upto) (use bm in simp)
  have kl: "k \<le> nat (blocks_allocated in1)" using bm(2) by linarith
  obtain bl ws f1 where w: "write_inode_blocks z [0..blocks_allocated in1 - 1] True 0 n 0 x in1 f = Some (0, in1\<lparr>blocks := bl\<rparr>, f1)"
    "length bl = length (blocks in1)"
    "map (\<lambda>i. bl ! nat i) (take k [0..blocks_allocated in1 - 1]) = map u32_of_int ?L"
    "sb f1 = (sb f)\<lparr>free_block_bitmap := ws\<rparr>" "bits ws = used (sb f) \<union> set ?L" "fs_ok f1" "on_disk (dk f1) = on_disk (dk f)" "blen f1 = blen f"
    "\<forall>b. b \<notin> u32_of_int ` set ?L \<longrightarrow> get_block (dk f1) b = get_block (dk f) b"
    "take (nat n) (concat (map (\<lambda>a. get_block (dk f1) (u32_of_int a)) ?L)) = take (nat n) (drop (nat 0) x)"
    "\<forall>j. 0 \<le> j \<and> j \<notin> set (take k [0..blocks_allocated in1 - 1]) \<longrightarrow> bl ! nat j = blocks in1 ! nat j"
    using write_inode_blocks_ok [OF f z n(1), of "[0..blocks_allocated in1 - 1]" in1 0 x True] bm len6 fl x kl
    by auto
  define in2 where "in2 = in1\<lparr>blocks := bl, ino_size := n\<rparr>"
  have l: "0 < blen f" "blen f \<le> 1024" using f by (auto simp: fs_ok_def)
  have nb: "0 < n \<and> n \<le> 6144" by (rule needs_bound [OF l n])
  have iw: "inode_wf in2" using i(1) nb w(2) len6 bm k1 by (simp add: in2_def in1_def inode_wf_def)
  have id2: "ino_id in2 = ino_id inode" by (simp add: in2_def in1_def)
  have ia: "inode_addr (sb f1) (ino_id in2) = ?ia" using w(4) id2 by (simp add: inode_addr_def)
  have slot: "inode_slot f1 (ino_id in2)"
    using i(2) w(7) ia id2 unfolding inode_slot_def by simp
  have fb: "bits (free_block_bitmap (sb f1)) = used (sb f) \<union> set ?L" using w(4,5) by simp
  obtain vs f2 where v: "write_inode z f1 in2 = Some (0, f2)" "sb f2 = (sb f1)\<lparr>free_block_bitmap := vs\<rparr>" "fs_ok f2"
    "on_disk (dk f2) = on_disk (dk f1)" "blen f2 = blen f1"
    "get_block (dk f2) = (get_block (dk f1))(?ia := padded (s_block z) (blen f1) (enc_inode in2),
      0 := padded (s_block z) (blen f1) (enc_superblock (sb f2)))"
    "bits vs = used (sb f1) \<union> ({uint ?ia, 0} \<inter> Collect backed)"
    using write_inode_ok [OF w(6) z iw slot] unfolding ia by blast
  have ia0: "?ia \<noteq> 0" using i(2) by (simp add: inode_slot_def)
  have apart: "u32_of_int a \<noteq> ?ia \<and> u32_of_int a \<noteq> 0" if "a \<in> set ?L" for a
  proof -
    have "a < 16384" using fl(2) that by (simp add: data_block_def)
    then show ?thesis using data_blocks_apart [OF below in_set_takeD [OF that]] by simp
  qed
  then have same: "map (\<lambda>a. get_block (dk f2) (u32_of_int a)) ?L = map (\<lambda>a. get_block (dk f1) (u32_of_int a)) ?L"
    by (auto simp: v(6))
  have run: "write_to_inode z f inode 0 x n = Some (0, in2, u32_of_int n, f2)"
    unfolding write_to_inode_def rw_setup_ok [OF f n] in1_def [symmetric] Option.bind.bind_lunit
    using w(1) v(1) by (simp add: in2_def Let_def)
  have fl2: "free_list (sb f2) = drop k (free_list (sb f))"
  proof -
    have "a \<noteq> uint ?ia \<and> a \<noteq> 0" if "a \<in> set (free_list (sb f))" for a
      using free_list_range [OF that] below uint_ge_0 [of ?ia] by linarith
    then have "({uint ?ia, 0} \<inter> Collect backed) \<inter> set (free_list (sb f)) = {}" by auto
    moreover have "bits vs = used (sb f) \<union> set ?L \<union> ({uint ?ia, 0} \<inter> Collect backed)"
      using v(7) fb by (simp add: used_def)
    ultimately have "free_list ((sb f)\<lparr>free_block_bitmap := vs\<rparr>) = drop k (free_list (sb f))" by (intro free_list_drop)
    then show ?thesis using v(2) w(4) by simp
  qed
  show ?thesis
  proof (rule that [OF run v(3)])
    show "map (\<lambda>i. blocks in2 ! nat i) [0..int k - 1] = map u32_of_int ?L"
      using w(3) tk by (simp add: in2_def)
    show "\<forall>j. int k \<le> j \<longrightarrow> blocks in2 ! nat j = blocks inode ! nat j"
      using w(11) k1 unfolding tk by (auto simp: in2_def in1_def)
    show "take (nat n) (concat (map (\<lambda>a. get_block (dk f2) (u32_of_int a)) ?L)) = x"
      unfolding same w(10) using x by simp
    show "get_block (dk f2) ?ia = padded (s_block z) (blen f) (enc_inode in2)"
      using v(6) ia0 w(8) by simp
    show "\<forall>b. b \<notin> u32_of_int ` set ?L \<and> b \<noteq> ?ia \<and> b \<noteq> 0 \<longrightarrow> get_block (dk f2) b = get_block (dk f) b"
      using v(6) w(9) by simp
  qed (use v w iw id2 bm fl2 in \<open>simp_all add: in2_def in1_def\<close>)
qed

lemma read_from_inode_ok:
  assumes f: "fs_ok f" and z: "length (s_block z) = 1024" and n: "needs (blen f) n k" "k \<le> 6"
    and bl: "length (blocks inode) = 6" "int k \<le> blocks_allocated inode"
    and od: "\<forall>i \<in> set [0..int k - 1]. on_disk (dk f) (blocks inode ! nat i)"
    and x: "int (length x) = n"
  shows "read_from_inode z f inode 0 x n = Some (0,
    take (nat n) (concat (map (\<lambda>i. get_block (dk f) (blocks inode ! nat i)) [0..int k - 1])), inode, u32_of_int n, f)"
proof -
  have e: "inode\<lparr>blocks_allocated := max (int k) (blocks_allocated inode)\<rparr> = inode"
    using bl(2) by (simp add: max_absorb2)
  have k1: "1 \<le> k" using n(1) by (simp add: needs_def)
  have tk: "take k [0..blocks_allocated inode - 1] = [0..int k - 1]"
    by (rule take_upto) (use bl(2) in simp)
  have "read_inode_blocks z [0..blocks_allocated inode - 1] True 0 n 0 x inode f = Some (0,
    take (nat 0) x @ take (nat n) (concat (map (\<lambda>i. get_block (dk f) (blocks inode ! nat i)) (take k [0..blocks_allocated inode - 1]))) @
    drop (nat (0 + n)) x, f)"
    using n(2) bl od x by (intro read_inode_blocks_ok [OF f z n(1)]) (auto simp: tk)
  then have r: "read_inode_blocks z [0..blocks_allocated inode - 1] True 0 n 0 x inode f = Some (0,
    take (nat n) (concat (map (\<lambda>i. get_block (dk f) (blocks inode ! nat i)) [0..int k - 1])), f)"
    using x by (simp add: tk)
  show ?thesis
    unfolding read_from_inode_def rw_setup_ok [OF f n] Option.bind.bind_lunit e
    using r by simp
qed

end
