(* ===== verification/Demo.thy ===== *)
theory Demo
  imports Hilevel Fs_Store
begin

text \<open>
  Concrete states on which the properties are instantiated: a process table with three
  running processes, of which process 2 is a child of process 1 and interactive, and a
  kernel with an empty disk of 64 blocks of 1024 bytes.
\<close>

definition demo_ctx :: "u32 \<Rightarrow> ctx_t" where
  "demo_ctx a = \<lparr>cpsr = 0x50, pc = a, gpr = replicate 13 0, sp = 0, lr = 0\<rparr>"

definition demo_pcb :: "int \<Rightarrow> pcb_t" where
  "demo_pcb p = zero_pcb\<lparr>pid := p, ppid := (if p = 2 then 1 else 0),
     ctx := demo_ctx (if p \<le> 3 then 0x1000 else 0),
     prio := (reset_priority 0)\<lparr>process_type := (if p = 2 then 1 else 0)\<rparr>\<rparr>"

definition demo :: procs where
  "demo = \<lparr>pcb = map (\<lambda>i. demo_pcb (int i + 1)) [0..<30], current = Some 0, BURSTS = 0,
     sps = replicate 30 0, tos_P1 = 0\<rparr>"

lemma demo_ctx_simps [simp]: "pc (demo_ctx a) = a" "length (gpr (demo_ctx a)) = 13"
  by (simp_all add: demo_ctx_def)

lemma demo_pcb_simps [simp]:
  "pid (demo_pcb p) = p" "ppid (demo_pcb p) = (if p = 2 then 1 else 0)"
  "ctx (demo_pcb p) = demo_ctx (if p \<le> 3 then 0x1000 else 0)"
  "waiting (demo_pcb p) = replicate 20 \<lparr>w_pid = 0, w_result = 0\<rparr>"
  "waiters (demo_pcb p) = replicate 5 \<lparr>wr_pid = 0\<rparr>"
  "shared (demo_pcb p) = \<lparr>ptr = 0, locked = 0\<rparr>"
  "process_type (prio (demo_pcb p)) = (if p = 2 then 1 else 0)"
  "waiting_time (prio (demo_pcb p)) = 0" "time_left (prio (demo_pcb p)) = 0"
  "fd_table (demo_pcb p) = \<lparr>fd_count = 0, fd_open = replicate 10 0\<rparr>"
  by (simp_all add: demo_pcb_def zero_pcb_def reset_priority_def)

lemma demo_pcb_wf: "pcb_wf p (demo_pcb p)"
  by (simp add: pcb_wf_def)

lemma demo_blk [simp]: "1 \<le> p \<Longrightarrow> p \<le> 30 \<Longrightarrow> blk demo p = demo_pcb p"
  by (simp add: blk_def demo_def)

lemma demo_wf [simp]: "procs_wf demo"
  by (simp add: procs_wf_def table_wf_def demo_def demo_pcb_wf)

lemma demo_cur [simp]: "cur demo = 1"
  by (simp add: cur_def demo_def)

lemma demo_active: "1 \<le> p \<Longrightarrow> p \<le> 30 \<Longrightarrow> active demo p \<longleftrightarrow> p \<le> 3"
  by (simp add: active_def)

lemma demo_runnable: "runnable demo"
  by (auto simp: runnable_def demo_active wait_of_def class_of_def proc_consts)

lemma demo_live: "live_ctx (demo_ctx 0x1000)"
  by (simp add: live_ctx_def)

lemma demo_registered: "registered demo 1 j" if "j < 5"
  using that by (simp add: registered_def)

text \<open>The same table with process 3 waiting for process 1.\<close>

definition demo_wait :: procs where
  "demo_wait = upd (upd demo 1 ((demo_pcb 1)\<lparr>waiters := (waiters (demo_pcb 1))[0 := \<lparr>wr_pid = 3\<rparr>]\<rparr>))
     3 ((demo_pcb 3)\<lparr>waiting := (waiting (demo_pcb 3))[0 := \<lparr>w_pid = 1, w_result = - 1\<rparr>]\<rparr>)"

lemma demo_wait_facts:
  "procs_wf demo_wait"
  "valid_pid p \<Longrightarrow> blk demo_wait p =
     (if p = 3 then (demo_pcb 3)\<lparr>waiting := (waiting (demo_pcb 3))[0 := \<lparr>w_pid = 1, w_result = - 1\<rparr>]\<rparr>
      else if p = 1 then (demo_pcb 1)\<lparr>waiters := (waiters (demo_pcb 1))[0 := \<lparr>wr_pid = 3\<rparr>]\<rparr> else demo_pcb p)"
  "waits_for demo_wait 3 1" "\<forall>j < 5. registered demo_wait 1 j" "cur demo_wait = 1"
proof -
  let ?b1 = "(demo_pcb 1)\<lparr>waiters := (waiters (demo_pcb 1))[0 := \<lparr>wr_pid = 3\<rparr>]\<rparr>"
  let ?b3 = "(demo_pcb 3)\<lparr>waiting := (waiting (demo_pcb 3))[0 := \<lparr>w_pid = 1, w_result = - 1\<rparr>]\<rparr>"
  have w1: "procs_wf (upd demo 1 ?b1)"
    by (intro procs_wf_upd pcb_wf_waiters demo_pcb_wf) simp_all
  have p3: "pcb_wf 3 ?b3" by (rule pcb_wf_waiting [OF demo_pcb_wf])
  show "procs_wf demo_wait"
    unfolding demo_wait_def by (rule procs_wf_upd [OF w1 _ p3]) simp
  have b: "blk demo_wait p = (if p = 3 then ?b3 else if p = 1 then ?b1 else demo_pcb p)" if "valid_pid p" for p
    using that w1 by (simp add: demo_wait_def blk_upd wf_table)
  then show "valid_pid p \<Longrightarrow> blk demo_wait p = (if p = 3 then ?b3 else if p = 1 then ?b1 else demo_pcb p)" .
  show "cur demo_wait = 1" by (simp add: demo_wait_def)
  have s: "wait_slot demo_wait 3 1 = Some 0"
    by (simp add: wait_slot_def b upto_rec1)
  show "\<forall>j < 5. registered demo_wait 1 j"
    using s by (auto simp: registered_def b Let_def nth_Cons' numeral_eq_Suc less_Suc_eq)
  show "waits_for demo_wait 3 1"
    using s by (auto simp: waits_for_def b intro!: exI [of _ 0])
qed

lemma demo_lengths: "length (pcb demo) = 30" "length (sps demo) = 30"
  by (simp_all add: demo_def)

text \<open>The same table with a shared pointer registered by process 1.\<close>

definition demo_shared :: procs where
  "demo_shared = upd demo 1 ((demo_pcb 1)\<lparr>shared := \<lparr>ptr = 8, locked = 0\<rparr>\<rparr>)"

definition demo_disk :: disk where
  "demo_disk = \<lparr>rx = [], peer = \<lparr>img = replicate 65536 0, block_num = 64, block_len = 1024, line = [], alive = True\<rparr>\<rparr>"

lemma demo_disk_wf [simp]: "disk_wf demo_disk"
  by (simp add: disk_wf_def idle_def demo_disk_def)

lemma demo_disk_geometry [simp]: "block_num (peer demo_disk) = 64" "block_len (peer demo_disk) = 1024"
  by (simp_all add: demo_disk_def)

lemma demo_on_disk: "0 \<le> a \<Longrightarrow> a < 64 \<Longrightarrow> on_disk demo_disk (u32_of_int a)"
  by (simp add: on_disk_def int_of_u32_of_int i32_id)

text \<open>A mounted disk with 8 inodes in blocks 1 to 8 and nothing marked as used.\<close>

definition demo_sb :: superblock_t where
  "demo_sb = zero_superblock\<lparr>disk_block_num := 64, disk_block_length := 1024, inode_num := 8,
     inode_start := 1, data_block_start := 9\<rparr>"

definition demo_fs :: fs where
  "demo_fs = \<lparr>sb = demo_sb, dk = demo_disk\<rparr>"

lemma demo_sb_simps [simp]:
  "disk_block_num demo_sb = 64" "disk_block_length demo_sb = 1024" "inode_start demo_sb = 1"
  "data_block_start demo_sb = 9" "free_block_bitmap demo_sb = replicate 128 0"
  "free_inode_bitmap demo_sb = replicate 8 0" "inode_num demo_sb = 8"
  by (simp_all add: demo_sb_def zero_superblock_def)

lemma demo_fs_simps [simp]: "sb demo_fs = demo_sb" "dk demo_fs = demo_disk"
  by (simp_all add: demo_fs_def)

lemma demo_sb_wf [simp]: "superblock_wf demo_sb"
  by (simp add: superblock_wf_def)

lemma demo_fs_ok [simp]: "fs_ok demo_fs"
  by (simp add: fs_ok_def)

lemma demo_free_list: "free_list demo_sb = [9..63]"
  by (simp add: free_list_def used_def addrs_def u32_of_int_def)

definition demo_stack :: stack where
  "demo_stack = \<lparr>s_block = replicate 1024 0, s_inode = new_inode 0, s_dir = zero_directory, s_ret = 0\<rparr>"

lemma demo_stack_block [simp]: "length (s_block demo_stack) = 1024"
  by (simp add: demo_stack_def)

lemma new_inode_wf [simp]: "is_i32 i \<Longrightarrow> inode_wf (new_inode i)"
  by (simp add: new_inode_def inode_wf_def)

lemma demo_slot: "0 \<le> i \<Longrightarrow> i < 8 \<Longrightarrow> inode_slot demo_fs i"
proof -
  assume i: "0 \<le> i" "i < 8"
  have a: "inode_addr demo_sb i = u32_of_int (1 + i)" by (simp add: inode_addr_def u32_of_int_def)
  have u: "uint (u32_of_int (1 + i)) = 1 + i"
    unfolding u32_of_int_def uint_word_of_int_eq by (rule take_bit_int_eq_self) (use i in simp_all)
  then have "u32_of_int (1 + i) \<noteq> 0" using i by auto
  then show ?thesis using i u demo_on_disk [of "1 + i"] by (simp add: inode_slot_def a)
qed

definition demo_kernel :: "procs \<Rightarrow> kernel" where
  "demo_kernel t = \<lparr>tbl = t, uart1 = \<lparr>rx = [], peer = []\<rparr>, uart0 = \<lparr>rx = [], peer = []\<rparr>,
     dsk = demo_disk, mounted = Some zero_superblock, root_dir = Some zero_directory,
     open_files = zero_fd_table, STDIN_FD = - 1, STDOUT_FD = - 1, STDERR_FD = - 1, mem = (\<lambda>_. 0)\<rparr>"

lemma demo_kernel_tbl [simp]: "tbl (demo_kernel t) = t"
  by (simp add: demo_kernel_def)

end
