(* ===== verification/Process_Properties.thy ===== *)
theory Process_Properties
  imports Demo
begin

text \<open>
  The properties of the process side of the kernel: scheduler, system calls, inter-process
  communication, interrupt handlers. Each is a few steps over the lemmas of the
  component, with an instance on a concrete state.
\<close>

section \<open>Scheduling\<close>

text \<open>C1. No process starves: whatever the running programs do to their registers between timer
  interrupts, as long as they stay runnable, every runnable process owns the processor
  after at most 421 calls of the scheduler.\<close>

theorem no_starvation:
  assumes "runnable s" "\<forall>c \<in> set cs. live_ctx c" "length cs = 421"
    and "valid_pid p" "active s p" "0 \<le> wait_of s p" "wait_of s p < 2 ^ 31 - 421"
  shows "\<exists>ps t. sched_run s cs = Some (ps, t) \<and> p \<in> set ps"
  by (rule sched_run_serves) (use assms in simp_all)

theorem no_starvation_witness:
  "\<exists>ps t. sched_run demo (replicate 421 (demo_ctx 0x1000)) = Some (ps, t) \<and> 3 \<in> set ps"
  by (rule no_starvation) (simp_all add: demo_runnable demo_live demo_active wait_of_def)

text \<open>A call of the scheduler always returns; it keeps the table well formed, and every process keeps
  its register context (the live one for the process that runs, the saved one for the others),
  its identity, parent, class, shared memory, wait lists and files.\<close>

lemma scheduler_isolates:
  assumes "procs_wf s" "length (gpr c) = 13"
  shows "\<exists>s' c'. scheduler s c = Some (s', c') \<and> procs_wf s' \<and> length (gpr c') = 13 \<and>
    (\<forall>p. valid_pid p \<longrightarrow> proc_ctx s' c' p = proc_ctx s c p \<and> ppid (blk s' p) = ppid (blk s p) \<and>
       class_of s' p = class_of s p \<and> shared (blk s' p) = shared (blk s p) \<and>
       waiting (blk s' p) = waiting (blk s p) \<and> waiters (blk s' p) = waiters (blk s p) \<and>
       fd_table (blk s' p) = fd_table (blk s p))"
proof -
  obtain s' c' where r: "scheduler s c = Some (s', c')" using scheduler_total [OF assms] by metis
  show ?thesis
    using r scheduler_good [OF assms r] scheduler_ctx [OF assms r] scheduler_frame [OF assms r] by auto
qed

lemma scheduler_isolates_example:
  "\<exists>s' c'. scheduler demo (demo_ctx 0x1000) = Some (s', c') \<and> procs_wf s' \<and>
    proc_ctx s' c' 2 = demo_ctx 0x1000"
proof -
  obtain s' c' where "scheduler demo (demo_ctx 0x1000) = Some (s', c')" "procs_wf s'"
    "\<forall>p. valid_pid p \<longrightarrow> proc_ctx s' c' p = proc_ctx demo (demo_ctx 0x1000) p"
    using scheduler_isolates [of demo "demo_ctx 0x1000"] by auto
  moreover have "proc_ctx demo (demo_ctx 0x1000) 2 = demo_ctx 0x1000" by (simp add: proc_ctx_def)
  ultimately show ?thesis by (intro exI [of _ s'] exI [of _ c']) simp
qed

text \<open>C2. At the end of a time slice the next process is a runnable one of the other class if there is
  any, otherwise of the same class, and no process of the chosen class has waited longer.\<close>

theorem scheduler_picks_longest_waiting:
  assumes "procs_wf s" "length (gpr c) = 13" "time_left (prio (blk s (cur s))) \<le> 0"
    and "scheduler s c = Some (s', c')"
    and "other = other_class (class_of s (cur s))"
    and "ty = (if \<exists>p. candidate (aged s) other p then other else class_of s (cur s))"
    and "candidate (aged s) ty q"
  shows "candidate (aged s) ty (cur s') \<and> wait_of (aged s) q \<le> wait_of (aged s) (cur s')"
proof -
  let ?t = "aged s"
  have cl: "class_of ?t (cur ?t) = class_of s (cur s)"
    using cur_valid [OF assms(1)] by (simp add: aged_spec(2) [OF assms(1)] aged_class_active assms(1))
  have "choice ?t = best ?t ty"
    using best_none [of ?t other] assms(5,6) by (auto simp: choice_def Let_def cl)
  moreover have "best ?t ty \<noteq> - 1" using best_none assms(7) by blast
  ultimately have "cur s' = best ?t ty"
    using sched_state_spec(2) [OF assms(1,2) scheduler_result [OF assms(1,2,4)]] assms(3)
    by (simp add: next_cur_def dispatches_def)
  then show ?thesis using best_some [OF \<open>best ?t ty \<noteq> - 1\<close>] assms(7) by simp
qed

theorem scheduler_picks_longest_waiting_witness:
  "\<exists>s' c'. scheduler demo (demo_ctx 0x1000) = Some (s', c') \<and> cur s' = 2"
proof -
  obtain s' c' where r: "scheduler demo (demo_ctx 0x1000) = Some (s', c')"
    by (rule scheduler_total [of demo "demo_ctx 0x1000"]) simp_all
  have b: "blk (aged demo) p = aged_pcb 1 p (demo_pcb p)" if "valid_pid p" for p
    using that by (simp add: aged_spec(5))
  have c: "candidate (aged demo) 1 p \<longleftrightarrow> p = 2" for p
    by (auto simp: candidate_def class_of_def active_def wait_of_def b aged_pcb_def c_simps split: if_splits)
  have o: "other_class (class_of demo (cur demo)) = 1"
    by (simp add: other_class_def class_of_def proc_consts)
  have "candidate (aged demo) 1 (cur s')"
    using scheduler_picks_longest_waiting [of demo "demo_ctx 0x1000" s' c' 1 1 2] r o c by auto
  then show ?thesis using r c by simp
qed

section \<open>Creating and ending processes\<close>

text \<open>C3. \<open>fork\<close> with a free slot: the child takes the lowest free process id, is a copy of the caller's context
  with 0 in \<open>r0\<close>, has the caller as parent and runs next; the caller will see the child's id in
  \<open>r0\<close>; every other process is untouched.\<close>

theorem fork_copies_caller:
  assumes "procs_wf (tbl k)" "length (gpr c) = 13" "active (tbl k) (cur (tbl k))"
    and "valid_pid p" "\<not> active (tbl k) p" "\<forall>q. 1 \<le> q \<and> q < p \<longrightarrow> active (tbl k) q"
  shows "\<exists>t. sys_fork k c = Some (k\<lparr>tbl := t\<rparr>, with_r0 c 0) \<and> procs_wf t \<and> cur t = p \<and>
    ctx (blk t p) = with_r0 c 0 \<and> ppid (blk t p) = cur (tbl k) \<and>
    blk t (cur (tbl k)) = (blk (tbl k) (cur (tbl k)))\<lparr>ctx := with_r0 c (word_of_int p)\<rparr> \<and>
    (\<forall>q. valid_pid q \<and> q \<noteq> p \<and> q \<noteq> cur (tbl k) \<longrightarrow> blk t q = blk (tbl k) q)"
  using fork_ok [OF assms(1,2,4-6,3)] by auto

theorem fork_copies_caller_witness:
  "\<exists>t. sys_fork (demo_kernel demo) (demo_ctx 0x1000) =
     Some ((demo_kernel demo)\<lparr>tbl := t\<rparr>, with_r0 (demo_ctx 0x1000) 0) \<and> cur t = 4"
  using fork_copies_caller [of "demo_kernel demo" "demo_ctx 0x1000" 4] by (auto simp: demo_active)

text \<open>\<open>fork\<close> with every slot in use: an error message, \<open>-1\<close> in \<open>r0\<close>, and no process changes.\<close>

lemma fork_refuses_when_full:
  assumes "procs_wf (tbl k)" "length (gpr c) = 13" "\<forall>p. valid_pid p \<longrightarrow> active (tbl k) p"
  shows "sys_fork k c = Some (error k ''No free processes\<newline>'', with_r0 c (- 1))"
  by (rule fork_failed) (use assms in simp_all)

definition full_table :: procs where
  "full_table = demo\<lparr>pcb := map (\<lambda>i. (demo_pcb (int i + 1))\<lparr>ctx := demo_ctx 1\<rparr>) [0..<30]\<rparr>"

lemma fork_refuses_when_full_example:
  "sys_fork (demo_kernel full_table) (demo_ctx 0x1000) =
     Some (error (demo_kernel full_table) ''No free processes\<newline>'', with_r0 (demo_ctx 0x1000) (- 1))"
proof (rule fork_refuses_when_full)
  have b: "blk full_table p = (demo_pcb p)\<lparr>ctx := demo_ctx 1\<rparr>" if "valid_pid p" for p
  proof -
    have "nat (p - 1) < 30" "int (nat (p - 1)) + 1 = p" using that by linarith+
    then show ?thesis by (simp add: full_table_def blk_def)
  qed
  show "procs_wf (tbl (demo_kernel full_table))"
    using demo_pcb_wf by (simp add: full_table_def procs_wf_def table_wf_def demo_def pcb_wf_ctx)
  show "\<forall>p. valid_pid p \<longrightarrow> active (tbl (demo_kernel full_table)) p" by (simp add: active_def b)
qed simp

text \<open>C4. \<open>exit\<close> of the running process, when its waiters are registered: it returns with a well-formed table,
  the slot is free again, the children have no parent any more, every process that waited
  has the status in its wait slot, and no other process's context, memory, files or parent
  changes.\<close>

theorem exit_frees_and_notifies:
  assumes "procs_wf (tbl k)" "length (gpr c) = 13" "p = cur (tbl k)"
    and "\<forall>j < 5. registered (tbl k) p j"
  shows "\<exists>t c'. sys_exit k c x = Some (k\<lparr>tbl := t\<rparr>, c') \<and> procs_wf t \<and> length (gpr c') = 13 \<and>
    \<not> active t p \<and>
    (\<forall>q. valid_pid q \<and> q \<noteq> p \<longrightarrow> ppid (blk t q) = (if ppid (blk (tbl k) q) = p then 0 else ppid (blk (tbl k) q)) \<and>
       proc_ctx t c' q = ctx (blk (tbl k) q) \<and> shared (blk t q) = shared (blk (tbl k) q) \<and>
       fd_table (blk t q) = fd_table (blk (tbl k) q)) \<and>
    (\<forall>j < 5. \<forall>w i. wr_pid (waiters (blk (tbl k) p) ! j) = w \<and> w \<noteq> 0 \<and> w \<noteq> p \<and> wait_slot (tbl k) w p = Some i \<longrightarrow>
       w_result (waiting (blk t w) ! nat i) = x)"
proof -
  have pv: "valid_pid p" using cur_valid [OF assms(1)] assms(3) by simp
  obtain t0 t c0 c' where e: "left (tbl k) p x t0" "pc c0 = 0" "length (gpr c0) = 13"
    "scheduler t0 c0 = Some (t, c')" "sys_exit k c x = Some (k\<lparr>tbl := t\<rparr>, c')"
    using exit_ok [OF assms(1,2), of x] assms(3,4) by metis
  have w0: "procs_wf t0" "cur t0 = p" "blk t0 p = fresh_pcb (tbl k) p 0"
    using e(1) assms(3) by (auto simp: left_def same_globals_cur)
  note fr = scheduler_frame [OF w0(1) e(3,4)] and cx = scheduler_ctx [OF w0(1) e(3,4)]
  note good = scheduler_good [OF w0(1) e(3,4)]
  note sp = sched_state_spec [OF w0(1) e(3) scheduler_result [OF w0(1) e(3,4)]]
  have "\<not> active t p"
    using sp(4) [OF pv] e(2) w0 by (auto simp: active_def sched_blk_def Let_def)
  moreover have "w_result (waiting (blk t w) ! nat i) = x"
    if "j < 5" "wr_pid (waiters (blk (tbl k) p) ! j) = w" "w \<noteq> 0" "w \<noteq> p" "wait_slot (tbl k) w p = Some i" for j w i
  proof -
    have "valid_pid w" using waiter_entry [OF wf_table [OF assms(1)] pv that(1)] that(2,3) by auto
    then show ?thesis using left_result [OF e(1) that(1,2,3) _ that(4,5)] fr(4) by simp
  qed
  moreover have "ppid (blk t q) = (if ppid (blk (tbl k) q) = p then 0 else ppid (blk (tbl k) q)) \<and>
       proc_ctx t c' q = ctx (blk (tbl k) q) \<and> shared (blk t q) = shared (blk (tbl k) q) \<and>
       fd_table (blk t q) = fd_table (blk (tbl k) q)" if "valid_pid q" "q \<noteq> p" for q
    using fr [OF that(1)] cx [OF that(1)] left_blk [OF e(1) that] that w0(2) by (auto simp: proc_ctx_def)
  ultimately show ?thesis using e(5) good by blast
qed

theorem exit_frees_and_notifies_witness:
  "\<exists>t c'. sys_exit (demo_kernel demo) (demo_ctx 0x1000) 7 = Some ((demo_kernel demo)\<lparr>tbl := t\<rparr>, c') \<and>
    \<not> active t 1 \<and> ppid (blk t 2) = 0"
proof -
  obtain t c' where "sys_exit (demo_kernel demo) (demo_ctx 0x1000) 7 = Some ((demo_kernel demo)\<lparr>tbl := t\<rparr>, c')"
    "\<not> active t 1" "\<forall>q. valid_pid q \<and> q \<noteq> 1 \<longrightarrow> ppid (blk t q) = (if ppid (blk demo q) = 1 then 0 else ppid (blk demo q))"
    using exit_frees_and_notifies [of "demo_kernel demo" "demo_ctx 0x1000" 1 7] demo_registered by auto
  then show ?thesis by (intro exI [of _ t] exI [of _ c']) simp
qed

text \<open>C5. Waiting for a process delivers its exit status: after process \<open>q\<close>, for which \<open>p\<close> waits, has called
  \<open>exit\<close> with a status other than \<open>-1\<close>, the next \<open>wait\<close> of \<open>p\<close> returns that status.\<close>

theorem wait_delivers_exit_status:
  assumes "procs_wf (tbl k)" "length (gpr c) = 13" "q = cur (tbl k)" "\<forall>j < 5. registered (tbl k) q j"
    and "valid_pid p" "p \<noteq> q" "waits_for (tbl k) p q" "x \<noteq> - 1"
  shows "\<exists>k1 c' k2. sys_exit k c x = Some (k1, c') \<and> sys_wait k1 p q = Some (x, k2)"
  by (rule wait_gets_status) (use assms in simp_all)

theorem wait_delivers_exit_status_witness:
  "\<exists>k1 c' k2. sys_exit (demo_kernel demo_wait) (demo_ctx 0x1000) 7 = Some (k1, c') \<and>
     sys_wait k1 3 1 = Some (7, k2)"
  by (rule wait_delivers_exit_status)
    (use demo_wait_facts in \<open>auto simp: registered_def waits_for_def Let_def intro!: exI [of _ 0]\<close>)

text \<open>C6. \<open>exit\<close> goes through a NULL pointer when the table of waiters names a process whose wait list
  does not name the exiting one: the status is written to the slot \<open>get_waiting\<close> failed to find.
  Such an entry is what an earlier \<open>exit\<close> of the waiting process leaves behind, because \<open>exit\<close>
  clears the caller's own wait list and not the waiter entries that other processes hold for it.\<close>

theorem exit_of_waiter_breaks_exit:
  assumes "procs_wf (tbl k)" "length (gpr c) = 13" "w = cur (tbl k)" "\<forall>j < 5. registered (tbl k) w j"
    and "valid_pid q" "q \<noteq> w" "waits_for (tbl k) w q"
  shows "\<exists>t c'. sys_exit k c x = Some (k\<lparr>tbl := t\<rparr>, c') \<and>
    (\<forall>k1 c1 y. procs_wf (tbl k1) \<and> cur (tbl k1) = q \<and> waiters (blk (tbl k1) q) = waiters (blk t q) \<and>
       waiting (blk (tbl k1) w) = waiting (blk t w) \<longrightarrow> sys_exit k1 c1 y = None)"
proof -
  have wv: "valid_pid w" using cur_valid [OF assms(1)] assms(3) by simp
  obtain t0 t c0 c' where e: "left (tbl k) w x t0" "length (gpr c0) = 13"
    "scheduler t0 c0 = Some (t, c')" "sys_exit k c x = Some (k\<lparr>tbl := t\<rparr>, c')"
    using exit_ok [OF assms(1,2), of x] assms(3,4) by metis
  have w0: "procs_wf t0" "blk t0 w = fresh_pcb (tbl k) w 0" using e(1) by (auto simp: left_def)
  have t: "procs_wf t" using scheduler_good [OF w0(1) e(2,3)] by simp
  obtain j where j: "j < 5" "wr_pid (waiters (blk (tbl k) q) ! j) = w"
    using assms(7) by (auto simp: waits_for_def)
  have "wr_pid (waiters (blk t q) ! j) = w"
    using scheduler_frame(5) [OF w0(1) e(2,3) assms(5)] left_blk(5) [OF e(1) assms(5,6)] j(2) by simp
  moreover have "wait_slot t w q = None"
  proof -
    have "waiting (blk t w) = replicate 20 \<lparr>w_pid = 0, w_result = 0\<rparr>"
      using scheduler_frame(4) [OF w0(1) e(2,3) wv] w0(2) by simp
    then show ?thesis using assms(5) by (auto simp: wait_slot_def find_upto_None)
  qed
  ultimately have "\<not> registered s q j"
    if "waiters (blk s q) = waiters (blk t q)" "waiting (blk s w) = waiting (blk t w)" for s
    using wv that wait_slot_waiting [OF that(2)] by (simp add: registered_def)
  then show ?thesis using e(4) exit_undefined j(1) by blast
qed

definition demo_exiting_waiter :: procs where
  "demo_exiting_waiter = demo_wait\<lparr>current := Some (process 3)\<rparr>"

lemma demo_exiting_facts:
  "procs_wf demo_exiting_waiter" "cur demo_exiting_waiter = 3"
  "\<forall>j < 5. registered demo_exiting_waiter 3 j" "waits_for demo_exiting_waiter 3 1"
proof -
  show w: "procs_wf demo_exiting_waiter" "cur demo_exiting_waiter = 3"
    using demo_wait_facts(1) by (simp_all add: demo_exiting_waiter_def procs_wf_current)
  have b: "blk demo_exiting_waiter p = blk demo_wait p" for p by (simp add: demo_exiting_waiter_def)
  show "\<forall>j < 5. registered demo_exiting_waiter 3 j"
    by (auto simp: registered_def b demo_wait_facts(2) Let_def)
  show "waits_for demo_exiting_waiter 3 1"
    using demo_wait_facts(3) by (simp add: waits_for_def wait_slot_def b)
qed

theorem exit_of_waiter_breaks_exit_witness:
  "\<exists>t c'. sys_exit (demo_kernel demo_exiting_waiter) (demo_ctx 0x1000) 7 =
      Some ((demo_kernel demo_exiting_waiter)\<lparr>tbl := t\<rparr>, c') \<and>
    sys_exit (demo_kernel (t\<lparr>current := Some (process 1)\<rparr>)) (demo_ctx 0x1000) 0 = None"
proof -
  let ?k = "demo_kernel demo_exiting_waiter"
  have h: "procs_wf (tbl ?k)" "length (gpr (demo_ctx 0x1000)) = 13" "3 = cur (tbl ?k)"
    "\<forall>j < 5. registered (tbl ?k) 3 j" "valid_pid 1" "(1::int) \<noteq> 3" "waits_for (tbl ?k) 3 1"
    using demo_exiting_facts by simp_all
  from exit_of_waiter_breaks_exit [OF h, of 7] obtain t c' where
    r: "sys_exit ?k (demo_ctx 0x1000) 7 = Some (?k\<lparr>tbl := t\<rparr>, c')" and
    n: "\<And>k1 c1 y. procs_wf (tbl k1) \<Longrightarrow> cur (tbl k1) = 1 \<Longrightarrow> waiters (blk (tbl k1) 1) = waiters (blk t 1) \<Longrightarrow>
       waiting (blk (tbl k1) 3) = waiting (blk t 3) \<Longrightarrow> sys_exit (k1 :: kernel) c1 y = None"
    by blast
  have "procs_wf t" using exit_good [OF _ r] h(1,2) by simp
  then have "procs_wf (t\<lparr>current := Some (process 1)\<rparr>)" by (intro procs_wf_current) simp_all
  then show ?thesis using r n [of "demo_kernel (t\<lparr>current := Some (process 1)\<rparr>)"] by auto
qed

text \<open>C7. \<open>kill\<close> with \<open>SIG_TERM\<close> for another process frees that process's slot, but it tells the waiters and
  orphans the children of the caller: who waits for the caller, which goes on running, gets the status
  \<open>EXIT_FAILURE\<close> from its next \<open>wait\<close>; who waits for the killed process is not told, its \<open>wait\<close> still answers
  \<open>- 1\<close>; the killed process keeps its waiters, and the caller loses its own waiters and children.\<close>

theorem kill_notifies_the_wrong_process:
  assumes "procs_wf (tbl k)" "valid_pid p" "active (tbl k) p" "p \<noteq> cur (tbl k)"
    and "\<forall>j < 5. registered (tbl k) (cur (tbl k)) j"
  shows "\<exists>t. sys_kill k c p SIG_TERM = Some (0, k\<lparr>tbl := t\<rparr>, c) \<and> procs_wf t \<and> \<not> active t p \<and>
    waiters (blk t p) = waiters (blk (tbl k) p) \<and>
    waiters (blk t (cur (tbl k))) = replicate 5 \<lparr>wr_pid = 0\<rparr> \<and>
    (\<forall>q. valid_pid q \<and> waits_for (tbl k) q (cur (tbl k)) \<longrightarrow>
       (\<exists>k'. sys_wait (k\<lparr>tbl := t\<rparr>) q (cur (tbl k)) = Some (EXIT_FAILURE, k'))) \<and>
    (\<forall>q. valid_pid q \<and> (\<exists>k'. sys_wait k q p = Some (- 1, k')) \<and> waits_for (tbl k) q p \<longrightarrow>
       sys_wait (k\<lparr>tbl := t\<rparr>) q p = Some (- 1, k\<lparr>tbl := t\<rparr>)) \<and>
    (\<forall>q. valid_pid q \<longrightarrow> ppid (blk t q) = (if ppid (blk (tbl k) q) = cur (tbl k) then 0 else ppid (blk (tbl k) q))) \<and>
    (\<forall>q. valid_pid q \<and> q \<noteq> p \<longrightarrow> ctx (blk t q) = ctx (blk (tbl k) q))"
proof -
  let ?c = "cur (tbl k)"
  obtain t where t: "sys_kill k c p SIG_TERM = Some (0, k\<lparr>tbl := t\<rparr>, c)" "procs_wf t" "cur t = cur (tbl k)"
    "\<not> active t p" "\<forall>q. valid_pid q \<longrightarrow> waiters (blk t q) =
       (if q = cur (tbl k) then replicate 5 \<lparr>wr_pid = 0\<rparr> else waiters (blk (tbl k) q))"
    "\<forall>q. valid_pid q \<longrightarrow> ppid (blk t q) = (if ppid (blk (tbl k) q) = cur (tbl k) then 0 else ppid (blk (tbl k) q))"
    "\<forall>q. valid_pid q \<and> q \<noteq> p \<longrightarrow> ctx (blk t q) = ctx (blk (tbl k) q)"
    "\<forall>q r. valid_pid q \<longrightarrow> wait_slot t q r = wait_slot (tbl k) q r"
    "\<forall>q i. valid_pid q \<and> i < 20 \<and> w_pid (waiting (blk (tbl k) q) ! i) \<noteq> ?c \<longrightarrow> waiting (blk t q) ! i = waiting (blk (tbl k) q) ! i"
    "\<forall>q i. valid_pid q \<and> (\<exists>j < 5. wr_pid (waiters (blk (tbl k) ?c) ! j) = q) \<and>
       wait_slot (tbl k) q ?c = Some i \<longrightarrow> w_result (waiting (blk t q) ! nat i) = EXIT_FAILURE"
    by (rule kill_other [OF assms])
  have tw: "table_wf (tbl k)" "table_wf (tbl (k\<lparr>tbl := t\<rparr>))" using assms(1) t(2) by (simp_all add: wf_table)
  have "\<exists>k'. sys_wait (k\<lparr>tbl := t\<rparr>) q ?c = Some (EXIT_FAILURE, k')"
    if q: "valid_pid q" "waits_for (tbl k) q ?c" for q
  proof -
    obtain i where i: "wait_slot (tbl k) q ?c = Some i" using q(2) by (auto simp: waits_for_def)
    then have "w_result (waiting (blk t q) ! nat i) = EXIT_FAILURE" using t(10) q by (auto simp: waits_for_def)
    then show ?thesis using wait_known [OF tw(2) q(1), of ?c i] t(8) q(1) i by (simp add: EXIT_FAILURE_def)
  qed
  moreover have "sys_wait (k\<lparr>tbl := t\<rparr>) q p = Some (- 1, k\<lparr>tbl := t\<rparr>)"
    if q: "valid_pid q" "sys_wait k q p = Some (- 1, k')" "waits_for (tbl k) q p" for q k'
  proof -
    obtain i where i: "wait_slot (tbl k) q p = Some i" using q(3) by (auto simp: waits_for_def)
    note b = wait_slot_bounds [OF i]
    have "nat i < 20" "w_pid (waiting (blk (tbl k) q) ! nat i) \<noteq> ?c" using b assms(4) by (simp_all add: nat_less_iff)
    then have "waiting (blk t q) ! nat i = waiting (blk (tbl k) q) ! nat i" using t(9) q(1) by blast
    moreover have "w_result (waiting (blk (tbl k) q) ! nat i) = - 1"
      using wait_known [OF tw(1) q(1) i] q(2) by (auto split: if_splits)
    ultimately show ?thesis using wait_known [OF tw(2) q(1), of p i] t(8) q(1) i by simp
  qed
  ultimately show ?thesis using t assms(2,4) cur_valid [OF assms(1)] by (intro exI [of _ t]) auto
qed

theorem kill_notifies_the_wrong_process_witness:
  "\<exists>t. sys_kill (demo_kernel demo_exiting_waiter) (demo_ctx 0x1000) 1 SIG_TERM =
      Some (0, (demo_kernel demo_exiting_waiter)\<lparr>tbl := t\<rparr>, demo_ctx 0x1000) \<and> \<not> active t 1 \<and>
    wr_pid (waiters (blk t 1) ! 0) = 3 \<and> ppid (blk t 2) = 1 \<and>
    fst (the (sys_wait ((demo_kernel demo_exiting_waiter)\<lparr>tbl := t\<rparr>) 3 1)) = - 1"
proof -
  note w = demo_exiting_facts
  have b: "blk demo_exiting_waiter p = blk demo_wait p" for p by (simp add: demo_exiting_waiter_def)
  have a: "active demo_exiting_waiter 1" by (simp add: active_def b demo_wait_facts(2))
  have "wait_slot demo_exiting_waiter 3 1 = Some 0"
    by (simp add: wait_slot_def b demo_wait_facts(2) upto_rec1)
  then have r: "\<exists>k'. sys_wait (demo_kernel demo_exiting_waiter) 3 1 = Some (- 1, k')"
    using wait_known [of "demo_kernel demo_exiting_waiter" 3 1 0] w(1) by (simp add: wf_table b demo_wait_facts(2))
  obtain t where "sys_kill (demo_kernel demo_exiting_waiter) (demo_ctx 0x1000) 1 SIG_TERM =
      Some (0, (demo_kernel demo_exiting_waiter)\<lparr>tbl := t\<rparr>, demo_ctx 0x1000)" "\<not> active t 1"
    "waiters (blk t 1) = waiters (blk demo_wait 1)"
    "\<forall>q. valid_pid q \<longrightarrow> ppid (blk t q) = (if ppid (blk demo_wait q) = 3 then 0 else ppid (blk demo_wait q))"
    "sys_wait ((demo_kernel demo_exiting_waiter)\<lparr>tbl := t\<rparr>) 3 1 = Some (- 1, (demo_kernel demo_exiting_waiter)\<lparr>tbl := t\<rparr>)"
    using kill_notifies_the_wrong_process [of "demo_kernel demo_exiting_waiter" 1 "demo_ctx 0x1000"] w a r
    by (auto simp: b)
  then show ?thesis by (intro exI [of _ t]) (simp add: demo_wait_facts(2))
qed

text \<open>C8. \<open>exec\<close> of a program at a non-null address: the caller continues there with its argument in
  \<open>r0\<close>, every other register cleared, its own stack empty and user mode; it becomes
  interactive on request, and no other process changes.\<close>

theorem exec_starts_program:
  fixes args :: u32
  assumes "procs_wf (tbl k)" "x \<noteq> 0" "p = cur (tbl k)"
  shows "\<exists>t c'. sys_exec k c x i args = Some (k\<lparr>tbl := t\<rparr>, c') \<and> procs_wf t \<and> cur t = p \<and>
    c' = \<lparr>cpsr = 0x50, pc = x, gpr = args # replicate 12 0, sp = sps (tbl k) ! nat (p - 1), lr = 0\<rparr> \<and>
    class_of t p = (if i \<noteq> 0 then INTERACTIVE else class_of (tbl k) p) \<and>
    (\<forall>q. valid_pid q \<and> q \<noteq> p \<longrightarrow> blk t q = blk (tbl k) q)"
proof -
  have pv: "valid_pid p" using cur_valid [OF assms(1)] assms(3) by simp
  show ?thesis
    using exec_ok [OF assms(1,2), of c i args] assms(3) pv wf_table [OF assms(1)]
      wf_blk [OF wf_table [OF assms(1)] pv] assms(1)
    by (auto simp: blk_upd class_of_def pcb_wf_def intro!: procs_wf_upd)
qed

theorem exec_starts_program_witness:
  "\<exists>t c'. sys_exec (demo_kernel demo) (demo_ctx 0x1000) 0x2000 1 9 = Some ((demo_kernel demo)\<lparr>tbl := t\<rparr>, c') \<and>
    pc c' = 0x2000 \<and> class_of t 1 = INTERACTIVE"
proof -
  have h: "procs_wf (tbl (demo_kernel demo))" "(0x2000 :: u32) \<noteq> 0" "1 = cur (tbl (demo_kernel demo))" by simp_all
  from exec_starts_program [OF h, where c = "demo_ctx 0x1000" and i = 1 and args = 9]
  obtain t c' where "sys_exec (demo_kernel demo) (demo_ctx 0x1000) 0x2000 1 9 = Some ((demo_kernel demo)\<lparr>tbl := t\<rparr>, c')"
    "pc c' = 0x2000" "class_of t 1 = (if (1::int) \<noteq> 0 then INTERACTIVE else class_of (tbl (demo_kernel demo)) 1)"
    by (elim exE conjE) (rule that, assumption, simp, assumption)
  then show ?thesis by (intro exI [of _ t] exI [of _ c']) simp
qed

section \<open>Locks\<close>

text \<open>C9. Mutual exclusion of the lock on shared memory: over any sequence of \<open>lock\<close> and \<open>unlock\<close> calls by the
  processes that share it, no call is undefined, and the successful \<open>lock\<close> calls minus the
  successful \<open>unlock\<close> calls are always the change of the lock: never two owners.\<close>

theorem lock_mutual_exclusion:
  assumes "\<forall>c \<in> set cs. lock_owner s (caller c) a q"
  shows "\<exists>rs s'. run_calls (\<lambda>s p. lock s p a) (\<lambda>s p. unlock s p a) cs s = Some (rs, s') \<and> length rs = length cs \<and>
    of_bool (lock_held s q) + sum_list rs = (of_bool (lock_held s' q) :: int)"
  using lk.calls_balance [of cs s a q] assms by blast

theorem lock_mutual_exclusion_witness:
  "\<exists>rs s'. run_calls (\<lambda>s p. lock s p 8) (\<lambda>s p. unlock s p 8) [Acquire 1, Acquire 2, Release 1] demo_shared = Some (rs, s') \<and>
    length rs = 3 \<and> sum_list rs = (of_bool (lock_held s' 1) :: int)"
proof -
  have w: "pcb_wf 1 ((demo_pcb 1)\<lparr>shared := \<lparr>ptr = 8, locked = 0\<rparr>\<rparr>)" by (intro pcb_wf_shared demo_pcb_wf)
  have t: "procs_wf demo_shared" unfolding demo_shared_def by (rule procs_wf_upd [OF demo_wf _ w]) simp
  have b: "blk demo_shared p = (if p = 1 then (demo_pcb 1)\<lparr>shared := \<lparr>ptr = 8, locked = 0\<rparr>\<rparr> else demo_pcb p)"
    if "valid_pid p" for p
    using that by (simp add: demo_shared_def blk_upd wf_table)
  have o: "\<forall>c \<in> set [Acquire 1, Acquire 2, Release 1]. lock_owner demo_shared (caller c) 8 1"
    using t by (simp add: lock_owner_def wf_table b)
  have "\<not> lock_held demo_shared 1" by (simp add: lock_held_def b)
  then have h: "of_bool (lock_held demo_shared 1) = (0::int)" by simp
  show ?thesis
    using lock_mutual_exclusion [OF o] unfolding h by (elim exE conjE) (intro exI conjI, assumption, simp, simp)
qed

section \<open>The interrupt handlers\<close>

text \<open>Whatever the programs do between the handlers and whatever they ask for, every state the
  kernel reaches from a reset has a well-formed process table: a current process, every block
  under its own id with its parent in range, its wait lists, waiters and file table at their
  sizes, and a full register context.\<close>

lemma kernel_stays_well_formed:
  assumes "reachable z b (k, c)"
  shows "procs_wf (tbl k) \<and> length (gpr c) = 13"
  using reachable_good [OF assms] by simp

lemma kernel_stays_well_formed_example:
  "\<exists>t c. hilevel_handler_rst 0x1000 (demo_kernel demo) = Some ((demo_kernel demo)\<lparr>tbl := t\<rparr>, c) \<and> procs_wf t"
proof -
  obtain t c where r: "hilevel_handler_rst 0x1000 (demo_kernel demo) = Some ((demo_kernel demo)\<lparr>tbl := t\<rparr>, c)"
    by (rule rst_ok [of "demo_kernel demo" "0x1000"]) (simp_all add: demo_lengths)
  then have "reachable z b ((demo_kernel demo)\<lparr>tbl := t\<rparr>, c)" for z b
    using reachable.reset [of "demo_kernel demo" "0x1000" "((demo_kernel demo)\<lparr>tbl := t\<rparr>, c)"] by (simp add: demo_lengths)
  from kernel_stays_well_formed [OF this] show ?thesis using r by auto
qed

text \<open>A reset initialises every process slot and starts the console alone: process 1, interactive, in
  user mode at the entry point of the console, with all other slots free.\<close>

lemma reset_starts_console:
  assumes "length (pcb (tbl k)) = 30" "length (sps (tbl k)) = 30"
  shows "\<exists>t c. hilevel_handler_rst main_console k = Some (k\<lparr>tbl := t\<rparr>, c) \<and> procs_wf t \<and> cur t = 1 \<and>
    pc c = main_console \<and> cpsr c = 0x50 \<and> class_of t 1 = INTERACTIVE \<and>
    (\<forall>p. 2 \<le> p \<and> p \<le> 30 \<longrightarrow> \<not> active t p)"
  by (rule rst_ok [OF assms, of main_console]) blast

lemma reset_starts_console_example:
  "\<exists>t c. hilevel_handler_rst 0x1000 (demo_kernel demo) = Some ((demo_kernel demo)\<lparr>tbl := t\<rparr>, c) \<and> pc c = 0x1000"
  using reset_starts_console [of "demo_kernel demo" "0x1000"] unfolding demo_kernel_tbl
  by (elim impE conjE exE meta_impE) (blast intro: demo_lengths)+

end
