(* ===== verification/Fs_Names.thy ===== *)
theory Fs_Names
  imports Fs_Files
begin

text \<open>
  What the name tables of \<open>src/question/kernel/fs.c\<close> stand for: a directory is the association
  list of its first \<open>files_count\<close> links (\<open>entries\<close>), the table of open files is the list of its
  first \<open>count\<close> descriptors (\<open>fds\<close>), a path is the list of its components (\<open>tokens\<close>).
\<close>

section \<open>Strings\<close>

definition cstr_of :: "u8 list \<Rightarrow> u8 list" where
  "cstr_of xs = takeWhile (\<lambda>x. x \<noteq> 0) xs"

lemma strcmp_eq_spec: "0 \<notin> set xs \<Longrightarrow> 0 \<in> set bs \<Longrightarrow> strcmp_eq xs bs = Some (cstr_of bs = xs)"
  by (induction xs bs rule: strcmp_eq.induct) (auto simp: cstr_of_def)

lemma cstr_of_strcpy: "strcpy n xs = Some bs \<Longrightarrow> 0 \<notin> set xs \<Longrightarrow>
    cstr_of bs = xs \<and> 0 \<in> set bs \<and> length bs = nat n"
proof -
  assume c: "strcpy n xs = Some bs" and x: "0 \<notin> set xs"
  then have n: "int (length xs) + 1 \<le> n" and bs: "bs = xs @ replicate (nat n - length xs) 0"
    by (auto simp: strcpy_def replicate_to_def split: if_splits)
  then obtain m where "nat n - length xs = Suc m" by (cases "nat n - length xs") simp_all
  moreover from this have "length bs = nat n" using bs by simp
  moreover have "takeWhile (\<lambda>y. y \<noteq> 0) (xs @ 0 # ys) = xs" for ys
    using x by (auto simp: takeWhile_append)
  ultimately show ?thesis using bs by (simp add: cstr_of_def)
qed

lemma cstr_of_padded: "0 \<notin> set xs \<Longrightarrow> length xs < n \<Longrightarrow> cstr_of (replicate_to n xs) = xs"
  using cstr_of_strcpy [of "int n" xs "replicate_to n xs"] by (simp add: strcpy_def)

section \<open>Searches\<close>

lemma find_prefix:
  assumes "n \<le> length l" "\<And>x. x \<in> set (take n l) \<Longrightarrow> p x = Some (P x)"
  shows "find_first (\<lambda>i. do { x \<leftarrow> rd l i; p x }) [0..int n - 1] =
    Some (List.find (\<lambda>i. P (take n l ! nat i)) [0..int (length (take n l)) - 1])"
proof -
  have "do { x \<leftarrow> rd l i; p x } = Some (P (take n l ! nat i))" if "i \<in> set [0..int n - 1]" for i
  proof -
    have i: "0 \<le> i" "nat i < n" using that by auto
    then have "take n l ! nat i \<in> set (take n l)" using assms(1) by (intro nth_mem) simp
    then show ?thesis using assms(1) assms(2) [of "l ! nat i"] i by (simp add: c_simps)
  qed
  then have "find_first (\<lambda>i. do { x \<leftarrow> rd l i; p x }) [0..int n - 1] =
      Some (List.find (\<lambda>i. P (take n l ! nat i)) [0..int n - 1])"
    by (rule find_first_find)
  then show ?thesis using assms(1) by (simp add: min_absorb2)
qed

section \<open>Directories\<close>

definition dir_ok :: "directory_t \<Rightarrow> bool" where
  "dir_ok d \<longleftrightarrow> directory_wf d \<and> 0 \<le> files_count d \<and> files_count d \<le> 10 \<and>
     (\<forall>l \<in> set (take (nat (files_count d)) (links d)). 0 \<in> set (filename l))"

definition entry :: "file_link_t \<Rightarrow> u8 list \<times> int" where
  "entry l = (cstr_of (filename l), link_inode_id l)"

definition entries :: "directory_t \<Rightarrow> (u8 list \<times> int) list" where
  "entries d = map entry (take (nat (files_count d)) (links d))"

fun delete_first :: "'k \<Rightarrow> ('k \<times> 'v) list \<Rightarrow> ('k \<times> 'v) list" where
  "delete_first k [] = []"
| "delete_first k (e # es) = (if fst e = k then es else e # delete_first k es)"

lemma delete_first_split: "\<forall>e \<in> set ys. fst e \<noteq> k \<Longrightarrow> delete_first k (ys @ (k, v) # zs) = ys @ zs"
  by (induction ys) auto

lemma delete_first_absent: "\<forall>e \<in> set es. fst e \<noteq> k \<Longrightarrow> delete_first k es = es"
  by (induction es) auto

lemma map_of_delete_first: "distinct (map fst es) \<Longrightarrow> map_of (delete_first k es) = (map_of es)(k := None)"
proof (induction es)
  case (Cons e es)
  obtain a b where e: "e = (a, b)" by (cases e)
  have "map_of es a = None" using Cons.prems e by (simp add: map_of_eq_None_iff)
  then show ?case using Cons e by (auto simp: fun_eq_iff)
qed simp

lemma map_of_split: "\<forall>e \<in> set ys. fst e \<noteq> k \<Longrightarrow> map_of (ys @ (k, v) # zs) k = Some v"
  by (induction ys) auto

lemma find_link_cases:
  assumes d: "dir_ok d" and name: "0 \<notin> set name"
  obtains (absent) "find_link d name = Some None" "\<forall>e \<in> set (entries d). fst e \<noteq> name"
  | (found) ys l zs where "find_link d name = Some (Some (int (length ys)))"
      "take (nat (files_count d)) (links d) = ys @ l # zs" "fst (entry l) = name"
      "\<forall>y \<in> set ys. fst (entry y) \<noteq> name"
proof -
  let ?n = "nat (files_count d)"
  let ?P = "\<lambda>l. cstr_of (filename l) = name"
  have n: "int ?n = files_count d" "?n \<le> length (links d)" using d by (auto simp: dir_ok_def directory_wf_def nat_le_iff)
  have f: "find_link d name = Some (List.find (\<lambda>i. ?P (take ?n (links d) ! nat i)) [0..int (length (take ?n (links d))) - 1])"
  proof -
    have "find_first (\<lambda>i. do { l \<leftarrow> rd (links d) i; strcmp_eq name (filename l) }) [0..int ?n - 1] =
        Some (List.find (\<lambda>i. ?P (take ?n (links d) ! nat i)) [0..int (length (take ?n (links d))) - 1])"
      using d name by (intro find_prefix [OF n(2)] strcmp_eq_spec) (auto simp: dir_ok_def)
    then show ?thesis by (simp only: find_link_def n(1))
  qed
  show ?thesis
  proof (rule find_index_cases [of "take ?n (links d)" ?P], goal_cases)
    case none: 1
    show ?thesis
    proof (rule absent)
      show "find_link d name = Some None" by (simp only: f none(2))
      show "\<forall>e \<in> set (entries d). fst e \<noteq> name" using none(1) by (simp add: entries_def entry_def)
    qed
  next
    case some: (2 ys l zs)
    show ?thesis
    proof (rule found)
      show "find_link d name = Some (Some (int (length ys)))" by (simp only: f some(4))
      show "fst (entry l) = name" "\<forall>y \<in> set ys. fst (entry y) \<noteq> name" using some(2,3) by (simp_all add: entry_def)
    qed (rule some(1))
  qed
qed

lemma directory_lookup_spec:
  assumes "dir_ok d" "0 \<notin> set name"
  shows "directory_lookup d name = Some (case map_of (entries d) name of Some i \<Rightarrow> i | None \<Rightarrow> - 1)"
proof (rule find_link_cases [OF assms], goal_cases)
  case absent: 1
  then have "map_of (entries d) name = None" by (auto simp: map_of_eq_None_iff)
  then show ?thesis using absent(1) by (simp add: directory_lookup_def)
next
  case found: (2 ys l zs)
  have "\<forall>e \<in> set (map entry ys). fst e \<noteq> name" using found(4) by simp
  then have "map_of (map entry ys @ (name, link_inode_id l) # map entry zs) name = Some (link_inode_id l)"
    by (rule map_of_split)
  moreover have "entries d = map entry ys @ (name, link_inode_id l) # map entry zs"
    using found(2,3) by (simp add: entries_def entry_def)
  moreover have "rd (links d) (int (length ys)) = Some l"
  proof -
    have "take (nat (files_count d)) (links d) ! length ys = l" by (simp add: found(2))
    moreover have "length ys < length (take (nat (files_count d)) (links d))" by (simp add: found(2))
    ultimately show ?thesis by (simp add: c_simps)
  qed
  ultimately show ?thesis using found(1) by (simp add: directory_lookup_def)
qed

lemma delete_file_link_spec:
  assumes d: "dir_ok d" "0 \<notin> set name"
  shows "\<exists>d'. delete_file_link d name = Some (if name \<in> fst ` set (entries d) then 0 else - 1, d') \<and>
    dir_ok d' \<and> entries d' = delete_first name (entries d)"
proof (rule find_link_cases [OF d], goal_cases)
  case absent: 1
  then show ?thesis using d by (auto simp: delete_file_link_def delete_first_absent)
next
  case found: (2 ys l zs)
  let ?n = "nat (files_count d)"
  have n: "int ?n = files_count d" "?n \<le> length (links d)" using d by (auto simp: dir_ok_def directory_wf_def nat_le_iff)
  obtain ls where ls: "memmove_elems (links d) (int (length ys)) (int (length ys) + 1)
      (int ?n - 1 - int (length ys)) = Some ls" "length ls = length (links d)" "set ls \<subseteq> set (links d)"
      "take (?n - 1) ls = ys @ zs"
    using remove_gap [OF found(2) n(2)] by blast
  let ?d = "d\<lparr>files_count := files_count d - 1, links := ls\<rparr>"
  have ne: "0 < ?n" using found(2) by (cases ?n) simp_all
  have e: "entries d = map entry ys @ (name, link_inode_id l) # map entry zs"
    using found(2,3) by (simp add: entries_def entry_def)
  have t: "nat (files_count d - 1) = ?n - 1" using ne by simp
  have e': "entries ?d = map entry ys @ map entry zs"
    using ls(4) by (simp add: entries_def t)
  have "\<forall>x \<in> set (map entry ys). fst x \<noteq> name" using found(4) by simp
  then have "entries ?d = delete_first name (entries d)"
    unfolding e e' by (rule delete_first_split [symmetric])
  moreover have "dir_ok ?d"
  proof -
    have "set (ys @ zs) \<subseteq> set (take ?n (links d))" by (auto simp: found(2))
    then have "\<forall>x \<in> set (ys @ zs). 0 \<in> set (filename x)" using d(1) by (auto simp: dir_ok_def)
    then show ?thesis using d(1) ls ne by (auto simp: dir_ok_def directory_wf_def t)
  qed
  moreover have "delete_file_link d name = Some (0, ?d)"
    using found(1) ls(1) n(1) by (simp add: delete_file_link_def Let_def)
  ultimately show ?thesis using e by (intro exI [of _ ?d]) simp
qed

section \<open>Open files\<close>

definition fdt_ok :: "fd_table_t \<Rightarrow> bool" where
  "fdt_ok t \<longleftrightarrow> length (fdt_open t) = 10 \<and> 0 \<le> fdt_count t \<and> fdt_count t \<le> 10"

definition fds :: "fd_table_t \<Rightarrow> file_descriptor_t list" where
  "fds t = take (nat (fdt_count t)) (fdt_open t)"

lemma length_fds: "fdt_ok t \<Longrightarrow> int (length (fds t)) = fdt_count t"
  by (auto simp: fdt_ok_def fds_def min_absorb2 nat_le_iff)

lemma rd_fds: "fdt_ok t \<Longrightarrow> fds t = ys @ e # zs \<Longrightarrow> rd (fdt_open t) (int (length ys)) = Some e"
proof -
  assume t: "fdt_ok t" and s: "fds t = ys @ e # zs"
  have "fds t ! length ys = e" "length ys < length (fds t)" by (simp_all add: s)
  then show ?thesis using t by (simp add: fds_def c_simps)
qed

lemma fdt_find_cases:
  assumes "fdt_ok t"
  obtains (absent) "find_fd t P = Some None" "\<forall>e \<in> set (fds t). \<not> P e"
  | (found) ys e zs where "find_fd t P = Some (Some (int (length ys)))" "fds t = ys @ e # zs" "P e"
      "\<forall>y \<in> set ys. \<not> P y"
proof -
  let ?n = "nat (fdt_count t)"
  have n: "int ?n = fdt_count t" "?n \<le> length (fdt_open t)" using assms by (auto simp: fdt_ok_def nat_le_iff)
  have f: "find_fd t P = Some (List.find (\<lambda>i. P (fds t ! nat i)) [0..int (length (fds t)) - 1])"
    using find_prefix [OF n(2), of "\<lambda>e. Some (P e)" P] by (simp only: find_fd_def fds_def n(1))
  show ?thesis
  proof (rule find_index_cases [of "fds t" P], goal_cases)
    case none: 1
    show ?thesis by (rule absent [OF _ none(1)]) (simp only: f none(2))
  next
    case some: (2 ys e zs)
    show ?thesis by (rule found [OF _ some(1-3)]) (simp only: f some(4))
  qed
qed

lemma add_fd_new:
  assumes t: "fdt_ok t" "fdt_count t < 10" and new: "\<forall>e \<in> set (fds t). fd_inode_id e \<noteq> i"
  shows "\<exists>t'. add_fd t i flags = Some (fdt_count t, t') \<and> fdt_ok t' \<and>
    fds t' = fds t @ [\<lparr>fd_id = fdt_count t, fd_flags = flags, fd_inode_id = i\<rparr>]"
proof (rule fdt_find_cases [OF t(1), of "\<lambda>e. fd_inode_id e = i"], goal_cases)
  case absent: 1
  let ?e = "\<lparr>fd_id = fdt_count t, fd_flags = flags, fd_inode_id = i\<rparr>"
  let ?t = "\<lparr>fdt_count = fdt_count t + 1, fdt_open = (fdt_open t)[nat (fdt_count t) := ?e]\<rparr>"
  have "add_fd t i flags = Some (fdt_count t, ?t)"
    using t absent(1) by (simp add: add_fd_def MAX_OPEN_FDS_def fdt_ok_def c_simps Let_def)
  moreover have "fdt_ok ?t" "fds ?t = fds t @ [?e]"
    using t by (simp_all add: fdt_ok_def fds_def nat_add_distrib take_Suc_conv_app_nth)
  ultimately show ?thesis by blast
next
  case found: (2 ys e zs)
  then show ?thesis using new by auto
qed

lemma add_fd_refused:
  assumes t: "fdt_ok t" and full: "fdt_count t = 10 \<or> (\<exists>e \<in> set (fds t). fd_inode_id e = i)"
    and priv: "\<forall>e \<in> set (fds t). fd_inode_id e = i \<longrightarrow> \<not> global_flags (fd_flags e)"
  shows "add_fd t i flags = Some (- 1, t)"
proof (rule fdt_find_cases [OF t, of "\<lambda>e. fd_inode_id e = i"], goal_cases)
  case absent: 1
  then show ?thesis using full by (auto simp: add_fd_def MAX_OPEN_FDS_def)
next
  case found: (2 ys e zs)
  then have "\<not> global_flags (fd_flags e)" using priv by auto
  then show ?thesis using found rd_fds [OF t found(2)] by (simp add: add_fd_def)
qed

lemma close_file_spec:
  assumes t: "fdt_ok t"
  obtains (absent) "close_file t i = Some (- 1, t)" "\<forall>e \<in> set (fds t). fd_id e \<noteq> i"
  | (shared) ys e zs where "close_file t i = Some (0, t)" "fds t = ys @ e # zs" "fd_id e = i"
      "\<forall>y \<in> set ys. fd_id y \<noteq> i" "global_flags (fd_flags e)"
  | (closed) ys e zs t' where "close_file t i = Some (0, t')" "fds t = ys @ e # zs" "fd_id e = i"
      "\<forall>y \<in> set ys. fd_id y \<noteq> i" "\<not> global_flags (fd_flags e)" "fdt_ok t'" "fds t' = ys @ zs"
      "fdt_count t' = fdt_count t - 1"
proof -
  consider (none) "find_fd t (\<lambda>e. fd_id e = i) = Some None" "\<forall>e \<in> set (fds t). fd_id e \<noteq> i"
    | (hit) ys e zs where "find_fd t (\<lambda>e. fd_id e = i) = Some (Some (int (length ys)))" "fds t = ys @ e # zs"
        "fd_id e = i" "\<forall>y \<in> set ys. fd_id y \<noteq> i"
    by (rule fdt_find_cases [OF t])
  then show thesis
  proof cases
  case none
  then show thesis by (intro absent) (simp_all add: close_file_def)
next
  case hit
  show thesis
  proof (cases "global_flags (fd_flags e)")
    case True
    then show thesis using hit rd_fds [OF t hit(2)] by (intro shared [of ys e zs]) (simp_all add: close_file_def)
  next
    case False
    let ?n = "nat (fdt_count t)"
    have n: "int ?n = fdt_count t" "?n \<le> length (fdt_open t)" using t by (auto simp: fdt_ok_def nat_le_iff)
    obtain es where es: "memmove_elems (fdt_open t) (int (length ys)) (int (length ys) + 1)
        (int ?n - 1 - int (length ys)) = Some es" "length es = length (fdt_open t)" "take (?n - 1) es = ys @ zs"
      using remove_gap [OF _ n(2), of ys e zs] hit(2) by (auto simp: fds_def)
    let ?t = "\<lparr>fdt_count = fdt_count t - 1, fdt_open = es\<rparr>"
    have ne: "0 < ?n" using hit(2) by (cases ?n) (simp_all add: fds_def)
    then have "nat (fdt_count t - 1) = ?n - 1" by simp
    then have "fds ?t = ys @ zs" "fdt_ok ?t" using es t ne by (simp_all add: fds_def fdt_ok_def)
    moreover have "close_file t i = Some (0, ?t)"
      using hit(1) False es(1) n(1) rd_fds [OF t hit(2)] by (simp add: close_file_def Let_def)
    ultimately show thesis using hit False by (intro closed [of ?t ys e zs]) simp_all
  qed
qed
qed

section \<open>Paths\<close>

definition component :: "u8 list \<Rightarrow> bool" where
  "component t \<longleftrightarrow> t \<noteq> [] \<and> slash \<notin> set t"

lemma tokens_component: "component t \<Longrightarrow> tokens t = [t]"
proof (induction t)
  case (Cons c cs)
  then show ?case by (cases cs) (auto simp: component_def)
qed (simp add: component_def)

lemma tokens_component_slash: "component t \<Longrightarrow> tokens (t @ slash # cs) = t # tokens cs"
proof (induction t)
  case (Cons c t)
  then show ?case by (cases t) (auto simp: component_def)
qed (simp add: component_def)

text \<open>A path is read from the front: a slash is skipped, a character joins the component after it.\<close>

lemma tokens_slash [simp]: "tokens (slash # cs) = tokens cs"
  by simp

lemma tokens_last: "c \<noteq> slash \<Longrightarrow> tokens [c] = [[c]]"
  by simp

lemma tokens_end: "c \<noteq> slash \<Longrightarrow> tokens (c # slash # cs) = [c] # tokens cs"
  by simp

lemma tokens_join: "c \<noteq> slash \<Longrightarrow> d \<noteq> slash \<Longrightarrow> tokens (c # d # cs) =
    (c # hd (tokens (d # cs))) # tl (tokens (d # cs))"
  by (auto split: list.splits)

lemma tokens_nonempty: "c \<noteq> slash \<Longrightarrow> tokens (c # cs) \<noteq> []"
  by (auto split: list.splits)

lemma tokens_append_slash: "tokens (xs @ slash # ys) = tokens xs @ tokens ys"
proof (induction xs)
  case Nil
  show ?case by simp
next
  case (Cons c xs)
  consider "c = slash" | "c \<noteq> slash" "xs = []" | xs' where "c \<noteq> slash" "xs = slash # xs'"
    | d xs' where "c \<noteq> slash" "xs = d # xs'" "d \<noteq> slash" by (cases xs) auto
  then show ?case
  proof cases
    case 4
    then have "tokens xs \<noteq> []" using tokens_nonempty [of d xs'] by simp
    moreover have "tokens (d # xs' @ slash # ys) = tokens xs @ tokens ys" using Cons 4 by simp
    ultimately show ?thesis
      by (cases "tokens xs") (simp_all only: append_Cons 4(2) tokens_join [OF 4(1,3)] list.sel simp_thms list.distinct)
  qed (use Cons in simp_all)
qed

lemma parse_filename_spec:
  assumes "component name" "length name < 100" "length path + length name + 1 < 1024"
  shows "parse_filename (path @ slash # name) = Some (0, name, path)"
proof -
  have n: "name \<noteq> []" "slash \<notin> set name" using assms(1) by (simp_all add: component_def)
  then have "last name \<noteq> slash" using last_in_set [of name] by metis
  then have "last (path @ slash # name) \<noteq> slash" using n by simp
  then have c: "(path @ slash # name) ! (length path + length name) \<noteq> slash"
    using last_conv_nth [of "path @ slash # name"] by simp
  have t: "tokens (path @ slash # name) = tokens path @ [name]"
    by (simp add: tokens_append_slash tokens_component [OF assms(1)])
  then have last: "(case tokens (path @ slash # name) of [] \<Rightarrow> path @ slash # name | ts \<Rightarrow> last ts) = name"
    by (cases "tokens path") simp_all
  have r: "rd (path @ slash # name) (int (length (path @ slash # name)) - 1) =
      Some ((path @ slash # name) ! (length path + length name))"
    by (simp add: rd_def nat_add_distrib)
  have "strcpy MAX_PATH_LENGTH (path @ slash # name) \<noteq> None" "strcpy MAX_FILE_NAME_LENGTH name \<noteq> None"
    using assms(2,3) by (simp_all add: strcpy_def fs_consts)
  then show ?thesis unfolding parse_filename_def last Let_def r using c by auto
qed

lemma parse_filename_no_slash:
  assumes "slash \<notin> set name"
  shows "parse_filename name = None"
proof (cases "name = []")
  case True
  then show ?thesis by (simp add: parse_filename_def c_simps strcpy_def fs_consts)
next
  case False
  then have t: "tokens name = [name]" using assms by (intro tokens_component) (simp add: component_def)
  have "name ! (length name - 1) \<noteq> slash" using assms False by (metis last_conv_nth last_in_set)
  moreover have "nat (int (length name) - 1) = length name - 1" by linarith
  ultimately have c: "name ! nat (int (length name) - 1) \<noteq> slash" by simp
  then show ?thesis using False
    by (auto simp: parse_filename_def t c c_simps Let_def split: Option.bind_splits)
qed

end
