(* ===== verification/Kernel_Files.thy ===== *)
theory Kernel_Files
  imports Hilevel Fs_Store Fs_Names
begin

text \<open>
  The file system calls on a mounted disk: user memory, what a descriptor of the running process leads to
  (\<open>opened\<close>), reading and writing through it, and what is left open by \<open>sys_unmount\<close>.
\<close>

section \<open>User memory\<close>

lemma store_bytes_read:
  assumes "length xs \<le> 2 ^ 32"
  shows "store_bytes m a xs b = (if unat (b - a) < length xs then xs ! unat (b - a) else m b)"
  using assms
proof (induction xs arbitrary: m a)
  case (Cons x xs)
  have IH: "store_bytes (m(a := x)) (a + 1) xs b =
      (if unat (b - (a + 1)) < length xs then xs ! unat (b - (a + 1)) else (m(a := x)) b)"
    using Cons by simp
  show ?case
  proof (cases "b = a")
    case True
    have "b - (a + 1) = - 1" using True by simp
    moreover have "unat (- 1 :: u32) = 2 ^ 32 - 1" by (simp add: unsigned_minus_1_eq_mask mask_eq_exp_minus_1)
    ultimately have "\<not> unat (b - (a + 1)) < length xs" using Cons.prems by simp
    then show ?thesis using IH True by simp
  next
    case False
    then have "b - a \<noteq> 0" by simp
    then have "unat (b - a - 1) = unat (b - a) - 1" by (rule unat_minus_one)
    moreover have "b - a - 1 = b - (a + 1)" by simp
    ultimately have "unat (b - (a + 1)) = unat (b - a) - 1" by (simp only:)
    moreover have "0 < unat (b - a)" using \<open>b - a \<noteq> 0\<close> by (simp add: unat_gt_0)
    ultimately show ?thesis using IH False by (cases "unat (b - a)") simp_all
  qed
qed simp

lemma length_load_bytes [simp]: "length (load_bytes m a n) = nat n"
  by (simp add: load_bytes_def)

lemma load_bytes_stored:
  assumes "length xs \<le> 2 ^ 31"
  shows "load_bytes (store_bytes m a xs) a (int (length xs)) = xs"
proof (rule nth_equalityI)
  fix i assume "i < length (load_bytes (store_bytes m a xs) a (int (length xs)))"
  then have i: "i < length xs" by simp
  have "i < 2 ^ 32" using i assms by simp
  then have "unat (u32_of_int (int i)) = i" by (simp add: u32_of_int_def unat_of_nat take_bit_nat_eq_self)
  moreover have "length xs \<le> 2 ^ 32" using assms by simp
  moreover have "load_bytes (store_bytes m a xs) a (int (length xs)) ! i =
      store_bytes m a xs (a + u32_of_int (int i))"
    using i by (simp add: load_bytes_def)
  ultimately show "load_bytes (store_bytes m a xs) a (int (length xs)) ! i = xs ! i"
    using i by (simp only: store_bytes_read add_diff_cancel_left' if_True)
qed simp

lemma unat_of_nat_small: "n < 2 ^ 32 \<Longrightarrow> unat (of_nat n :: u32) = n"
  by (simp add: unat_of_nat take_bit_nat_eq_self)

lemma store_at:
  assumes "length xs \<le> 2 ^ 32" "i < length xs"
  shows "store_bytes m a xs (a + of_nat i) = xs ! i"
  using assms by (simp add: store_bytes_read unat_of_nat_small)

text \<open>C strings.\<close>

lemma cstr_atI:
  "0 \<notin> set s \<Longrightarrow> (\<And>i. i < length s \<Longrightarrow> m (a + of_nat i) = s ! i) \<Longrightarrow> m (a + of_nat (length s)) = 0 \<Longrightarrow>
   cstr_at m a = Some s"
proof (induction s arbitrary: a)
  case Nil
  then show ?case by (simp add: cstr_at.simps)
next
  case (Cons c s)
  have c: "m a = c" "c \<noteq> 0" using Cons.prems(1) Cons.prems(2) [of 0] by auto
  have "cstr_at m (a + 1) = Some s"
  proof (rule Cons.IH)
    fix i assume "i < length s"
    then show "m (a + 1 + of_nat i) = s ! i" using Cons.prems(2) [of "Suc i"] by (simp add: add.assoc)
  qed (use Cons.prems in \<open>simp_all add: add.assoc\<close>)
  then show ?case using c by (simp add: cstr_at.simps [of m a])
qed

lemma cstr_atD:
  "cstr_at m a = Some s \<Longrightarrow> 0 \<notin> set s \<and> (\<forall>i < length s. m (a + of_nat i) = s ! i) \<and> m (a + of_nat (length s)) = 0"
proof (induction s arbitrary: a)
  case Nil
  then show ?case by (subst (asm) cstr_at.simps) (auto split: if_splits Option.bind_splits)
next
  case (Cons c s)
  have "m a = c \<and> c \<noteq> 0 \<and> cstr_at m (a + 1) = Some s"
    using Cons.prems by (subst (asm) cstr_at.simps) (auto split: if_splits Option.bind_splits)
  then have c: "m a = c" "c \<noteq> 0" "cstr_at m (a + 1) = Some s" by blast+
  have IH: "0 \<notin> set s" "\<forall>i < length s. m (a + 1 + of_nat i) = s ! i" "m (a + 1 + of_nat (length s)) = 0"
    using Cons.IH [OF c(3)] by simp_all
  have "m (a + of_nat i) = (c # s) ! i" if "i < length (c # s)" for i
    using IH(2) c(1) that by (cases i) (auto simp: add.assoc)
  then show ?case using IH c by (simp add: add.assoc)
qed

section \<open>What a descriptor leads to\<close>

text \<open>The running process has \<open>fd\<close> open for reading and writing, and on the mounted disk \<open>f\<close> it leads to the
  ordinary file \<open>inode\<close>.\<close>

definition opened :: "kernel \<Rightarrow> int \<Rightarrow> fs \<Rightarrow> inode_t \<Rightarrow> bool" where
  "opened k fd f inode \<longleftrightarrow> fs_of k = Some f \<and> fs_ok f \<and> procs_wf (tbl k) \<and> fdt_ok (open_files k) \<and>
     fd \<in> set (open_fds (tbl k) (cur (tbl k))) \<and>
     (\<exists>ys e zs. fds (open_files k) = ys @ e # zs \<and> fd_id e = fd \<and> (\<forall>y \<in> set ys. fd_id y \<noteq> fd) \<and>
        fd_flags e = READ_WRITE \<and> fd_inode_id e = ino_id inode) \<and>
     inode_wf inode \<and> ino_type inode = INODE_FILE \<and> inode_slot f (ino_id inode) \<and>
     (\<exists>junk. get_block (dk f) (inode_addr (sb f) (ino_id inode)) = padded junk (blen f) (enc_inode inode))"

lemma fdid_to_fd_first:
  assumes "fdt_ok t" "fds t = ys @ e # zs" "fd_id e = i" "\<forall>y \<in> set ys. fd_id y \<noteq> i"
  shows "fdid_to_fd t i = Some (Some (int (length ys)))" "rd (fdt_open t) (int (length ys)) = Some e"
proof -
  show "fdid_to_fd t i = Some (Some (int (length ys)))"
  proof (rule fdt_find_cases [OF assms(1), of "\<lambda>y. fd_id y = i"], goal_cases)
    case 1
    then show ?case using assms(2,3) by auto
  next
    case (2 us u vs)
    then have "us = ys \<and> u = e \<and> vs = zs"
      using assms by (intro first_split [of us u vs ys e zs "\<lambda>y. fd_id y = i"]) simp_all
    then show ?case using 2(1) by (simp add: fdid_to_fd_def)
  qed
qed (rule rd_fds [OF assms(1,2)])

lemma opened_use:
  assumes "opened k fd f inode"
  shows "current_pid (tbl k) = Some (cur (tbl k))"
    "process_has_file_permission k (cur (tbl k)) fd mode = Some 1"
    "length (s_block z) = 1024 \<Longrightarrow> inode_wf old \<Longrightarrow> fdid_to_inode z f (open_files k) fd old = Some (0, inode, f)"
proof -
  obtain ys e zs where e: "fds (open_files k) = ys @ e # zs" "fd_id e = fd" "\<forall>y \<in> set ys. fd_id y \<noteq> fd"
    "fd_flags e = READ_WRITE" "fd_inode_id e = ino_id inode" using assms by (auto simp: opened_def)
  have t: "fdt_ok (open_files k)" "procs_wf (tbl k)" "fd \<in> set (open_fds (tbl k) (cur (tbl k)))"
    using assms by (simp_all add: opened_def)
  note fd = fdid_to_fd_first [OF t(1) e(1-3)]
  show "current_pid (tbl k) = Some (cur (tbl k))" using t(2) by (rule current_pid_cur)
  have "proc_fd_open (tbl k) (cur (tbl k)) fd = Some 1"
    using t by (simp add: proc_fd_open_spec wf_table cur_valid)
  then show "process_has_file_permission k (cur (tbl k)) fd mode = Some 1"
    using fd e(4) by (simp add: process_has_file_permission_def READ_WRITE_def READ_GLOBAL_def WRITE_GLOBAL_def)
  assume z: "length (s_block z) = 1024" "inode_wf old"
  have "read_inode z f (ino_id inode) old = Some (0, inode, f)"
    using assms z by (auto simp: opened_def inode_slot_def intro: read_inode_ok)
  then show "fdid_to_inode z f (open_files k) fd old = Some (0, inode, f)"
    using fd e(5) by (simp add: fdid_to_inode_def)
qed

lemma put_fs_simps [simp]:
  "tbl (put_fs k f) = tbl k" "open_files (put_fs k f) = open_files k" "mem (put_fs k f) = mem k"
  "fs_of (put_fs k f) = Some f"
  by (simp_all add: put_fs_def fs_of_def)

lemma put_fs_same: "fs_of k = Some f \<Longrightarrow> put_fs k f = k"
  by (auto simp: put_fs_def fs_of_def split: Option.bind_splits)

lemma put_fs_twice [simp]: "put_fs (put_fs k f) g = put_fs k g"
  by (simp add: put_fs_def)

lemma fs_of_mem [simp]: "fs_of (k\<lparr>mem := m\<rparr>) = fs_of k"
  by (simp add: fs_of_def)

section \<open>Writing and reading a file\<close>

lemma sys_write_ok:
  assumes k: "opened k fd f inode" and z: "stack_wf z" and room: "room_for f inode n b"
  obtains f' inode' where "sys_write z k fd a n = Some (n, put_fs k f')"
    "write_to_inode z f inode 0 (load_bytes (mem k) a n) n = Some (0, inode', u32_of_int n, f')"
    "opened (put_fs k f') fd f' inode'" "needs (blen f') n b" "b \<le> 6"
    "\<forall>i \<in> set [0..int b - 1]. on_disk (dk f') (blocks inode' ! nat i)" "int b \<le> blocks_allocated inode'"
    "take (nat n) (concat (map (\<lambda>i. get_block (dk f') (blocks inode' ! nat i)) [0..int b - 1])) = load_bytes (mem k) a n"
proof -
  let ?x = "load_bytes (mem k) a n"
  have f: "fs_of k = Some f" "fs_ok f" "inode_wf inode" "ino_type inode = INODE_FILE" "inode_slot f (ino_id inode)"
    using k by (simp_all add: opened_def)
  have r: "needs (blen f) n b" "b \<le> 6" "\<forall>a \<in> set (take b (free_list (sb f))). data_block (dk f) a"
    using room by (simp_all add: room_for_def)
  have "0 < n" using r(1) needs_bound [OF _ _ r(1,2)] f(2) by (simp add: fs_ok_def)
  then have x: "int (length ?x) = n" by simp
  have zl: "length (s_block z) = 1024" "inode_wf (s_inode z)" using z by (simp_all add: stack_wf_def)
  obtain inode' f' where w: "write_to_inode z f inode 0 ?x n = Some (0, inode', u32_of_int n, f')"
    "fs_ok f'" "on_disk (dk f') = on_disk (dk f)" "blen f' = blen f" "inode_wf inode'" "ino_id inode' = ino_id inode"
    "ino_type inode' = ino_type inode" "inode_start (sb f') = inode_start (sb f)"
    "map (\<lambda>i. blocks inode' ! nat i) [0..int b - 1] = map u32_of_int (take b (free_list (sb f)))"
    "int b \<le> blocks_allocated inode'"
    "take (nat n) (concat (map (\<lambda>a. get_block (dk f') (u32_of_int a)) (take b (free_list (sb f))))) = ?x"
    "get_block (dk f') (inode_addr (sb f) (ino_id inode)) = padded (s_block z) (blen f) (enc_inode inode')"
    by (rule write_to_inode_ok [OF f(2) zl(1) f(3,5) room x]) blast
  have a: "inode_addr (sb f') i = inode_addr (sb f) i" for i using w(8) by (simp add: inode_addr_def)
  have bl: "concat (map (\<lambda>i. get_block (dk f') (blocks inode' ! nat i)) [0..int b - 1]) =
      concat (map (\<lambda>a. get_block (dk f') (u32_of_int a)) (take b (free_list (sb f))))"
    using arg_cong [OF w(9), of "map (get_block (dk f'))"] by (simp add: comp_def)
  have od: "\<forall>i \<in> set [0..int b - 1]. on_disk (dk f') (blocks inode' ! nat i)"
  proof -
    have "set (map (\<lambda>i. blocks inode' ! nat i) [0..int b - 1]) \<subseteq> u32_of_int ` set (take b (free_list (sb f)))"
      unfolding w(9) by simp
    then show ?thesis using r(3) w(3) by (fastforce simp: data_block_def)
  qed
  have op: "opened (put_fs k f') fd f' inode'"
    using k w(2,3,5-7,12) unfolding opened_def by (auto simp: a inode_slot_def w(4))
  have "sys_write z k fd a n = Some (n, put_fs k f')"
    using opened_use(1,2) [OF k] opened_use(3) [OF k zl] f(1,4) w(1)
    by (simp add: sys_write_def inode_types)
  then show thesis using that op w(1,4,10,11) r(1,2) od bl by simp
qed

lemma sys_read_ok:
  assumes k: "opened k fd f inode" and z: "stack_wf z" and n: "needs (blen f) n b" "b \<le> 6" "int b \<le> blocks_allocated inode"
    and od: "\<forall>i \<in> set [0..int b - 1]. on_disk (dk f) (blocks inode ! nat i)"
    and xs: "take (nat n) (concat (map (\<lambda>i. get_block (dk f) (blocks inode ! nat i)) [0..int b - 1])) = xs" "int (length xs) = n"
  shows "sys_read z k fd a n = Some (n, k\<lparr>mem := store_bytes (mem k) a xs\<rparr>)"
proof -
  have f: "fs_of k = Some f" "fs_ok f" "inode_wf inode" "ino_type inode = INODE_FILE" using k by (simp_all add: opened_def)
  have zl: "length (s_block z) = 1024" "inode_wf (s_inode z)" using z by (simp_all add: stack_wf_def)
  have bl: "length (blocks inode) = 6" using f(3) by (simp add: inode_wf_def)
  have "int (length (load_bytes (mem k) a n)) = n" using xs(2) by simp
  then have "read_from_inode z f inode 0 (load_bytes (mem k) a n) n = Some (0, xs, inode, u32_of_int n, f)"
    using read_from_inode_ok [OF f(2) zl(1) n(1,2) bl n(3) od] xs(1) by simp
  then show ?thesis
    using opened_use(1,2) [OF k] opened_use(3) [OF k zl] f(1,4)
    by (simp add: sys_read_def inode_types put_fs_same)
qed

lemma opened_mem [simp]: "opened (k\<lparr>mem := m\<rparr>) = opened k"
  by (simp add: opened_def fun_eq_iff)

section \<open>Unmounting\<close>

text \<open>What the loop of \<open>sys_unmount\<close> leaves open: a shared descriptor stays; after a private one is closed the next moves into its
  place and is skipped.\<close>

fun survivors :: "file_descriptor_t list \<Rightarrow> file_descriptor_t list" where
  "survivors [] = []"
| "survivors [e] = (if global_flags (fd_flags e) then [e] else [])"
| "survivors (e # e' # es) = (if global_flags (fd_flags e) then e # survivors (e' # es) else e' # survivors es)"

lemma close_own:
  assumes "fdt_ok t" "fds t = xs @ e # es" "distinct (map fd_id (fds t))"
  shows "if global_flags (fd_flags e) then close_file t (fd_id e) = Some (0, t)
    else \<exists>t'. close_file t (fd_id e) = Some (0, t') \<and> fdt_ok t' \<and> fds t' = xs @ es"
proof -
  have own: "us = xs \<and> u = e \<and> vs = es" if "fds t = us @ u # vs" "fd_id u = fd_id e" "\<forall>y \<in> set us. fd_id y \<noteq> fd_id e" for us u vs
  proof -
    have "fd_id e \<notin> fd_id ` set xs" using assms(2,3) by simp
    then have "\<forall>y \<in> set xs. fd_id y \<noteq> fd_id e" by (metis imageI)
    then show ?thesis
      using that assms(2) by (intro first_split [of us u vs xs e es "\<lambda>y. fd_id y = fd_id e"]) simp_all
  qed
  show ?thesis
  proof (rule close_file_spec [OF assms(1), of "fd_id e"], goal_cases)
    case 1
    then show ?case using assms(2) by simp
  next
    case (2 us u vs)
    then show ?case using own [of us u vs] by simp
  next
    case (3 us u vs t')
    then show ?case using own [of us u vs] by auto
  qed
qed

lemma close_all_stop: "fdt_count t \<le> i \<Longrightarrow> close_all [i..m] t = Some (0, t)"
  by (cases "i \<le> m") (simp_all add: upto_rec1)

lemma close_all_spec:
  assumes "fdt_ok t" "fds t = xs @ es" "distinct (map fd_id (fds t))" "length xs + length es \<le> n"
  shows "\<exists>t'. close_all [int (length xs)..int n - 1] t = Some (0, t') \<and> fdt_ok t' \<and> fds t' = xs @ survivors es"
  using assms
proof (induction es arbitrary: xs t rule: survivors.induct)
  case 1
  have "close_all [int (length xs)..int n - 1] t = Some (0, t)"
    using 1 length_fds [of t] by (intro close_all_stop) simp
  then show ?case using 1 by simp
next
  case (2 e)
  have up: "[int (length xs)..int n - 1] = int (length xs) # [int (length (xs @ [e]))..int n - 1]"
    using 2(4) by (simp add: upto_rec1 add.commute)
  have c: "int (length xs) < fdt_count t" using length_fds [OF 2(1)] 2(2) by simp
  note own = close_own [OF 2(1,2,3)]
  have fin: "close_all [int (length xs) + 1..int n - 1] t' = Some (0, t')"
    if "fdt_ok t'" "length (fds t') \<le> length xs + 1" for t'
    using that length_fds [of t'] by (intro close_all_stop) simp
  show ?case
  proof (cases "global_flags (fd_flags e)")
    case True
    then show ?thesis using own fin [OF 2(1)] c rd_fds [OF 2(1,2)] 2(1,2) by (simp add: up add.commute)
  next
    case False
    then obtain t' where "close_file t (fd_id e) = Some (0, t')" "fdt_ok t'" "fds t' = xs" using own by auto
    then show ?thesis using False fin [of t'] c rd_fds [OF 2(1,2)] by (simp add: up add.commute)
  qed
next
  case (3 e e' es)
  have up: "[int (length xs)..int n - 1] = int (length xs) # [int (length (xs @ [e]))..int n - 1]"
    using 3(6) by (simp add: upto_rec1 add.commute)
  have c: "int (length xs) < fdt_count t" using length_fds [OF 3(3)] 3(4) by simp
  note own = close_own [OF 3(3,4,5)]
  show ?case
  proof (cases "global_flags (fd_flags e)")
    case True
    have "\<exists>t'. close_all [int (length (xs @ [e]))..int n - 1] t = Some (0, t') \<and> fdt_ok t' \<and>
        fds t' = (xs @ [e]) @ survivors (e' # es)"
      using 3(3-6) by (intro 3(1) [OF True]) simp_all
    then show ?thesis using True own c rd_fds [OF 3(3,4)] by (auto simp: up)
  next
    case False
    then obtain t' where t': "close_file t (fd_id e) = Some (0, t')" "fdt_ok t'" "fds t' = xs @ e' # es" using own by auto
    have "\<exists>t''. close_all [int (length (xs @ [e']))..int n - 1] t' = Some (0, t'') \<and> fdt_ok t'' \<and>
        fds t'' = (xs @ [e']) @ survivors es"
      using 3(4-6) t'(2,3) by (intro 3(2) [OF False]) simp_all
    then show ?thesis using False t'(1) c rd_fds [OF 3(3,4)] by (auto simp: up)
  qed
qed

lemma sys_unmount_ok:
  assumes k: "fs_of k = Some f" "fs_ok f" "fdt_ok (open_files k)" "distinct (map fd_id (fds (open_files k)))"
    and z: "length (s_block z) = 1024"
  shows "\<exists>f' t. write_superblock (s_block z) f = Some (0, f') \<and> fds t = survivors (fds (open_files k)) \<and>
    sys_unmount z k = Some (0, k\<lparr>dsk := dk f', open_files := t, mounted := None, root_dir := None\<rparr>)"
proof -
  have n: "fdt_count (open_files k) = int (length (fds (open_files k)))" using length_fds [OF k(3)] by simp
  obtain t where t: "close_all [0..fdt_count (open_files k) - 1] (open_files k) = Some (0, t)"
    "fds t = survivors (fds (open_files k))"
    using close_all_spec [OF k(3), of "[]" "fds (open_files k)" "length (fds (open_files k))"] k(4) by (auto simp: n)
  obtain f' where f': "write_superblock (s_block z) f = Some (0, f')" using write_superblock_ok [OF k(2) z] by blast
  have m: "mounted k = Some (sb f)" "dsk k = dk f" using k(1) by (auto simp: fs_of_def split: Option.bind_splits)
  have f: "\<lparr>sb = sb f, dk = dk f\<rparr> = f" by simp
  show ?thesis using t f' m
    by (intro exI [of _ f'] exI [of _ t]) (simp add: sys_unmount_def fs_of_def put_fs_def f Let_def)
qed

text \<open>The check refuses a descriptor that the process has not opened and that is not shared for this mode.\<close>

lemma permission_refused:
  assumes "procs_wf (tbl k)" "fdt_ok (open_files k)" "fd \<notin> set (open_fds (tbl k) (cur (tbl k)))"
    and "\<forall>e \<in> set (fds (open_files k)). fd_id e = fd \<longrightarrow>
      \<not> (mode = READ \<and> fd_flags e = READ_GLOBAL) \<and> \<not> (mode = WRITE \<and> fd_flags e = WRITE_GLOBAL)"
  shows "process_has_file_permission k (cur (tbl k)) fd mode = Some (- 1)"
proof (rule fdt_find_cases [OF assms(2), of "\<lambda>y. fd_id y = fd"], goal_cases)
  case 1
  then show ?case by (simp add: process_has_file_permission_def fdid_to_fd_def)
next
  case (2 ys e zs)
  have "proc_fd_open (tbl k) (cur (tbl k)) fd = Some (- 1)"
    using assms(1,3) by (simp add: proc_fd_open_spec wf_table cur_valid)
  then show ?case using 2 assms(4) rd_fds [OF assms(2) 2(2)]
    by (auto simp: process_has_file_permission_def fdid_to_fd_def)
qed

end
