(* ===== verification/Fs_Tree.thy ===== *)
theory Fs_Tree
  imports Kernel_Files
begin

text \<open>
  The file system as a tree: a partial map from inode numbers to files and directories. \<open>rep f T\<close> says that the
  disk of \<open>f\<close> holds the tree \<open>T\<close>. Writing, creating and looking up files act on the tree as the obvious
  operations on the map; blocks of other files never change, because a write only takes free blocks.
\<close>

datatype node = Blank int | File "u8 list" | Dir "(u8 list \<times> int) list"

type_synonym tree = "int \<rightharpoonup> node"

fun node_type :: "node \<Rightarrow> int" where
  "node_type (Blank ty) = ty"
| "node_type (File _) = INODE_FILE"
| "node_type (Dir _) = INODE_DIRECTORY"

section \<open>Representation on the disk\<close>

text \<open>The inode numbers with a block of their own before the data blocks.\<close>

definition home :: "fs \<Rightarrow> int \<Rightarrow> bool" where
  "home f i \<longleftrightarrow> inode_slot f i \<and> is_i32 i \<and> uint (inode_addr (sb f) i) < uint (data_block_start (sb f))"

definition node_at :: "fs \<Rightarrow> int \<Rightarrow> inode_t \<Rightarrow> bool" where
  "node_at f i inode \<longleftrightarrow> home f i \<and> inode_wf inode \<and> ino_id inode = i \<and> blocks_allocated inode \<le> 6 \<and>
     (\<exists>junk. get_block (dk f) (inode_addr (sb f) i) = padded junk (blen f) (enc_inode inode))"

text \<open>The inode that the disk holds under a number, and the addresses it lists.\<close>

definition inode_of :: "fs \<Rightarrow> int \<Rightarrow> inode_t" where
  "inode_of f i = dec_inode (get_block (dk f) (inode_addr (sb f) i))"

definition listed :: "inode_t \<Rightarrow> int set" where
  "listed inode = uint ` set (take (nat (blocks_allocated inode)) (blocks inode))"

definition claims :: "fs \<Rightarrow> int \<Rightarrow> int set" where
  "claims f i = listed (inode_of f i)"

text \<open>A data block in use.\<close>

definition owned :: "fs \<Rightarrow> int \<Rightarrow> bool" where
  "owned f a \<longleftrightarrow> data_block (dk f) a \<and> a \<notin> set (free_list (sb f)) \<and> uint (data_block_start (sb f)) \<le> a \<and> 0 < a"

definition stored :: "fs \<Rightarrow> inode_t \<Rightarrow> u8 list \<Rightarrow> bool" where
  "stored f inode x \<longleftrightarrow> (\<exists>as. needs (blen f) (int (length x)) (length as) \<and> length as \<le> 6 \<and>
     int (length as) \<le> blocks_allocated inode \<and> (\<forall>a \<in> set as. owned f a) \<and>
     map (\<lambda>j. blocks inode ! nat j) [0..int (length as) - 1] = map u32_of_int as \<and>
     take (length x) (concat (map (\<lambda>a. get_block (dk f) (u32_of_int a)) as)) = x)"

fun content_rep :: "fs \<Rightarrow> inode_t \<Rightarrow> node \<Rightarrow> bool" where
  "content_rep f inode (Blank ty) = True"
| "content_rep f inode (File x) = (ino_size inode = int (length x) \<and> stored f inode x)"
| "content_rep f inode (Dir es) = (es \<noteq> [] \<and> snd (hd es) = ino_id inode \<and>
     (\<exists>d. dir_ok d \<and> entries d = es \<and> stored f inode (enc_directory d)))"

definition node_rep :: "fs \<Rightarrow> int \<Rightarrow> node \<Rightarrow> bool" where
  "node_rep f i nd \<longleftrightarrow> (\<exists>inode. node_at f i inode \<and> ino_type inode = node_type nd \<and> content_rep f inode nd)"

text \<open>Every node of the tree is on the disk and marked, and the blocks that its inode lists are in use, by this inode only.\<close>

definition rep :: "fs \<Rightarrow> tree \<Rightarrow> bool" where
  "rep f T \<longleftrightarrow> fs_ok f \<and> (\<forall>i nd. T i = Some nd \<longrightarrow> i \<in> bits (free_inode_bitmap (sb f)) \<and> node_rep f i nd) \<and>
     (\<forall>i \<in> dom T. (\<forall>a \<in> claims f i. owned f a) \<and> (\<forall>j \<in> dom T. j \<noteq> i \<longrightarrow> claims f i \<inter> claims f j = {}))"

lemma repD: "rep f T \<Longrightarrow> T i = Some nd \<Longrightarrow> fs_ok f \<and> i \<in> bits (free_inode_bitmap (sb f)) \<and> node_rep f i nd"
  by (simp add: rep_def)

lemma rep_owned: "rep f T \<Longrightarrow> T i = Some nd \<Longrightarrow> a \<in> claims f i \<Longrightarrow> owned f a"
  by (auto simp: rep_def)

lemma rep_apart: "rep f T \<Longrightarrow> T i = Some nd \<Longrightarrow> T j = Some nd' \<Longrightarrow> j \<noteq> i \<Longrightarrow> claims f i \<inter> claims f j = {}"
  unfolding rep_def by (meson domI)

lemma rep_empty: "fs_ok f \<Longrightarrow> rep f (\<lambda>_. None)"
  by (simp add: rep_def)

lemma node_inode: "fs_ok f \<Longrightarrow> node_at f i inode \<Longrightarrow> inode_of f i = inode"
proof -
  assume f: "fs_ok f" and n: "node_at f i inode"
  then obtain junk where j: "get_block (dk f) (inode_addr (sb f) i) = padded junk (blen f) (enc_inode inode)" "inode_wf inode"
    by (auto simp: node_at_def)
  have "564 \<le> blen f" using f by (simp add: fs_ok_def)
  then have "length (enc_inode inode) \<le> nat (blen f)" using inc.enc_width [OF j(2)] by (simp add: le_nat_iff)
  then have "padded junk (blen f) (enc_inode inode) =
      enc_inode inode @ take (nat (blen f) - length (enc_inode inode)) (drop (length (enc_inode inode)) junk)"
    by (simp add: padded_def)
  then show ?thesis using inc.dec_enc [OF j(2)] by (simp add: inode_of_def j(1))
qed

lemma node_claims: "fs_ok f \<Longrightarrow> node_at f i inode \<Longrightarrow> claims f i = listed inode"
  by (simp add: claims_def node_inode)

lemma uint_small: "0 \<le> a \<Longrightarrow> a < 2 ^ 31 \<Longrightarrow> uint (u32_of_int a) = a"
  by (simp add: u32_of_int_def uint_word_of_int_eq take_bit_int_eq_self)

section \<open>Frames\<close>

text \<open>The geometry, which no operation changes.\<close>

definition shape :: "fs \<Rightarrow> (u32 \<Rightarrow> bool) \<times> int \<times> u32 \<times> u32 \<times> int" where
  "shape f = (on_disk (dk f), blen f, inode_start (sb f), data_block_start (sb f), inode_num (sb f))"

text \<open>Between \<open>f\<close> and \<open>f'\<close> only the superblock, the inodes \<open>I\<close> and free data blocks have changed, and no block was freed.\<close>

definition frame :: "fs \<Rightarrow> fs \<Rightarrow> int set \<Rightarrow> bool" where
  "frame f f' I \<longleftrightarrow> fs_ok f' \<and> shape f' = shape f \<and>
     bits (free_inode_bitmap (sb f)) \<subseteq> bits (free_inode_bitmap (sb f')) \<and>
     set (free_list (sb f')) \<subseteq> set (free_list (sb f)) \<and>
     (\<forall>b. b \<noteq> 0 \<and> b \<notin> inode_addr (sb f) ` I \<and> b \<notin> u32_of_int ` {a \<in> set (free_list (sb f)). data_block (dk f) a} \<longrightarrow>
        get_block (dk f') b = get_block (dk f) b)"

lemma shape_addr: "shape f' = shape f \<Longrightarrow> inode_addr (sb f') j = inode_addr (sb f) j"
  by (simp add: shape_def inode_addr_def)

lemma shape_home:
  assumes "shape f' = shape f"
  shows "home f' j \<longleftrightarrow> home f j"
  unfolding home_def inode_slot_def shape_addr [OF assms] using assms by (simp add: shape_def)

lemma frame_shape: "frame f f' I \<Longrightarrow> shape f' = shape f"
  by (simp add: frame_def)

lemmas frame_addr = shape_addr [OF frame_shape]
lemmas frame_home = shape_home [OF frame_shape]

lemma frame_owned: "frame f f' I \<Longrightarrow> owned f a \<Longrightarrow> owned f' a"
  by (auto simp: frame_def shape_def owned_def data_block_def)

lemma home_apart: "home f i \<Longrightarrow> home f j \<Longrightarrow> i \<noteq> j \<Longrightarrow> inode_addr (sb f) i \<noteq> inode_addr (sb f) j"
proof
  assume h: "home f i" "home f j" "i \<noteq> j" and "inode_addr (sb f) i = inode_addr (sb f) j"
  then have "(word_of_int i :: u32) = word_of_int j" by (simp add: inode_addr_def)
  then have "u32_of_int i = u32_of_int j" by (simp add: u32_of_int_def)
  moreover have "0 \<le> i" "i < 2 ^ 31" "0 \<le> j" "j < 2 ^ 31" using h(1,2) by (auto simp: home_def inode_slot_def)
  ultimately have "i = j" by (intro u32_inj)
  then show False using h(3) by simp
qed

lemma free_not_home:
  assumes "home f j"
  shows "inode_addr (sb f) j \<notin> u32_of_int ` {a \<in> set (free_list (sb f)). data_block (dk f) a}"
proof
  assume "inode_addr (sb f) j \<in> u32_of_int ` {a \<in> set (free_list (sb f)). data_block (dk f) a}"
  then obtain a where a: "inode_addr (sb f) j = u32_of_int a" "a \<in> set (free_list (sb f))" "data_block (dk f) a" by auto
  then have "a < 16384" by (simp add: data_block_def)
  then show False using data_blocks_apart(1) [of "inode_addr (sb f) j" "sb f" a] assms a by (simp add: home_def)
qed

lemma owned_word: "owned f a \<Longrightarrow> uint (u32_of_int a) = a"
  by (simp add: owned_def data_block_def u32_of_int_def uint_word_of_int_eq take_bit_int_eq_self)

lemma owned_apart:
  assumes "owned f a"
  shows "home f i \<Longrightarrow> u32_of_int a \<noteq> inode_addr (sb f) i" "u32_of_int a \<noteq> 0"
    "u32_of_int a \<notin> u32_of_int ` {b \<in> set (free_list (sb f)). data_block (dk f) b}"
proof -
  have u: "uint (u32_of_int a) = a" by (rule owned_word [OF assms])
  have a: "uint (data_block_start (sb f)) \<le> a" "a \<notin> set (free_list (sb f))" "0 < a" "a < 2 ^ 31"
    using assms by (simp_all add: owned_def data_block_def)
  show "u32_of_int a \<noteq> inode_addr (sb f) i" if "home f i" using that u a(1) by (auto simp: home_def)
  show "u32_of_int a \<noteq> 0" using u a(3) by auto
  show "u32_of_int a \<notin> u32_of_int ` {b \<in> set (free_list (sb f)). data_block (dk f) b}"
  proof
    assume "u32_of_int a \<in> u32_of_int ` {b \<in> set (free_list (sb f)). data_block (dk f) b}"
    then obtain b where b: "u32_of_int a = u32_of_int b" "b \<in> set (free_list (sb f))" "data_block (dk f) b" by auto
    then have "a = b" using a(3,4) by (intro u32_inj) (simp_all add: data_block_def)
    then show False using a(2) b(2) by simp
  qed
qed

lemma frame_stored:
  assumes fr: "frame f f' I" and h: "\<forall>i \<in> I. home f i" and s: "stored f inode x"
  shows "stored f' inode x"
proof -
  obtain as where as: "needs (blen f) (int (length x)) (length as)" "length as \<le> 6"
    "int (length as) \<le> blocks_allocated inode" "\<forall>a \<in> set as. owned f a"
    "map (\<lambda>j. blocks inode ! nat j) [0..int (length as) - 1] = map u32_of_int as"
    "take (length x) (concat (map (\<lambda>a. get_block (dk f) (u32_of_int a)) as)) = x"
    using s by (auto simp: stored_def)
  have "get_block (dk f') (u32_of_int a) = get_block (dk f) (u32_of_int a)" if "a \<in> set as" for a
  proof -
    have o: "owned f a" using as(4) that by blast
    have "u32_of_int a \<notin> inode_addr (sb f) ` I" using owned_apart(1) [OF o] h by blast
    then show ?thesis using fr owned_apart(2,3) [OF o] by (simp add: frame_def)
  qed
  then have "\<forall>a \<in> set as. get_block (dk f') (u32_of_int a) = get_block (dk f) (u32_of_int a)" by simp
  moreover have "\<forall>a \<in> set as. owned f' a" using as(4) frame_owned [OF fr] by blast
  moreover have "blen f' = blen f" using fr by (simp add: frame_def shape_def)
  ultimately show ?thesis unfolding stored_def using as(1-3,5,6) by (intro exI [of _ as]) (simp cong: map_cong)
qed

lemma frame_content: "frame f f' I \<Longrightarrow> \<forall>i \<in> I. home f i \<Longrightarrow> content_rep f inode nd \<Longrightarrow> content_rep f' inode nd"
  by (cases nd) (auto intro: frame_stored)

lemma frame_node:
  assumes "frame f f' I" "\<forall>i \<in> I. home f i" "j \<notin> I" "node_rep f j nd"
  shows "node_rep f' j nd"
proof -
  obtain inode junk where n: "home f j" "inode_wf inode" "ino_id inode = j" "blocks_allocated inode \<le> 6"
    "get_block (dk f) (inode_addr (sb f) j) = padded junk (blen f) (enc_inode inode)"
    "ino_type inode = node_type nd" "content_rep f inode nd"
    using assms(4) by (auto simp: node_rep_def node_at_def)
  have "inode_addr (sb f) j \<noteq> 0" using n(1) by (simp add: home_def inode_slot_def)
  then have "get_block (dk f') (inode_addr (sb f) j) = get_block (dk f) (inode_addr (sb f) j)"
  proof -
    have "inode_addr (sb f) j \<notin> inode_addr (sb f) ` I" using home_apart [OF n(1)] assms(2,3) by blast
    then show ?thesis using assms(1) \<open>inode_addr (sb f) j \<noteq> 0\<close> free_not_home [OF n(1)] by (simp add: frame_def)
  qed
  then have "get_block (dk f') (inode_addr (sb f') j) = padded junk (blen f') (enc_inode inode)"
    using n(5) assms(1) unfolding frame_addr [OF assms(1)] by (simp add: frame_def shape_def)
  then have "node_at f' j inode" using n(1-4) frame_home [OF assms(1)] by (auto simp: node_at_def)
  then show ?thesis using n(6) frame_content [OF assms(1,2) n(7)] by (auto simp: node_rep_def)
qed

text \<open>The inodes of other numbers are the same.\<close>

definition keeps_inodes :: "fs \<Rightarrow> fs \<Rightarrow> int set \<Rightarrow> bool" where
  "keeps_inodes f f' I \<longleftrightarrow> (\<forall>j. home f j \<and> j \<notin> I \<longrightarrow> inode_of f' j = inode_of f j)"

lemma frame_inodes: "frame f f' I \<Longrightarrow> \<forall>i \<in> I. home f i \<Longrightarrow> keeps_inodes f f' I"
  unfolding keeps_inodes_def
proof (intro allI impI)
  fix j assume fr: "frame f f' I" "\<forall>i \<in> I. home f i" and j: "home f j \<and> j \<notin> I"
  have "inode_addr (sb f) j \<notin> inode_addr (sb f) ` I" using home_apart [of f j] fr(2) j by blast
  moreover have "inode_addr (sb f) j \<noteq> 0" using j by (simp add: home_def inode_slot_def)
  ultimately have "get_block (dk f') (inode_addr (sb f) j) = get_block (dk f) (inode_addr (sb f) j)"
    using fr(1) free_not_home [of f j] j by (simp add: frame_def)
  then show "inode_of f' j = inode_of f j" by (simp add: inode_of_def frame_addr [OF fr(1)])
qed

lemma keeps_inodes_trans: "keeps_inodes f g I \<Longrightarrow> shape g = shape f \<Longrightarrow> keeps_inodes g h J \<Longrightarrow> keeps_inodes f h (I \<union> J)"
  using shape_home [of g f] by (simp add: keeps_inodes_def)

lemma frame_claims:
  assumes fr: "frame f f' I" "\<forall>i \<in> I. home f i" and j: "home f j" "j \<notin> I"
  shows "claims f' j = claims f j"
proof -
  have "keeps_inodes f f' I" by (rule frame_inodes [OF fr])
  then show ?thesis using j by (simp add: claims_def keeps_inodes_def)
qed

lemma rep_node: "rep f T \<Longrightarrow> T i = Some nd \<Longrightarrow> home f i"
  using repD by (auto simp: node_rep_def node_at_def)

text \<open>A node is replaced or added; \<open>F\<close> are the blocks that its inode has taken from the free ones.\<close>

lemma rep_update:
  assumes R: "rep f T" and fr: "frame f f' {i}" and h: "home f i" and n: "node_rep f' i nd" "i \<in> bits (free_inode_bitmap (sb f'))"
    and c: "claims f' i \<subseteq> (if T i = None then {} else claims f i) \<union> F" "\<forall>a \<in> F. a \<in> set (free_list (sb f)) \<and> owned f' a"
  shows "rep f' (T(i \<mapsto> nd))"
proof -
  have same: "node_rep f' j nd' \<and> claims f' j = claims f j" if "T j = Some nd'" "j \<noteq> i" for j nd'
    using repD [OF R that(1)] that(2) h rep_node [OF R that(1)] by (intro conjI frame_node [OF fr] frame_claims [OF fr]) simp_all
  have own: "\<forall>a \<in> claims f' i. owned f' a"
    using c frame_owned [OF fr] rep_owned [OF R] by (auto split: if_splits)
  have apart: "claims f' i \<inter> claims f j = {}" if j: "T j = Some nd'" "j \<noteq> i" for j nd'
  proof -
    have "a \<notin> claims f j" if "a \<in> claims f' i" for a
    proof (cases "a \<in> F")
      case True
      then show ?thesis using c(2) rep_owned [OF R j(1), of a] by (auto simp: owned_def)
    next
      case False
      have "T i \<noteq> None \<and> a \<in> claims f i" using c(1) that False by (cases "T i = None") auto
      then obtain nd0 where "T i = Some nd0" "a \<in> claims f i" by blast
      then show ?thesis using rep_apart [OF R \<open>T i = Some nd0\<close> j] by blast
    qed
    then show ?thesis by blast
  qed
  have ok: "fs_ok f'" "bits (free_inode_bitmap (sb f)) \<subseteq> bits (free_inode_bitmap (sb f'))" using fr by (simp_all add: frame_def)
  have nodes: "j \<in> bits (free_inode_bitmap (sb f')) \<and> node_rep f' j nd'" if "(T(i \<mapsto> nd)) j = Some nd'" for j nd'
    using that n same [of j nd'] repD [OF R, of j nd'] ok(2) by (auto split: if_splits)
  have blocks: "(\<forall>a \<in> claims f' j. owned f' a) \<and> (\<forall>l \<in> dom (T(i \<mapsto> nd)). l \<noteq> j \<longrightarrow> claims f' j \<inter> claims f' l = {})"
    if dj: "j \<in> dom (T(i \<mapsto> nd))" for j
  proof (cases "j = i")
    case True
    then show ?thesis using own apart same by fastforce
  next
    case False
    then obtain nd' where j: "T j = Some nd'" using dj by auto
    have "claims f' j \<inter> claims f' l = {}" if dl: "l \<in> dom (T(i \<mapsto> nd))" "l \<noteq> j" for l
    proof (cases "l = i")
      case True
      then show ?thesis using apart [OF j False] same [OF j False] by blast
    next
      case l: False
      then obtain nd2 where "T l = Some nd2" using dl by auto
      then show ?thesis using rep_apart [OF R j _ dl(2)] same [OF j False] same [OF _ l] by blast
    qed
    then show ?thesis using same [OF j False] rep_owned [OF R j] frame_owned [OF fr] by blast
  qed
  show ?thesis using ok(1) nodes blocks unfolding rep_def by blast
qed

lemma rep_keep:
  assumes R: "rep f T" and fr: "frame f f' {}"
  shows "rep f' T"
proof -
  have "node_rep f' j nd \<and> claims f' j = claims f j" if "T j = Some nd" for j nd
    using repD [OF R that] rep_node [OF R that] by (intro conjI frame_node [OF fr] frame_claims [OF fr]) simp_all
  moreover have "fs_ok f'" "bits (free_inode_bitmap (sb f)) \<subseteq> bits (free_inode_bitmap (sb f'))" using fr by (simp_all add: frame_def)
  ultimately show ?thesis using R frame_owned [OF fr] unfolding rep_def by (fastforce simp: dom_def)
qed

section \<open>Room\<close>

text \<open>The first \<open>m\<close> free addresses are blocks of the disk; \<open>k\<close> of them hold \<open>n\<close> bytes.\<close>

definition free_space :: "fs \<Rightarrow> nat \<Rightarrow> bool" where
  "free_space f m \<longleftrightarrow> m \<le> length (free_list (sb f)) \<and> (\<forall>a \<in> set (take m (free_list (sb f))). data_block (dk f) a)"

definition room :: "fs \<Rightarrow> int \<Rightarrow> nat \<Rightarrow> bool" where
  "room f n k \<longleftrightarrow> needs (blen f) n k \<and> k \<le> 6 \<and> free_space f k"

lemma free_space_drop:
  assumes "free_space f (k + m)" "free_list (sb f') = drop k (free_list (sb f))" "on_disk (dk f') = on_disk (dk f)"
  shows "free_space f' m"
proof -
  have "set (take m (drop k (free_list (sb f)))) \<subseteq> set (take (k + m) (free_list (sb f)))"
    by (simp add: take_add)
  then show ?thesis using assms unfolding free_space_def data_block_def by (auto simp del: take_drop)
qed

lemma free_space_mono: "free_space f m \<Longrightarrow> k \<le> m \<Longrightarrow> free_space f k"
  unfolding free_space_def by (meson le_trans set_take_subset_set_take subset_code(1))

lemma room_room_for: "room f n k \<Longrightarrow> node_at f i inode \<Longrightarrow> room_for f inode n k"
  by (simp add: room_def free_space_def room_for_def node_at_def home_def)

section \<open>Reading and writing a node\<close>

lemma node_at_read:
  assumes "fs_ok f" "node_at f i inode" "length (s_block z) = 1024" "inode_wf old"
  shows "read_inode z f i old = Some (0, inode, f)"
  using assms read_inode_ok [OF assms(1,3) _ _ _ _ assms(4)]
  by (auto simp: node_at_def home_def inode_slot_def)

text \<open>A prefix of \<open>n\<close> bytes needs no more blocks than all of it.\<close>

lemma needs_prefix:
  assumes "needs l m k" "0 < l" "0 < n" "n \<le> m"
  obtains k' where "needs l n k'" "k' \<le> k"
proof -
  let ?q = "(n - 1) div l"
  have q: "0 \<le> ?q" "l * ?q \<le> n - 1" "n - 1 < l * (?q + 1)"
  proof -
    show "0 \<le> ?q" using assms(2,3) pos_imp_zdiv_nonneg_iff [of l "n - 1"] by simp
    have "l * ?q + (n - 1) mod l = n - 1" "0 \<le> (n - 1) mod l" "(n - 1) mod l < l"
      using assms(2) by simp_all
    then show "l * ?q \<le> n - 1" "n - 1 < l * (?q + 1)" unfolding distrib_left mult_1_right by linarith+
  qed
  have m: "m \<le> l * int k" using assms(1) by (simp add: needs_def)
  have "l * ?q < l * int k" using q(2) m assms(4) by linarith
  then have "?q < int k" using assms(2) by simp
  then show thesis using q assms(2,3) by (intro that [of "nat (?q + 1)"]) (simp_all add: needs_def distrib_left)
qed

lemma length_concat_blocks:
  "\<forall>a \<in> set as. length (g a) = l \<Longrightarrow> length (concat (map g as)) = l * length as"
  by (induction as) simp_all

lemma stored_read:
  assumes f: "fs_ok f" "length (s_block z) = 1024" "inode_wf inode" and s: "stored f inode x"
    and n: "0 < n" "n \<le> length x" "length y = n"
  shows "read_from_inode z f inode 0 y (int n) = Some (0, take n x, inode, u32_of_int (int n), f)"
proof -
  let ?g = "\<lambda>a. get_block (dk f) (u32_of_int a)"
  obtain as where as: "needs (blen f) (int (length x)) (length as)" "length as \<le> 6"
    "int (length as) \<le> blocks_allocated inode" "\<forall>a \<in> set as. owned f a"
    "map (\<lambda>j. blocks inode ! nat j) [0..int (length as) - 1] = map u32_of_int as"
    "take (length x) (concat (map ?g as)) = x"
    using s by (auto simp: stored_def)
  have bl: "0 < blen f" using f(1) by (simp add: fs_ok_def)
  obtain k where k: "needs (blen f) (int n) k" "k \<le> length as"
    using needs_prefix [OF as(1) bl, of "int n"] n(1,2) by auto
  have "take k [0..int (length as) - 1] = [0..int k - 1]"
    using k(2) by (intro take_upto) simp
  then have ix: "map (\<lambda>j. blocks inode ! nat j) [0..int k - 1] = map u32_of_int (take k as)"
    using arg_cong [OF as(5), of "take k"] by (simp add: take_map)
  have sub: "set (take k as) \<subseteq> set as" by (rule set_take_subset)
  have disk: "on_disk (dk f) (u32_of_int a)" if "a \<in> set as" for a
    using as(4) that by (simp add: owned_def data_block_def)
  have "set (map (\<lambda>j. blocks inode ! nat j) [0..int k - 1]) \<subseteq> u32_of_int ` set as" unfolding ix using sub by auto
  then have od: "\<forall>j \<in> set [0..int k - 1]. on_disk (dk f) (blocks inode ! nat j)" using disk by fastforce
  have "concat (map (\<lambda>j. get_block (dk f) (blocks inode ! nat j)) [0..int k - 1]) = concat (map ?g (take k as))"
    using arg_cong [OF ix, of "map (get_block (dk f))"] by (simp add: comp_def)
  moreover have "take n (concat (map ?g (take k as))) = take n x"
  proof -
    have "\<forall>a \<in> set (take k as). length (?g a) = nat (blen f)"
      using f(1) disk sub by (auto simp: fs_ok_def intro!: length_get_block)
    then have "length (concat (map ?g (take k as))) = nat (blen f) * k"
      using length_concat_blocks [of "take k as" ?g] k(2) by simp
    moreover have "n \<le> nat (blen f) * k"
    proof -
      have "int n \<le> int (nat (blen f) * k)" using k(1) bl by (simp add: needs_def)
      then show ?thesis by (simp only: of_nat_le_iff)
    qed
    moreover have "concat (map ?g as) = concat (map ?g (take k as)) @ concat (map ?g (drop k as))"
      by (simp flip: concat_append map_append)
    ultimately have "take n (concat (map ?g (take k as))) = take n (concat (map ?g as))" by simp
    also have "\<dots> = take n (take (length x) (concat (map ?g as)))" using n(2) by (simp add: min_absorb1)
    finally show ?thesis unfolding as(6) .
  qed
  moreover have "length (blocks inode) = 6" using f(3) by (simp add: inode_wf_def)
  ultimately show ?thesis
    using read_from_inode_ok [OF f(1,2) k(1) _ _ _ od, of y] k(2) n(3) as(2,3) by simp
qed

lemma file_size:
  assumes "rep f T" "T i = Some (File x)"
  shows "length x \<le> 6144"
proof -
  have f: "564 \<le> blen f" "blen f \<le> 1024" using repD [OF assms] by (simp_all add: fs_ok_def)
  obtain inode where "stored f inode x" using repD [OF assms] by (auto simp: node_rep_def)
  then obtain k where "needs (blen f) (int (length x)) k" "k \<le> 6" by (auto simp: stored_def)
  then show ?thesis using needs_bound [of "blen f" "int (length x)" k] f by simp
qed

lemma free_list_owned:
  assumes "a \<in> set (take k (free_list b))" "free_list b' = drop k (free_list b)"
  shows "a \<notin> set (free_list b') \<and> uint (data_block_start b) \<le> a"
proof -
  have "distinct (take k (free_list b) @ drop k (free_list b))"
    by (simp only: append_take_drop_id) (simp add: free_list_def addrs_def)
  then have "set (take k (free_list b)) \<inter> set (free_list b') = {}" by (simp only: distinct_append assms(2))
  moreover have "uint (data_block_start b) \<le> a" using free_list_range [OF in_set_takeD [OF assms(1)]] by simp
  ultimately show ?thesis using assms(1) by blast
qed

lemma listed_after:
  assumes "map (\<lambda>j. blocks inode' ! nat j) [0..int k - 1] = map u32_of_int as" "length as = k"
    and "blocks_allocated inode' = max (int k) (blocks_allocated inode)" "\<forall>j. int k \<le> j \<longrightarrow> blocks inode' ! nat j = blocks inode ! nat j"
    and "length (blocks inode') = length (blocks inode)" "\<forall>a \<in> set as. uint (u32_of_int a) = a"
  shows "listed inode' \<subseteq> listed inode \<union> set as"
proof
  fix a assume "a \<in> listed inode'"
  then obtain n where n: "n < nat (blocks_allocated inode')" "n < length (blocks inode')" "a = uint (blocks inode' ! n)"
    by (auto simp: listed_def in_set_conv_nth)
  show "a \<in> listed inode \<union> set as"
  proof (cases "n < k")
    case True
    have "map (\<lambda>j. blocks inode' ! nat j) [0..int k - 1] ! n = map u32_of_int as ! n" by (simp only: assms(1))
    then have "blocks inode' ! n = u32_of_int (as ! n)" using True assms(2) by simp
    then show ?thesis using True assms(2,6) n(3) by simp
  next
    case False
    then have "blocks inode' ! n = blocks inode ! n" using assms(4) by (auto dest: spec [of _ "int n"])
    moreover have "n < nat (blocks_allocated inode)" using n(1) False assms(3) by (auto simp: max_def split: if_splits)
    ultimately have "a \<in> listed inode" using n assms(5) by (auto simp: listed_def in_set_conv_nth intro!: image_eqI exI [of _ n])
    then show ?thesis by simp
  qed
qed

lemma write_node:
  assumes f: "fs_ok f" and n: "node_at f i inode" and z: "length (s_block z) = 1024" and room: "room f (int (length x)) k"
  obtains inode' f' where "write_to_inode z f inode 0 x (int (length x)) = Some (0, inode', u32_of_int (int (length x)), f')"
    "frame f f' {i}" "node_at f' i inode'" "ino_type inode' = ino_type inode" "ino_size inode' = int (length x)"
    "stored f' inode' x" "free_list (sb f') = drop k (free_list (sb f))" "free_inode_bitmap (sb f') = free_inode_bitmap (sb f)"
    "claims f' i \<subseteq> claims f i \<union> set (take k (free_list (sb f)))" "\<forall>a \<in> set (take k (free_list (sb f))). a \<in> set (free_list (sb f)) \<and> owned f' a"
proof -
  have id: "ino_id inode = i" "inode_wf inode" "inode_slot f i" "home f i"
    using n by (simp_all add: node_at_def home_def)
  have r: "needs (blen f) (int (length x)) k" "k \<le> 6" "k \<le> length (free_list (sb f))"
    "\<forall>a \<in> set (take k (free_list (sb f))). data_block (dk f) a" using room by (simp_all add: room_def free_space_def)
  obtain inode' f' where w: "write_to_inode z f inode 0 x (int (length x)) = Some (0, inode', u32_of_int (int (length x)), f')"
    "fs_ok f'" "on_disk (dk f') = on_disk (dk f)" "blen f' = blen f" "inode_wf inode'" "ino_id inode' = ino_id inode"
    "ino_size inode' = int (length x)" "ino_type inode' = ino_type inode" "inode_start (sb f') = inode_start (sb f)"
    "map (\<lambda>j. blocks inode' ! nat j) [0..int k - 1] = map u32_of_int (take k (free_list (sb f)))"
    "int k \<le> blocks_allocated inode'" "blocks_allocated inode' \<le> 6"
    "take (nat (int (length x))) (concat (map (\<lambda>a. get_block (dk f') (u32_of_int a)) (take k (free_list (sb f))))) = x"
    "get_block (dk f') (inode_addr (sb f) (ino_id inode)) = padded (s_block z) (blen f) (enc_inode inode')"
    "\<forall>b. b \<notin> u32_of_int ` set (take k (free_list (sb f))) \<and> b \<noteq> inode_addr (sb f) (ino_id inode) \<and> b \<noteq> 0 \<longrightarrow>
       get_block (dk f') b = get_block (dk f) b"
    "sb f' = (sb f)\<lparr>free_block_bitmap := free_block_bitmap (sb f')\<rparr>" "free_list (sb f') = drop k (free_list (sb f))"
    "blocks_allocated inode' = max (int k) (blocks_allocated inode)" "\<forall>j. int k \<le> j \<longrightarrow> blocks inode' ! nat j = blocks inode ! nat j"
    by (rule write_to_inode_ok [OF f z id(2) _ room_room_for [OF room n] refl]) (simp add: id(1,3))
  have sbs: "data_block_start (sb f') = data_block_start (sb f)" "inode_num (sb f') = inode_num (sb f)"
    "free_inode_bitmap (sb f') = free_inode_bitmap (sb f)"
    by (subst w(16), simp)+
  have sub: "u32_of_int ` set (take k (free_list (sb f))) \<subseteq> u32_of_int ` {a \<in> set (free_list (sb f)). data_block (dk f) a}"
    using r(4) by (auto dest: in_set_takeD)
  have fr: "frame f f' {i}"
    using w(2-4,9,15,17) sbs sub by (auto simp: frame_def shape_def id(1) dest: in_set_dropD)
  have own: "owned f' a" if "a \<in> set (take k (free_list (sb f)))" for a
  proof -
    have "0 < uint (data_block_start (sb f))" using id(4) uint_ge_0 [of "inode_addr (sb f) i"] unfolding home_def by linarith
    then show ?thesis
      using that r(4) free_list_owned [OF that w(17)] w(3) sbs(1) by (simp add: owned_def data_block_def)
  qed
  have lk: "length (take k (free_list (sb f))) = k" using r(3) by simp
  with own have "stored f' inode' x"
    unfolding stored_def using w(4,10,11,13) r(1,2) by (intro exI [of _ "take k (free_list (sb f))"]) simp
  moreover have n': "node_at f' i inode'"
    unfolding node_at_def using w(4,5,6,12,14) id(1,4) frame_home [OF fr] frame_addr [OF fr] by auto
  moreover have "claims f' i \<subseteq> claims f i \<union> set (take k (free_list (sb f)))"
    unfolding node_claims [OF w(2) n'] node_claims [OF f n]
  proof (rule listed_after [OF w(10) _ w(18,19)])
    show "length (blocks inode') = length (blocks inode)" using w(5) id(2) by (simp add: inode_wf_def)
    show "\<forall>a \<in> set (take k (free_list (sb f))). uint (u32_of_int a) = a" using owned_word [OF own] by blast
  qed (rule lk)
  moreover have "\<forall>a \<in> set (take k (free_list (sb f))). a \<in> set (free_list (sb f)) \<and> owned f' a"
    using own by (auto dest: in_set_takeD)
  ultimately show thesis using that [OF w(1) fr _ w(8,7) _ w(17) sbs(3)] by blast
qed

lemma entries_dot:
  assumes "dir_ok d" "entries d \<noteq> []"
  shows "rd (links d) 0 = Some (links d ! 0)" "link_inode_id (links d ! 0) = snd (hd (entries d))" "1 \<le> files_count d"
proof -
  have w: "length (links d) = 10" "0 < files_count d"
    using assms by (auto simp: dir_ok_def directory_wf_def entries_def)
  then show "rd (links d) 0 = Some (links d ! 0)" "1 \<le> files_count d" by (simp_all add: rd_def)
  have "entries d ! 0 = entry (links d ! 0)" using w by (simp add: entries_def)
  then show "link_inode_id (links d ! 0) = snd (hd (entries d))"
    using assms(2) by (simp add: hd_conv_nth entry_def)
qed

text \<open>Writing a directory and reading one.\<close>

lemma write_dir_node:
  assumes R: "rep f T" "T p = Some nd" "node_type nd = INODE_DIRECTORY" and z: "stack_wf z"
    and d: "dir_ok d" "entries d \<noteq> []" "snd (hd (entries d)) = p" and room: "room f 1044 k"
  obtains f' where "write_dir z f d = Some (p, f')" "frame f f' {p}" "rep f' (T(p \<mapsto> Dir (entries d)))"
    "free_list (sb f') = drop k (free_list (sb f))" "free_inode_bitmap (sb f') = free_inode_bitmap (sb f)"
proof -
  have z': "length (s_block z) = 1024" "inode_wf (s_inode z)" using z by (simp_all add: stack_wf_def)
  note r = repD [OF R(1,2)]
  then obtain inode where n: "node_at f p inode" "ino_type inode = INODE_DIRECTORY" using R(3) by (auto simp: node_rep_def)
  have p: "p \<in> bits (free_inode_bitmap (sb f))" and f: "fs_ok f" using r by simp_all
  have len: "int (length (enc_directory d)) = 1044" using d(1) by (simp add: drc.enc_width dir_ok_def)
  obtain inode' f' where w: "write_to_inode z f inode 0 (enc_directory d) 1044 = Some (0, inode', u32_of_int 1044, f')"
    "frame f f' {p}" "node_at f' p inode'" "ino_type inode' = ino_type inode" "stored f' inode' (enc_directory d)"
    "free_list (sb f') = drop k (free_list (sb f))" "free_inode_bitmap (sb f') = free_inode_bitmap (sb f)"
    "claims f' p \<subseteq> claims f p \<union> set (take k (free_list (sb f)))" "\<forall>a \<in> set (take k (free_list (sb f))). a \<in> set (free_list (sb f)) \<and> owned f' a"
    by (rule write_node [OF f n(1) z'(1), of "enc_directory d" k, unfolded len]) (use room in simp_all)
  have home: "home f p" "0 \<le> p" using n(1) by (simp_all add: node_at_def home_def inode_slot_def)
  have "write_dir z f d = Some (p, f')"
    using node_at_read [OF f n(1) z'] w(1) by (simp add: write_dir_def entries_dot [OF d(1,2)] d(3) sizeof_directory_def)
  moreover have "node_rep f' p (Dir (entries d))"
    unfolding node_rep_def using w(3-5) n(2) d by (intro exI [of _ inode']) (auto simp: node_at_def)
  then have "rep f' (T(p \<mapsto> Dir (entries d)))" using rep_update [OF R(1) w(2) home(1) _ _ _ w(9)] w(7,8) p R(2) by simp
  ultimately show thesis using that [OF _ w(2) _ w(6,7)] by blast
qed

lemma read_dir_node:
  assumes f: "fs_ok f" and n: "node_at f p inode" "ino_type inode = INODE_DIRECTORY" "content_rep f inode (Dir es)"
    and z: "length (s_block z) = 1024" "directory_wf old"
  obtains d where "read_dir z f inode old = Some (0, d, inode, f)" "dir_ok d" "entries d = es"
proof -
  obtain d where d: "dir_ok d" "entries d = es" "stored f inode (enc_directory d)" using n(3) by auto
  have len: "int (length (enc_directory d)) = 1044" "length (enc_directory old) = length (enc_directory d)"
    using d(1) z(2) by (simp_all add: drc.enc_width dir_ok_def)
  have "read_from_inode z f inode 0 (enc_directory old) 1044 = Some (0, enc_directory d, inode, u32_of_int 1044, f)"
    using stored_read [OF f z(1) _ d(3), of 1044 "enc_directory old"] n(1) len by (simp add: node_at_def)
  moreover have "dec_directory (enc_directory d) = d" using drc.dec_enc [of d "[]"] d(1) by (simp add: dir_ok_def)
  ultimately show thesis using d n(2) by (intro that) (simp_all add: read_dir_def sizeof_directory_def)
qed

section \<open>New files\<close>

definition fresh_inode :: "stack \<Rightarrow> int \<Rightarrow> int \<Rightarrow> inode_t" where
  "fresh_inode z i ty = (s_inode z)\<lparr>ino_id := i, ino_type := ty, creation_time := 1\<rparr>"

lemma fresh_inode_simps [simp]: "ino_id (fresh_inode z i ty) = i" "ino_type (fresh_inode z i ty) = ty"
  by (simp_all add: fresh_inode_def)

text \<open>The bitmap offers inode \<open>i\<close>, which has a bit and a block of its own.\<close>

definition offers :: "fs \<Rightarrow> int \<Rightarrow> bool" where
  "offers f i \<longleftrightarrow> free_inode_id (sb f) = Some i \<and> in_bitmap (free_inode_bitmap (sb f)) i \<and> backed i \<and> home f i"

lemma find_first_holds: "find_first p is = Some (Some y) \<Longrightarrow> p y = Some True"
  by (induction "is") (auto split: Option.bind_splits if_splits)

lemma offers_free: "offers f i \<Longrightarrow> i \<notin> bits (free_inode_bitmap (sb f))"
proof -
  assume o: "offers f i"
  then have pos: "i \<noteq> - 1" by (auto simp: offers_def home_def inode_slot_def)
  have "first_free (get_bit (free_inode_bitmap (sb f))) [0..inode_num (sb f) - 1] = Some (Some i)"
    using o pos by (auto simp: offers_def free_inode_id_def split: Option.bind_splits option.splits)
  then have "get_bit (free_inode_bitmap (sb f)) i = Some 0"
    unfolding first_free_def by (auto dest!: find_first_holds split: Option.bind_splits)
  then show ?thesis using o get_bit_bits [of "free_inode_bitmap (sb f)" i] by (auto simp: offers_def)
qed

text \<open>Writing an inode to its own block leaves the data blocks alone.\<close>

lemma write_inode_home:
  assumes f: "fs_ok f" and z: "length (s_block z) = 1024" and i: "inode_wf inode" "home f (ino_id inode)"
  obtains f' where "write_inode z f inode = Some (0, f')" "fs_ok f'" "shape f' = shape f" "free_list (sb f') = free_list (sb f)"
    "free_inode_bitmap (sb f') = free_inode_bitmap (sb f)"
    "get_block (dk f') = (get_block (dk f))(inode_addr (sb f) (ino_id inode) := padded (s_block z) (blen f) (enc_inode inode),
      0 := padded (s_block z) (blen f) (enc_superblock (sb f')))"
proof -
  let ?a = "inode_addr (sb f) (ino_id inode)"
  have slot: "inode_slot f (ino_id inode)" "uint ?a < uint (data_block_start (sb f))" using i(2) by (simp_all add: home_def)
  obtain ws f' where w: "write_inode z f inode = Some (0, f')" "bits ws = used (sb f) \<union> ({uint ?a, 0} \<inter> Collect backed)"
    "sb f' = (sb f)\<lparr>free_block_bitmap := ws\<rparr>" "fs_ok f'" "on_disk (dk f') = on_disk (dk f)" "blen f' = blen f"
    "get_block (dk f') = (get_block (dk f))(?a := padded (s_block z) (blen f) (enc_inode inode),
      0 := padded (s_block z) (blen f) (enc_superblock (sb f')))"
    using write_inode_ok [OF f z i(1) slot(1)] by blast
  have "a \<notin> bits ws \<longleftrightarrow> a \<notin> used (sb f)"
    if "a \<in> set (addrs (data_block_start (sb f)) (u32_of_int (disk_block_num (sb f))))" for a
  proof -
    have "uint (data_block_start (sb f)) \<le> a" using that by (simp add: addrs_def)
    then have "a \<noteq> uint ?a" "a \<noteq> 0" using slot(2) uint_ge_0 [of ?a] by linarith+
    then show ?thesis by (simp add: w(2))
  qed
  then have "free_list (sb f') = free_list (sb f)" unfolding free_list_def w(3) by (auto simp: used_def intro: filter_cong)
  then show thesis using w by (intro that [OF w(1,4)]) (simp_all add: shape_def)
qed

lemma create_inode_node:
  assumes R: "rep f T" and z: "stack_wf z" "blocks_allocated (s_inode z) = 0" and i: "offers f i" "is_i32 ty"
  obtains f' where "create_inode_type z f ty = Some (i, f')" "frame f f' {i}" "rep f' (T(i \<mapsto> Blank ty))" "T i = None"
    "free_list (sb f') = free_list (sb f)" "bits (free_inode_bitmap (sb f')) = insert i (bits (free_inode_bitmap (sb f)))"
proof -
  have f: "fs_ok f" using R by (simp add: rep_def)
  have h: "home f i" "free_inode_id (sb f) = Some i" "in_bitmap (free_inode_bitmap (sb f)) i" "backed i"
    and slot: "inode_slot f i" "is_i32 i" "0 \<le> i" "inode_addr (sb f) i \<noteq> 0"
    using i(1) by (simp_all add: offers_def home_def inode_slot_def)
  have zb: "length (s_block z) = 1024" "inode_wf (fresh_inode z i ty)"
    using z slot(2) i(2) by (simp_all add: stack_wf_def inode_wf_def fresh_inode_def)
  obtain vs where vs: "set_bit_c (free_inode_bitmap (sb f)) i = Some vs" "length vs = length (free_inode_bitmap (sb f))"
    "bits vs = insert i (bits (free_inode_bitmap (sb f)))"
    using set_bit_c_bits [OF h(3)] h(4) by auto
  let ?b = "(sb f)\<lparr>free_inode_bitmap := vs\<rparr>"
  let ?f = "f\<lparr>sb := ?b\<rparr>"
  have f1: "fs_ok ?f" using f vs(2) by (simp add: fs_ok_def superblock_wf_def)
  have a1: "inode_addr ?b j = inode_addr (sb f) j" for j by (simp add: inode_addr_def)
  have h1: "home ?f (ino_id (fresh_inode z i ty))"
    using h(1) shape_home [of ?f f i] by (simp add: shape_def)
  obtain f' where w: "write_inode z ?f (fresh_inode z i ty) = Some (0, f')" "fs_ok f'" "shape f' = shape ?f"
    "free_list (sb f') = free_list ?b" "free_inode_bitmap (sb f') = vs"
    "get_block (dk f') = (get_block (dk f))(inode_addr (sb f) i := padded (s_block z) (blen f) (enc_inode (fresh_inode z i ty)),
      0 := padded (s_block z) (blen f) (enc_superblock (sb f')))"
    by (rule write_inode_home [OF f1 zb h1]) (simp add: a1)
  have run: "create_inode_type z f ty = Some (i, f')"
    using w(1) h(2) vs(1) slot(3) by (simp add: create_inode_type_def allocate_inode_def fresh_inode_def)
  have fl: "free_list (sb f') = free_list (sb f)" using w(4) by (simp add: free_list_def used_def)
  have sh: "shape f' = shape f" using w(3) by (simp add: shape_def)
  have fr: "frame f f' {i}" using w(2,5,6) sh fl vs(3) by (auto simp: frame_def)
  have ib: "bits (free_inode_bitmap (sb f')) = insert i (bits (free_inode_bitmap (sb f)))" by (simp add: w(5) vs(3))
  have "ino_id (fresh_inode z i ty) = i" "blocks_allocated (fresh_inode z i ty) = 0" using z(2) by (simp_all add: fresh_inode_def)
  then have n: "node_at f' i (fresh_inode z i ty)"
    unfolding node_at_def using w(6) sh zb(2) h(1) slot(4) frame_home [OF fr] frame_addr [OF fr] by (auto simp: shape_def)
  then have "node_rep f' i (Blank ty)" unfolding node_rep_def by (intro exI [of _ "fresh_inode z i ty"]) simp
  moreover have "i \<in> bits (free_inode_bitmap (sb f'))" by (simp add: ib)
  moreover have "claims f' i = {}"
    using node_claims [OF w(2) n] z(2) by (simp add: listed_def fresh_inode_def)
  ultimately have "rep f' (T(i \<mapsto> Blank ty))" by (intro rep_update [OF R fr h(1), where F = "{}"]) simp_all
  moreover have "T i = None" using offers_free [OF i(1)] repD [OF R, of i] by (cases "T i") auto
  ultimately show thesis using that [OF run fr _ _ fl ib] by blast
qed

lemma entries_snoc:
  assumes "dir_ok d" "files_count d < 9" "0 \<notin> set name" "length name < 100" "is_i32 i"
    and "l = \<lparr>link_inode_id = i, filename = replicate_to 100 name\<rparr>"
    and "d' = d\<lparr>files_count := files_count d + 1, links := (links d)[nat (files_count d) := l]\<rparr>"
  shows "dir_ok d'" "entries d' = entries d @ [(name, i)]" "directory_wf d'"
proof -
  let ?n = "nat (files_count d)"
  have n: "0 \<le> files_count d" "?n < length (links d)" "length (links d) = 10"
    using assms(1,2) by (auto simp: dir_ok_def directory_wf_def)
  have t: "take (nat (files_count d')) (links d') = take ?n (links d) @ [l]"
    using n by (simp add: assms(7) nat_add_distrib take_Suc_conv_app_nth)
  have l: "link_wf l" "entry l = (name, i)" "0 \<in> set (filename l)"
    using assms(3-5) cstr_of_padded [of name 100] by (auto simp: assms(6) link_wf_def entry_def replicate_to_def)
  show "entries d' = entries d @ [(name, i)]" unfolding entries_def t by (simp add: l(2))
  show w: "directory_wf d'"
    using assms(1,2,7) n l(1) by (auto simp: dir_ok_def directory_wf_def dest: set_update_subset_insert [THEN subsetD])
  show "dir_ok d'"
    unfolding dir_ok_def t using w assms(1,2) n l(3) by (auto simp: dir_ok_def assms(7))
qed

text \<open>A new name in a directory: the inode is created, then the directory is written with one entry more.\<close>

lemma create_file_node:
  assumes R: "rep f T" "T p = Some nd" "node_type nd = INODE_DIRECTORY"
    and z: "stack_wf z" "blocks_allocated (s_inode z) = 0"
    and d: "dir_ok d" "entries d \<noteq> []" "snd (hd (entries d)) = p" "length (entries d) < 9"
    and name: "0 \<notin> set name" "length name < 100" "name \<notin> fst ` set (entries d)"
    and i: "offers f i" "is_i32 ty" and room: "room f 1044 k"
  obtains d' f' where "create_file z f d name ty = Some (i, d', f')" "dir_ok d'" "entries d' = entries d @ [(name, i)]"
    "rep f' (T(i \<mapsto> Blank ty, p \<mapsto> Dir (entries d @ [(name, i)])))" "T i = None"
    "free_list (sb f') = drop k (free_list (sb f))" "bits (free_inode_bitmap (sb f')) = insert i (bits (free_inode_bitmap (sb f)))"
    "shape f' = shape f" "keeps_inodes f f' {i, p}"
proof -
  let ?n = "files_count d"
  define l where "l = \<lparr>link_inode_id = i, filename = replicate_to 100 name\<rparr>"
  define d' where "d' = d\<lparr>files_count := ?n + 1, links := (links d)[nat ?n := l]\<rparr>"
  have i0: "is_i32 i" "0 \<le> i" using i(1) by (simp_all add: offers_def home_def inode_slot_def)
  have len: "length (links d) = 10" "int (length (entries d)) = ?n"
    using d(1) by (auto simp: dir_ok_def directory_wf_def entries_def nat_le_iff min_absorb2)
  have n: "1 \<le> ?n" "?n < 9" using entries_dot(3) [OF d(1,2)] d(4) len(2) by simp_all
  note e = entries_snoc [OF d(1) n(2) name(1,2) i0(1) l_def d'_def]
  have "map_of (entries d) name = None" using name(3) by (auto simp: map_of_eq_None_iff)
  then have look: "directory_lookup d name = Some (- 1)" using directory_lookup_spec [OF d(1) name(1)] by simp
  obtain f1 where c: "create_inode_type z f ty = Some (i, f1)" "frame f f1 {i}" "rep f1 (T(i \<mapsto> Blank ty))" "T i = None"
    "free_list (sb f1) = free_list (sb f)" "bits (free_inode_bitmap (sb f1)) = insert i (bits (free_inode_bitmap (sb f)))"
    by (rule create_inode_node [OF R(1) z i])
  have ip: "i \<noteq> p" using R(2) c(4) by auto
  have fr: "on_disk (dk f1) = on_disk (dk f)" "blen f1 = blen f" using frame_shape [OF c(2)] by (simp_all add: shape_def)
  have room1: "room f1 1044 k" using room unfolding room_def free_space_def fr c(5) data_block_def .
  obtain f2 where w: "write_dir z f1 d' = Some (p, f2)" "frame f1 f2 {p}" "rep f2 (T(i \<mapsto> Blank ty, p \<mapsto> Dir (entries d')))"
    "free_list (sb f2) = drop k (free_list (sb f1))" "free_inode_bitmap (sb f2) = free_inode_bitmap (sb f1)"
    by (rule write_dir_node [OF c(3) _ R(3) z(1) e(1) _ _ room1]) (use R(2) ip d(2,3) in \<open>simp_all add: e(2)\<close>)
  have pos: "0 \<le> p" using repD [OF R(1,2)] by (auto simp: node_rep_def node_at_def home_def inode_slot_def)
  have link: "link_to i name = Some l" using name(2) by (simp add: link_to_def strcpy_def fs_consts l_def)
  have wr: "wr (links d) ?n l = Some ((links d)[nat ?n := l])" using n len(1) by (simp add: wr_def)
  have run: "create_file z f d name ty = Some (i, d', f2)"
    using look c(1) link wr w(1) pos i0(2) n(2) by (simp add: create_file_def fs_consts d'_def Let_def)
  have hp: "home f i" "home f p" using i(1) rep_node [OF R(1,2)] by (simp_all add: offers_def)
  have "keeps_inodes f f2 ({i} \<union> {p})"
    using hp frame_home [OF c(2)] by (intro keeps_inodes_trans [OF frame_inodes [OF c(2)] frame_shape [OF c(2)] frame_inodes [OF w(2)]]) simp_all
  moreover have "{i} \<union> {p} = {i, p}" by blast
  moreover have "shape f2 = shape f" using frame_shape [OF w(2)] frame_shape [OF c(2)] by simp
  ultimately show thesis using that [OF run e(1,2)] w(3-5) c(4-6) e(2) by simp
qed

abbreviation new_dir :: "int \<Rightarrow> int \<Rightarrow> (u8 list \<times> int) list" where
  "new_dir i p \<equiv> [(bstr ''.'', i), (bstr ''..'', p)]"

lemma new_dir_ok:
  assumes "is_i32 i" "is_i32 p"
    and "d = \<lparr>files_count = 2, links = \<lparr>link_inode_id = i, filename = replicate_to 100 (bstr ''.'')\<rparr> #
      \<lparr>link_inode_id = p, filename = replicate_to 100 (bstr ''..'')\<rparr> # drop 2 (links zero_directory)\<rparr>"
  shows "dir_ok d" "entries d = new_dir i p"
proof -
  show "dir_ok d"
    using assms by (simp add: dir_ok_def directory_wf_def link_wf_def numeral_2_eq_2 zero_directory_def replicate_to_def bstr_def)
  show "entries d = new_dir i p"
    using cstr_of_padded [of "bstr ''.''" 100] cstr_of_padded [of "bstr ''..''" 100]
    by (simp add: entries_def entry_def assms(3) numeral_2_eq_2) (simp add: bstr_def)
qed

lemma create_directory_node:
  assumes R: "rep f T" "T p = Some nd" "node_type nd = INODE_DIRECTORY"
    and z: "stack_wf z" "blocks_allocated (s_inode z) = 0"
    and d: "dir_ok d" "entries d \<noteq> []" "snd (hd (entries d)) = p" "length (entries d) < 9"
    and name: "0 \<notin> set name" "length name < 100" "name \<notin> fst ` set (entries d)"
    and i: "offers f i" and room: "needs (blen f) 1044 k" "k \<le> 6" "free_space f (k + k)"
  obtains s d' new f' where "create_directory z f d name zero_directory = Some (s, d', new, f')" "0 \<le> s"
    "rep f' (T(i \<mapsto> Dir (new_dir i p), p \<mapsto> Dir (entries d @ [(name, i)])))" "T i = None"
    "dir_ok d'" "entries d' = entries d @ [(name, i)]" "dir_ok new" "entries new = new_dir i p"
    "free_list (sb f') = drop (k + k) (free_list (sb f))" "bits (free_inode_bitmap (sb f')) = insert i (bits (free_inode_bitmap (sb f)))"
    "shape f' = shape f" "keeps_inodes f f' {i, p}"
proof -
  have "is_i32 INODE_DIRECTORY" by (simp add: inode_types)
  moreover have "room f 1044 k" using room free_space_mono [OF room(3), of k] by (simp add: room_def)
  ultimately obtain d' f1 where c: "create_file z f d name INODE_DIRECTORY = Some (i, d', f1)" "dir_ok d'"
    "entries d' = entries d @ [(name, i)]" "rep f1 (T(i \<mapsto> Blank INODE_DIRECTORY, p \<mapsto> Dir (entries d @ [(name, i)])))" "T i = None"
    "free_list (sb f1) = drop k (free_list (sb f))" "bits (free_inode_bitmap (sb f1)) = insert i (bits (free_inode_bitmap (sb f)))"
    "shape f1 = shape f" "keeps_inodes f f1 {i, p}"
    by (rule create_file_node [OF R z d name i])
  have ip: "i \<noteq> p" using R(2) c(5) by auto
  have pos: "0 \<le> i" "is_i32 i" "is_i32 p" using i rep_node [OF R(1,2)] by (simp_all add: offers_def home_def inode_slot_def)
  define new where "new = \<lparr>files_count = 2, links = \<lparr>link_inode_id = i, filename = replicate_to 100 (bstr ''.'')\<rparr> #
      \<lparr>link_inode_id = p, filename = replicate_to 100 (bstr ''..'')\<rparr> # drop 2 (links zero_directory)\<rparr>"
  note e = new_dir_ok [OF pos(2,3) new_def]
  have sh: "on_disk (dk f1) = on_disk (dk f)" "blen f1 = blen f" using c(8) by (simp_all add: shape_def)
  have "free_space f1 k" using free_space_drop [OF room(3) c(6) sh(1)] .
  then have room1: "room f1 1044 k" using room(1,2) sh(2) by (simp add: room_def)
  let ?T = "T(i \<mapsto> Blank INODE_DIRECTORY, p \<mapsto> Dir (entries d @ [(name, i)]))"
  have Ti: "?T i = Some (Blank INODE_DIRECTORY)" "entries new \<noteq> []" "snd (hd (entries new)) = i"
    using ip by (simp_all add: e(2))
  obtain f2 where w: "write_dir z f1 new = Some (i, f2)" "frame f1 f2 {i}" "rep f2 (?T(i \<mapsto> Dir (entries new)))"
    "free_list (sb f2) = drop k (free_list (sb f1))" "free_inode_bitmap (sb f2) = free_inode_bitmap (sb f1)"
    by (rule write_dir_node [OF c(4) Ti(1) node_type.simps(1) z(1) e(1) Ti(2,3) room1])
  have T: "?T(i \<mapsto> Dir (entries new)) = T(i \<mapsto> Dir (new_dir i p), p \<mapsto> Dir (entries d @ [(name, i)]))"
    using ip by (simp only: e(2)) (simp add: fun_eq_iff)
  have up: "rd (links d') 0 = Some (links d' ! 0)" "link_inode_id (links d' ! 0) = p"
    using entries_dot [OF c(2)] c(3) d(2,3) by simp_all
  have links: "link_to j s = Some \<lparr>link_inode_id = j, filename = replicate_to 100 s\<rparr>" if "length s < 100" for j s
    using that by (simp add: link_to_def strcpy_def fs_consts)
  have l: "length (bstr ''.'') < 100" "length (bstr ''..'') < 100" by (simp_all add: bstr_def)
  have ls: "wr (links zero_directory) 0 a = Some (a # drop 1 (links zero_directory))"
    "wr (a # drop 1 (links zero_directory)) 1 b = Some (a # b # drop 2 (links zero_directory))" for a b
    by (simp_all add: wr_def zero_directory_def numeral_eq_Suc)
  have "create_directory z f d name zero_directory = Some (i, d', new, f2)"
    unfolding create_directory_def c(1) Option.bind.bind_lunit prod.case links [OF l(1)] links [OF l(2)] up ls Let_def
      new_def [symmetric] w(1) using pos(1) by simp
  moreover have "keeps_inodes f f2 {i, p}"
  proof -
    have "home f1 i" using i shape_home [OF c(8)] by (simp add: offers_def)
    then have "keeps_inodes f f2 ({i, p} \<union> {i})" by (intro keeps_inodes_trans [OF c(9,8) frame_inodes [OF w(2)]]) simp
    moreover have "{i, p} \<union> {i} = {i, p}" by blast
    ultimately show ?thesis by simp
  qed
  ultimately show thesis using that [OF _ pos(1) _ c(5) c(2,3) e] w(3-5) c(6-8) frame_shape [OF w(2)]
    unfolding T by (simp add: add.commute)
qed

end
