(* ===== verification/Tree_Paths.thy ===== *)
theory Tree_Paths
  imports Fs_Tree
begin

text \<open>
  Paths and open files over the tree of \<open>Fs_Tree\<close>: \<open>resolve\<close> says which inode the components of a path lead to, and
  the loop of \<open>path_to_inode_id\<close> computes it from the disk. \<open>open_file\<close> finds the file or puts a new one into its directory.
\<close>

type_synonym dir_entries = "(u8 list \<times> int) list"

section \<open>Resolving a path\<close>

text \<open>A name that a directory on the way does not have is skipped: the lookup of the next name goes on in the same
  directory. \<open>inside\<close> says that a directory of the path was reached; before that a missing name ends the search.\<close>

fun resolve :: "tree \<Rightarrow> bool \<Rightarrow> dir_entries \<Rightarrow> u8 list list \<Rightarrow> int \<Rightarrow> int option" where
  "resolve T inside es [] i = Some i"
| "resolve T inside es (n # ns) i =
     (case map_of es n of
        None \<Rightarrow> if inside then resolve T True es ns (- 1) else Some (- 1)
      | Some j \<Rightarrow>
          (case T j of
             None \<Rightarrow> None
           | Some (Dir es') \<Rightarrow> resolve T True es' ns j
           | Some nd \<Rightarrow> if node_type nd = INODE_DIRECTORY then None else Some (if ns = [] then j else - 1)))"

text \<open>The inode variable of the loop: before the first directory it is uninitialised, then it is that of the directory.\<close>

definition loop_inode :: "fs \<Rightarrow> bool \<Rightarrow> dir_entries \<Rightarrow> inode_t \<Rightarrow> bool" where
  "loop_inode f inside es inode \<longleftrightarrow>
     (if inside then ino_type inode = INODE_DIRECTORY \<and> (\<exists>p. node_at f p inode) \<and> content_rep f inode (Dir es)
      else inode_wf inode \<and> ino_type inode \<noteq> INODE_DIRECTORY)"

lemma loop_inode_wf: "loop_inode f inside es inode \<Longrightarrow> inode_wf inode"
  by (auto simp: loop_inode_def node_at_def split: if_splits)

lemma rep_cases:
  assumes "rep f T" "T j = Some nd" "length (s_block z) = 1024" "inode_wf old"
  obtains inode where "read_inode z f j old = Some (0, inode, f)" "node_at f j inode" "ino_type inode = node_type nd"
    "content_rep f inode nd" "0 \<le> j"
proof -
  obtain inode where n: "node_at f j inode" "ino_type inode = node_type nd" "content_rep f inode nd"
    using repD [OF assms(1,2)] by (auto simp: node_rep_def)
  moreover have "0 \<le> j" using rep_node [OF assms(1,2)] by (simp add: home_def inode_slot_def)
  ultimately show thesis using that node_at_read [OF _ n(1) assms(3,4)] repD [OF assms(1,2)] by blast
qed

lemma read_inode_missing [simp]: "read_inode z f (- 1) inode = Some (- 1, inode, f)"
  by (simp add: read_inode_def)

lemma walk_resolves:
  assumes R: "rep f T" and z: "length (s_block z) = 1024"
  shows "dir_ok d \<Longrightarrow> entries d = es \<Longrightarrow> loop_inode f inside es inode \<Longrightarrow> \<forall>n \<in> set ns. 0 \<notin> set n \<Longrightarrow>
    resolve T inside es ns i = Some j \<Longrightarrow> walk z f ns i inode d = Some (j, f)"
proof (induction ns arbitrary: inside es d inode i)
  case (Cons n ns)
  have f: "fs_ok f" using R by (simp add: rep_def)
  have w: "directory_wf d" using Cons.prems(1) by (simp add: dir_ok_def)
  have look: "directory_lookup d n = Some (case map_of es n of Some i \<Rightarrow> i | None \<Rightarrow> - 1)"
    using directory_lookup_spec [of d n] Cons.prems by simp
  have enter: "walk z f (n # ns) i inode d = Some (j, f)"
    if l: "directory_lookup d n = Some i'" "read_inode z f i' inode = Some (st, inode', f)"
      and n: "node_at f p inode'" "ino_type inode' = INODE_DIRECTORY" "content_rep f inode' (Dir es')"
      and r: "resolve T True es' ns i' = Some j" for i' st inode' p es'
  proof -
    obtain d' where d': "read_dir z f inode' d = Some (0, d', inode', f)" "dir_ok d'" "entries d' = es'"
      by (rule read_dir_node [OF f n z w])
    have "loop_inode f True es' inode'" using n by (auto simp: loop_inode_def)
    then have "walk z f ns i' inode' d' = Some (j, f)" using Cons.prems(4) r by (intro Cons.IH [OF d'(2,3)]) simp_all
    then show ?thesis using l n(2) d'(1) by simp
  qed
  show ?case
  proof (cases "map_of es n")
    case None
    show ?thesis
    proof (cases inside)
      case True
      then obtain p where "node_at f p inode" "ino_type inode = INODE_DIRECTORY" "content_rep f inode (Dir es)"
        using Cons.prems(3) by (auto simp: loop_inode_def)
      then show ?thesis using look None Cons.prems(5) True by (intro enter [of "- 1" "- 1" inode p es]) simp_all
    next
      case False
      then have "j = - 1" "ino_type inode \<noteq> INODE_DIRECTORY" using None Cons.prems(3,5) by (simp_all add: loop_inode_def)
      then show ?thesis using look None by simp
    qed
  next
    case (Some k)
    then obtain nd where nd: "T k = Some nd" using Cons.prems(5) by (cases "T k") simp_all
    obtain inode' where r: "read_inode z f k inode = Some (0, inode', f)" "node_at f k inode'" "ino_type inode' = node_type nd"
      "content_rep f inode' nd"
      by (rule rep_cases [OF R nd z loop_inode_wf [OF Cons.prems(3)]])
    show ?thesis
    proof (cases nd)
      case (Dir es')
      then show ?thesis using look Some r nd Cons.prems(5) by (intro enter [of k 0 inode' k es']) simp_all
    qed (use look Some r nd Cons.prems(5) in \<open>auto split: if_splits\<close>)
  qed
qed simp

lemma tokens_subset: "\<Union> (set ` set (tokens cs)) \<subseteq> set cs"
proof (induction cs)
  case (Cons c cs)
  consider "c = slash" | "c \<noteq> slash" "cs = []" | ds where "c \<noteq> slash" "cs = slash # ds"
    | d ds where "c \<noteq> slash" "cs = d # ds" "d \<noteq> slash" by (cases cs) auto
  then show ?case
  proof cases
    case 4
    then obtain t ts where ts: "tokens cs = t # ts" using tokens_nonempty by (metis list.exhaust)
    then have "tokens (c # cs) = (c # t) # ts" using 4 tokens_join [OF 4(1,3), of ds] by simp
    then show ?thesis using Cons ts by auto
  qed (use Cons in auto)
qed simp

lemma tokens_no_nul: "0 \<notin> set cs \<Longrightarrow> t \<in> set (tokens cs) \<Longrightarrow> 0 \<notin> set t"
  using tokens_subset by blast

text \<open>What a path leads to from the directory \<open>es\<close>; the path of slashes only is the directory itself.\<close>

definition leads_to :: "tree \<Rightarrow> dir_entries \<Rightarrow> u8 list \<Rightarrow> int option" where
  "leads_to T es path = resolve T False es (case tokens path of [] \<Rightarrow> [bstr ''.''] | ts \<Rightarrow> ts) (- 1)"

text \<open>The uninitialised inode of the caller's stack neither claims to be a directory nor lists blocks.\<close>

definition calm :: "stack \<Rightarrow> bool" where
  "calm z \<longleftrightarrow> stack_wf z \<and> ino_type (s_inode z) \<noteq> INODE_DIRECTORY \<and> blocks_allocated (s_inode z) = 0"

lemma calmD: "calm z \<Longrightarrow> stack_wf z" "calm z \<Longrightarrow> blocks_allocated (s_inode z) = 0"
  by (simp_all add: calm_def)

lemma path_resolves:
  assumes R: "rep f T" and z: "calm z" and d: "dir_ok d" "entries d = es"
    and path: "length path < 1024" "0 \<notin> set path" "leads_to T es path = Some j"
  shows "path_to_inode_id z f d path = Some (j, f)"
proof -
  let ?ns = "case tokens path of [] \<Rightarrow> [bstr ''.''] | ts \<Rightarrow> ts"
  have "\<forall>n \<in> set ?ns. 0 \<notin> set n"
    using tokens_no_nul [OF path(2)] by (cases "tokens path") (auto simp: bstr_def)
  moreover have "loop_inode f False es (s_inode z)" using z by (simp add: loop_inode_def calm_def stack_wf_def)
  ultimately have "walk z f ?ns (- 1) (s_inode z) d = Some (j, f)"
    using z path(3) by (intro walk_resolves [OF R _ d]) (simp_all add: calm_def stack_wf_def leads_to_def)
  then show ?thesis using path(1) by (simp add: path_to_inode_id_def strcpy_def fs_consts)
qed

section \<open>Opening a file\<close>

text \<open>The directory that the path before the file's name leads to.\<close>

definition dir_of :: "tree \<Rightarrow> dir_entries \<Rightarrow> u8 list \<Rightarrow> dir_entries option" where
  "dir_of T es path = (if path = [] then Some es
     else case leads_to T es path of None \<Rightarrow> None
          | Some i \<Rightarrow> (case T i of Some (Dir es') \<Rightarrow> Some es' | _ \<Rightarrow> None))"

lemma dir_parts:
  assumes R: "rep f T" and z: "calm z" and d: "dir_ok d" "entries d = root"
    and path: "length path < 1024" "0 \<notin> set path" "dir_of T root path = Some es" "path \<noteq> []"
  obtains p inode e where "path_to_inode_id z f d path = Some (p, f)" "read_inode z f p (s_inode z) = Some (0, inode, f)"
    "read_dir z f inode (s_dir z) = Some (0, e, inode, f)" "dir_ok e" "entries e = es"
proof -
  obtain p where p: "leads_to T root path = Some p" "T p = Some (Dir es)"
    using path(3,4) by (auto simp: dir_of_def split: option.splits node.splits)
  have z': "length (s_block z) = 1024" "inode_wf (s_inode z)" "directory_wf (s_dir z)"
    using z by (simp_all add: calm_def stack_wf_def)
  obtain inode where i: "read_inode z f p (s_inode z) = Some (0, inode, f)" "node_at f p inode"
    "ino_type inode = node_type (Dir es)" "content_rep f inode (Dir es)"
    by (rule rep_cases [OF R p(2) z'(1,2)])
  have "fs_ok f" using R by (simp add: rep_def)
  then obtain e where "read_dir z f inode (s_dir z) = Some (0, e, inode, f)" "dir_ok e" "entries e = es"
    using read_dir_node [OF _ i(2) _ i(4) z'(1,3)] i(3) by auto
  then show thesis using that [OF path_resolves [OF R z d path(1,2) p(1)] i(1)] by simp
qed

lemma enter_dir:
  assumes R: "rep f T" and z: "calm z" and d: "dir_ok d" "entries d = root"
    and path: "length path < 1024" "0 \<notin> set path" "dir_of T root path = Some es"
  obtains e where "(if path = [] then Some (d, f)
      else do {
        (i, f) \<leftarrow> path_to_inode_id z f d path;
        (_, inode, f) \<leftarrow> read_inode z f i (s_inode z);
        (_, dir, _, f) \<leftarrow> read_dir z f inode (s_dir z);
        Some (dir, f)
      }) = Some (e, f)" "dir_ok e" "entries e = es"
proof (cases "path = []")
  case True
  then show thesis using that [of d] d path(3) by (simp add: dir_of_def)
next
  case False
  obtain p inode e where "path_to_inode_id z f d path = Some (p, f)" "read_inode z f p (s_inode z) = Some (0, inode, f)"
    "read_dir z f inode (s_dir z) = Some (0, e, inode, f)" "dir_ok e" "entries e = es"
    by (rule dir_parts [OF R z d path False])
  then show thesis using that [of e] False by simp
qed

lemma leads_to_name:
  assumes "component name"
  shows "map_of es name = None \<Longrightarrow> leads_to T es name = Some (- 1)"
    "map_of es name = Some i \<Longrightarrow> T i = Some nd \<Longrightarrow> nd \<noteq> Blank INODE_DIRECTORY \<Longrightarrow> leads_to T es name = Some i"
  using assms by (simp_all add: leads_to_def tokens_component inode_types split: node.splits)

lemma open_file_old:
  assumes R: "rep f T" and z: "calm z" and d: "dir_ok d" "entries d = root"
    and path: "length path + length name + 1 < 1024" "0 \<notin> set path" "dir_of T root path = Some es"
    and name: "component name" "length name < 100" "0 \<notin> set name"
    and i: "map_of es name = Some i" "T i = Some nd" "nd \<noteq> Blank INODE_DIRECTORY"
  shows "open_file z f t d (path @ slash # name) flags = do { (fd, t) \<leftarrow> add_fd t i flags; Some (fd, t, f) }"
proof -
  obtain e where e: "(if path = [] then Some (d, f)
      else do {
        (i, f) \<leftarrow> path_to_inode_id z f d path;
        (_, inode, f) \<leftarrow> read_inode z f i (s_inode z);
        (_, dir, _, f) \<leftarrow> read_dir z f inode (s_dir z);
        Some (dir, f)
      }) = Some (e, f)" "dir_ok e" "entries e = es"
    by (rule enter_dir [OF R z d _ path(2,3)]) (use path(1) in simp)
  have parse: "parse_filename (path @ slash # name) = Some (0, name, path)" by (rule parse_filename_spec [OF name(1,2) path(1)])
  have last: "path_to_inode_id z f e name = Some (i, f)"
    by (rule path_resolves [OF R z e(2,3) _ name(3)]) (use path(1) leads_to_name(2) [where T = T, OF name(1) i] in simp_all)
  have "0 \<le> i" using rep_node [OF R i(2)] by (simp add: home_def inode_slot_def)
  then show ?thesis unfolding open_file_def parse Option.bind.bind_lunit prod.case e(1) last by simp
qed

lemma open_file_missing:
  assumes R: "rep f T" and z: "calm z" and d: "dir_ok d" "entries d = root"
    and path: "length path + length name + 1 < 1024" "0 \<notin> set path" "dir_of T root path = Some es"
    and name: "component name" "length name < 100" "0 \<notin> set name" "map_of es name = None"
    and flags: "\<not> (flags = WRITE \<or> flags = READ_WRITE \<or> flags = WRITE_GLOBAL)"
  shows "open_file z f t d (path @ slash # name) flags = Some (- 1, t, f)"
proof -
  obtain e where e: "(if path = [] then Some (d, f)
      else do {
        (i, f) \<leftarrow> path_to_inode_id z f d path;
        (_, inode, f) \<leftarrow> read_inode z f i (s_inode z);
        (_, dir, _, f) \<leftarrow> read_dir z f inode (s_dir z);
        Some (dir, f)
      }) = Some (e, f)" "dir_ok e" "entries e = es"
    by (rule enter_dir [OF R z d _ path(2,3)]) (use path(1) in simp)
  have parse: "parse_filename (path @ slash # name) = Some (0, name, path)" by (rule parse_filename_spec [OF name(1,2) path(1)])
  have last: "path_to_inode_id z f e name = Some (- 1, f)"
    using path(1) by (intro path_resolves [OF R z e(2,3) _ name(3) leads_to_name(1) [OF name(1,4)]]) simp_all
  show ?thesis unfolding open_file_def parse Option.bind.bind_lunit prod.case e(1) last using flags by simp
qed

text \<open>A file that is not there is created in its directory when it is opened for writing.\<close>

abbreviation creates :: "int \<Rightarrow> bool" where
  "creates flags \<equiv> flags = WRITE \<or> flags = READ_WRITE \<or> flags = WRITE_GLOBAL"

definition add_name :: "tree \<Rightarrow> dir_entries \<Rightarrow> u8 list \<Rightarrow> int \<Rightarrow> node \<Rightarrow> tree" where
  "add_name T es name i nd = T(i \<mapsto> nd, snd (hd es) \<mapsto> Dir (es @ [(name, i)]))"

lemma open_file_new:
  assumes R: "rep f T" and z: "calm z" and d: "dir_ok d" "entries d = root"
    and path: "length path + length name + 1 < 1024" "0 \<notin> set path" "dir_of T root path = Some es"
    and name: "component name" "length name < 100" "0 \<notin> set name"
    and new: "name \<notin> fst ` set es" "length es < 9" "es \<noteq> []" "T (snd (hd es)) = Some (Dir es)" "creates flags"
    and i: "offers f i" and room: "room f 1044 k"
  obtains f' where "open_file z f t d (path @ slash # name) flags = do { (fd, t) \<leftarrow> add_fd t i flags; Some (fd, t, f') }"
    "rep f' (add_name T es name i (Blank INODE_FILE))" "T i = None" "free_list (sb f') = drop k (free_list (sb f))"
    "bits (free_inode_bitmap (sb f')) = insert i (bits (free_inode_bitmap (sb f)))" "shape f' = shape f"
proof -
  obtain e where e: "(if path = [] then Some (d, f)
      else do {
        (i, f) \<leftarrow> path_to_inode_id z f d path;
        (_, inode, f) \<leftarrow> read_inode z f i (s_inode z);
        (_, dir, _, f) \<leftarrow> read_dir z f inode (s_dir z);
        Some (dir, f)
      }) = Some (e, f)" "dir_ok e" "entries e = es"
    by (rule enter_dir [OF R z d _ path(2,3)]) (use path(1) in simp)
  have parse: "parse_filename (path @ slash # name) = Some (0, name, path)" by (rule parse_filename_spec [OF name(1,2) path(1)])
  have "map_of es name = None" using new(1) by (simp add: map_of_eq_None_iff)
  then have last: "path_to_inode_id z f e name = Some (- 1, f)"
    using path(1) by (intro path_resolves [OF R z e(2,3) _ name(3) leads_to_name(1) [OF name(1)]]) simp_all
  obtain e' f' where c: "create_file z f e name INODE_FILE = Some (i, e', f')"
    "rep f' (T(i \<mapsto> Blank INODE_FILE, snd (hd es) \<mapsto> Dir (entries e @ [(name, i)])))" "T i = None"
    "free_list (sb f') = drop k (free_list (sb f))" "bits (free_inode_bitmap (sb f')) = insert i (bits (free_inode_bitmap (sb f)))"
    "shape f' = shape f"
    by (rule create_file_node [OF R new(4) node_type.simps(3) calmD [OF z] e(2) _ _ _ name(3,2) _ i _ room, of INODE_FILE])
      (use new(1-3) e(3) in \<open>simp_all add: inode_types\<close>)
  have "open_file z f t d (path @ slash # name) flags = do { (fd, t) \<leftarrow> add_fd t i flags; Some (fd, t, f') }"
    unfolding open_file_def parse Option.bind.bind_lunit prod.case e(1) last using new(5) c(1) by auto
  then show thesis using that c(2-6) by (simp add: add_name_def e(3))
qed

end
