(* ===== verification/Tree_Calls.thy ===== *)
theory Tree_Calls
  imports Tree_Paths
begin

text \<open>
  The file system calls as operations on the tree: \<open>mounts k T\<close> says that the kernel has the tree \<open>T\<close> mounted,
  \<open>descriptor k fd i flags\<close> that the running process has inode \<open>i\<close> open as \<open>fd\<close>. Opening, writing, reading, making
  a directory and asking for the status of a file are the operations of the tree, and keep \<open>mounts\<close>.
\<close>

definition mounts :: "kernel \<Rightarrow> tree \<Rightarrow> bool" where
  "mounts k T \<longleftrightarrow> procs_wf (tbl k) \<and> fdt_ok (open_files k) \<and> (\<exists>f d. fs_of k = Some f \<and> rep f T \<and>
     root_dir k = Some d \<and> dir_ok d \<and> T 0 = Some (Dir (entries d)))"

definition descriptor :: "kernel \<Rightarrow> int \<Rightarrow> int \<Rightarrow> int \<Rightarrow> bool" where
  "descriptor k fd i flags \<longleftrightarrow> fd \<in> set (open_fds (tbl k) (cur (tbl k))) \<and>
     (\<exists>ys e zs. fds (open_files k) = ys @ e # zs \<and> fd_id e = fd \<and> (\<forall>y \<in> set ys. fd_id y \<noteq> fd) \<and>
        fd_flags e = flags \<and> fd_inode_id e = i)"

lemma mounts_fs: "mounts k T \<Longrightarrow> fs_of k = Some f \<Longrightarrow> rep f T"
  by (auto simp: mounts_def)

lemma put_fs_root [simp]: "root_dir (put_fs k f) = root_dir k"
  by (simp add: put_fs_def)

lemma mounts_put:
  assumes "mounts k T" "rep f' T'" "T' 0 = T 0"
  shows "mounts (put_fs k f') T'"
  using assms unfolding mounts_def by auto

lemma mounts_mem [simp]: "mounts (k\<lparr>mem := m\<rparr>) = mounts k"
  by (simp add: mounts_def fun_eq_iff)

lemma descriptor_put [simp]: "descriptor (put_fs k f) = descriptor k"
  by (simp add: descriptor_def fun_eq_iff)

section \<open>Reading and writing\<close>

text \<open>Which files a descriptor may be used for, the shared streams aside.\<close>

lemma descriptor_use:
  assumes k: "mounts k T" "fs_of k = Some f" "descriptor k fd i flags" and i: "T i = Some nd" and z: "stack_wf z"
    and fl: "flags = READ_WRITE \<or> flags = mode" "mode = READ \<or> mode = WRITE"
  obtains inode where "current_pid (tbl k) = Some (cur (tbl k))" "process_has_file_permission k (cur (tbl k)) fd mode = Some 1"
    "fdid_to_inode z f (open_files k) fd (s_inode z) = Some (0, inode, f)" "node_at f i inode"
    "ino_type inode = node_type nd" "content_rep f inode nd"
proof -
  have t: "procs_wf (tbl k)" "fdt_ok (open_files k)" "rep f T" using k(1) mounts_fs [OF k(1,2)] by (auto simp: mounts_def)
  obtain ys e zs where e: "fds (open_files k) = ys @ e # zs" "fd_id e = fd" "\<forall>y \<in> set ys. fd_id y \<noteq> fd"
    "fd_flags e = flags" "fd_inode_id e = i" "fd \<in> set (open_fds (tbl k) (cur (tbl k)))"
    using k(3) by (auto simp: descriptor_def)
  note first = fdid_to_fd_first [OF t(2) e(1-3)]
  have z': "length (s_block z) = 1024" "inode_wf (s_inode z)" using z by (simp_all add: stack_wf_def)
  obtain inode where n: "read_inode z f i (s_inode z) = Some (0, inode, f)" "node_at f i inode"
    "ino_type inode = node_type nd" "content_rep f inode nd"
    by (rule rep_cases [OF t(3) i z'])
  have "proc_fd_open (tbl k) (cur (tbl k)) fd = Some 1"
    using t(1) e(6) by (simp add: proc_fd_open_spec wf_table cur_valid)
  then have "process_has_file_permission k (cur (tbl k)) fd mode = Some 1"
    using first e(4) fl by (auto simp: process_has_file_permission_def READ_WRITE_def READ_GLOBAL_def WRITE_GLOBAL_def
      READ_def WRITE_def)
  moreover have "fdid_to_inode z f (open_files k) fd (s_inode z) = Some (0, inode, f)"
    using first e(5) n(1) by (simp add: fdid_to_inode_def)
  ultimately show thesis using that current_pid_cur [OF t(1)] n(2-4) by blast
qed

lemma node_file: "node_type nd = INODE_FILE \<Longrightarrow> (\<exists>x. nd = File x) \<or> nd = Blank INODE_FILE"
  by (cases nd) (simp_all add: inode_types)

lemma sys_write_tree:
  assumes k: "mounts k T" "fs_of k = Some f" "descriptor k fd i flags" "flags = READ_WRITE \<or> flags = WRITE"
    and i: "T i = Some nd" "node_type nd = INODE_FILE" and z: "stack_wf z" and room: "room f n b"
  obtains f' where "sys_write z k fd a n = Some (n, put_fs k f')"
    "mounts (put_fs k f') (T(i \<mapsto> File (load_bytes (mem k) a n)))" "frame f f' {i}"
    "free_list (sb f') = drop b (free_list (sb f))" "free_inode_bitmap (sb f') = free_inode_bitmap (sb f)"
proof -
  let ?x = "load_bytes (mem k) a n"
  have R: "rep f T" by (rule mounts_fs [OF k(1,2)])
  have f: "fs_ok f" using R by (simp add: rep_def)
  obtain inode where u: "current_pid (tbl k) = Some (cur (tbl k))" "process_has_file_permission k (cur (tbl k)) fd WRITE = Some 1"
    "fdid_to_inode z f (open_files k) fd (s_inode z) = Some (0, inode, f)" "node_at f i inode" "ino_type inode = node_type nd"
    by (rule descriptor_use [OF k(1-3) i(1) z k(4)]) simp_all
  have "0 < n" using room needs_bound [of "blen f" n b] f by (simp add: room_def fs_ok_def)
  then have len: "int (length ?x) = n" by simp
  obtain inode' f' where w: "write_to_inode z f inode 0 ?x n = Some (0, inode', u32_of_int n, f')" "frame f f' {i}"
    "node_at f' i inode'" "ino_type inode' = ino_type inode" "ino_size inode' = n" "stored f' inode' ?x"
    "free_list (sb f') = drop b (free_list (sb f))" "free_inode_bitmap (sb f') = free_inode_bitmap (sb f)"
    "claims f' i \<subseteq> claims f i \<union> set (take b (free_list (sb f)))" "\<forall>a \<in> set (take b (free_list (sb f))). a \<in> set (free_list (sb f)) \<and> owned f' a"
    by (rule write_node [OF f u(4), of z ?x b, unfolded len]) (use z room in \<open>simp_all add: stack_wf_def\<close>)
  have "node_rep f' i (File ?x)"
    unfolding node_rep_def using w(3-6) u(5) i(2) len by (intro exI [of _ inode']) simp
  then have "rep f' (T(i \<mapsto> File ?x))" using rep_update [OF R w(2) _ _ _ _ w(10)] rep_node [OF R i(1)] repD [OF R i(1)] w(8,9) i(1) by simp
  moreover have "i \<noteq> 0" using k(1) i by (auto simp: mounts_def inode_types)
  ultimately have "mounts (put_fs k f') (T(i \<mapsto> File ?x))" by (intro mounts_put [OF k(1)]) simp_all
  moreover have "sys_write z k fd a n = Some (n, put_fs k f')"
    using u(1-3,5) k(2) i(2) w(1) by (simp add: sys_write_def inode_types)
  ultimately show thesis using that w(2,7,8) by blast
qed

lemma sys_read_tree:
  assumes k: "mounts k T" "descriptor k fd i flags" "flags = READ_WRITE \<or> flags = READ"
    and i: "T i = Some (File x)" and z: "stack_wf z" and n: "0 < n" "n \<le> int (length x)"
  shows "sys_read z k fd a n = Some (n, k\<lparr>mem := store_bytes (mem k) a (take (nat n) x)\<rparr>)"
proof -
  obtain f where f: "fs_of k = Some f" using k(1) by (auto simp: mounts_def)
  have R: "rep f T" by (rule mounts_fs [OF k(1) f])
  obtain inode where u: "current_pid (tbl k) = Some (cur (tbl k))" "process_has_file_permission k (cur (tbl k)) fd READ = Some 1"
    "fdid_to_inode z f (open_files k) fd (s_inode z) = Some (0, inode, f)" "node_at f i inode"
    "ino_type inode = node_type (File x)" "content_rep f inode (File x)"
    by (rule descriptor_use [OF k(1) f k(2) i z k(3)]) simp_all
  have "read_from_inode z f inode 0 (load_bytes (mem k) a n) n = Some (0, take (nat n) x, inode, u32_of_int n, f)"
    using stored_read [of f z inode x "nat n" "load_bytes (mem k) a n"] R u(4,6) z n
    by (simp add: rep_def node_at_def stack_wf_def)
  then show ?thesis using u(1-3,5) f by (simp add: sys_read_def inode_types put_fs_same)
qed

section \<open>Opening\<close>

text \<open>The process and the table of open files have room for one more, inode \<open>i\<close> is not open, and no file was closed out of order.\<close>

definition can_open :: "kernel \<Rightarrow> int \<Rightarrow> bool" where
  "can_open k i \<longleftrightarrow> fdt_count (open_files k) < 10 \<and> length (open_fds (tbl k) (cur (tbl k))) < 10 \<and>
     (\<forall>e \<in> set (fds (open_files k)). fd_inode_id e \<noteq> i \<and> fd_id e \<noteq> fdt_count (open_files k))"

lemma read_root_tree:
  assumes R: "rep f T" "T 0 = Some (Dir es)" and z: "stack_wf z" and old: "directory_wf old"
  obtains d where "read_root_dir z f old = Some (0, d, f)" "dir_ok d" "entries d = es"
proof -
  have z': "length (s_block z) = 1024" "inode_wf (s_inode z)" using z by (simp_all add: stack_wf_def)
  obtain inode where i: "read_inode z f 0 (s_inode z) = Some (0, inode, f)" "node_at f 0 inode"
    "ino_type inode = node_type (Dir es)" "content_rep f inode (Dir es)"
    by (rule rep_cases [OF R z'])
  have f: "fs_ok f" using R(1) by (simp add: rep_def)
  obtain d where "read_dir z f inode old = Some (0, d, inode, f)" "dir_ok d" "entries d = es"
    by (rule read_dir_node [OF f i(2) _ i(4) z'(1) old]) (use i(3) in simp_all)
  then show thesis using that i(1) by (simp add: read_root_dir_def)
qed

lemma fs_of_put [simp]:
  "fs_of ((put_fs k f)\<lparr>open_files := t\<rparr>) = Some f" "fs_of ((put_fs k f)\<lparr>root_dir := r\<rparr>) = Some f"
  "fs_of ((put_fs k f)\<lparr>open_files := t, root_dir := r, tbl := s\<rparr>) = Some f"
  by (simp_all add: fs_of_def put_fs_def)

lemma refresh_root_tree:
  assumes R: "fs_of k = Some f" "rep f T" "T 0 = Some (Dir es)" "root_dir k = Some old" "directory_wf old" and z: "stack_wf z"
  obtains d where "refresh_root z k = Some (0, k\<lparr>root_dir := Some d\<rparr>)" "dir_ok d" "entries d = es"
proof -
  obtain d where d: "read_root_dir z f old = Some (0, d, f)" "dir_ok d" "entries d = es"
    by (rule read_root_tree [OF R(2,3) z R(5)])
  then have "refresh_root z k = Some (0, (put_fs k f)\<lparr>root_dir := Some d\<rparr>)" using R(1,4) by (simp add: refresh_root_def)
  then show thesis using that d(2,3) by (simp add: put_fs_same [OF R(1)])
qed

text \<open>The new descriptor comes last in the table of open files and in that of the process.\<close>

definition opens :: "kernel \<Rightarrow> kernel \<Rightarrow> int \<Rightarrow> int \<Rightarrow> bool" where
  "opens k k' i flags \<longleftrightarrow>
     fds (open_files k') = fds (open_files k) @ [\<lparr>fd_id = fdt_count (open_files k), fd_flags = flags, fd_inode_id = i\<rparr>] \<and>
     cur (tbl k') = cur (tbl k) \<and> (\<forall>p. valid_pid p \<longrightarrow> open_fds (tbl k') p =
       open_fds (tbl k) p @ (if p = cur (tbl k) then [fdt_count (open_files k)] else []))"

lemma sys_open_run:
  assumes k: "mounts k T" "fs_of k = Some f" "root_dir k = Some root" and o: "can_open k i" and z: "stack_wf z"
    and p: "parse_filename p = Some (0, name, dir)"
    and run: "open_file z f (open_files k) root p flags = do { (fd, t) \<leftarrow> add_fd (open_files k) i flags; Some (fd, t, f') }"
    and R: "rep f' T'" "T' 0 = Some (Dir es)"
  obtains k' where "sys_open z k p flags = Some (fdt_count (open_files k), k')" "mounts k' T'" "fs_of k' = Some f'"
    "descriptor k' (fdt_count (open_files k)) i flags" "mem k' = mem k" "opens k k' i flags"
proof -
  let ?n = "fdt_count (open_files k)" and ?p = "cur (tbl k)"
  have t: "procs_wf (tbl k)" "fdt_ok (open_files k)" "directory_wf root"
    using k(1,3) by (auto simp: mounts_def dir_ok_def)
  have c: "?n < 10" "\<forall>e \<in> set (fds (open_files k)). fd_inode_id e \<noteq> i" "length (open_fds (tbl k) ?p) < 10"
    "\<forall>e \<in> set (fds (open_files k)). fd_id e \<noteq> ?n" using o by (auto simp: can_open_def)
  obtain t' where t': "add_fd (open_files k) i flags = Some (?n, t')" "fdt_ok t'"
    "fds t' = fds (open_files k) @ [\<lparr>fd_id = ?n, fd_flags = flags, fd_inode_id = i\<rparr>]"
    using add_fd_new [OF t(2) c(1,2)] by blast
  let ?k = "(put_fs k f')\<lparr>open_files := t'\<rparr>"
  have rk: "root_dir ?k = Some root" using k(3) by (simp add: put_fs_def)
  obtain d where d: "refresh_root z ?k = Some (0, ?k\<lparr>root_dir := Some d\<rparr>)" "dir_ok d" "entries d = es"
    by (rule refresh_root_tree [OF fs_of_put(1) R rk t(3) z])
  obtain s' where s': "add_process_fd (tbl k) ?p ?n = Some (0, s')" "open_fds s' ?p = open_fds (tbl k) ?p @ [?n]"
    "\<forall>q. valid_pid q \<and> q \<noteq> ?p \<longrightarrow> blk s' q = blk (tbl k) q"
    using add_process_fd_spec [OF wf_table [OF t(1)] cur_valid [OF t(1)], of ?n] c(3) by auto
  have s: "procs_wf s'" "cur s' = ?p"
    using fd_procs_wf_cur(1) [OF t(1) s'(1)] fd_current(1) [OF s'(1)] by (simp_all add: cur_def)
  let ?k' = "?k\<lparr>root_dir := Some d, tbl := s'\<rparr>"
  have n: "0 \<le> ?n" using t(2) by (simp add: fdt_ok_def)
  have pid: "current_pid (tbl (?k\<lparr>root_dir := Some d\<rparr>)) = Some ?p" using current_pid_cur [OF t(1)] by simp
  have "sys_open z k p flags = Some (?n, ?k')"
    unfolding sys_open_def p k(2,3) Option.bind.bind_lunit prod.case run t'(1)
    using n by (simp only: less_irrefl if_False Option.bind.bind_lunit prod.case d(1) pid not_less) (simp add: s'(1))
  moreover have "mounts ?k' T'" using R d(2,3) t'(2) s(1) by (simp add: mounts_def)
  moreover have "descriptor ?k' ?n i flags"
  proof -
    let ?e = "\<lparr>fd_id = ?n, fd_flags = flags, fd_inode_id = i\<rparr>"
    show ?thesis using s'(2) s(2) c(4) t'(3) unfolding descriptor_def
      by (intro conjI exI [of _ "fds (open_files k)"] exI [of _ ?e] exI [of _ "[]"]) simp_all
  qed
  moreover have "opens k ?k' i flags" using s'(2,3) s(2) t'(3) by (simp add: opens_def open_fds_def)
  ultimately show thesis by (intro that [of ?k']) simp_all
qed

lemma dir_of_own:
  assumes "rep f T" "T 0 = Some (Dir root)" "dir_of T root path = Some es"
  shows "es \<noteq> []" "T (snd (hd es)) = Some (Dir es)"
proof -
  obtain i where "T i = Some (Dir es)"
    using assms(2,3) by (auto simp: dir_of_def split: if_splits option.splits node.splits)
  moreover from this have "es \<noteq> [] \<and> snd (hd es) = i"
    using repD [OF assms(1), of i] by (auto simp: node_rep_def node_at_def)
  ultimately show "es \<noteq> []" "T (snd (hd es)) = Some (Dir es)" by simp_all
qed

lemma sys_open_old:
  assumes k: "mounts k T" "T 0 = Some (Dir root)" and o: "can_open k i" and z: "calm z"
    and path: "length path + length name + 1 < 1024" "0 \<notin> set path" "dir_of T root path = Some es"
    and name: "component name" "length name < 100" "0 \<notin> set name"
    and i: "map_of es name = Some i" "T i = Some nd" "nd \<noteq> Blank INODE_DIRECTORY"
  obtains k' where "sys_open z k (path @ slash # name) flags = Some (fdt_count (open_files k), k')" "mounts k' T"
    "fs_of k' = fs_of k" "descriptor k' (fdt_count (open_files k)) i flags" "mem k' = mem k" "opens k k' i flags"
proof -
  obtain f d where f: "fs_of k = Some f" "rep f T" "root_dir k = Some d" "dir_ok d" "entries d = root"
    using k by (auto simp: mounts_def)
  show thesis
    by (rule sys_open_run [OF k(1) f(1,3) o calmD(1) [OF z] parse_filename_spec [OF name(1,2) path(1)]
        open_file_old [OF f(2) z f(4,5) path name i] f(2) k(2)]) (use that f(1) in simp)
qed

lemma sys_open_new:
  assumes k: "mounts k T" "T 0 = Some (Dir root)" "fs_of k = Some f" and o: "can_open k i" and z: "calm z"
    and path: "length path + length name + 1 < 1024" "0 \<notin> set path" "dir_of T root path = Some es"
    and name: "component name" "length name < 100" "0 \<notin> set name"
    and new: "name \<notin> fst ` set es" "length es < 9" "creates flags"
    and i: "offers f i" and room: "room f 1044 b"
  obtains k' f' where "sys_open z k (path @ slash # name) flags = Some (fdt_count (open_files k), k')" "T i = None"
    "mounts k' (add_name T es name i (Blank INODE_FILE))" "descriptor k' (fdt_count (open_files k)) i flags" "mem k' = mem k"
    "fs_of k' = Some f'" "free_list (sb f') = drop b (free_list (sb f))"
    "bits (free_inode_bitmap (sb f')) = insert i (bits (free_inode_bitmap (sb f)))" "shape f' = shape f" "opens k k' i flags"
proof -
  obtain d where f: "rep f T" "root_dir k = Some d" "dir_ok d" "entries d = root" using k by (auto simp: mounts_def)
  obtain f' where f': "open_file z f (open_files k) d (path @ slash # name) flags =
      do { (fd, t) \<leftarrow> add_fd (open_files k) i flags; Some (fd, t, f') }"
    "rep f' (add_name T es name i (Blank INODE_FILE))" "T i = None" "free_list (sb f') = drop b (free_list (sb f))"
    "bits (free_inode_bitmap (sb f')) = insert i (bits (free_inode_bitmap (sb f)))" "shape f' = shape f"
    by (rule open_file_new [OF f(1) z f(3,4) path name new(1,2) dir_of_own [OF f(1) k(2) path(3)] new(3) i room])
  have "\<exists>es0. add_name T es name i (Blank INODE_FILE) 0 = Some (Dir es0)"
    using k(2) f'(3) by (auto simp: add_name_def)
  then obtain es0 where "add_name T es name i (Blank INODE_FILE) 0 = Some (Dir es0)" ..
  then show thesis
    by (rule sys_open_run [OF k(1,3) f(2) o calmD(1) [OF z] parse_filename_spec [OF name(1,2) path(1)] f'(1,2)])
      (use that f'(3-6) in simp)
qed

lemma sys_open_missing:
  assumes k: "mounts k T" "T 0 = Some (Dir root)" and z: "calm z"
    and path: "length path + length name + 1 < 1024" "0 \<notin> set path" "dir_of T root path = Some es"
    and name: "component name" "length name < 100" "0 \<notin> set name" "map_of es name = None" and flags: "\<not> creates flags"
  shows "sys_open z k (path @ slash # name) flags = Some (- 1, error k ''Failed to open file\<newline>'')"
proof -
  obtain f d where f: "fs_of k = Some f" "rep f T" "root_dir k = Some d" "dir_ok d" "entries d = root"
    using k by (auto simp: mounts_def)
  show ?thesis
    unfolding sys_open_def parse_filename_spec [OF name(1,2) path(1)] f(1,3) Option.bind.bind_lunit prod.case
      open_file_missing [OF f(2) z f(4,5) path name flags] by (simp add: put_fs_same [OF f(1)])
qed

section \<open>Directories and status\<close>

lemma sys_mkdir_tree:
  assumes k: "mounts k T" "T 0 = Some (Dir root)" "fs_of k = Some f" and z: "calm z"
    and path: "length path + length name + 1 < 1024" "0 \<notin> set path" "dir_of T root path = Some es"
    and name: "component name" "length name < 100" "0 \<notin> set name"
    and new: "name \<notin> fst ` set es" "length es < 9"
    and i: "offers f i" and room: "needs (blen f) 1044 b" "b \<le> 6" "free_space f (b + b)"
  obtains k' f' where "sys_mkdir z k (path @ slash # name) = Some (s_ret z, k')" "T i = None"
    "mounts k' (add_name T es name i (Dir (new_dir i (snd (hd es)))))" "mem k' = mem k"
    "fs_of k' = Some f'" "free_list (sb f') = drop (b + b) (free_list (sb f))" "shape f' = shape f"
    "bits (free_inode_bitmap (sb f')) = insert i (bits (free_inode_bitmap (sb f)))" "open_files k' = open_files k" "tbl k' = tbl k"
proof -
  obtain d where f: "rep f T" "root_dir k = Some d" "dir_ok d" "entries d = root" using k by (auto simp: mounts_def)
  note own = dir_of_own [OF f(1) k(2) path(3)]
  obtain e where e: "(if path = [] then Some (0, 0, d, f)
      else do {
        (i, f) \<leftarrow> path_to_inode_id z f d path;
        (r1, inode, f) \<leftarrow> read_inode z f i (s_inode z);
        if r1 < 0 then Some (r1, 0, s_dir z, f)
        else do {
          (r2, dir, _, f) \<leftarrow> read_dir z f inode (s_dir z);
          Some (0, r2, dir, f)
        }
      }) = Some (0, 0, e, f)" "dir_ok e" "entries e = es"
  proof (cases "path = []")
    case True
    then show thesis using that [of d] f(3,4) path(3) by (simp add: dir_of_def)
  next
    case False
    obtain p inode e where "path_to_inode_id z f d path = Some (p, f)" "read_inode z f p (s_inode z) = Some (0, inode, f)"
      "read_dir z f inode (s_dir z) = Some (0, e, inode, f)" "dir_ok e" "entries e = es"
      by (rule dir_parts [OF f(1) z f(3,4) _ path(2,3) False]) (use path(1) in simp)
    then show thesis using that [of e] False by simp
  qed
  obtain s e' new f' where c: "create_directory z f e name zero_directory = Some (s, e', new, f')" "0 \<le> s"
    "rep f' (T(i \<mapsto> Dir (new_dir i (snd (hd es))), snd (hd es) \<mapsto> Dir (entries e @ [(name, i)])))" "T i = None"
    "free_list (sb f') = drop (b + b) (free_list (sb f))" "shape f' = shape f"
    "bits (free_inode_bitmap (sb f')) = insert i (bits (free_inode_bitmap (sb f)))"
    by (rule create_directory_node [OF f(1) own(2) node_type.simps(3) calmD [OF z] e(2) _ _ _ name(3,2) _ i room])
      (use new own(1) e(3) in simp_all)
  let ?T = "add_name T es name i (Dir (new_dir i (snd (hd es))))"
  have R: "rep f' ?T" using c(3) by (simp add: add_name_def e(3))
  have "\<exists>es0. ?T 0 = Some (Dir es0)" using k(2) c(4) by (auto simp: add_name_def)
  then obtain es0 where es0: "?T 0 = Some (Dir es0)" ..
  obtain d' where d': "refresh_root z (put_fs k f') = Some (0, (put_fs k f')\<lparr>root_dir := Some d'\<rparr>)" "dir_ok d'" "entries d' = es0"
    by (rule refresh_root_tree [OF put_fs_simps(4) R es0 _ _ calmD(1) [OF z], where old = d]) (use f(2,3) in \<open>simp_all add: dir_ok_def\<close>)
  have "sys_mkdir z k (path @ slash # name) = Some (s_ret z, (put_fs k f')\<lparr>root_dir := Some d'\<rparr>)"
    unfolding sys_mkdir_def parse_filename_spec [OF name(1,2) path(1)] Option.bind.bind_lunit prod.case k(3) f(2) e(1) c(1)
    using c(2) d'(1) by simp
  moreover have "mounts ((put_fs k f')\<lparr>root_dir := Some d'\<rparr>) ?T"
    using k(1) R es0 d'(2,3) by (auto simp: mounts_def)
  ultimately show thesis using c(4-7) by (intro that [of "(put_fs k f')\<lparr>root_dir := Some d'\<rparr>" f']) simp_all
qed

text \<open>The first words of what \<open>sys_stat\<close> stores: the type and, for a file, the length.\<close>

lemma sys_stat_tree:
  assumes k: "mounts k T" "T 0 = Some (Dir root)" and z: "calm z"
    and path: "length path < 1024" "0 \<notin> set path" "leads_to T root path = Some i" and i: "T i = Some nd"
  obtains size times where "sys_stat z k path a =
      Some (0, k\<lparr>mem := store_bytes (mem k) a (enc_int (node_type nd) @ enc_int size @ times)\<rparr>)"
    "length times = 8" "\<And>x. nd = File x \<Longrightarrow> size = int (length x)"
proof -
  obtain f d where f: "fs_of k = Some f" "rep f T" "root_dir k = Some d" "dir_ok d" "entries d = root"
    using k by (auto simp: mounts_def)
  have z': "length (s_block z) = 1024" "inode_wf (s_inode z)" using calmD(1) [OF z] by (simp_all add: stack_wf_def)
  obtain inode where n: "read_inode z f i (s_inode z) = Some (0, inode, f)" "ino_type inode = node_type nd"
    "content_rep f inode nd" "0 \<le> i"
    by (rule rep_cases [OF f(2) i z'])
  have "path_to_inode_id z f d path = Some (i, f)" by (rule path_resolves [OF f(2) z f(4,5) path])
  then have "sys_stat z k path a = Some (0, k\<lparr>mem := store_bytes (mem k) a
      (enc_int (node_type nd) @ enc_int (ino_size inode) @ le32 (creation_time inode) @ le32 (modification_time inode))\<rparr>)"
    using f(1,3) n(1,2,4) by (simp add: sys_stat_def put_fs_same enc_file_stat_def)
  then show thesis using n(3) by (intro that [of "ino_size inode"]) auto
qed

end
