(* ===== verification/Tree_Mount.thy ===== *)
theory Tree_Mount
  imports Tree_Calls
begin

text \<open>
  What the first mount of a disk makes of it: the superblock of \<open>new_superblock\<close> is computed (\<open>first_sb\<close>), the
  inodes are written, and the tree grows from the root directory to the devices. A later mount finds the tree again.
\<close>

section \<open>The next inode\<close>

text \<open>The first \<open>m\<close> inodes are taken, and every inode has a block of its own.\<close>

definition inodes_taken :: "fs \<Rightarrow> int \<Rightarrow> bool" where
  "inodes_taken f m \<longleftrightarrow> bits (free_inode_bitmap (sb f)) = {0..<m} \<and> (\<forall>i. 0 \<le> i \<and> i < inode_num (sb f) \<longrightarrow> home f i)"

lemma inodes_taken_shape:
  assumes "inodes_taken f m" "shape f' = shape f" "bits (free_inode_bitmap (sb f')) = {0..<m'}"
  shows "inodes_taken f' m'"
  using assms(1,3) shape_home [OF assms(2)] assms(2) by (simp add: inodes_taken_def shape_def)

lemma inodes_taken_next:
  assumes "inodes_taken f m" "shape f' = shape f" "bits (free_inode_bitmap (sb f')) = insert m (bits (free_inode_bitmap (sb f)))" "0 \<le> m"
  shows "inodes_taken f' (m + 1)"
  using assms(1,3,4) by (intro inodes_taken_shape [OF assms(1,2)]) (auto simp: inodes_taken_def)

lemma taken_offers:
  assumes t: "inodes_taken f m" and f: "fs_ok f" and m: "0 \<le> m" "m < inode_num (sb f)" "m < 32"
  shows "offers f m"
proof -
  let ?bm = "free_inode_bitmap (sb f)"
  have inb: "in_bitmap ?bm i" if "0 \<le> i" "i \<le> m" for i
    using f that m(3) by (simp add: in_bitmap_def fs_ok_def superblock_wf_def)
  have split: "[0..inode_num (sb f) - 1] = [0..m - 1] @ m # [m + 1..inode_num (sb f) - 1]"
    using m(1,2) upto_split1 [of 0 m "inode_num (sb f) - 1"] upto_rec1 [of m "inode_num (sb f) - 1"] by simp
  have "find_first (\<lambda>n. do { b \<leftarrow> get_bit ?bm n; Some (b = 0) }) [0..inode_num (sb f) - 1] = Some (Some m)"
  proof (rule find_first_head [where P = "\<lambda>i. i \<notin> bits ?bm"])
    show "filter (\<lambda>i. i \<notin> bits ?bm) [0..inode_num (sb f) - 1] = m # [m + 1..inode_num (sb f) - 1]"
      unfolding split using t by (auto simp: inodes_taken_def filter_empty_conv)
    show "do { b \<leftarrow> get_bit ?bm i; Some (b = 0) } = Some (i \<notin> bits ?bm)"
      if "i \<in> set [0..inode_num (sb f) - 1]" "i \<le> m" for i
      using get_bit_bits [OF inb [of i]] that by simp
  qed simp
  then have "free_inode_id (sb f) = Some m" by (simp add: free_inode_id_def first_free_def)
  moreover have "backed m" using m(1,3) by (simp add: backed_def)
  ultimately show ?thesis using inb [of m] t m(1,2) by (simp add: offers_def inodes_taken_def)
qed

section \<open>The superblock of a new disk\<close>

definition inodes_of :: "int \<Rightarrow> int" where
  "inodes_of n = min (n div 6) 1024"

definition first_sb :: "disk \<Rightarrow> superblock_t" where
  "first_sb d = zero_superblock\<lparr>disk_block_num := block_num (peer d), disk_block_length := block_len (peer d),
     inode_num := inodes_of (block_num (peer d)), inode_start := 1,
     data_block_start := 1 + u32_of_int (inodes_of (block_num (peer d)))\<rparr>"

text \<open>A disk that can be mounted: superblock and inode fit into a block each, and the first twelve data blocks have a bit.\<close>

definition mountable :: "disk \<Rightarrow> bool" where
  "mountable d \<longleftrightarrow> disk_wf d \<and> 564 \<le> block_len (peer d) \<and> block_len (peer d) \<le> 1024 \<and> 36 \<le> block_num (peer d) \<and>
     (inodes_of (block_num (peer d)) + 1) mod 128 \<le> 20"

text \<open>The blocks with a bit that follow these twelve, which the first mount does not use.\<close>

definition spare_blocks :: "disk \<Rightarrow> nat" where
  "spare_blocks d = nat (min (20 - (inodes_of (block_num (peer d)) + 1) mod 128)
     (block_num (peer d) - inodes_of (block_num (peer d)) - 13))"

lemma inodes_of_range: "36 \<le> n \<Longrightarrow> 6 \<le> inodes_of n \<and> inodes_of n \<le> 1024 \<and> inodes_of n + 13 \<le> n"
proof -
  assume "36 \<le> n"
  moreover have "6 * (n div 6) \<le> n" by simp
  moreover from \<open>36 \<le> n\<close> have "6 \<le> n div 6" by simp
  ultimately show ?thesis unfolding inodes_of_def by linarith
qed

lemma first_sb_simps [simp]:
  "disk_block_num (first_sb d) = block_num (peer d)" "disk_block_length (first_sb d) = block_len (peer d)"
  "inode_num (first_sb d) = inodes_of (block_num (peer d))" "inode_start (first_sb d) = 1"
  "data_block_start (first_sb d) = 1 + u32_of_int (inodes_of (block_num (peer d)))"
  "free_inode_bitmap (first_sb d) = replicate 8 0" "free_block_bitmap (first_sb d) = replicate 128 0"
  by (simp_all add: first_sb_def zero_superblock_def)

lemma new_superblock_ok:
  assumes "mountable (dk f)"
  shows "new_superblock f = Some \<lparr>sb = first_sb (dk f), dk = dk f\<rparr>"
proof -
  have d: "disk_wf (dk f)" "564 \<le> blen f" "blen f \<le> 1024" "36 \<le> block_num (peer (dk f))"
    using assms by (simp_all add: mountable_def)
  have "blocks_occupied (blen f) 564 = Some 1" "blocks_occupied (blen f) 48 = Some 1"
    using d blocks_occupied_ok [of "blen f" 564] blocks_occupied_ok [of "blen f" 48] one_block [of 564 "blen f"]
      one_block [of 48 "blen f"] by simp_all
  then have "new_superblock f = Some \<lparr>sb = (let n = block_num (peer (dk f)) div 6; n = (if n > 1024 then 1024 else n) in
      zero_superblock\<lparr>disk_block_num := block_num (peer (dk f)), disk_block_length := blen f, inode_num := n,
        inode_start := 1, data_block_start := 1 + u32_of_int n\<rparr>), dk = dk f\<rparr>"
    using d by (simp add: new_superblock_def disk_get_block_num_ok disk_get_block_len_ok fs_consts cdiv_nonneg
      sizeof_superblock_def sizeof_inode_def add.commute Let_def)
  then show ?thesis by (simp add: first_sb_def inodes_of_def min_def Let_def)
qed

lemma take_first:
  assumes "j \<le> k" "i \<le> j" "j = i + int n - 1"
  shows "take n [i..k] = [i..j]"
proof -
  have "[i..k] = [i..j] @ [j + 1..k]" by (rule upto_split2 [OF assms(2,1)])
  moreover have "length [i..j] = n" using assms(3) by simp
  ultimately show ?thesis by (simp only: take_append take_all order_refl diff_self_eq_0 take_0 append_Nil2)
qed

lemma mod_window:
  assumes "(n + 1) mod 128 + s \<le> 20" "1 + n \<le> a" "a \<le> n + 12 + (s :: int)" "0 \<le> s"
  shows "a mod 128 < 32"
proof -
  have "a = (n + 1) + (a - n - 1)" by simp
  then have "a mod 128 = ((n + 1) mod 128 + (a - n - 1)) mod 128" by (metis mod_add_left_eq)
  also have "\<dots> = (n + 1) mod 128 + (a - n - 1)" using assms by (intro mod_pos_pos_trivial) simp_all
  finally show ?thesis using assms by linarith
qed

lemma first_fs:
  assumes m: "mountable d"
  shows "fs_ok \<lparr>sb = first_sb d, dk = d\<rparr>" "inodes_taken \<lparr>sb = first_sb d, dk = d\<rparr> 0" "free_space \<lparr>sb = first_sb d, dk = d\<rparr> (12 + spare_blocks d)"
proof -
  let ?n = "block_num (peer d)" and ?f = "\<lparr>sb = first_sb d, dk = d\<rparr>"
  let ?N = "inodes_of ?n"
  have d: "disk_wf d" "36 \<le> ?n" "is_i32 ?n" "is_i32 (block_len (peer d))" "564 \<le> block_len (peer d)" "block_len (peer d) \<le> 1024"
    using m by (simp_all add: mountable_def disk_wf_def)
  let ?s = "int (spare_blocks d)"
  have N: "6 \<le> ?N" "?N \<le> 1024" "?N + 13 \<le> ?n" using inodes_of_range [OF d(2)] by simp_all
  have w0: "(?N + 1) mod 128 \<le> 20" using m by (simp add: mountable_def)
  then have s: "0 \<le> ?s" "(?N + 1) mod 128 + ?s \<le> 20" "?N + 13 + ?s \<le> ?n" using N by (simp_all add: spare_blocks_def)
  show "fs_ok ?f" using d N by (simp add: fs_ok_def superblock_wf_def)
  have w: "1 + u32_of_int a = u32_of_int (1 + a)" for a by (simp add: u32_of_int_def)
  have ds: "uint (data_block_start (first_sb d)) = 1 + ?N" using N by (simp add: w uint_small)
  have od: "on_disk d (u32_of_int a)" if "0 \<le> a" "a < ?n" for a
    using that d(3) by (simp add: on_disk_def int_of_u32_of_int i32_id)
  show "inodes_taken ?f 0" unfolding inodes_taken_def
  proof (intro conjI allI impI)
    fix i assume "0 \<le> i \<and> i < inode_num (sb ?f)"
    then have i: "0 \<le> i" "i < ?N" by simp_all
    have a: "inode_addr (first_sb d) i = u32_of_int (1 + i)" by (simp add: inode_addr_def u32_of_int_def)
    have u: "uint (u32_of_int (1 + i)) = 1 + i" using i N by (intro uint_small) simp_all
    then have "u32_of_int (1 + i) \<noteq> 0" using i by auto
    then show "home ?f i" using i N u od [of "1 + i"] by (simp add: home_def inode_slot_def a ds del: first_sb_simps(5))
  qed simp
  have "free_list (first_sb d) = [1 + ?N..?n - 1]"
    using d N by (simp add: free_list_def used_def addrs_def ds uint_small del: first_sb_simps(5))
  moreover have "take (12 + spare_blocks d) [1 + ?N..?n - 1] = [1 + ?N..?N + 12 + ?s]"
    using take_first [of "?N + 12 + ?s" "?n - 1" "1 + ?N" "12 + spare_blocks d"] N s by simp
  moreover have "data_block d a" if "a \<in> set [1 + ?N..?N + 12 + ?s]" for a
  proof -
    have a: "1 + ?N \<le> a" "a \<le> ?N + 12 + ?s" using that by simp_all
    have "a mod 128 < 32" by (rule mod_window [OF s(2) a s(1)])
    moreover have "?s \<le> 20" using s(2) pos_mod_sign [of 128 "?N + 1"] by simp
    ultimately show ?thesis using a N s od [of a] by (simp add: data_block_def backed_def)
  qed
  ultimately show "free_space ?f (12 + spare_blocks d)" using N s unfolding free_space_def by (simp only: fs.simps length_upto ball_simps) simp
qed

section \<open>A new disk\<close>

lemma init_inodes_from_ok:
  assumes "fs_ok f" "length (s_block z) = 1024" "\<forall>i \<in> set is. home f i" "distinct is"
  obtains f' where "init_inodes_from z is f = Some (0, f')" "fs_ok f'" "shape f' = shape f"
    "free_list (sb f') = free_list (sb f)" "free_inode_bitmap (sb f') = free_inode_bitmap (sb f)"
    "\<forall>i \<in> set is. inode_of f' i = new_inode i" "keeps_inodes f f' (set is)"
  using assms
proof (induction "is" arbitrary: f thesis)
  case (Cons i "is")
  have i: "inode_wf (new_inode i)" "home f (ino_id (new_inode i))"
    using Cons.prems(4) by (simp_all add: home_def new_inode_def inode_wf_def)
  obtain f1 where w: "write_inode z f (new_inode i) = Some (0, f1)" "fs_ok f1" "shape f1 = shape f"
    "free_list (sb f1) = free_list (sb f)" "free_inode_bitmap (sb f1) = free_inode_bitmap (sb f)"
    "get_block (dk f1) = (get_block (dk f))(inode_addr (sb f) i := padded (s_block z) (blen f) (enc_inode (new_inode i)),
      0 := padded (s_block z) (blen f) (enc_superblock (sb f1)))"
    by (rule write_inode_home [OF Cons.prems(2,3) i]) (simp add: new_inode_def)
  have hi: "home f i" using Cons.prems(4) by simp
  then have a0: "inode_addr (sb f) i \<noteq> 0" by (simp add: home_def inode_slot_def)
  have n: "node_at f1 i (new_inode i)"
    unfolding node_at_def using w(3,6) hi i(1) a0 shape_home [OF w(3)] shape_addr [OF w(3)]
    by (auto simp: shape_def new_inode_def)
  then have new: "inode_of f1 i = new_inode i" by (rule node_inode [OF w(2)])
  have kp: "keeps_inodes f f1 {i}"
    unfolding keeps_inodes_def
  proof (intro allI impI)
    fix j assume j: "home f j \<and> j \<notin> {i}"
    then have "inode_addr (sb f) j \<noteq> inode_addr (sb f) i" "inode_addr (sb f) j \<noteq> 0"
      using home_apart [of f j i] hi by (auto simp: home_def inode_slot_def)
    then show "inode_of f1 j = inode_of f j" by (simp add: inode_of_def shape_addr [OF w(3)] w(6))
  qed
  have h: "\<forall>i \<in> set is. home f1 i" using Cons.prems(4) shape_home [OF w(3)] by simp
  obtain f2 where "init_inodes_from z is f1 = Some (0, f2)" "fs_ok f2" "shape f2 = shape f1"
    "free_list (sb f2) = free_list (sb f1)" "free_inode_bitmap (sb f2) = free_inode_bitmap (sb f1)"
    "\<forall>i \<in> set is. inode_of f2 i = new_inode i" "keeps_inodes f1 f2 (set is)"
    by (rule Cons.IH [OF _ w(2) Cons.prems(3) h]) (use Cons.prems(5) in auto)
  moreover from this have "inode_of f2 i = new_inode i"
    using new hi shape_home [OF w(3), of i] Cons.prems(5) by (simp add: keeps_inodes_def)
  moreover have "keeps_inodes f f2 ({i} \<union> set is)" by (rule keeps_inodes_trans [OF kp w(3) calculation(7)])
  ultimately show ?case using w by (intro Cons.prems(1) [of f2]) simp_all
qed (simp add: keeps_inodes_def)

abbreviation root_tree :: tree where
  "root_tree \<equiv> [0 \<mapsto> Dir (new_dir 0 0)]"

lemma room_1044: "fs_ok f \<Longrightarrow> free_space f 2 \<Longrightarrow> room f 1044 2"
  by (simp add: room_def needs_def fs_ok_def)

lemma create_root_tree:
  assumes f: "fs_ok f" "inodes_taken f 0" "free_space f (2 + m)" "0 < inode_num (sb f)" and z: "calm z"
  obtains d f' where "create_root_directory z f = Some (0, d, f')" "dir_ok d" "entries d = new_dir 0 0" "rep f' root_tree"
    "shape f' = shape f" "inodes_taken f' 1" "free_space f' m" "keeps_inodes f f' {0}"
proof -
  have R: "rep f (\<lambda>_. None)" using f(1) by (rule rep_empty)
  have o: "offers f 0" using taken_offers [OF f(2,1)] f(4) by simp
  have ty: "is_i32 INODE_DIRECTORY" by (simp add: inode_types)
  obtain f1 where c: "create_inode_type z f INODE_DIRECTORY = Some (0, f1)" "frame f f1 {0}" "rep f1 [0 \<mapsto> Blank INODE_DIRECTORY]"
    "free_list (sb f1) = free_list (sb f)" "bits (free_inode_bitmap (sb f1)) = insert 0 (bits (free_inode_bitmap (sb f)))"
    by (rule create_inode_node [OF R calmD [OF z] o ty])
  define d where "d = \<lparr>files_count = 2, links = \<lparr>link_inode_id = 0, filename = replicate_to 100 (bstr ''.'')\<rparr> #
      \<lparr>link_inode_id = 0, filename = replicate_to 100 (bstr ''..'')\<rparr> # drop 2 (links zero_directory)\<rparr>"
  have e: "dir_ok d" "entries d = new_dir 0 0" using new_dir_ok [OF _ _ d_def] by simp_all
  have sh: "shape f1 = shape f" by (rule frame_shape [OF c(2)])
  have sp: "free_space f1 (2 + m)" using f(3) c(4) sh unfolding free_space_def data_block_def shape_def by simp
  have f1: "fs_ok f1" using c(3) by (simp add: rep_def)
  have ne: "entries d \<noteq> []" "snd (hd (entries d)) = 0" by (simp_all add: e(2))
  have T: "[0 \<mapsto> Blank INODE_DIRECTORY] 0 = Some (Blank INODE_DIRECTORY)" by simp
  obtain f2 where w: "write_dir z f1 d = Some (0, f2)" "frame f1 f2 {0}" "rep f2 ([0 \<mapsto> Blank INODE_DIRECTORY, 0 \<mapsto> Dir (entries d)])"
    "free_list (sb f2) = drop 2 (free_list (sb f1))" "free_inode_bitmap (sb f2) = free_inode_bitmap (sb f1)"
    by (rule write_dir_node [OF c(3) T node_type.simps(1) calmD(1) [OF z] e(1) ne room_1044 [OF f1 free_space_mono [OF sp]]]) simp
  have sh2: "shape f2 = shape f1" by (rule frame_shape [OF w(2)])
  have links: "link_to j s = Some \<lparr>link_inode_id = j, filename = replicate_to 100 s\<rparr>" if "length s < 100" for j s
    using that by (simp add: link_to_def strcpy_def fs_consts)
  have l: "length (bstr ''.'') < 100" "length (bstr ''..'') < 100" by (simp_all add: bstr_def)
  have ls: "wr (links zero_directory) 0 a = Some (a # drop 1 (links zero_directory))"
    "wr (a # drop 1 (links zero_directory)) 1 b = Some (a # b # drop 2 (links zero_directory))" for a b
    by (simp_all add: wr_def zero_directory_def numeral_eq_Suc)
  have h0: "home f 0" using f(2,4) by (simp add: inodes_taken_def)
  then have "home f1 0" using shape_home [OF sh] by simp
  then have "keeps_inodes f f2 ({0} \<union> {0})"
    using h0 by (intro keeps_inodes_trans [OF frame_inodes [OF c(2)] sh frame_inodes [OF w(2)]]) simp_all
  moreover have "create_root_directory z f = Some (0, d, f2)"
    unfolding create_root_directory_def c(1) Option.bind.bind_lunit prod.case links [OF l(1)] links [OF l(2)] ls Let_def
      d_def [symmetric] w(1) by simp
  moreover have "inodes_taken f2 1" using inodes_taken_next [OF f(2), of f2] sh2 sh w(5) c(5) by simp
  moreover have "free_space f2 m" using sh2 by (intro free_space_drop [OF sp w(4)]) (simp add: shape_def)
  ultimately show thesis using that e w(3) sh2 sh by (simp add: e(2))
qed

lemma or_status_zero [simp]: "or_status 0 0 = 0"
  by (simp add: or_status_def u32_of_int_def int_of_u32_def)

lemma first_disk:
  assumes m: "mountable (dk f)" and z: "calm z"
  obtains d f' where "init_disk z f = Some (0, d, f')" "dir_ok d" "entries d = new_dir 0 0" "rep f' root_tree"
    "inode_num (sb f') = inodes_of (block_num (peer (dk f)))" "inodes_taken f' 1" "free_space f' (10 + spare_blocks (dk f))" "blen f' = blen f"
    "\<forall>i. 1 \<le> i \<and> i < inode_num (sb f') \<longrightarrow> inode_of f' i = new_inode i"
proof -
  let ?f = "\<lparr>sb = first_sb (dk f), dk = dk f\<rparr>" and ?s = "10 + spare_blocks (dk f)"
  have z': "length (s_block z) = 1024" using calmD(1) [OF z] by (simp add: stack_wf_def)
  note g = first_fs [OF m]
  have N: "6 \<le> inode_num (sb ?f)" using inodes_of_range [of "block_num (peer (dk f))"] m by (simp add: mountable_def)
  obtain ws f1 where w: "write_superblock (s_block z) ?f = Some (0, f1)" "bits ws = insert 0 (used (first_sb (dk f)))"
    "sb f1 = (first_sb (dk f))\<lparr>free_block_bitmap := ws\<rparr>" "fs_ok f1" "on_disk (dk f1) = on_disk (dk f)" "blen f1 = blen f"
    using write_superblock_ok [OF g(1) z'] by auto
  have s1: "shape f1 = shape ?f" using w(3,5,6) by (simp add: shape_def)
  have t1: "inodes_taken f1 0" by (rule inodes_taken_shape [OF g(2) s1]) (simp add: w(3))
  have "uint (data_block_start (first_sb (dk f))) \<noteq> 0"
    using t1 N s1 by (auto simp: inodes_taken_def home_def shape_def dest!: spec [of _ 0])
  then have ne: "0 < uint (data_block_start (first_sb (dk f)))" using uint_ge_0 [of "data_block_start (first_sb (dk f))"] by linarith
  have fl1: "free_list (sb f1) = free_list (first_sb (dk f))"
    unfolding free_list_def w(3) using ne by (auto simp: used_def w(2) addrs_def intro!: filter_cong simp del: first_sb_simps)
  have n1: "inode_num (sb f1) = inode_num (sb ?f)" using s1 by (simp add: shape_def)
  have "\<forall>i \<in> set [0..inode_num (sb f1) - 1]. home f1 i" using t1 by (simp add: inodes_taken_def)
  then obtain f2 where i: "init_inodes z f1 = Some (0, f2)" "fs_ok f2" "shape f2 = shape f1"
    "free_list (sb f2) = free_list (sb f1)" "free_inode_bitmap (sb f2) = free_inode_bitmap (sb f1)"
    "\<forall>i \<in> set [0..inode_num (sb f1) - 1]. inode_of f2 i = new_inode i"
    unfolding init_inodes_def by (rule init_inodes_from_ok [OF w(4) z' _ distinct_upto])
  have t2: "inodes_taken f2 0" by (rule inodes_taken_shape [OF t1 i(3)]) (simp add: i(5) w(3))
  have s2: "free_space f2 (2 + ?s)" using g(3) i(3,4) s1 fl1 unfolding free_space_def shape_def data_block_def by simp
  have n2: "0 < inode_num (sb f2)" using i(3) n1 N by (simp add: shape_def)
  obtain d f3 where r: "create_root_directory z f2 = Some (0, d, f3)" "dir_ok d" "entries d = new_dir 0 0" "rep f3 root_tree"
    "shape f3 = shape f2" "inodes_taken f3 1" "free_space f3 ?s" "keeps_inodes f2 f3 {0}"
    by (rule create_root_tree [OF i(2) t2 s2 n2 z])
  have "init_disk z f = Some (0, d, f3)"
    unfolding init_disk_def new_superblock_ok [OF m] Option.bind.bind_lunit prod.case w(1) i(1) r(1) by simp
  moreover have "inode_num (sb f3) = inodes_of (block_num (peer (dk f)))" using r(5) i(3) n1 by (simp add: shape_def)
  moreover have "blen f3 = blen f" using r(5) i(3) s1 by (simp add: shape_def)
  moreover have "\<forall>i. 1 \<le> i \<and> i < inode_num (sb f3) \<longrightarrow> inode_of f3 i = new_inode i"
  proof (intro allI impI)
    fix j assume j: "1 \<le> j \<and> j < inode_num (sb f3)"
    then have "j < inode_num (sb f1)" "home f2 j" using r(5) i(3) t2 by (simp_all add: shape_def inodes_taken_def)
    then show "inode_of f3 j = new_inode j" using i(6) r(8) j by (simp add: keeps_inodes_def)
  qed
  ultimately show thesis using that r by blast
qed

text \<open>The devices in the directory \<open>/dev\<close>, with the next four inodes.\<close>

abbreviation dev_entries :: "int \<Rightarrow> dir_entries" where
  "dev_entries m \<equiv> new_dir m 0 @ [(bstr ''stdin'', m + 1), (bstr ''stdout'', m + 2), (bstr ''stderr'', m + 3)]"

definition with_devices :: "tree \<Rightarrow> dir_entries \<Rightarrow> int \<Rightarrow> tree" where
  "with_devices T es m = T(0 \<mapsto> Dir (es @ [(bstr ''dev'', m)]), m \<mapsto> Dir (dev_entries m),
     m + 1 \<mapsto> Blank INODE_DEVICE, m + 2 \<mapsto> Blank INODE_DEVICE, m + 3 \<mapsto> Blank INODE_DEVICE)"

lemma one_device:
  assumes R: "rep f T" "T p = Some (Dir (entries d))" and t: "inodes_taken f m" "0 \<le> m" "m < inode_num (sb f)" "m < 32"
    and sp: "free_space f (2 + s)" and z: "calm z"
    and d: "dir_ok d" "entries d \<noteq> []" "snd (hd (entries d)) = p" "length (entries d) < 9"
    and name: "0 \<notin> set name" "length name < 100" "name \<notin> fst ` set (entries d)"
  obtains d' f' where "create_file z f d name INODE_DEVICE = Some (m, d', f')" "dir_ok d'" "entries d' = entries d @ [(name, m)]"
    "rep f' (T(m \<mapsto> Blank INODE_DEVICE, p \<mapsto> Dir (entries d @ [(name, m)])))" "inodes_taken f' (m + 1)" "free_space f' s"
    "inode_num (sb f') = inode_num (sb f)" "blen f' = blen f" "p \<noteq> m"
    "shape f' = shape f" "keeps_inodes f f' {m, p}"
proof -
  have f: "fs_ok f" using R(1) by (simp add: rep_def)
  have o: "offers f m" by (rule taken_offers [OF t(1) f t(2-4)])
  have ty: "is_i32 INODE_DEVICE" by (simp add: inode_types)
  obtain d' f' where c: "create_file z f d name INODE_DEVICE = Some (m, d', f')" "dir_ok d'" "entries d' = entries d @ [(name, m)]"
    "rep f' (T(m \<mapsto> Blank INODE_DEVICE, p \<mapsto> Dir (entries d @ [(name, m)])))" "T m = None"
    "free_list (sb f') = drop 2 (free_list (sb f))" "bits (free_inode_bitmap (sb f')) = insert m (bits (free_inode_bitmap (sb f)))"
    "shape f' = shape f" "keeps_inodes f f' {m, p}"
    by (rule create_file_node [OF R node_type.simps(3) calmD [OF z] d name o ty room_1044 [OF f free_space_mono [OF sp]]]) simp
  have "inodes_taken f' (m + 1)" by (rule inodes_taken_next [OF t(1) c(8,7) t(2)])
  moreover have "free_space f' s" using c(8) by (intro free_space_drop [OF sp c(6)]) (simp add: shape_def)
  moreover have "p \<noteq> m" using R(2) c(5) by auto
  moreover have "inode_num (sb f') = inode_num (sb f)" "blen f' = blen f" using c(8) by (simp_all add: shape_def)
  ultimately show thesis using that [OF c(1-4) _ _ _ _ _ c(8,9)] by blast
qed

lemma device_names:
  "0 \<notin> set (bstr ''dev'')" "length (bstr ''dev'') < 100" "0 \<notin> set (bstr ''stdin'')" "length (bstr ''stdin'') < 100"
  "0 \<notin> set (bstr ''stdout'')" "length (bstr ''stdout'') < 100" "0 \<notin> set (bstr ''stderr'')" "length (bstr ''stderr'') < 100"
  "bstr ''stdin'' \<noteq> bstr ''stdout''" "bstr ''stdin'' \<noteq> bstr ''stderr''" "bstr ''stdout'' \<noteq> bstr ''stderr''"
  "bstr ''dev'' \<noteq> bstr ''.''" "bstr ''dev'' \<noteq> bstr ''..''"
  "bstr ''stdin'' \<notin> fst ` set (new_dir i p)" "bstr ''stdout'' \<notin> fst ` set (new_dir i p)" "bstr ''stderr'' \<notin> fst ` set (new_dir i p)"
  by (simp_all add: bstr_def)

lemma create_devices_tree:
  assumes R: "rep f T" "T 0 = Some (Dir (entries d))" and t: "inodes_taken f m" "1 \<le> m" "m + 3 < inode_num (sb f)" "m + 3 < 32"
    and sp: "free_space f (10 + s)" and z: "calm z"
    and d: "dir_ok d" "entries d \<noteq> []" "snd (hd (entries d)) = 0" "length (entries d) < 9" "bstr ''dev'' \<notin> fst ` set (entries d)"
  obtains d' f' where "create_io_devices z f d = Some (0, d', f')" "dir_ok d'" "entries d' = entries d @ [(bstr ''dev'', m)]"
    "rep f' (with_devices T (entries d) m)" "inodes_taken f' (m + 4)" "free_space f' s" "inode_num (sb f') = inode_num (sb f)"
    "blen f' = blen f" "keeps_inodes f f' ({0} \<union> {m..m + 3})"
proof -
  have f: "fs_ok f" using R(1) by (simp add: rep_def)
  have o: "offers f m" by (rule taken_offers [OF t(1) f]) (use t in simp_all)
  have needs2: "needs (blen f) 1044 2" using f by (simp add: needs_def fs_ok_def)
  obtain r d1 e1 f1 where c: "create_directory z f d (bstr ''dev'') zero_directory = Some (r, d1, e1, f1)" "0 \<le> r"
    "rep f1 (T(m \<mapsto> Dir (new_dir m 0), 0 \<mapsto> Dir (entries d @ [(bstr ''dev'', m)])))" "T m = None"
    "dir_ok d1" "entries d1 = entries d @ [(bstr ''dev'', m)]" "dir_ok e1" "entries e1 = new_dir m 0"
    "free_list (sb f1) = drop (2 + 2) (free_list (sb f))" "bits (free_inode_bitmap (sb f1)) = insert m (bits (free_inode_bitmap (sb f)))"
    "shape f1 = shape f" "keeps_inodes f f1 {m, 0}"
    by (rule create_directory_node [OF R node_type.simps(3) calmD [OF z] d(1-4) device_names(1,2) d(5) o needs2 _ free_space_mono [OF sp]])
      simp_all
  let ?T1 = "T(m \<mapsto> Dir (new_dir m 0), 0 \<mapsto> Dir (entries d @ [(bstr ''dev'', m)]))"
  have m0: "m \<noteq> 0" using t(2) by simp
  have N: "inode_num (sb f1) = inode_num (sb f)" using c(11) by (simp add: shape_def)
  have t1: "inodes_taken f1 (m + 1)" by (rule inodes_taken_next [OF t(1) c(11,10)]) (use t(2) in simp)
  have sp': "free_space f (4 + (2 + (2 + (2 + s))))" using sp by simp
  have "free_list (sb f1) = drop 4 (free_list (sb f))" using c(9) by simp
  then have s1: "free_space f1 (2 + (2 + (2 + s)))" using c(11) by (intro free_space_drop [OF sp']) (simp_all add: shape_def)
  have T1: "?T1 m = Some (Dir (entries e1))" using m0 by (simp add: c(8))
  have pre1: "0 \<le> m + 1" "m + 1 < inode_num (sb f1)" "m + 1 < 32" "entries e1 \<noteq> []" "snd (hd (entries e1)) = m"
    "length (entries e1) < 9" "bstr ''stdin'' \<notin> fst ` set (entries e1)"
    using t N device_names(14) [of m 0] by (simp_all add: c(8))
  obtain e2 f2 where 1: "create_file z f1 e1 (bstr ''stdin'') INODE_DEVICE = Some (m + 1, e2, f2)" "dir_ok e2"
    "entries e2 = entries e1 @ [(bstr ''stdin'', m + 1)]"
    "rep f2 (?T1(m + 1 \<mapsto> Blank INODE_DEVICE, m \<mapsto> Dir (entries e1 @ [(bstr ''stdin'', m + 1)])))" "inodes_taken f2 (m + 1 + 1)"
    "free_space f2 (2 + (2 + s))" "inode_num (sb f2) = inode_num (sb f1)" "blen f2 = blen f1"
    "m \<noteq> m + 1" "shape f2 = shape f1" "keeps_inodes f1 f2 {m + 1, m}"
    by (rule one_device [OF c(3) T1 t1 pre1(1-3) s1 z c(7) pre1(4-6) device_names(3,4) pre1(7)])
  let ?T2 = "?T1(m + 1 \<mapsto> Blank INODE_DEVICE, m \<mapsto> Dir (entries e1 @ [(bstr ''stdin'', m + 1)]))"
  have T2: "?T2 m = Some (Dir (entries e2))" by (simp add: 1(3))
  have pre2: "0 \<le> m + 1 + 1" "m + 1 + 1 < inode_num (sb f2)" "m + 1 + 1 < 32" "entries e2 \<noteq> []" "snd (hd (entries e2)) = m"
    "length (entries e2) < 9" "bstr ''stdout'' \<notin> fst ` set (entries e2)"
    using t N 1(7) device_names(9) device_names(15) [of m 0] by (simp_all add: c(8) 1(3))
  obtain e3 f3 where 2: "create_file z f2 e2 (bstr ''stdout'') INODE_DEVICE = Some (m + 1 + 1, e3, f3)" "dir_ok e3"
    "entries e3 = entries e2 @ [(bstr ''stdout'', m + 1 + 1)]"
    "rep f3 (?T2(m + 1 + 1 \<mapsto> Blank INODE_DEVICE, m \<mapsto> Dir (entries e2 @ [(bstr ''stdout'', m + 1 + 1)])))" "inodes_taken f3 (m + 1 + 1 + 1)"
    "free_space f3 (2 + s)" "inode_num (sb f3) = inode_num (sb f2)" "blen f3 = blen f2"
    "m \<noteq> m + 1 + 1" "shape f3 = shape f2" "keeps_inodes f2 f3 {m + 1 + 1, m}"
    by (rule one_device [OF 1(4) T2 1(5) pre2(1-3) 1(6) z 1(2) pre2(4-6) device_names(5,6) pre2(7)])
  let ?T3 = "?T2(m + 1 + 1 \<mapsto> Blank INODE_DEVICE, m \<mapsto> Dir (entries e2 @ [(bstr ''stdout'', m + 1 + 1)]))"
  have T3: "?T3 m = Some (Dir (entries e3))" by (simp add: 2(3))
  have pre3: "0 \<le> m + 1 + 1 + 1" "m + 1 + 1 + 1 < inode_num (sb f3)" "m + 1 + 1 + 1 < 32" "entries e3 \<noteq> []" "snd (hd (entries e3)) = m"
    "length (entries e3) < 9" "bstr ''stderr'' \<notin> fst ` set (entries e3)"
    using t N 1(7) 2(7) device_names(10,11) device_names(16) [of m 0] by (simp_all add: c(8) 1(3) 2(3))
  obtain e4 f4 where 3: "create_file z f3 e3 (bstr ''stderr'') INODE_DEVICE = Some (m + 1 + 1 + 1, e4, f4)"
    "rep f4 (?T3(m + 1 + 1 + 1 \<mapsto> Blank INODE_DEVICE, m \<mapsto> Dir (entries e3 @ [(bstr ''stderr'', m + 1 + 1 + 1)])))" "inodes_taken f4 (m + 1 + 1 + 1 + 1)"
    "free_space f4 s" "inode_num (sb f4) = inode_num (sb f3)" "blen f4 = blen f3"
    "m \<noteq> m + 1 + 1 + 1" "shape f4 = shape f3" "keeps_inodes f3 f4 {m + 1 + 1 + 1, m}"
    by (rule one_device [OF 2(4) T3 2(5) pre3(1-3) 2(6) z 2(2) pre3(4-6) device_names(7,8) pre3(7)])
  have T4: "?T3(m + 1 + 1 + 1 \<mapsto> Blank INODE_DEVICE, m \<mapsto> Dir (entries e3 @ [(bstr ''stderr'', m + 1 + 1 + 1)])) =
      with_devices T (entries d) m"
    using t(2) by (simp add: with_devices_def 2(3) 1(3) c(8) fun_eq_iff)
  have "create_io_devices z f d = Some (0, d1, f4)"
    unfolding create_io_devices_def c(1) Option.bind.bind_lunit prod.case
    using c(2) t(2) 1(1) 2(1) 3(1) by simp
  moreover have "inodes_taken f4 (m + 4)" using 3(3) by (simp add: add.commute)
  moreover have "blen f1 = blen f" using c(11) by (simp add: shape_def)
  moreover have "keeps_inodes f f4 ({0} \<union> {m..m + 3})"
  proof -
    have "keeps_inodes f f4 ((({m, 0} \<union> {m + 1, m}) \<union> {m + 1 + 1, m}) \<union> {m + 1 + 1 + 1, m})"
      using c(11) 1(10) 2(10) by (intro keeps_inodes_trans [OF keeps_inodes_trans [OF keeps_inodes_trans [OF c(12,11) 1(11)] _ 2(11)] _ 3(9)]) simp_all
    moreover have "(({m, 0} \<union> {m + 1, m}) \<union> {m + 1 + 1, m}) \<union> {m + 1 + 1 + 1, m} = {0} \<union> {m..m + 3}" by auto
    ultimately show ?thesis by simp
  qed
  ultimately show thesis using that c(5,6) 3(2,4-6) 1(7,8) 2(7,8) N unfolding T4 by simp
qed

section \<open>Mounting\<close>

text \<open>The superblock is written to block 0, which no file uses.\<close>

definition superblock_saved :: "fs \<Rightarrow> bool" where
  "superblock_saved f \<longleftrightarrow> (\<exists>junk. get_block (dk f) 0 = padded junk (blen f) (enc_superblock (sb f)))"

lemma write_superblock_tree:
  assumes R: "rep f T" "T 0 = Some nd" and z: "length junk = 1024"
  obtains f' where "write_superblock junk f = Some (0, f')" "rep f' T" "superblock_saved f'" "shape f' = shape f"
    "free_list (sb f') = free_list (sb f)" "free_inode_bitmap (sb f') = free_inode_bitmap (sb f)" "keeps_inodes f f' {}"
proof -
  have f: "fs_ok f" using R by (simp add: rep_def)
  obtain ws f' where w: "write_superblock junk f = Some (0, f')" "bits ws = insert 0 (used (sb f))"
    "sb f' = (sb f)\<lparr>free_block_bitmap := ws\<rparr>" "fs_ok f'" "on_disk (dk f') = on_disk (dk f)" "blen f' = blen f"
    "get_block (dk f') = (get_block (dk f))(0 := padded junk (blen f) (enc_superblock (sb f')))"
    using write_superblock_ok [OF f z] by blast
  have "0 < uint (data_block_start (sb f))"
    using rep_node [OF R] uint_ge_0 [of "inode_addr (sb f) 0"] unfolding home_def by linarith
  then have fl: "free_list (sb f') = free_list (sb f)"
    unfolding free_list_def w(3) by (auto simp: used_def w(2) addrs_def intro!: filter_cong)
  have sh: "shape f' = shape f" using w(3,5,6) by (simp add: shape_def)
  then have fr: "frame f f' {}" using w(3-7) fl by (simp add: frame_def)
  then have "rep f' T" by (rule rep_keep [OF R(1)])
  moreover have "keeps_inodes f f' {}" by (rule frame_inodes [OF fr]) simp
  moreover have "superblock_saved f'" using w(6,7) by (auto simp: superblock_saved_def)
  moreover have "free_inode_bitmap (sb f') = free_inode_bitmap (sb f)" by (simp add: w(3))
  ultimately show thesis using that [OF w(1)] sh fl by blast
qed

definition devices :: "tree \<Rightarrow> dir_entries \<Rightarrow> int \<Rightarrow> int \<Rightarrow> int \<Rightarrow> bool" where
  "devices T root a b c \<longleftrightarrow> distinct [a, b, c] \<and> (\<exists>i es. map_of root (bstr ''dev'') = Some i \<and> T i = Some (Dir es) \<and>
     map_of es (bstr ''stdin'') = Some a \<and> map_of es (bstr ''stdout'') = Some b \<and> map_of es (bstr ''stderr'') = Some c) \<and>
     (\<forall>i \<in> {a, b, c}. T i = Some (Blank INODE_DEVICE))"

abbreviation streams :: "int \<Rightarrow> int \<Rightarrow> int \<Rightarrow> file_descriptor_t list" where
  "streams a b c \<equiv> [\<lparr>fd_id = 0, fd_flags = READ_GLOBAL, fd_inode_id = a\<rparr>,
     \<lparr>fd_id = 1, fd_flags = WRITE_GLOBAL, fd_inode_id = b\<rparr>, \<lparr>fd_id = 2, fd_flags = WRITE_GLOBAL, fd_inode_id = c\<rparr>]"

lemma zero_fd_table_ok: "fdt_ok zero_fd_table" "fds zero_fd_table = []" "fdt_count zero_fd_table = 0"
  by (simp_all add: zero_fd_table_def fdt_ok_def fds_def)

lemma add_streams:
  assumes "distinct [a, b, c]"
  obtains t1 t2 t3 where "add_fd zero_fd_table a READ_GLOBAL = Some (0, t1)" "add_fd t1 b WRITE_GLOBAL = Some (1, t2)"
    "add_fd t2 c WRITE_GLOBAL = Some (2, t3)" "fdt_ok t3" "fds t3 = streams a b c"
proof -
  obtain t1 where t1: "add_fd zero_fd_table a READ_GLOBAL = Some (0, t1)" "fdt_ok t1" "fds t1 = take 1 (streams a b c)"
    using add_fd_new [of zero_fd_table a READ_GLOBAL] by (auto simp: zero_fd_table_ok)
  have c1: "fdt_count t1 = 1" using length_fds [OF t1(2)] by (simp add: t1(3))
  obtain t2 where t2: "add_fd t1 b WRITE_GLOBAL = Some (1, t2)" "fdt_ok t2" "fds t2 = take 2 (streams a b c)"
    using add_fd_new [OF t1(2), of b WRITE_GLOBAL] assms by (auto simp: t1(3) c1)
  have c2: "fdt_count t2 = 2" using length_fds [OF t2(2)] by (simp add: t2(3))
  obtain t3 where "add_fd t2 c WRITE_GLOBAL = Some (2, t3)" "fdt_ok t3" "fds t3 = streams a b c"
    using add_fd_new [OF t2(2), of c WRITE_GLOBAL] assms by (auto simp: t2(3) c2)
  then show thesis using that t1(1) t2(1) by blast
qed

lemma open_device:
  assumes R: "rep f T" and z: "calm z" and d: "dir_ok d" "entries d = root"
    and dev: "map_of root (bstr ''dev'') = Some i" "T i = Some (Dir es)" "map_of es name = Some a" "T a = Some (Blank INODE_DEVICE)"
    and name: "component name" "length name < 100" "0 \<notin> set name"
  shows "open_file z f t d (bstr ''/dev'' @ slash # name) flags = do { (fd, t) \<leftarrow> add_fd t a flags; Some (fd, t, f) }"
proof (rule open_file_old [OF R z d _ _ _ name dev(3,4)])
  have "tokens (bstr ''/dev'') = [bstr ''dev'']" by (simp add: bstr_def slash_def)
  then show "dir_of T root (bstr ''/dev'') = Some es"
    using dev(1,2) by (simp add: dir_of_def leads_to_def) (simp add: bstr_def)
qed (use name(2) in \<open>simp_all add: bstr_def inode_types\<close>)

lemma open_devices_tree:
  assumes k: "fs_of k = Some f" "rep f T" "root_dir k = Some d" "dir_ok d" "devices T (entries d) a b c"
    "open_files k = zero_fd_table" and z: "calm z"
  obtains t where "open_io_devices z k = Some (0, k\<lparr>open_files := t, STDIN_FD := 0, STDOUT_FD := 1, STDERR_FD := 2\<rparr>)"
    "fdt_ok t" "fds t = streams a b c"
proof -
  obtain i es where dev: "map_of (entries d) (bstr ''dev'') = Some i" "T i = Some (Dir es)" "map_of es (bstr ''stdin'') = Some a"
    "map_of es (bstr ''stdout'') = Some b" "map_of es (bstr ''stderr'') = Some c" "distinct [a, b, c]"
    "T a = Some (Blank INODE_DEVICE)" "T b = Some (Blank INODE_DEVICE)" "T c = Some (Blank INODE_DEVICE)"
    using k(5) by (auto simp: devices_def)
  obtain t1 t2 t3 where t: "add_fd zero_fd_table a READ_GLOBAL = Some (0, t1)" "add_fd t1 b WRITE_GLOBAL = Some (1, t2)"
    "add_fd t2 c WRITE_GLOBAL = Some (2, t3)" "fdt_ok t3" "fds t3 = streams a b c"
    by (rule add_streams [OF dev(6)])
  note o = open_device [OF k(2) z k(4) refl dev(1,2)]
  have p: "bstr ''/dev/stdin'' = bstr ''/dev'' @ slash # bstr ''stdin''" "bstr ''/dev/stdout'' = bstr ''/dev'' @ slash # bstr ''stdout''"
    "bstr ''/dev/stderr'' = bstr ''/dev'' @ slash # bstr ''stderr''" by (simp_all add: bstr_def slash_def)
  have n: "component (bstr ''stdin'')" "component (bstr ''stdout'')" "component (bstr ''stderr'')"
    by (simp_all add: component_def bstr_def slash_def)
  have "open_io_devices z k = Some (0, (put_fs k f)\<lparr>open_files := t3, STDIN_FD := 0, STDOUT_FD := 1, STDERR_FD := 2\<rparr>)"
    unfolding open_io_devices_def p k(1,3,6) Option.bind.bind_lunit o [OF dev(3,7) n(1) device_names(4,3)] t(1) prod.case
      o [OF dev(4,8) n(2) device_names(6,5)] t(2) o [OF dev(5,9) n(3) device_names(8,7)] t(3) by simp
  then show thesis using that t(4,5) by (simp add: put_fs_same [OF k(1)])
qed

text \<open>The end of \<open>sys_mount\<close>, when the root directory is known: the streams are opened and the superblock is saved.\<close>

lemma mount_end:
  assumes k: "procs_wf (tbl k)" "fs_of k = Some f" "rep f T" "root_dir k = Some d" "dir_ok d" "T 0 = Some (Dir (entries d))"
    "devices T (entries d) a b c" "open_files k = zero_fd_table" and z: "calm z"
  obtains t f' where "open_io_devices z k = Some (0, k\<lparr>open_files := t, STDIN_FD := 0, STDOUT_FD := 1, STDERR_FD := 2\<rparr>)"
    "write_superblock (s_block z) f = Some (0, f')" "fds t = streams a b c" "superblock_saved f'"
    "mounts (put_fs (k\<lparr>open_files := t, STDIN_FD := 0, STDOUT_FD := 1, STDERR_FD := 2\<rparr>) f') T" "shape f' = shape f"
    "free_list (sb f') = free_list (sb f)" "free_inode_bitmap (sb f') = free_inode_bitmap (sb f)" "keeps_inodes f f' {}"
proof -
  obtain t where t: "open_io_devices z k = Some (0, k\<lparr>open_files := t, STDIN_FD := 0, STDOUT_FD := 1, STDERR_FD := 2\<rparr>)"
    "fdt_ok t" "fds t = streams a b c"
    by (rule open_devices_tree [OF k(2-5,7,8) z])
  have z': "length (s_block z) = 1024" using calmD(1) [OF z] by (simp add: stack_wf_def)
  obtain f' where f': "write_superblock (s_block z) f = Some (0, f')" "rep f' T" "superblock_saved f'" "shape f' = shape f"
    "free_list (sb f') = free_list (sb f)" "free_inode_bitmap (sb f') = free_inode_bitmap (sb f)" "keeps_inodes f f' {}"
    by (rule write_superblock_tree [OF k(3,6) z'])
  have "mounts (put_fs (k\<lparr>open_files := t, STDIN_FD := 0, STDOUT_FD := 1, STDERR_FD := 2\<rparr>) f') T"
    using k(1,4-6) t(2) f'(2) unfolding mounts_def
    by (intro conjI exI [of _ f'] exI [of _ d]) simp_all
  then show thesis using that t(1,3) f'(1,3-7) by blast
qed

lemma fs_of_streams [simp]: "fs_of (k\<lparr>open_files := t, STDIN_FD := i, STDOUT_FD := j, STDERR_FD := l\<rparr>) = fs_of k"
  by (simp add: fs_of_def)

text \<open>Block 0 does not hold a superblock for a disk of this size.\<close>

definition unformatted :: "disk \<Rightarrow> bool" where
  "unformatted d \<longleftrightarrow> disk_block_num (dec_superblock (take 564 (get_block d 0))) \<noteq> block_num (peer d)"

lemma devices_new: "devices (with_devices root_tree (new_dir 0 0) 1) (new_dir 0 0 @ [(bstr ''dev'', 1)]) 2 3 4"
  by (simp add: devices_def with_devices_def device_names) (simp add: bstr_def)

lemma sys_mount_new:
  assumes k: "procs_wf (tbl k)" "mounted k \<noteq> None" "root_dir k \<noteq> None" and d: "mountable (dsk k)" "unformatted (dsk k)" and z: "calm z"
  obtains k' where "sys_mount z k = Some (0, k')" "mounts k' (with_devices root_tree (new_dir 0 0) 1)"
    "fds (open_files k') = streams 2 3 4" "STDIN_FD k' = 0" "STDOUT_FD k' = 1" "STDERR_FD k' = 2"
    "\<And>f. fs_of k' = Some f \<Longrightarrow> superblock_saved f \<and> inodes_taken f 5 \<and> free_space f (spare_blocks (dsk k)) \<and>
       inode_num (sb f) = inodes_of (block_num (peer (dsk k))) \<and> blen f = block_len (peer (dsk k)) \<and>
       (\<forall>i. 5 \<le> i \<and> i < inode_num (sb f) \<longrightarrow> inode_of f i = new_inode i)" "tbl k' = tbl k"
proof -
  let ?k = "k\<lparr>mounted := Some zero_superblock, root_dir := Some zero_directory, open_files := zero_fd_table\<rparr>"
  let ?T = "with_devices root_tree (new_dir 0 0) 1"
  have dw: "disk_wf (dsk k)" "36 \<le> block_num (peer (dsk k))" using d(1) by (simp_all add: mountable_def)
  have z': "length (s_block z) = 1024" using calmD(1) [OF z] by (simp add: stack_wf_def)
  note g = first_fs(1) [OF d(1)]
  have "superblock_wf zero_superblock" by (simp add: superblock_wf_def zero_superblock_def)
  then have "read_sequential_blocks (s_block z) (dsk k) (block_len (peer (dsk k))) 0 (enc_superblock zero_superblock) 564 =
      Some (0, take (nat 564) (get_block (dsk k) 0), dsk k)"
    using sbc.enc_width [of zero_superblock] dw g
    by (intro read_one_block [OF g _ z', simplified] zero_on_disk [OF g, simplified]) (simp_all add: fs_ok_def)
  then have r: "read_superblock (s_block z) \<lparr>sb = zero_superblock, dk = dsk k\<rparr> =
      Some (0, \<lparr>sb = dec_superblock (take 564 (get_block (dsk k) 0)), dk = dsk k\<rparr>)"
    using dw by (simp add: read_superblock_def disk_get_block_len_ok sizeof_superblock_def)
  let ?f = "\<lparr>sb = dec_superblock (take 564 (get_block (dsk k) 0)), dk = dsk k\<rparr>"
  have "mountable (dk ?f)" using d(1) by simp
  then obtain dr f1 where i: "init_disk z ?f = Some (0, dr, f1)" "dir_ok dr" "entries dr = new_dir 0 0" "rep f1 root_tree"
    "inode_num (sb f1) = inodes_of (block_num (peer (dk ?f)))" "inodes_taken f1 1" "free_space f1 (10 + spare_blocks (dk ?f))" "blen f1 = blen ?f"
    "\<forall>i. 1 \<le> i \<and> i < inode_num (sb f1) \<longrightarrow> inode_of f1 i = new_inode i"
    by (rule first_disk [OF _ z])
  have N: "1 + 3 < inode_num (sb f1)" using i(5) inodes_of_range [OF dw(2)] by simp
  have pre: "root_tree 0 = Some (Dir (entries dr))" "entries dr \<noteq> []" "snd (hd (entries dr)) = 0" "length (entries dr) < 9"
    "bstr ''dev'' \<notin> fst ` set (entries dr)" "(1::int) \<le> 1" "(1::int) + 3 < 32"
    using i(3) device_names(12,13) by simp_all
  obtain d' f2 where c: "create_io_devices z f1 dr = Some (0, d', f2)" "dir_ok d'" "entries d' = entries dr @ [(bstr ''dev'', 1)]"
    "rep f2 (with_devices root_tree (entries dr) 1)" "inodes_taken f2 (1 + 4)" "free_space f2 (spare_blocks (dk ?f))"
    "inode_num (sb f2) = inode_num (sb f1)" "blen f2 = blen f1" "keeps_inodes f1 f2 ({0} \<union> {1..1 + 3})"
    by (rule create_devices_tree [OF i(4) pre(1) i(6) pre(6) N pre(7) i(7) z i(2) pre(2-5)])
  let ?k2 = "(put_fs ?k f2)\<lparr>root_dir := Some d'\<rparr>"
  have T: "fs_of ?k2 = Some f2" "rep f2 ?T" "root_dir ?k2 = Some d'" "?T 0 = Some (Dir (entries d'))"
    "devices ?T (entries d') 2 3 4" "open_files ?k2 = zero_fd_table" "procs_wf (tbl ?k2)"
    using c(3,4) i(3) k(1) devices_new by (simp_all add: with_devices_def)
  obtain t f3 where e: "open_io_devices z ?k2 = Some (0, ?k2\<lparr>open_files := t, STDIN_FD := 0, STDOUT_FD := 1, STDERR_FD := 2\<rparr>)"
    "write_superblock (s_block z) f2 = Some (0, f3)" "fds t = streams 2 3 4" "superblock_saved f3"
    "mounts (put_fs (?k2\<lparr>open_files := t, STDIN_FD := 0, STDOUT_FD := 1, STDERR_FD := 2\<rparr>) f3) ?T"
    "shape f3 = shape f2" "free_list (sb f3) = free_list (sb f2)" "free_inode_bitmap (sb f3) = free_inode_bitmap (sb f2)"
    "keeps_inodes f2 f3 {}"
    by (rule mount_end [OF T(7,1,2,3) c(2) T(4-6) z])
  let ?k3 = "put_fs (?k2\<lparr>open_files := t, STDIN_FD := 0, STDOUT_FD := 1, STDERR_FD := 2\<rparr>) f3"
  have v: "valid_superblock \<lparr>sb = zero_superblock, dk = dsk k\<rparr> = Some (False, \<lparr>sb = zero_superblock, dk = dsk k\<rparr>)"
    "valid_superblock ?f = Some (False, ?f)"
    using dw d(2) by (simp_all add: valid_superblock_def disk_get_block_num_ok zero_superblock_def unformatted_def)
  have g0: "init_disk_globals k = Some ?k" "fs_of ?k = Some \<lparr>sb = zero_superblock, dk = dsk k\<rparr>" "root_dir ?k = Some zero_directory"
    using k(2,3) by (auto simp: init_disk_globals_def fs_of_def)
  have "sys_mount z k = Some (0, ?k3)"
    unfolding sys_mount_def g0 Option.bind.bind_lunit prod.case v if_False r i(1) c(1) simp_thms if_True
    using e(1,2) T(1) by (simp add: Let_def)
  moreover have "open_files ?k3 = t" "STDIN_FD ?k3 = 0" "STDOUT_FD ?k3 = 1" "STDERR_FD ?k3 = 2" "tbl ?k3 = tbl k"
    by (simp_all add: put_fs_def)
  moreover have "inodes_taken f3 5"
    using c(5) by (intro inodes_taken_shape [OF c(5) e(6)]) (simp add: e(8) inodes_taken_def)
  moreover have "free_space f3 (spare_blocks (dsk k))" using c(6) e(6,7) unfolding free_space_def data_block_def shape_def by simp
  moreover have "inode_num (sb f3) = inodes_of (block_num (peer (dsk k)))" "blen f3 = block_len (peer (dsk k))"
    using e(6) c(7,8) i(5,8) by (simp_all add: shape_def)
  moreover have "inode_of f3 i = new_inode i" if "5 \<le> i" "i < inode_num (sb f3)" for i
  proof -
    have n: "i < inode_num (sb f1)" "i < inode_num (sb f2)" using that c(7) e(6) by (simp_all add: shape_def)
    then have "home f1 i" "home f2 i" using that i(6) c(5) by (simp_all add: inodes_taken_def)
    then show ?thesis using that i(9) c(9) e(9) n(1) by (simp add: keeps_inodes_def)
  qed
  ultimately show thesis using that [of ?k3] e(3-5) by simp
qed

text \<open>A disk that was mounted before: what \<open>write_superblock\<close> saved is read back and the tree is there again.\<close>

lemma sys_mount_again:
  assumes k: "procs_wf (tbl k)" "mounted k \<noteq> None" "root_dir k \<noteq> None"
    and f: "rep f T" "superblock_saved f" "dk f = dsk k" and T: "T 0 = Some (Dir root)" "devices T root a b c" and z: "calm z"
  obtains k' where "sys_mount z k = Some (0, k')" "mounts k' T" "fds (open_files k') = streams a b c"
    "STDIN_FD k' = 0" "STDOUT_FD k' = 1" "STDERR_FD k' = 2" "tbl k' = tbl k"
proof -
  let ?k = "k\<lparr>mounted := Some zero_superblock, root_dir := Some zero_directory, open_files := zero_fd_table\<rparr>"
  have fo: "fs_ok f" using f(1) by (simp add: rep_def)
  have dw: "disk_wf (dsk k)" "1 \<le> block_num (peer (dsk k))" "disk_block_num (sb f) = block_num (peer (dsk k))"
    "superblock_wf (sb f)" using fo f(3) by (simp_all add: fs_ok_def)
  have z': "length (s_block z) = 1024" "directory_wf zero_directory" using calmD(1) [OF z]
    by (simp_all add: stack_wf_def directory_wf_def zero_directory_def link_wf_def)
  obtain junk where "get_block (dk f) 0 = padded junk (blen f) (enc_superblock (sb f))" using f(2) by (auto simp: superblock_saved_def)
  then have "read_superblock (s_block z) \<lparr>sb = zero_superblock, dk = dsk k\<rparr> = Some (0, \<lparr>sb = sb f, dk = dk f\<rparr>)"
    using f(3) dw(4) by (intro read_superblock_ok [OF fo z'(1)]) (simp_all add: superblock_wf_def zero_superblock_def)
  then have r: "read_superblock (s_block z) \<lparr>sb = zero_superblock, dk = dsk k\<rparr> = Some (0, f)" by simp
  have v: "valid_superblock \<lparr>sb = zero_superblock, dk = dsk k\<rparr> = Some (False, \<lparr>sb = zero_superblock, dk = dsk k\<rparr>)"
    "valid_superblock f = Some (True, f)"
    using dw f(3) by (simp_all add: valid_superblock_def disk_get_block_num_ok zero_superblock_def)
  obtain d where d: "read_root_dir z f zero_directory = Some (0, d, f)" "dir_ok d" "entries d = root"
    by (rule read_root_tree [OF f(1) T(1) calmD(1) [OF z] z'(2)])
  let ?k2 = "(put_fs ?k f)\<lparr>root_dir := Some d\<rparr>"
  have k2: "fs_of ?k2 = Some f" "root_dir ?k2 = Some d" "open_files ?k2 = zero_fd_table" "procs_wf (tbl ?k2)"
    "T 0 = Some (Dir (entries d))" "devices T (entries d) a b c"
    using k(1) T d(3) by simp_all
  obtain t f3 where e: "open_io_devices z ?k2 = Some (0, ?k2\<lparr>open_files := t, STDIN_FD := 0, STDOUT_FD := 1, STDERR_FD := 2\<rparr>)"
    "write_superblock (s_block z) f = Some (0, f3)" "fds t = streams a b c"
    "mounts (put_fs (?k2\<lparr>open_files := t, STDIN_FD := 0, STDOUT_FD := 1, STDERR_FD := 2\<rparr>) f3) T"
    by (rule mount_end [OF k2(4,1) f(1) k2(2) d(2) k2(5,6,3) z])
  let ?k3 = "put_fs (?k2\<lparr>open_files := t, STDIN_FD := 0, STDOUT_FD := 1, STDERR_FD := 2\<rparr>) f3"
  have g0: "init_disk_globals k = Some ?k" "fs_of ?k = Some \<lparr>sb = zero_superblock, dk = dsk k\<rparr>" "root_dir ?k = Some zero_directory"
    using k(2,3) by (auto simp: init_disk_globals_def fs_of_def)
  have "sys_mount z k = Some (0, ?k3)"
    unfolding sys_mount_def g0 Option.bind.bind_lunit prod.case v if_False r d(1) simp_thms if_True
    using e(1,2) k2(1) by (simp add: Let_def)
  moreover have "open_files ?k3 = t" "STDIN_FD ?k3 = 0" "STDOUT_FD ?k3 = 1" "STDERR_FD ?k3 = 2" "tbl ?k3 = tbl k"
    by (simp_all add: put_fs_def)
  ultimately show thesis using that [of ?k3] e(3,4) by simp
qed

lemma sys_unmount_tree:
  assumes k: "mounts k T" "distinct (map fd_id (fds (open_files k)))" and z: "stack_wf z"
  obtains k' f' where "sys_unmount z k = Some (0, k')" "dsk k' = dk f'" "rep f' T" "superblock_saved f'" "mounted k' = None"
proof -
  have z': "length (s_block z) = 1024" using z by (simp add: stack_wf_def)
  obtain f nd where f: "fs_of k = Some f" "rep f T" "fdt_ok (open_files k)" "T 0 = Some nd" using k(1) by (auto simp: mounts_def)
  have "fs_ok f" using f(2) by (simp add: rep_def)
  then obtain f' t where u: "write_superblock (s_block z) f = Some (0, f')"
    "sys_unmount z k = Some (0, k\<lparr>dsk := dk f', open_files := t, mounted := None, root_dir := None\<rparr>)"
    using sys_unmount_ok [OF f(1) _ f(3) k(2) z'] by blast
  obtain f2 where "write_superblock (s_block z) f = Some (0, f2)" "rep f2 T" "superblock_saved f2"
    by (rule write_superblock_tree [OF f(2,4) z'])
  then show thesis using that [OF u(2), of f'] u(1) by simp
qed

end
