(* ===== verification/Tree_Remove.thy ===== *)
theory Tree_Remove
  imports Tree_Calls
begin

text \<open>
  Removing: \<open>rm\<close> and \<open>rmdir\<close> take a name out of its directory and the inode out of the tree, and give its blocks back.
  No other node uses them, because \<open>rep\<close> keeps the blocks of the nodes apart.
\<close>

section \<open>An inode and its blocks\<close>

lemma unallocate_all:
  assumes "superblock_wf b" "\<forall>j \<in> set js. 0 \<le> j \<and> j < int (length bl) \<and> uint (bl ! nat j) < 16384"
  shows "\<exists>ws. foreach (\<lambda>i b. do { a \<leftarrow> rd bl i; unallocate_block b a }) js b = Some (b\<lparr>free_block_bitmap := ws\<rparr>) \<and>
    length ws = length (free_block_bitmap b) \<and> bits ws = used b - (\<lambda>j. uint (bl ! nat j)) ` set js"
  using assms
proof (induction js arbitrary: b)
  case Nil
  show ?case by (intro exI [of _ "free_block_bitmap b"]) (simp add: used_def)
next
  case (Cons j js)
  let ?a = "uint (bl ! nat j)"
  have a: "?a < 16384" "0 \<le> j" "j < int (length bl)" using Cons.prems by auto
  then have i: "int_of_u32 (bl ! nat j) = ?a" by (intro int_of_u32_nonneg) simp
  have "in_bitmap (free_block_bitmap b) ?a" using Cons.prems(1) a(1) by (simp add: in_bitmap_def superblock_wf_def)
  then obtain vs where vs: "clear_bit (free_block_bitmap b) ?a = Some vs" "length vs = length (free_block_bitmap b)"
    "bits vs = bits (free_block_bitmap b) - {?a}" using clear_bit_bits by blast
  let ?b = "b\<lparr>free_block_bitmap := vs\<rparr>"
  have "superblock_wf ?b" using Cons.prems(1) vs(2) by (simp add: superblock_wf_def)
  then obtain ws where ws: "foreach (\<lambda>i b. do { a \<leftarrow> rd bl i; unallocate_block b a }) js ?b = Some (?b\<lparr>free_block_bitmap := ws\<rparr>)"
    "length ws = length vs" "bits ws = used ?b - (\<lambda>j. uint (bl ! nat j)) ` set js"
    using Cons.IH [of ?b] Cons.prems(2) by auto
  then show ?case using a(2,3) vs by (intro exI [of _ ws]) (auto simp: rd_Some unallocate_block_def i used_def)
qed

lemma listed_upto:
  assumes "length (blocks inode) = 6" "blocks_allocated inode \<le> 6"
  shows "listed inode = (\<lambda>j. uint (blocks inode ! nat j)) ` set [0..blocks_allocated inode - 1]"
proof -
  have "set (take (nat (blocks_allocated inode)) (blocks inode)) = (\<lambda>j. blocks inode ! nat j) ` set [0..blocks_allocated inode - 1]"
  proof (intro set_eqI iffI)
    fix x assume "x \<in> set (take (nat (blocks_allocated inode)) (blocks inode))"
    then obtain n where "n < nat (blocks_allocated inode)" "x = blocks inode ! n" by (auto simp: in_set_conv_nth)
    then show "x \<in> (\<lambda>j. blocks inode ! nat j) ` set [0..blocks_allocated inode - 1]"
      by (intro image_eqI [of _ _ "int n"]) simp_all
  next
    fix x assume "x \<in> (\<lambda>j. blocks inode ! nat j) ` set [0..blocks_allocated inode - 1]"
    then obtain j where "0 \<le> j" "j < blocks_allocated inode" "x = blocks inode ! nat j" by auto
    then show "x \<in> set (take (nat (blocks_allocated inode)) (blocks inode))"
      using assms by (auto simp: in_set_conv_nth intro!: exI [of _ "nat j"])
  qed
  then show ?thesis by (simp add: listed_def image_image)
qed

text \<open>A node stays when its inode and the blocks it lists stay.\<close>

lemma carry_node:
  assumes f: "fs_ok f" "shape f' = shape f" and n: "node_rep f j nd"
    and same: "get_block (dk f') (inode_addr (sb f) j) = get_block (dk f) (inode_addr (sb f) j)"
      "\<forall>a \<in> claims f j. owned f' a \<and> get_block (dk f') (u32_of_int a) = get_block (dk f) (u32_of_int a)"
  shows "node_rep f' j nd \<and> claims f' j = claims f j"
proof -
  obtain inode where i: "node_at f j inode" "ino_type inode = node_type nd" "content_rep f inode nd"
    using n by (auto simp: node_rep_def)
  have bl: "blen f' = blen f" using f(2) by (simp add: shape_def)
  have "stored f' inode x" if s: "stored f inode x" for x
  proof -
    obtain as where as: "needs (blen f) (int (length x)) (length as)" "length as \<le> 6"
      "int (length as) \<le> blocks_allocated inode" "\<forall>a \<in> set as. owned f a"
      "map (\<lambda>j. blocks inode ! nat j) [0..int (length as) - 1] = map u32_of_int as"
      "take (length x) (concat (map (\<lambda>a. get_block (dk f) (u32_of_int a)) as)) = x"
      using s by (auto simp: stored_def)
    have "length (blocks inode) = 6" "blocks_allocated inode \<le> 6" using i(1) by (simp_all add: node_at_def inode_wf_def)
    note l = listed_upto [OF this]
    have "a \<in> claims f j" if a: "a \<in> set as" for a
    proof -
      have "u32_of_int a \<in> set (map (\<lambda>j. blocks inode ! nat j) [0..int (length as) - 1])" unfolding as(5) using a by simp
      then obtain m where "m \<in> set [0..int (length as) - 1]" "u32_of_int a = blocks inode ! nat m" by auto
      then have "uint (u32_of_int a) \<in> listed inode" unfolding l using as(3) by (intro image_eqI [of _ _ m]) simp_all
      then show ?thesis using owned_word [of f a] as(4) a by (simp add: node_claims [OF f(1) i(1)])
    qed
    then have "\<forall>a \<in> set as. owned f' a" "\<forall>a \<in> set as. get_block (dk f') (u32_of_int a) = get_block (dk f) (u32_of_int a)"
      using same(2) by blast+
    then show ?thesis unfolding stored_def bl using as(1-3,5,6) by (intro exI [of _ as]) (simp cong: map_cong)
  qed
  then have "content_rep f' inode nd" using i(3) by (cases nd) auto
  moreover have "node_at f' j inode"
    using i(1) same(1) bl shape_home [OF f(2)] shape_addr [OF f(2)] by (simp add: node_at_def)
  moreover have "claims f' j = claims f j" using same(1) shape_addr [OF f(2)] by (simp add: claims_def inode_of_def)
  ultimately show ?thesis using i(2) by (auto simp: node_rep_def)
qed

lemma claimed_word: "owned f a \<Longrightarrow> a < 16384 \<and> 0 \<le> a"
  by (simp add: owned_def data_block_def)

lemma delete_inode_node:
  assumes R: "rep f T" "T i = Some nd" and n: "node_at f i inode" and z: "length (s_block z) = 1024"
  obtains f' where "delete_inode z f inode = Some (0, new_inode i, f')" "rep f' (T(i := None))" "shape f' = shape f"
    "set (free_list (sb f')) = set (free_list (sb f)) \<union> claims f i"
    "bits (free_inode_bitmap (sb f')) = bits (free_inode_bitmap (sb f)) - {i}"
proof -
  have f: "fs_ok f" and ib: "i \<in> bits (free_inode_bitmap (sb f))" using repD [OF R] by simp_all
  have w: "superblock_wf (sb f)" using f by (simp add: fs_ok_def)
  have ino: "length (blocks inode) = 6" "blocks_allocated inode \<le> 6" "ino_id inode = i" "home f i" "is_i32 i"
    using n by (simp_all add: node_at_def inode_wf_def home_def)
  have cl: "claims f i = (\<lambda>j. uint (blocks inode ! nat j)) ` set [0..blocks_allocated inode - 1]"
    unfolding node_claims [OF f n] by (rule listed_upto [OF ino(1,2)])
  have "\<forall>j \<in> set [0..blocks_allocated inode - 1]. 0 \<le> j \<and> j < int (length (blocks inode)) \<and> uint (blocks inode ! nat j) < 16384"
    using ino(1,2) claimed_word [OF rep_owned [OF R]] unfolding cl by auto
  from unallocate_all [OF w this] obtain ws where
    ws: "foreach (\<lambda>i b. do { a \<leftarrow> rd (blocks inode) i; unallocate_block b a }) [0..blocks_allocated inode - 1] (sb f) =
      Some ((sb f)\<lparr>free_block_bitmap := ws\<rparr>)" "length ws = length (free_block_bitmap (sb f))" "bits ws = used (sb f) - claims f i"
    unfolding cl by blast
  have "in_bitmap (free_inode_bitmap (sb f)) i" using ib by (simp add: bits_def)
  then obtain vs where vs: "clear_bit (free_inode_bitmap (sb f)) i = Some vs" "length vs = length (free_inode_bitmap (sb f))"
    "bits vs = bits (free_inode_bitmap (sb f)) - {i}" using clear_bit_bits by blast
  let ?b = "(sb f)\<lparr>free_block_bitmap := ws, free_inode_bitmap := vs\<rparr>"
  let ?f = "f\<lparr>sb := ?b\<rparr>"
  have f1: "fs_ok ?f" using f ws(2) vs(2) by (simp add: fs_ok_def superblock_wf_def)
  have sh: "shape ?f = shape f" by (simp add: shape_def)
  have ni: "inode_wf (new_inode i)" "home ?f (ino_id (new_inode i))"
    using ino(4,5) shape_home [OF sh] by (simp_all add: new_inode_def inode_wf_def)
  obtain f' where f': "write_inode z ?f (new_inode i) = Some (0, f')" "fs_ok f'" "shape f' = shape ?f"
    "free_list (sb f') = free_list ?b" "free_inode_bitmap (sb f') = vs"
    "get_block (dk f') = (get_block (dk f))(inode_addr (sb f) i := padded (s_block z) (blen f) (enc_inode (new_inode i)),
      0 := padded (s_block z) (blen f) (enc_superblock (sb f')))"
    by (rule write_inode_home [OF f1 z ni]) (simp add: new_inode_def inode_addr_def)
  have run: "delete_inode z f inode = Some (0, new_inode i, f')"
    using f'(1) vs(1) by (simp add: delete_inode_def ws(1) unallocate_inode_def ino(3) Let_def)
  have fl: "set (free_list (sb f')) = {a \<in> set (addrs (data_block_start (sb f)) (u32_of_int (disk_block_num (sb f)))). a \<notin> used (sb f) - claims f i}"
    unfolding f'(4) by (simp add: free_list_def used_def ws(3))
  have range: "a \<in> set (addrs (data_block_start (sb f)) (u32_of_int (disk_block_num (sb f))))" if "a \<in> claims f i" for a
  proof -
    have o: "owned f a" by (rule rep_owned [OF R that])
    have "uint (u32_of_int a) = a" "on_disk (dk f) (u32_of_int a)" "uint (data_block_start (sb f)) \<le> a"
      using owned_word [OF o] o by (simp_all add: owned_def data_block_def)
    moreover have "0 \<le> disk_block_num (sb f)" "disk_block_num (sb f) < 2 ^ 31" "disk_block_num (sb f) = block_num (peer (dk f))"
      using f by (simp_all add: fs_ok_def superblock_wf_def disk_wf_def)
    ultimately show ?thesis using claimed_word [OF o] by (simp add: addrs_def on_disk_def uint_small int_of_u32_nonneg)
  qed
  have fl': "set (free_list (sb f')) = set (free_list (sb f)) \<union> claims f i"
    using range unfolding fl by (auto simp: free_list_def)
  have keep: "node_rep f' j nd' \<and> claims f' j = claims f j \<and> (\<forall>a \<in> claims f j. owned f' a)" if j: "T j = Some nd'" "j \<noteq> i" for j nd'
  proof -
    have o: "owned f' a \<and> get_block (dk f') (u32_of_int a) = get_block (dk f) (u32_of_int a)" if a: "a \<in> claims f j" for a
    proof -
      have oa: "owned f a" by (rule rep_owned [OF R(1) j(1) a])
      have "a \<notin> claims f i" using rep_apart [OF R(1) j(1) R(2)] j(2) a by blast
      then have "owned f' a" using oa f'(3) fl' sh by (simp add: owned_def data_block_def shape_def)
      then show ?thesis using owned_apart(1) [OF oa ino(4)] owned_apart(2) [OF oa] by (simp add: f'(6))
    qed
    have "home f j" by (rule rep_node [OF R(1) j(1)])
    then have "inode_addr (sb f) j \<noteq> inode_addr (sb f) i" "inode_addr (sb f) j \<noteq> 0"
      using home_apart [OF _ ino(4)] j(2) by (simp_all add: home_def inode_slot_def)
    then have "get_block (dk f') (inode_addr (sb f) j) = get_block (dk f) (inode_addr (sb f) j)" by (simp add: f'(6))
    then show ?thesis using carry_node [OF f, of f' j nd'] f'(3) sh repD [OF R(1) j(1)] o by simp
  qed
  have "rep f' (T(i := None))"
    unfolding rep_def
  proof (intro conjI allI impI ballI)
    fix j nd' assume "(T(i := None)) j = Some nd'"
    then have j: "T j = Some nd'" "j \<noteq> i" by (auto split: if_splits)
    show "node_rep f' j nd'" using keep [OF j] by blast
    show "j \<in> bits (free_inode_bitmap (sb f'))" using repD [OF R(1) j(1)] j(2) by (simp add: f'(5) vs(3))
  next
    fix j a assume "j \<in> dom (T(i := None))" "a \<in> claims f' j"
    then show "owned f' a" using keep [of j] by (auto split: if_splits)
  next
    fix j l assume jl: "j \<in> dom (T(i := None))" "l \<in> dom (T(i := None))" "l \<noteq> j"
    then obtain x y where x: "T j = Some x" "j \<noteq> i" and y: "T l = Some y" "l \<noteq> i" by (auto split: if_splits)
    then show "claims f' j \<inter> claims f' l = {}"
      using keep [OF x] keep [OF y] rep_apart [OF R(1) x(1) y(1) jl(3)] by simp
  qed (rule f'(2))
  then show thesis using that [OF run _ _ fl'] f'(3,5) vs(3) sh by simp
qed

section \<open>A name and its inode\<close>

text \<open>The tree without the name and the node that it leads to.\<close>

definition remove_name :: "tree \<Rightarrow> dir_entries \<Rightarrow> u8 list \<Rightarrow> int \<Rightarrow> tree" where
  "remove_name T es name i = T(snd (hd es) \<mapsto> Dir (delete_first name es), i := None)"

lemma frame_node_at:
  assumes fr: "frame f f' I" "\<forall>i \<in> I. home f i" "j \<notin> I" and n: "node_at f j inode"
  shows "node_at f' j inode"
proof -
  have h: "home f j" using n by (simp add: node_at_def)
  have "inode_addr (sb f) j \<notin> inode_addr (sb f) ` I" using home_apart [OF h] fr(2,3) by blast
  moreover have "inode_addr (sb f) j \<noteq> 0" using h by (simp add: home_def inode_slot_def)
  ultimately have "get_block (dk f') (inode_addr (sb f) j) = get_block (dk f) (inode_addr (sb f) j)"
    using fr(1) free_not_home [OF h] by (simp add: frame_def)
  then show ?thesis
    using n frame_home [OF fr(1)] frame_addr [OF fr(1)] fr(1) by (simp add: node_at_def frame_def shape_def)
qed

lemma hd_delete_first: "es \<noteq> [] \<Longrightarrow> name \<noteq> fst (hd es) \<Longrightarrow> delete_first name es \<noteq> [] \<and> hd (delete_first name es) = hd es"
  by (cases es) auto

text \<open>What \<open>rm\<close> and \<open>rmdir\<close> do after the lookup.\<close>

lemma remove_node:
  assumes R: "rep f T" "T (snd (hd es)) = Some (Dir es)" and e: "dir_ok e" "entries e = es" "es \<noteq> []"
    and name: "0 \<notin> set name" "map_of es name = Some i" and i: "T i = Some nd" "node_at f i inode" "i \<noteq> snd (hd es)"
    and z: "stack_wf z" and room: "room f 1044 b"
  obtains e' f1 f' where "delete_file_link e name = Some (0, e')" "write_dir z f e' = Some (snd (hd es), f1)" "0 \<le> snd (hd es)"
    "delete_inode z f1 inode = Some (0, new_inode i, f')" "rep f' (remove_name T es name i)" "shape f' = shape f"
    "set (free_list (sb f')) = set (drop b (free_list (sb f))) \<union> claims f i"
    "bits (free_inode_bitmap (sb f')) = bits (free_inode_bitmap (sb f)) - {i}"
proof -
  have z': "length (s_block z) = 1024" using z by (simp add: stack_wf_def)
  have mem: "name \<in> fst ` set (entries e)" using name(2) e(2) by (force dest: map_of_SomeD)
  have ne: "name \<noteq> fst (hd es)" using name(2) i(3) e(3) by (cases es) auto
  obtain e' where d: "delete_file_link e name = Some (0, e')" "dir_ok e'" "entries e' = delete_first name es"
    using delete_file_link_spec [OF e(1) name(1)] mem e(2) by auto
  note h = hd_delete_first [OF e(3) ne]
  obtain f1 where w: "write_dir z f e' = Some (snd (hd es), f1)" "frame f f1 {snd (hd es)}"
    "rep f1 (T(snd (hd es) \<mapsto> Dir (entries e')))" "free_list (sb f1) = drop b (free_list (sb f))"
    "free_inode_bitmap (sb f1) = free_inode_bitmap (sb f)"
    by (rule write_dir_node [OF R node_type.simps(3) z d(2) _ _ room]) (use h d(3) in simp_all)
  have p: "home f (snd (hd es))" "0 \<le> snd (hd es)"
    using rep_node [OF R] by (simp_all add: home_def inode_slot_def)
  have n1: "node_at f1 i inode" using p(1) i(2,3) by (intro frame_node_at [OF w(2)]) simp_all
  have T1: "(T(snd (hd es) \<mapsto> Dir (entries e'))) i = Some nd" using i(1,3) by simp
  obtain f' where f': "delete_inode z f1 inode = Some (0, new_inode i, f')" "rep f' ((T(snd (hd es) \<mapsto> Dir (entries e')))(i := None))"
    "shape f' = shape f1" "set (free_list (sb f')) = set (free_list (sb f1)) \<union> claims f1 i"
    "bits (free_inode_bitmap (sb f')) = bits (free_inode_bitmap (sb f1)) - {i}"
    by (rule delete_inode_node [OF w(3) T1 n1 z'])
  have "claims f1 i = claims f i"
    using p(1) i(3) rep_node [OF R(1) i(1)] by (intro frame_claims [OF w(2)]) simp_all
  then show thesis
    using that [OF d(1) w(1) p(2) f'(1)] f'(2-5) w(4,5) frame_shape [OF w(2)] by (simp add: d(3) remove_name_def)
qed

lemma parent_dir_tree:
  assumes R: "rep f T" and z: "calm z" and d: "dir_ok d" "entries d = root"
    and path: "length path < 1024" "0 \<notin> set path" "dir_of T root path = Some es"
  obtains e inode where "parent_dir z f d path (s_inode z) = Some (e, inode, f)" "dir_ok e" "entries e = es" "inode_wf inode"
proof (cases "path = []")
  case True
  then show thesis using that [of d "s_inode z"] d path(3) calmD(1) [OF z] by (simp add: parent_dir_def dir_of_def stack_wf_def)
next
  case False
  obtain p inode e where p: "path_to_inode_id z f d path = Some (p, f)" "read_inode z f p (s_inode z) = Some (0, inode, f)"
    "read_dir z f inode (s_dir z) = Some (0, e, inode, f)" "dir_ok e" "entries e = es"
    by (rule dir_parts [OF R z d path False])
  have "inode_wf inode"
  proof -
    obtain q where "leads_to T root path = Some q" "T q = Some (Dir es)"
      using path(3) False by (auto simp: dir_of_def split: option.splits node.splits)
    moreover from this have "q = p" using path_resolves [OF R z d path(1,2)] p(1) by simp
    ultimately obtain inode' where "read_inode z f p (s_inode z) = Some (0, inode', f)" "node_at f p inode'"
      using rep_cases [OF R, of p "Dir es" z "s_inode z"] calmD(1) [OF z] by (auto simp: stack_wf_def)
    then show ?thesis using p(2) by (simp add: node_at_def)
  qed
  then show thesis using that [of e inode] False p by (simp add: parent_dir_def)
qed

section \<open>The calls\<close>

text \<open>What both calls find: the directory, and in it the inode of the name.\<close>

lemma find_name:
  assumes R: "rep f T" "T 0 = Some (Dir root)" and z: "calm z" and d: "dir_ok d" "entries d = root"
    and path: "length path + length name + 1 < 1024" "0 \<notin> set path" "dir_of T root path = Some es"
    and name: "component name" "0 \<notin> set name" and i: "map_of es name = Some i" "T i = Some nd" "nd \<noteq> Blank INODE_DIRECTORY"
  obtains e inode0 inode where "parent_dir z f d path (s_inode z) = Some (e, inode0, f)" "dir_ok e" "entries e = es"
    "path_to_inode_id z f e name = Some (i, f)" "read_inode z f i inode0 = Some (0, inode, f)" "node_at f i inode"
    "ino_type inode = node_type nd" "content_rep f inode nd"
proof -
  obtain e inode0 where e: "parent_dir z f d path (s_inode z) = Some (e, inode0, f)" "dir_ok e" "entries e = es" "inode_wf inode0"
    by (rule parent_dir_tree [OF R(1) z d _ path(2,3)]) (use path(1) in simp)
  have "path_to_inode_id z f e name = Some (i, f)"
    by (rule path_resolves [OF R(1) z e(2,3) _ name(2)]) (use path(1) leads_to_name(2) [where T = T, OF name(1) i] in simp_all)
  moreover obtain inode where "read_inode z f i inode0 = Some (0, inode, f)" "node_at f i inode" "ino_type inode = node_type nd"
    "content_rep f inode nd"
    by (rule rep_cases [OF R(1) i(2) _ e(4), of z]) (use calmD(1) [OF z] in \<open>simp_all add: stack_wf_def\<close>)
  ultimately show thesis using that e(1-3) by blast
qed

lemma sys_rm_tree:
  assumes k: "mounts k T" "T 0 = Some (Dir root)" "fs_of k = Some f" and z: "calm z"
    and path: "length path + length name + 1 < 1024" "0 \<notin> set path" "dir_of T root path = Some es"
    and name: "component name" "length name < 100" "0 \<notin> set name"
    and i: "map_of es name = Some i" "T i = Some nd" "nd \<noteq> Blank INODE_DIRECTORY" "i \<noteq> snd (hd es)" "i \<noteq> 0"
    and room: "room f 1044 b"
  obtains k' f' where "sys_rm z k (path @ slash # name) = Some (s_ret z, k')" "mounts k' (remove_name T es name i)"
    "mem k' = mem k" "fs_of k' = Some f'" "set (free_list (sb f')) = set (drop b (free_list (sb f))) \<union> claims f i"
    "bits (free_inode_bitmap (sb f')) = bits (free_inode_bitmap (sb f)) - {i}" "shape f' = shape f"
    "open_files k' = open_files k" "tbl k' = tbl k"
proof -
  obtain d where f: "rep f T" "root_dir k = Some d" "dir_ok d" "entries d = root" using k by (auto simp: mounts_def)
  note own = dir_of_own [OF f(1) k(2) path(3)]
  obtain e inode0 inode where e: "parent_dir z f d path (s_inode z) = Some (e, inode0, f)" "dir_ok e" "entries e = es"
    "path_to_inode_id z f e name = Some (i, f)" "read_inode z f i inode0 = Some (0, inode, f)" "node_at f i inode"
    by (rule find_name [OF f(1) k(2) z f(3,4) path name(1,3) i(1-3)])
  obtain e' f1 f' where r: "delete_file_link e name = Some (0, e')" "write_dir z f e' = Some (snd (hd es), f1)" "0 \<le> snd (hd es)"
    "delete_inode z f1 inode = Some (0, new_inode i, f')" "rep f' (remove_name T es name i)"
    "set (free_list (sb f')) = set (drop b (free_list (sb f))) \<union> claims f i"
    "bits (free_inode_bitmap (sb f')) = bits (free_inode_bitmap (sb f)) - {i}" "shape f' = shape f"
    by (rule remove_node [OF f(1) own(2) e(2,3) own(1) name(3) i(1,2) e(6) i(4) calmD(1) [OF z] room])
  let ?T = "remove_name T es name i"
  have "\<exists>es0. ?T 0 = Some (Dir es0)" using k(2) i(5) by (auto simp: remove_name_def)
  then obtain es0 where es0: "?T 0 = Some (Dir es0)" ..
  obtain d' where d': "refresh_root z (put_fs k f') = Some (0, (put_fs k f')\<lparr>root_dir := Some d'\<rparr>)" "dir_ok d'" "entries d' = es0"
    by (rule refresh_root_tree [OF put_fs_simps(4) r(5) es0 _ _ calmD(1) [OF z], where old = d]) (use f(2,3) in \<open>simp_all add: dir_ok_def\<close>)
  have "sys_rm z k (path @ slash # name) = Some (s_ret z, (put_fs k f')\<lparr>root_dir := Some d'\<rparr>)"
    unfolding sys_rm_def parse_filename_spec [OF name(1,2) path(1)] Option.bind.bind_lunit prod.case k(3) f(2) e(1,4,5) r(1,2)
    using r(3,4) d'(1) by (simp add: Let_def)
  moreover have "mounts ((put_fs k f')\<lparr>root_dir := Some d'\<rparr>) ?T"
    using k(1) r(5) es0 d'(2,3) by (auto simp: mounts_def)
  ultimately show thesis using r(6-8) by (intro that [of "(put_fs k f')\<lparr>root_dir := Some d'\<rparr>" f']) simp_all
qed

text \<open>\<open>rmdir\<close> does the same for a directory with no entries but \<open>.\<close> and \<open>..\<close>, without reading the root again.\<close>

lemma sys_rmdir_tree:
  assumes k: "mounts k T" "T 0 = Some (Dir root)" "fs_of k = Some f" and z: "calm z"
    and path: "length path + length name + 1 < 1024" "0 \<notin> set path" "dir_of T root path = Some es"
    and name: "component name" "length name < 100" "0 \<notin> set name"
    and i: "map_of es name = Some i" "T i = Some (Dir es')" "length es' \<le> 2" "i \<noteq> snd (hd es)" "i \<noteq> 0"
    and room: "room f 1044 b"
  obtains k' f' where "sys_rmdir z k (path @ slash # name) = Some (0, k')" "fs_of k' = Some f'" "rep f' (remove_name T es name i)"
    "root_dir k' = root_dir k" "mem k' = mem k" "snd (hd es) \<noteq> 0 \<Longrightarrow> mounts k' (remove_name T es name i)"
    "set (free_list (sb f')) = set (drop b (free_list (sb f))) \<union> claims f i"
    "bits (free_inode_bitmap (sb f')) = bits (free_inode_bitmap (sb f)) - {i}" "shape f' = shape f"
    "open_files k' = open_files k" "tbl k' = tbl k"
proof -
  obtain d where f: "rep f T" "root_dir k = Some d" "dir_ok d" "entries d = root" using k by (auto simp: mounts_def)
  note own = dir_of_own [OF f(1) k(2) path(3)]
  obtain e inode0 inode where e: "parent_dir z f d path (s_inode z) = Some (e, inode0, f)" "dir_ok e" "entries e = es"
    "path_to_inode_id z f e name = Some (i, f)" "read_inode z f i inode0 = Some (0, inode, f)" "node_at f i inode"
    "ino_type inode = node_type (Dir es')" "content_rep f inode (Dir es')"
    by (rule find_name [OF f(1) k(2) z f(3,4) path name(1,3) i(1,2)]) simp
  have fo: "fs_ok f" using f(1) by (simp add: rep_def)
  obtain c where c: "read_dir z f inode (s_dir z) = Some (0, c, inode, f)" "dir_ok c" "entries c = es'"
    by (rule read_dir_node [OF fo e(6) _ e(8), of z "s_dir z"]) (use e(7) calmD(1) [OF z] in \<open>simp_all add: stack_wf_def\<close>)
  have "files_count c \<le> 2"
    using c(2,3) i(3) by (auto simp: entries_def dir_ok_def directory_wf_def min_def split: if_splits)
  moreover obtain e' f1 f' where r: "delete_file_link e name = Some (0, e')" "write_dir z f e' = Some (snd (hd es), f1)"
    "delete_inode z f1 inode = Some (0, new_inode i, f')" "rep f' (remove_name T es name i)"
    "set (free_list (sb f')) = set (drop b (free_list (sb f))) \<union> claims f i"
    "bits (free_inode_bitmap (sb f')) = bits (free_inode_bitmap (sb f)) - {i}" "shape f' = shape f"
    by (rule remove_node [OF f(1) own(2) e(2,3) own(1) name(3) i(1,2) e(6) i(4) calmD(1) [OF z] room])
  ultimately have "sys_rmdir z k (path @ slash # name) = Some (0, put_fs k f')"
    unfolding sys_rmdir_def parse_filename_spec [OF name(1,2) path(1)] Option.bind.bind_lunit prod.case k(3) f(2) e(1,4,5) c(1) r(1,2,3)
    by simp
  moreover have "mounts (put_fs k f') (remove_name T es name i)" if "snd (hd es) \<noteq> 0"
    using that i(5) by (intro mounts_put [OF k(1) r(4)]) (simp add: remove_name_def)
  ultimately show thesis using that [of "put_fs k f'" f'] r(4-7) by simp
qed

end
