(* ===== verification/Tree_List.thy ===== *)
theory Tree_List
  imports Tree_Calls
begin

text \<open>
  \<open>ls\<close> over the tree: the names of the directory are appended to the string in the caller's memory.
\<close>

section \<open>Appending to a string in memory\<close>

lemma strcat_spec:
  assumes s: "cstr_at m a = Some s" and xs: "0 \<notin> set xs" "length s + length xs < 2 ^ 32"
  obtains m' where "strcat m a xs = Some m'" "cstr_at m' a = Some (s @ xs)"
    "\<And>b. length s + length xs < unat (b - a) \<Longrightarrow> m' b = m b"
proof -
  note D = cstr_atD [OF s]
  let ?m = "store_bytes m (a + of_nat (length s)) (xs @ [0])"
  have len: "length (xs @ [0]) \<le> 2 ^ 32" using xs(2) by simp
  have far: "?m b = m b" if "unat (b - a) < length s \<or> length s + length xs < unat (b - a)" for b
  proof -
    have u: "unat (of_nat (length s) :: u32) = length s" using xs(2) by (intro unat_of_nat_small) simp
    have e: "b - (a + of_nat (length s)) = (b - a) - of_nat (length s)" by simp
    have lt: "unat (b - a) < 2 ^ 32" using unsigned_less [of "b - a"] by simp
    have "length xs < unat ((b - a) - of_nat (length s))"
      using that u lt xs(2) unat_sub_if' [of "b - a" "of_nat (length s)"] by auto
    then show ?thesis unfolding store_bytes_read [OF len] e by simp
  qed
  have "cstr_at ?m a = Some (s @ xs)"
  proof (rule cstr_atI)
    show "0 \<notin> set (s @ xs)" using D xs(1) by simp
    fix i assume i: "i < length (s @ xs)"
    show "?m (a + of_nat i) = (s @ xs) ! i"
    proof (cases "i < length s")
      case True
      then have "?m (a + of_nat i) = m (a + of_nat i)" using xs(2) by (intro far) (simp add: unat_of_nat_small)
      then show ?thesis using True D by (simp add: nth_append)
    next
      case False
      have "?m (a + of_nat (length s) + of_nat (i - length s)) = (xs @ [0]) ! (i - length s)"
        using i False by (intro store_at [OF len]) simp
      moreover have "a + of_nat (length s) + of_nat (i - length s) = a + of_nat i" using False by (simp flip: of_nat_add add: add.assoc)
      moreover have "i - length s < length xs" using i False by simp
      ultimately show ?thesis using False by (simp add: nth_append)
    qed
  next
    have "?m (a + of_nat (length s) + of_nat (length xs)) = (xs @ [0]) ! length xs" by (intro store_at [OF len]) simp
    then show "?m (a + of_nat (length (s @ xs))) = 0" by (simp add: add.assoc)
  qed
  then show thesis using far by (intro that [of ?m]) (simp_all add: strcat_def s)
qed

section \<open>Listing a directory\<close>

text \<open>The names, each with a line feed, as \<open>ls\<close> appends them to the string of the caller.\<close>

definition listing :: "dir_entries \<Rightarrow> u8 list" where
  "listing es = concat (map (\<lambda>(n, _). n @ [10]) es)"

lemma entry_name: "link_wf l \<Longrightarrow> 0 \<in> set (filename l) \<Longrightarrow>
    buf_string (filename l) = Some (fst (entry l)) \<and> length (fst (entry l)) < 100 \<and> 0 \<notin> set (fst (entry l))"
proof -
  assume l: "link_wf l" "0 \<in> set (filename l)"
  have "0 \<in> set xs \<Longrightarrow> length (cstr_of xs) < length xs" for xs by (induction xs) (auto simp: cstr_of_def)
  from this [OF l(2)] have "length (cstr_of (filename l)) < length (filename l)" .
  moreover have "length (filename l) = 100" using l(1) by (simp add: link_wf_def)
  moreover have "0 \<notin> set (cstr_of (filename l))" by (auto simp: cstr_of_def dest: set_takeWhileD)
  ultimately show ?thesis using l(2) by (simp add: entry_def buf_string_def cstr_of_def)
qed

lemma listing_loop:
  assumes d: "dir_ok d" and s: "cstr_at m a = Some s" and n: "n \<le> nat (files_count d)" "length s + 101 * n < 2 ^ 32"
  shows "\<exists>m'. foreach (\<lambda>i m. do {
        l \<leftarrow> rd (links d) i;
        name \<leftarrow> buf_string (filename l);
        m \<leftarrow> strcat m a name;
        strcat m a [10] }) [0..int n - 1] m = Some m' \<and>
      cstr_at m' a = Some (s @ listing (map entry (take n (links d)))) \<and>
      length (listing (map entry (take n (links d)))) \<le> 101 * n \<and>
      (\<forall>b. length (s @ listing (map entry (take n (links d)))) < unat (b - a) \<longrightarrow> m' b = m b)"
  using n
proof (induction n)
  case 0
  then show ?case using s by (simp add: listing_def)
next
  case (Suc n)
  let ?f = "\<lambda>i m. do { l \<leftarrow> rd (links d) i; name \<leftarrow> buf_string (filename l); m \<leftarrow> strcat m a name; strcat m a [10] }"
  let ?t = "listing (map entry (take n (links d)))" and ?l = "links d ! n"
  have len: "n < length (links d)" "?l \<in> set (take (nat (files_count d)) (links d))"
    using d Suc.prems(1) by (auto simp: dir_ok_def directory_wf_def in_set_conv_nth intro!: exI [of _ n])
  have w: "link_wf ?l" "0 \<in> set (filename ?l)"
    using d len by (auto simp: dir_ok_def directory_wf_def)
  note e = entry_name [OF w]
  obtain m1 where m1: "foreach ?f [0..int n - 1] m = Some m1" "cstr_at m1 a = Some (s @ ?t)" "length ?t \<le> 101 * n"
    "\<forall>b. length (s @ ?t) < unat (b - a) \<longrightarrow> m1 b = m b"
    using Suc by auto
  obtain m2 where m2: "strcat m1 a (fst (entry ?l)) = Some m2" "cstr_at m2 a = Some ((s @ ?t) @ fst (entry ?l))"
    "\<And>b. length (s @ ?t) + length (fst (entry ?l)) < unat (b - a) \<Longrightarrow> m2 b = m1 b"
    by (rule strcat_spec [OF m1(2), of "fst (entry ?l)"]) (use e m1(3) Suc.prems(2) in auto)
  obtain m3 where m3: "strcat m2 a [10] = Some m3" "cstr_at m3 a = Some (((s @ ?t) @ fst (entry ?l)) @ [10])"
    "\<And>b. length ((s @ ?t) @ fst (entry ?l)) + length [10 :: u8] < unat (b - a) \<Longrightarrow> m3 b = m2 b"
    by (rule strcat_spec [OF m2(2), of "[10]"]) (use e m1(3) Suc.prems(2) in auto)
  have up: "[0..int (Suc n) - 1] = [0..int n - 1] @ [int n]" using upto_rec2 [of 0 "int n"] by simp
  have list: "listing (map entry (take (Suc n) (links d))) = ?t @ fst (entry ?l) @ [10]"
    using len(1) by (simp add: take_Suc_conv_app_nth listing_def case_prod_beta)
  have "foreach ?f [0..int (Suc n) - 1] m = Some m3"
    unfolding up foreach_append m1(1) using len(1) e m2(1) m3(1) by (simp add: rd_Some)
  moreover have "m3 b = m b" if "length (s @ ?t @ fst (entry ?l) @ [10]) < unat (b - a)" for b
    using that m1(4) m2(3) [of b] m3(3) [of b] by simp
  ultimately show ?case using m3(2) m1(3) e by (simp add: list)
qed

lemma sys_ls_tree:
  assumes k: "mounts k T" "T 0 = Some (Dir root)" and z: "calm z"
    and path: "length path < 1024" "0 \<notin> set path" "leads_to T root path = Some i" "T i = Some (Dir es)"
    and s: "cstr_at (mem k) a = Some s" "length s < 2 ^ 31"
  obtains m where "sys_ls z k path a = Some (0, k\<lparr>mem := m\<rparr>)" "cstr_at m a = Some (s @ listing es)"
    "\<And>b. length (s @ listing es) < unat (b - a) \<Longrightarrow> m b = mem k b"
proof -
  obtain f d where f: "fs_of k = Some f" "rep f T" "root_dir k = Some d" "dir_ok d" "entries d = root"
    using k by (auto simp: mounts_def)
  have z': "length (s_block z) = 1024" "inode_wf (s_inode z)" "directory_wf (s_dir z)"
    using calmD(1) [OF z] by (simp_all add: stack_wf_def)
  obtain inode where n: "read_inode z f i (s_inode z) = Some (0, inode, f)" "node_at f i inode" "ino_type inode = node_type (Dir es)"
    "content_rep f inode (Dir es)" "0 \<le> i"
    by (rule rep_cases [OF f(2) path(4) z'(1,2)])
  have fo: "fs_ok f" using f(2) by (simp add: rep_def)
  obtain e where e: "read_dir z f inode (s_dir z) = Some (0, e, inode, f)" "dir_ok e" "entries e = es"
    by (rule read_dir_node [OF fo n(2) _ n(4) z'(1,3)]) (use n(3) in simp_all)
  have p: "path_to_inode_id z f d path = Some (i, f)" by (rule path_resolves [OF f(2) z f(4,5) path(1-3)])
  have c: "nat (files_count e) \<le> 10" "int (nat (files_count e)) = files_count e" using e(2) by (auto simp: dir_ok_def)
  obtain m where "foreach (\<lambda>i m. do { l \<leftarrow> rd (links e) i; name \<leftarrow> buf_string (filename l); m \<leftarrow> strcat m a name; strcat m a [10] })
      [0..files_count e - 1] (mem k) = Some m" "cstr_at m a = Some (s @ listing es)"
    "\<forall>b. length (s @ listing es) < unat (b - a) \<longrightarrow> m b = mem k b"
    using listing_loop [OF e(2) s(1) order_refl] s(2) c e(3) by (auto simp: entries_def)
  then show thesis
    using f(1,3) p n(1,5) e(1) c(1) by (intro that [of m]) (simp_all add: sys_ls_def put_fs_same)
qed

end
