(* ===== verification/Tree_Runs.thy ===== *)
theory Tree_Runs
  imports Tree_Mount Tree_Remove Tree_List
begin

text \<open>
  Sequences of file system calls. \<open>afs\<close> is what a user has to know of the file system: the tree, the open files, the
  descriptors of each process and a lower bound of the free blocks. \<open>spec\<close> says what a call answers and makes of it. Every
  session of calls, by any processes and with anything that leaves the files alone happening in between, gives
  the answers of \<open>spec\<close> (\<open>simulates\<close> relates the states).
\<close>

section \<open>The abstract file system\<close>

text \<open>\<open>handles\<close> has inode and flags of each descriptor, \<open>own\<close> the descriptors of each process, \<open>spare\<close> blocks are free at least,
  \<open>inodes\<close> is the number of inodes, \<open>block\<close> the length of a block.\<close>

record afs =
  nodes :: tree
  handles :: "(int \<times> int) list"
  own :: "int \<Rightarrow> int list"
  spare :: nat
  inodes :: int
  block :: int

datatype fcall =
    Open "u8 list" "u8 list" int
  | Write int "u8 list"
  | Read int int
  | Mkdir "u8 list" "u8 list"
  | Rm "u8 list" "u8 list"
  | Rmdir "u8 list" "u8 list"
  | Ls "u8 list"

text \<open>\<open>Done\<close> stands for the result of a function that ends without a \<open>return\<close>.\<close>

datatype reply = Number int | Contents "u8 list" | Done

definition root_entries :: "tree \<Rightarrow> dir_entries" where
  "root_entries T = (case T 0 of Some (Dir es) \<Rightarrow> es | _ \<Rightarrow> [])"

definition good_path :: "u8 list \<Rightarrow> u8 list \<Rightarrow> bool" where
  "good_path dir name \<longleftrightarrow> component name \<and> length name < 100 \<and> 0 \<notin> set name \<and> length dir + length name + 1 < 1024 \<and> 0 \<notin> set dir"

definition directory_at :: "afs \<Rightarrow> u8 list \<Rightarrow> u8 list \<Rightarrow> dir_entries option" where
  "directory_at a dir name = (if good_path dir name then dir_of (nodes a) (root_entries (nodes a)) dir else None)"

text \<open>A new file gets the first inode that is free; from inode 32 on the bitmap has no bits.\<close>

definition next_inode :: "afs \<Rightarrow> int option" where
  "next_inode a = List.find (\<lambda>i. nodes a i = None) [0..min (inodes a) 32 - 1]"

definition cost :: "int \<Rightarrow> int \<Rightarrow> nat" where
  "cost l n = nat ((n - 1) div l + 1)"

definition may_open :: "int \<Rightarrow> int \<Rightarrow> afs \<Rightarrow> bool" where
  "may_open p i a \<longleftrightarrow> length (handles a) < 10 \<and> length (own a p) < 10 \<and> i \<notin> fst ` set (handles a)"

definition add_handle :: "int \<Rightarrow> int \<Rightarrow> int \<Rightarrow> afs \<Rightarrow> afs" where
  "add_handle p i flags a = a\<lparr>handles := handles a @ [(i, flags)], own := (own a)(p := own a p @ [int (length (handles a))])\<rparr>"

definition handle :: "afs \<Rightarrow> int \<Rightarrow> (int \<times> int) option" where
  "handle a fd = (if 0 \<le> fd \<and> fd < int (length (handles a)) then Some (handles a ! nat fd) else None)"

text \<open>A descriptor that the process has not opened, and that is not shared for this use either.\<close>

definition foreign :: "int \<Rightarrow> int \<Rightarrow> int \<Rightarrow> afs \<Rightarrow> bool" where
  "foreign p fd global a \<longleftrightarrow> fd \<notin> set (own a p) \<and> map_option snd (handle a fd) \<noteq> Some global"

text \<open>\<open>None\<close> where nothing is promised: the space may not suffice, a table is full, the kernel does not check.\<close>

fun spec :: "int \<Rightarrow> fcall \<Rightarrow> afs \<Rightarrow> (reply \<times> afs) option" where
  "spec p (Open dir name flags) a = do {
     es \<leftarrow> directory_at a dir name;
     case map_of es name of
       Some i \<Rightarrow> do {
         nd \<leftarrow> nodes a i;
         if nd \<noteq> Blank INODE_DIRECTORY \<and> may_open p i a
         then Some (Number (int (length (handles a))), add_handle p i flags a) else None
       }
     | None \<Rightarrow>
         if \<not> creates flags then Some (Number (- 1), a)
         else do {
           i \<leftarrow> next_inode a;
           if length es < 9 \<and> 2 \<le> spare a \<and> may_open p i a
           then Some (Number (int (length (handles a))), add_handle p i flags
             (a\<lparr>nodes := add_name (nodes a) es name i (Blank INODE_FILE), spare := spare a - 2\<rparr>)) else None
         }
   }"
| "spec p (Write fd x) a =
     (if foreign p fd WRITE_GLOBAL a then Some (Number (- 1), a)
      else do {
        (i, flags) \<leftarrow> handle a fd;
        nd \<leftarrow> nodes a i;
        let n = int (length x);
        let b = cost (block a) n;
        if fd \<in> set (own a p) \<and> (flags = READ_WRITE \<or> flags = WRITE) \<and> node_type nd = INODE_FILE \<and> 0 < n \<and> b \<le> 6 \<and> b \<le> spare a
        then Some (Number n, a\<lparr>nodes := (nodes a)(i \<mapsto> File x), spare := spare a - b\<rparr>) else None
      })"
| "spec p (Read fd n) a =
     (if foreign p fd READ_GLOBAL a then Some (Number (- 1), a)
      else do {
        (i, flags) \<leftarrow> handle a fd;
        nd \<leftarrow> nodes a i;
        case nd of
          File x \<Rightarrow> if fd \<in> set (own a p) \<and> (flags = READ_WRITE \<or> flags = READ) \<and> 0 < n \<and> n \<le> int (length x)
            then Some (Contents (take (nat n) x), a) else None
        | _ \<Rightarrow> None
      })"
| "spec p (Mkdir dir name) a = do {
     es \<leftarrow> directory_at a dir name;
     i \<leftarrow> next_inode a;
     if name \<notin> fst ` set es \<and> length es < 9 \<and> 4 \<le> spare a
     then Some (Done, a\<lparr>nodes := add_name (nodes a) es name i (Dir (new_dir i (snd (hd es)))), spare := spare a - 4\<rparr>) else None
   }"
| "spec p (Rm dir name) a = do {
     es \<leftarrow> directory_at a dir name;
     i \<leftarrow> map_of es name;
     nd \<leftarrow> nodes a i;
     if nd \<noteq> Blank INODE_DIRECTORY \<and> i \<noteq> snd (hd es) \<and> i \<noteq> 0 \<and> 2 \<le> spare a
     then Some (Done, a\<lparr>nodes := remove_name (nodes a) es name i, spare := spare a - 2\<rparr>) else None
   }"
| "spec p (Rmdir dir name) a = do {
     es \<leftarrow> directory_at a dir name;
     i \<leftarrow> map_of es name;
     nd \<leftarrow> nodes a i;
     case nd of
       Dir es' \<Rightarrow> if length es' \<le> 2 \<and> i \<noteq> snd (hd es) \<and> i \<noteq> 0 \<and> snd (hd es) \<noteq> 0 \<and> 2 \<le> spare a
         then Some (Number 0, a\<lparr>nodes := remove_name (nodes a) es name i, spare := spare a - 2\<rparr>) else None
     | _ \<Rightarrow> None
   }"
| "spec p (Ls path) a = do {
     i \<leftarrow> (if length path < 1024 \<and> 0 \<notin> set path then leads_to (nodes a) (root_entries (nodes a)) path else None);
     if i < 0 then Some (Number (- 1), a)
     else case nodes a i of Some (Dir es) \<Rightarrow> Some (Contents (listing es), a) | _ \<Rightarrow> None
   }"

fun specs :: "(int \<times> fcall) list \<Rightarrow> afs \<Rightarrow> (reply list \<times> afs) option" where
  "specs [] a = Some ([], a)"
| "specs ((p, c) # cs) a = do {
     (r, a) \<leftarrow> spec p c a;
     (rs, a) \<leftarrow> specs cs a;
     Some (r # rs, a)
   }"

section \<open>Sessions of the kernel\<close>

text \<open>A call of the running process with its buffer at address \<open>x\<close>.\<close>

fun execute :: "stack \<Rightarrow> u32 \<Rightarrow> fcall \<Rightarrow> kernel \<Rightarrow> (reply \<times> kernel) option" where
  "execute z x (Open dir name flags) k = do { (r, k) \<leftarrow> sys_open z k (dir @ slash # name) flags; Some (Number r, k) }"
| "execute z x (Write fd bs) k = do { (r, k) \<leftarrow> sys_write z k fd x (int (length bs)); Some (Number r, k) }"
| "execute z x (Read fd n) k = do {
     (r, k) \<leftarrow> sys_read z k fd x n;
     Some (if r < 0 then Number r else Contents (load_bytes (mem k) x n), k) }"
| "execute z x (Mkdir dir name) k = do { (_, k) \<leftarrow> sys_mkdir z k (dir @ slash # name); Some (Done, k) }"
| "execute z x (Rm dir name) k = do { (_, k) \<leftarrow> sys_rm z k (dir @ slash # name); Some (Done, k) }"
| "execute z x (Rmdir dir name) k = do { (r, k) \<leftarrow> sys_rmdir z k (dir @ slash # name); Some (Number r, k) }"
| "execute z x (Ls path) k = do {
     (r, k) \<leftarrow> sys_ls z k path x;
     s \<leftarrow> cstr_at (mem k) x;
     Some (if r < 0 then Number r else Contents s, k) }"

text \<open>What the buffer holds before the call.\<close>

fun prepared :: "(u32 \<Rightarrow> u8) \<Rightarrow> u32 \<Rightarrow> fcall \<Rightarrow> bool" where
  "prepared m x (Write fd bs) = (load_bytes m x (int (length bs)) = bs)"
| "prepared m x (Ls path) = (cstr_at m x = Some [])"
| "prepared m x _ = True"

text \<open>What may happen between the calls: anything but a change of the file system and of the descriptors.\<close>

definition same_files :: "kernel \<Rightarrow> kernel \<Rightarrow> bool" where
  "same_files k k' \<longleftrightarrow> mounted k' = mounted k \<and> root_dir k' = root_dir k \<and> dsk k' = dsk k \<and> open_files k' = open_files k \<and>
     procs_wf (tbl k') \<and> (\<forall>p. valid_pid p \<longrightarrow> open_fds (tbl k') p = open_fds (tbl k) p)"

inductive session :: "kernel \<Rightarrow> (int \<times> fcall \<times> reply) list \<Rightarrow> kernel \<Rightarrow> bool" where
  start: "session k [] k"
| step: "session k tr k1 \<Longrightarrow> same_files k1 k2 \<Longrightarrow> calm z \<Longrightarrow> prepared (mem k2) x c \<Longrightarrow> execute z x c k2 = Some (r, k3) \<Longrightarrow>
    session k (tr @ [(cur (tbl k2), c, r)]) k3"

section \<open>The simulation\<close>

definition provides :: "fs \<Rightarrow> afs \<Rightarrow> bool" where
  "provides f a \<longleftrightarrow> free_space f (spare a) \<and> blen f = block a \<and> inode_num (sb f) = inodes a \<and>
     (\<forall>i. 0 \<le> i \<and> i < inodes a \<longrightarrow> home f i) \<and> bits (free_inode_bitmap (sb f)) = dom (nodes a)"

definition lists_handles :: "kernel \<Rightarrow> afs \<Rightarrow> bool" where
  "lists_handles k a \<longleftrightarrow> map (\<lambda>e. (fd_inode_id e, fd_flags e)) (fds (open_files k)) = handles a \<and>
     map fd_id (fds (open_files k)) = [0..int (length (handles a)) - 1] \<and>
     (\<forall>p. valid_pid p \<longrightarrow> open_fds (tbl k) p = own a p)"

definition simulates :: "kernel \<Rightarrow> afs \<Rightarrow> bool" where
  "simulates k a \<longleftrightarrow> mounts k (nodes a) \<and> (\<exists>f. fs_of k = Some f \<and> provides f a) \<and> lists_handles k a"

lemma simulates_same:
  assumes "simulates k a" "same_files k k'"
  shows "simulates k' a"
proof -
  have "fs_of k' = fs_of k" using assms(2) by (simp add: same_files_def fs_of_def)
  then show ?thesis using assms unfolding simulates_def mounts_def lists_handles_def same_files_def by auto
qed

lemma simulates_root:
  assumes "simulates k a"
  shows "nodes a 0 = Some (Dir (root_entries (nodes a)))"
  using assms by (auto simp: simulates_def mounts_def root_entries_def)

lemma next_inodeD:
  assumes s: "simulates k a" and f: "fs_of k = Some f" and i: "next_inode a = Some i"
  shows "offers f i" "nodes a i = None"
proof -
  have p: "provides f a" "mounts k (nodes a)" using s f by (auto simp: simulates_def)
  have fo: "fs_ok f" using mounts_fs [OF p(2) f] by (simp add: rep_def)
  let ?bm = "free_inode_bitmap (sb f)" and ?m = "min (inodes a) 32"
  have i: "0 \<le> i" "i < ?m" "nodes a i = None" "\<forall>j. 0 \<le> j \<and> j < i \<longrightarrow> nodes a j \<noteq> None"
  proof -
    obtain n where n: "n < length [0..?m - 1]" "[0..?m - 1] ! n = i" "nodes a i = None" "\<forall>j < n. nodes a ([0..?m - 1] ! j) \<noteq> None"
      using i by (auto simp: next_inode_def find_Some_iff)
    have m: "int n < ?m" using n(1) unfolding length_upto by linarith
    have nth: "[0..?m - 1] ! j = int j" if "j \<le> n" for j using that m nth_upto [of 0 j "?m - 1"] by simp
    show "0 \<le> i" "i < ?m" "nodes a i = None" using n(2,3) nth [of n] m by simp_all
    show "\<forall>j. 0 \<le> j \<and> j < i \<longrightarrow> nodes a j \<noteq> None"
    proof (intro allI impI)
      fix j assume j: "0 \<le> j \<and> j < i"
      then have "nat j < n" using n(2) nth [of n] by (simp add: nat_less_iff)
      then show "nodes a j \<noteq> None" using n(4) [rule_format, of "nat j"] nth [of "nat j"] j by simp
    qed
  qed
  then show "nodes a i = None" by simp
  have inb: "in_bitmap ?bm j" if "0 \<le> j" "j \<le> i" for j
    using fo that i by (simp add: in_bitmap_def fs_ok_def superblock_wf_def)
  have bits: "j \<in> bits ?bm \<longleftrightarrow> nodes a j \<noteq> None" for j using p(1) by (auto simp: provides_def)
  have num: "inode_num (sb f) = inodes a" "home f i" using p(1) i by (simp_all add: provides_def)
  have split: "[0..inode_num (sb f) - 1] = [0..i - 1] @ i # [i + 1..inode_num (sb f) - 1]"
    using i(1,2) num upto_split1 [of 0 i "inode_num (sb f) - 1"] upto_rec1 [of i "inode_num (sb f) - 1"] by simp
  have "\<exists>ys. filter (\<lambda>j. j \<notin> bits ?bm) [0..inode_num (sb f) - 1] = i # ys"
    unfolding split using i(3,4) by (auto simp: bits filter_empty_conv)
  then obtain ys where "filter (\<lambda>j. j \<notin> bits ?bm) [0..inode_num (sb f) - 1] = i # ys" ..
  then have "find_first (\<lambda>n. do { b \<leftarrow> get_bit ?bm n; Some (b = 0) }) [0..inode_num (sb f) - 1] = Some (Some i)"
  proof (rule find_first_head)
    show "do { b \<leftarrow> get_bit ?bm j; Some (b = 0) } = Some (j \<notin> bits ?bm)"
      if "j \<in> set [0..inode_num (sb f) - 1]" "j \<le> i" for j
      using get_bit_bits [OF inb [of j]] that by simp
  qed simp
  then have "free_inode_id (sb f) = Some i" by (simp add: free_inode_id_def first_free_def)
  moreover have "backed i" using i(1,2) by (simp add: backed_def)
  ultimately show "offers f i" using inb [of i] i(1) num(2) by (simp add: offers_def)
qed

lemma cost_needs:
  assumes "0 < l" "0 < n"
  shows "needs l n (cost l n)"
proof -
  let ?q = "(n - 1) div l"
  have q: "0 \<le> ?q" using assms pos_imp_zdiv_nonneg_iff [of l "n - 1"] by simp
  have "l * ?q + (n - 1) mod l = n - 1" "0 \<le> (n - 1) mod l" "(n - 1) mod l < l" using assms by simp_all
  then have "l * ?q < n" "n \<le> l * (?q + 1)" unfolding distrib_left mult_1_right by linarith+
  moreover have "int (cost l n) = ?q + 1" "1 \<le> cost l n" using q by (simp_all add: cost_def)
  ultimately show ?thesis unfolding needs_def by simp
qed

section \<open>Free blocks\<close>

lemma smaller_elements:
  assumes "sorted_wrt (<) (xs :: int list)" "i < length xs"
  shows "{x \<in> set xs. x < xs ! i} = set (take i xs)" "card (set (take i xs)) = i"
proof -
  have lt: "xs ! j < xs ! l \<longleftrightarrow> j < l" if "j < length xs" "l < length xs" for j l
    using that sorted_wrt_nth_less [OF assms(1)] by (metis less_asym linorder_neqE_nat less_irrefl)
  show "{x \<in> set xs. x < xs ! i} = set (take i xs)"
  proof (intro set_eqI iffI)
    fix x assume "x \<in> {x \<in> set xs. x < xs ! i}"
    then show "x \<in> set (take i xs)" using lt assms(2) by (auto simp: in_set_conv_nth)
  next
    fix x assume "x \<in> set (take i xs)"
    then obtain j where "j < i" "x = xs ! j" using assms(2) by (auto simp: in_set_conv_nth)
    then show "x \<in> {x \<in> set xs. x < xs ! i}" using lt [of j i] assms(2) by simp
  qed
  have "distinct xs" using assms(1) by (simp add: strict_sorted_iff)
  then show "card (set (take i xs)) = i" using assms(2) by (simp add: distinct_card)
qed

lemma take_superset:
  assumes "sorted_wrt (<) (xs :: int list)" "sorted_wrt (<) ys" "set xs \<subseteq> set ys" "y \<in> set (take m ys)" "y \<in> set xs"
  shows "y \<in> set (take m xs)"
proof -
  obtain i where i: "i < length xs" "y = xs ! i" using assms(5) by (auto simp: in_set_conv_nth)
  obtain j where j: "j < m" "j < length ys" "y = ys ! j" using assms(4) by (auto simp: in_set_conv_nth)
  have "{x \<in> set xs. x < xs ! i} \<subseteq> {x \<in> set ys. x < ys ! j}" using assms(3) i(2) j(3) by auto
  then have "card (set (take i xs)) \<le> card (set (take j ys))"
    unfolding smaller_elements(1) [OF assms(1) i(1)] smaller_elements(1) [OF assms(2) j(2)] by (rule card_mono [rotated]) simp
  then have "i \<le> j" using smaller_elements(2) [OF assms(1) i(1)] smaller_elements(2) [OF assms(2) j(2)] by simp
  then show ?thesis using i j(1) by (auto simp: in_set_conv_nth)
qed

lemma free_list_sorted: "sorted_wrt (<) (free_list b)"
  unfolding free_list_def addrs_def by (intro sorted_wrt_filter) (simp add: strict_sorted_iff)

text \<open>Freeing blocks does not lower the number of free ones that have a bit.\<close>

lemma free_space_freed:
  assumes sp: "free_space f (b + m)" and fl: "set (free_list (sb f')) = set (drop b (free_list (sb f))) \<union> C"
    and C: "\<forall>a \<in> C. owned f a" and od: "on_disk (dk f') = on_disk (dk f)"
  shows "free_space f' m"
proof -
  let ?xs = "drop b (free_list (sb f))" and ?ys = "free_list (sb f')"
  have s: "sorted_wrt (<) ?xs" "sorted_wrt (<) ?ys" using free_list_sorted by (simp_all add: sorted_wrt_drop)
  have x: "m \<le> length ?xs" "\<forall>a \<in> set (take m ?xs). data_block (dk f) a"
  proof -
    show "m \<le> length ?xs" using sp by (auto simp: free_space_def)
    have "set (take m ?xs) \<subseteq> set (take (b + m) (free_list (sb f)))" by (simp add: take_add)
    then show "\<forall>a \<in> set (take m ?xs). data_block (dk f) a" using sp unfolding free_space_def by blast
  qed
  have "length ?xs = card (set ?xs)" "length ?ys = card (set ?ys)"
    using s by (simp_all add: strict_sorted_iff distinct_card)
  moreover have "card (set ?xs) \<le> card (set ?ys)" using fl by (intro card_mono finite_set) simp
  ultimately have "m \<le> length ?ys" using x(1) by simp
  moreover have "data_block (dk f) a" if a: "a \<in> set (take m ?ys)" for a
  proof (cases "a \<in> set ?xs")
    case True
    have "set ?xs \<subseteq> set ?ys" using fl by simp
    from take_superset [OF s this a True] show ?thesis using x(2) by simp
  next
    case False
    then have "a \<in> C" using fl a by (auto dest: in_set_takeD)
    then show ?thesis using C by (simp add: owned_def)
  qed
  ultimately show ?thesis using od by (simp add: free_space_def data_block_def)
qed

section \<open>Descriptors\<close>

lemma simulates_pid: "simulates k a \<Longrightarrow> valid_pid (cur (tbl k)) \<and> procs_wf (tbl k)"
  using cur_valid by (simp add: simulates_def mounts_def)

lemma simulates_fd:
  assumes "simulates k a"
  shows "length (fds (open_files k)) = length (handles a)" "fdt_count (open_files k) = int (length (handles a))"
    "j < length (handles a) \<Longrightarrow> fd_id (fds (open_files k) ! j) = int j"
    "j < length (handles a) \<Longrightarrow> handles a ! j = (fd_inode_id (fds (open_files k) ! j), fd_flags (fds (open_files k) ! j))"
proof -
  have l: "map (\<lambda>e. (fd_inode_id e, fd_flags e)) (fds (open_files k)) = handles a"
    "map fd_id (fds (open_files k)) = [0..int (length (handles a)) - 1]" and t: "fdt_ok (open_files k)"
    using assms by (auto simp: simulates_def lists_handles_def mounts_def)
  show len: "length (fds (open_files k)) = length (handles a)" using arg_cong [OF l(1), of length] by simp
  show "fdt_count (open_files k) = int (length (handles a))" using length_fds [OF t] len by simp
  show "fd_id (fds (open_files k) ! j) = int j" if "j < length (handles a)"
    using arg_cong [OF l(2), of "\<lambda>xs. xs ! j"] that len by simp
  show "handles a ! j = (fd_inode_id (fds (open_files k) ! j), fd_flags (fds (open_files k) ! j))" if "j < length (handles a)"
    using arg_cong [OF l(1), of "\<lambda>xs. xs ! j"] that len by simp
qed

lemma simulates_own: "simulates k a \<Longrightarrow> open_fds (tbl k) (cur (tbl k)) = own a (cur (tbl k))"
  using simulates_pid [of k a] by (auto simp: simulates_def lists_handles_def)

lemma handle_descriptor:
  assumes s: "simulates k a" and h: "handle a fd = Some (i, flags)" "fd \<in> set (own a (cur (tbl k)))"
  shows "descriptor k fd i flags"
proof -
  define n where "n = nat fd"
  let ?l = "fds (open_files k)"
  have n: "n < length (handles a)" "fd = int n" "handles a ! n = (i, flags)"
    using h(1) by (auto simp: handle_def n_def split: if_splits)
  note e = simulates_fd [OF s]
  have "?l = take n ?l @ ?l ! n # drop (Suc n) ?l" using n(1) e(1) by (simp add: id_take_nth_drop)
  moreover have "fd_id y \<noteq> fd" if y: "y \<in> set (take n ?l)" for y
  proof -
    obtain j where "j < n" "y = ?l ! j" using y n(1) e(1) by (auto simp: in_set_conv_nth)
    then show ?thesis using e(3) [of j] n by simp
  qed
  ultimately show ?thesis
    using e(3,4) [OF n(1)] n simulates_own [OF s] h(2) unfolding descriptor_def by (intro conjI exI [of _ "take n ?l"]) fastforce+
qed

lemma foreign_flags:
  assumes s: "simulates k a" and h: "foreign (cur (tbl k)) fd g a"
  shows "fd \<notin> set (open_fds (tbl k) (cur (tbl k)))" "\<forall>e \<in> set (fds (open_files k)). fd_id e = fd \<longrightarrow> fd_flags e \<noteq> g"
proof -
  show "fd \<notin> set (open_fds (tbl k) (cur (tbl k)))" using h simulates_own [OF s] by (simp add: foreign_def)
  note e = simulates_fd [OF s]
  show "\<forall>e \<in> set (fds (open_files k)). fd_id e = fd \<longrightarrow> fd_flags e \<noteq> g"
  proof (intro ballI impI)
    fix y assume y: "y \<in> set (fds (open_files k))" "fd_id y = fd"
    then obtain j where j: "j < length (handles a)" "y = fds (open_files k) ! j" using e(1) by (auto simp: in_set_conv_nth)
    have "fd = int j" using e(3) [OF j(1)] y(2) j(2) by simp
    then have "handle a fd = Some (handles a ! j)" using j(1) by (simp add: handle_def)
    then show "fd_flags y \<noteq> g" using e(4) [OF j(1)] j(2) h by (auto simp: foreign_def)
  qed
qed

lemma may_open_can:
  assumes s: "simulates k a" and o: "may_open (cur (tbl k)) i a"
  shows "can_open k i"
proof -
  note e = simulates_fd [OF s]
  have "fd_inode_id y \<noteq> i \<and> fd_id y \<noteq> int (length (handles a))" if y: "y \<in> set (fds (open_files k))" for y
  proof -
    obtain j where j: "j < length (handles a)" "y = fds (open_files k) ! j" using y e(1) by (auto simp: in_set_conv_nth)
    have "handles a ! j \<in> set (handles a)" using j(1) by simp
    then have "fst (handles a ! j) \<noteq> i" using o by (auto simp: may_open_def)
    then show ?thesis using e(3,4) [OF j(1)] j by simp
  qed
  then show ?thesis using o e(2) simulates_own [OF s] by (simp add: can_open_def may_open_def)
qed

lemma opens_handles:
  assumes s: "simulates k a" and o: "opens k k' i flags" and b: "handles b = handles a" "own b = own a"
  shows "lists_handles k' (add_handle (cur (tbl k)) i flags b)"
proof -
  note e = simulates_fd [OF s]
  have "[0..int (length (handles a) + 1) - 1] = [0..int (length (handles a)) - 1] @ [int (length (handles a))]"
    using upto_rec2 [of 0 "int (length (handles a))"] by simp
  then show ?thesis
    using s o b e(2) unfolding simulates_def lists_handles_def opens_def add_handle_def by (auto simp: add.commute)
qed

section \<open>Each call\<close>

lemma simulatesD:
  assumes "simulates k a"
  obtains f where "mounts k (nodes a)" "nodes a 0 = Some (Dir (root_entries (nodes a)))" "fs_of k = Some f" "provides f a" "fs_ok f"
    "rep f (nodes a)"
proof -
  obtain f where "fs_of k = Some f" "provides f a" "mounts k (nodes a)" using assms by (auto simp: simulates_def)
  then show thesis using that simulates_root [OF assms] mounts_fs by (auto simp: rep_def)
qed

lemma provides_step:
  assumes "provides f a" "shape f' = shape f" "free_space f' s" "bits (free_inode_bitmap (sb f')) = dom T"
  shows "provides f' (a\<lparr>nodes := T, spare := s\<rparr>)"
  using assms shape_home [OF assms(2)] by (simp add: provides_def shape_def)

lemma provides_handle [simp]: "provides f (add_handle p i flags a) = provides f a" "nodes (add_handle p i flags a) = nodes a"
  by (simp_all add: provides_def add_handle_def)

lemma directory_atD:
  assumes "directory_at a dir name = Some es"
  shows "component name" "length name < 100" "0 \<notin> set name" "length dir + length name + 1 < 1024" "0 \<notin> set dir"
    "dir_of (nodes a) (root_entries (nodes a)) dir = Some es"
  using assms by (simp_all add: directory_at_def good_path_def split: if_splits)

lemma dom_add_name: "T (snd (hd es)) = Some nd' \<Longrightarrow> dom (add_name T es name i nd) = insert i (dom T)"
  by (auto simp: add_name_def)

lemma dom_remove_name: "T (snd (hd es)) = Some nd' \<Longrightarrow> i \<noteq> snd (hd es) \<Longrightarrow> dom (remove_name T es name i) = dom T - {i}"
  by (auto simp: remove_name_def)

lemma rooms:
  assumes "provides f a" "fs_ok f" "2 \<le> spare a"
  shows "room f 1044 2" "free_space f (2 + (spare a - 2))"
proof -
  have sp: "free_space f (spare a)" using assms(1) by (simp add: provides_def)
  show "room f 1044 2" by (rule room_1044 [OF assms(2) free_space_mono [OF sp assms(3)]])
  have "2 + (spare a - 2) = spare a" using assms(3) by simp
  then show "free_space f (2 + (spare a - 2))" using sp by (simp only:)
qed

lemma step_mkdir:
  assumes s: "simulates k a" and z: "calm z" and c: "spec p (Mkdir dir name) a = Some (r, a')"
  shows "\<exists>k'. execute z x (Mkdir dir name) k = Some (r, k') \<and> simulates k' a'"
proof -
  obtain es i where c: "directory_at a dir name = Some es" "next_inode a = Some i" "name \<notin> fst ` set es" "length es < 9" "4 \<le> spare a"
    "r = Done" "a' = a\<lparr>nodes := add_name (nodes a) es name i (Dir (new_dir i (snd (hd es)))), spare := spare a - 4\<rparr>"
    using c by (auto split: Option.bind_splits if_splits)
  obtain f where f: "mounts k (nodes a)" "nodes a 0 = Some (Dir (root_entries (nodes a)))" "fs_of k = Some f" "provides f a" "fs_ok f"
    "rep f (nodes a)" by (rule simulatesD [OF s])
  note d = directory_atD [OF c(1)]
  have n: "needs (blen f) 1044 2" "free_space f (4 + (spare a - 4))" using f(4,5) c(5) by (simp_all add: needs_def fs_ok_def provides_def)
  have sp: "free_space f (2 + 2)" by (rule free_space_mono [OF n(2)]) simp
  let ?T = "add_name (nodes a) es name i (Dir (new_dir i (snd (hd es))))"
  obtain k' f' where k': "sys_mkdir z k (dir @ slash # name) = Some (s_ret z, k')" "mounts k' ?T" "mem k' = mem k"
    "fs_of k' = Some f'" "free_list (sb f') = drop (2 + 2) (free_list (sb f))" "shape f' = shape f"
    "bits (free_inode_bitmap (sb f')) = insert i (bits (free_inode_bitmap (sb f)))" "open_files k' = open_files k" "tbl k' = tbl k"
    by (rule sys_mkdir_tree [OF f(1-3) z d(4-6,1-3) c(3,4) next_inodeD(1) [OF s f(3) c(2)] n(1) _ sp]) simp
  have fl: "free_list (sb f') = drop 4 (free_list (sb f))" using k'(5) by simp
  have "free_space f' (spare a - 4)" using k'(6) by (intro free_space_drop [OF n(2) fl]) (simp add: shape_def)
  moreover have "bits (free_inode_bitmap (sb f')) = dom ?T"
    using k'(7) f(4) dom_add_name [where T = "nodes a", OF dir_of_own(2) [OF f(6,2) d(6)]] by (simp add: provides_def)
  ultimately have "provides f' a'" unfolding c(7) by (rule provides_step [OF f(4) k'(6)])
  moreover have "lists_handles k' a'" using s k'(8,9) by (simp add: simulates_def lists_handles_def c(7))
  ultimately show ?thesis using k'(1,2,4) c(6,7) by (auto simp: simulates_def)
qed

lemma step_rm:
  assumes s: "simulates k a" and z: "calm z" and c: "spec p (Rm dir name) a = Some (r, a')"
  shows "\<exists>k'. execute z x (Rm dir name) k = Some (r, k') \<and> simulates k' a'"
proof -
  obtain es i nd where c: "directory_at a dir name = Some es" "map_of es name = Some i" "nodes a i = Some nd" "nd \<noteq> Blank INODE_DIRECTORY"
    "i \<noteq> snd (hd es)" "i \<noteq> 0" "2 \<le> spare a" "r = Done" "a' = a\<lparr>nodes := remove_name (nodes a) es name i, spare := spare a - 2\<rparr>"
    using c by (auto split: Option.bind_splits if_splits)
  obtain f where f: "mounts k (nodes a)" "nodes a 0 = Some (Dir (root_entries (nodes a)))" "fs_of k = Some f" "provides f a" "fs_ok f"
    "rep f (nodes a)" by (rule simulatesD [OF s])
  note d = directory_atD [OF c(1)] and n = rooms [OF f(4,5) c(7)]
  let ?T = "remove_name (nodes a) es name i"
  obtain k' f' where k': "sys_rm z k (dir @ slash # name) = Some (s_ret z, k')" "mounts k' ?T" "fs_of k' = Some f'"
    "set (free_list (sb f')) = set (drop 2 (free_list (sb f))) \<union> claims f i"
    "bits (free_inode_bitmap (sb f')) = bits (free_inode_bitmap (sb f)) - {i}" "shape f' = shape f"
    "open_files k' = open_files k" "tbl k' = tbl k"
    by (rule sys_rm_tree [OF f(1-3) z d(4-6,1-3) c(2-6) n(1)])
  have "free_space f' (spare a - 2)"
    using k'(6) rep_owned [OF f(6) c(3)] by (intro free_space_freed [OF n(2) k'(4)]) (simp_all add: shape_def)
  moreover have "bits (free_inode_bitmap (sb f')) = dom ?T"
    using k'(5) f(4) dom_remove_name [where T = "nodes a", OF dir_of_own(2) [OF f(6,2) d(6)] c(5)] by (simp add: provides_def)
  ultimately have "provides f' a'" unfolding c(9) by (rule provides_step [OF f(4) k'(6)])
  moreover have "lists_handles k' a'" using s k'(7,8) by (simp add: simulates_def lists_handles_def c(9))
  ultimately show ?thesis using k'(1-3) c(8,9) by (auto simp: simulates_def)
qed

lemma step_rmdir:
  assumes s: "simulates k a" and z: "calm z" and c: "spec p (Rmdir dir name) a = Some (r, a')"
  shows "\<exists>k'. execute z x (Rmdir dir name) k = Some (r, k') \<and> simulates k' a'"
proof -
  obtain es i es' where c: "directory_at a dir name = Some es" "map_of es name = Some i" "nodes a i = Some (Dir es')" "length es' \<le> 2"
    "i \<noteq> snd (hd es)" "i \<noteq> 0" "snd (hd es) \<noteq> 0" "2 \<le> spare a" "r = Number 0"
    "a' = a\<lparr>nodes := remove_name (nodes a) es name i, spare := spare a - 2\<rparr>"
    using c by (auto split: Option.bind_splits if_splits node.splits)
  obtain f where f: "mounts k (nodes a)" "nodes a 0 = Some (Dir (root_entries (nodes a)))" "fs_of k = Some f" "provides f a" "fs_ok f"
    "rep f (nodes a)" by (rule simulatesD [OF s])
  note d = directory_atD [OF c(1)] and n = rooms [OF f(4,5) c(8)]
  let ?T = "remove_name (nodes a) es name i"
  obtain k' f' where k': "sys_rmdir z k (dir @ slash # name) = Some (0, k')" "fs_of k' = Some f'" "mounts k' ?T"
    "set (free_list (sb f')) = set (drop 2 (free_list (sb f))) \<union> claims f i"
    "bits (free_inode_bitmap (sb f')) = bits (free_inode_bitmap (sb f)) - {i}" "shape f' = shape f"
    "open_files k' = open_files k" "tbl k' = tbl k"
    by (rule sys_rmdir_tree [OF f(1-3) z d(4-6,1-3) c(2-6) n(1)]) (use c(7) in blast)
  have "free_space f' (spare a - 2)"
    using k'(6) rep_owned [OF f(6) c(3)] by (intro free_space_freed [OF n(2) k'(4)]) (simp_all add: shape_def)
  moreover have "bits (free_inode_bitmap (sb f')) = dom ?T"
    using k'(5) f(4) dom_remove_name [where T = "nodes a", OF dir_of_own(2) [OF f(6,2) d(6)] c(5)] by (simp add: provides_def)
  ultimately have "provides f' a'" unfolding c(10) by (rule provides_step [OF f(4) k'(6)])
  moreover have "lists_handles k' a'" using s k'(7,8) by (simp add: simulates_def lists_handles_def c(10))
  ultimately show ?thesis using k'(1-3) c(9,10) by (auto simp: simulates_def)
qed

lemma simulates_error: "simulates k a \<Longrightarrow> simulates (error k msg) a"
  by (rule simulates_same, assumption) (simp add: same_files_def simulates_pid error_def)

lemma refused_calls:
  assumes s: "simulates k a"
  shows "foreign (cur (tbl k)) fd WRITE_GLOBAL a \<Longrightarrow> sys_write z k fd x n = Some (- 1, error k ''File not open\<newline>'')"
    "foreign (cur (tbl k)) fd READ_GLOBAL a \<Longrightarrow> sys_read z k fd x n = Some (- 1, error k ''File not open\<newline>'')"
proof -
  have t: "procs_wf (tbl k)" "fdt_ok (open_files k)" "current_pid (tbl k) = Some (cur (tbl k))"
    using s current_pid_cur by (auto simp: simulates_def mounts_def)
  show "sys_write z k fd x n = Some (- 1, error k ''File not open\<newline>'')" if "foreign (cur (tbl k)) fd WRITE_GLOBAL a"
    using permission_refused [OF t(1,2) foreign_flags(1) [OF s that], of WRITE] foreign_flags(2) [OF s that] t(3)
    by (simp add: sys_write_def READ_def WRITE_def)
  show "sys_read z k fd x n = Some (- 1, error k ''File not open\<newline>'')" if "foreign (cur (tbl k)) fd READ_GLOBAL a"
    using permission_refused [OF t(1,2) foreign_flags(1) [OF s that], of READ] foreign_flags(2) [OF s that] t(3)
    by (simp add: sys_read_def READ_def WRITE_def)
qed

lemma step_write:
  assumes s: "simulates k a" and z: "calm z" and m: "prepared (mem k) x (Write fd bs)"
    and c: "spec (cur (tbl k)) (Write fd bs) a = Some (r, a')"
  shows "\<exists>k'. execute z x (Write fd bs) k = Some (r, k') \<and> simulates k' a'"
proof (cases "foreign (cur (tbl k)) fd WRITE_GLOBAL a")
  case True
  then have "r = Number (- 1)" "a' = a" using c by simp_all
  then show ?thesis using refused_calls(1) [OF s True] simulates_error [OF s] by simp
next
  case False
  let ?n = "int (length bs)"
  let ?b = "cost (block a) ?n"
  obtain i flags nd where c: "handle a fd = Some (i, flags)" "nodes a i = Some nd" "fd \<in> set (own a (cur (tbl k)))"
    "flags = READ_WRITE \<or> flags = WRITE" "node_type nd = INODE_FILE" "0 < ?n" "?b \<le> 6" "?b \<le> spare a"
    "r = Number ?n" "a' = a\<lparr>nodes := (nodes a)(i \<mapsto> File bs), spare := spare a - ?b\<rparr>"
    using c False by (auto simp: Let_def split: Option.bind_splits if_splits prod.splits)
  obtain f where f: "mounts k (nodes a)" "nodes a 0 = Some (Dir (root_entries (nodes a)))" "fs_of k = Some f" "provides f a" "fs_ok f"
    "rep f (nodes a)" by (rule simulatesD [OF s])
  have bl: "blen f = block a" "0 < block a" "free_space f (spare a)" using f(4,5) by (auto simp: provides_def fs_ok_def)
  have "needs (block a) ?n ?b" using cost_needs [OF bl(2) c(6)] .
  then have room: "room f ?n ?b" using bl free_space_mono [OF bl(3) c(8)] c(7) by (simp add: room_def)
  have bs: "load_bytes (mem k) x ?n = bs" using m by simp
  obtain f' where k': "sys_write z k fd x ?n = Some (?n, put_fs k f')" "mounts (put_fs k f') ((nodes a)(i \<mapsto> File bs))" "frame f f' {i}"
    "free_list (sb f') = drop ?b (free_list (sb f))" "free_inode_bitmap (sb f') = free_inode_bitmap (sb f)"
    by (rule sys_write_tree [OF f(1,3) handle_descriptor [OF s c(1,3)] c(4,2,5) calmD(1) [OF z] room, where a = x, unfolded bs])
  have sh: "shape f' = shape f" by (rule frame_shape [OF k'(3)])
  have "?b + (spare a - ?b) = spare a" using c(8) by simp
  then have "free_space f (?b + (spare a - ?b))" using bl(3) by (simp only:)
  then have "free_space f' (spare a - ?b)" using sh by (rule_tac free_space_drop [OF _ k'(4)]) (simp_all add: shape_def)
  moreover have "bits (free_inode_bitmap (sb f')) = dom ((nodes a)(i \<mapsto> File bs))"
    using k'(5) f(4) c(2) by (auto simp: provides_def)
  ultimately have "provides f' a'" unfolding c(10) by (rule provides_step [OF f(4) sh])
  moreover have "lists_handles (put_fs k f') a'" using s by (simp add: simulates_def lists_handles_def c(10))
  ultimately show ?thesis using k'(1,2) c(9,10) by (auto simp: simulates_def)
qed

lemma simulates_mem [simp]: "simulates (k\<lparr>mem := m\<rparr>) a = simulates k a"
  by (simp add: simulates_def lists_handles_def fs_of_def)

lemma step_read:
  assumes s: "simulates k a" and z: "calm z" and c: "spec (cur (tbl k)) (Read fd n) a = Some (r, a')"
  shows "\<exists>k'. execute z x (Read fd n) k = Some (r, k') \<and> simulates k' a'"
proof (cases "foreign (cur (tbl k)) fd READ_GLOBAL a")
  case True
  then have "r = Number (- 1)" "a' = a" using c by simp_all
  then show ?thesis using refused_calls(2) [OF s True] simulates_error [OF s] by simp
next
  case False
  obtain i flags bs where c: "handle a fd = Some (i, flags)" "nodes a i = Some (File bs)" "fd \<in> set (own a (cur (tbl k)))"
    "flags = READ_WRITE \<or> flags = READ" "0 < n" "n \<le> int (length bs)" "r = Contents (take (nat n) bs)" "a' = a"
  proof -
    obtain i flags where h: "handle a fd = Some (i, flags)" using c False by (auto split: Option.bind_splits)
    obtain nd where nd: "nodes a i = Some nd" using c False h by (auto split: Option.bind_splits)
    obtain bs where bs: "nd = File bs" using c False h nd by (cases nd) auto
    show thesis using that [of i flags bs] c False h nd bs by (auto split: if_splits)
  qed
  obtain f where f: "mounts k (nodes a)" "rep f (nodes a)" by (rule simulatesD [OF s])
  have "length bs \<le> 6144" using file_size [OF f(2) c(2)] .
  then have "load_bytes (store_bytes (mem k) x (take (nat n) bs)) x n = take (nat n) bs"
    using load_bytes_stored [of "take (nat n) bs" "mem k" x] c(5,6) by simp
  moreover have "sys_read z k fd x n = Some (n, k\<lparr>mem := store_bytes (mem k) x (take (nat n) bs)\<rparr>)"
    by (rule sys_read_tree [OF f(1) handle_descriptor [OF s c(1,3)] c(4,2) calmD(1) [OF z] c(5,6)])
  ultimately show ?thesis using s c(5,7,8) by simp
qed

lemma step_open:
  assumes s: "simulates k a" and z: "calm z" and c: "spec (cur (tbl k)) (Open dir name flags) a = Some (r, a')"
  shows "\<exists>k'. execute z x (Open dir name flags) k = Some (r, k') \<and> simulates k' a'"
proof -
  let ?p = "cur (tbl k)"
  obtain f where f: "mounts k (nodes a)" "nodes a 0 = Some (Dir (root_entries (nodes a)))" "fs_of k = Some f" "provides f a" "fs_ok f"
    "rep f (nodes a)" by (rule simulatesD [OF s])
  obtain es where es: "directory_at a dir name = Some es" using c by (auto split: Option.bind_splits)
  note d = directory_atD [OF es] and n = simulates_fd(2) [OF s]
  show ?thesis
  proof (cases "map_of es name")
    case (Some i)
    then obtain nd where c: "nodes a i = Some nd" "nd \<noteq> Blank INODE_DIRECTORY" "may_open ?p i a" "r = Number (int (length (handles a)))"
      "a' = add_handle ?p i flags a" using c es by (auto split: Option.bind_splits if_splits)
    obtain k' where k': "sys_open z k (dir @ slash # name) flags = Some (fdt_count (open_files k), k')" "mounts k' (nodes a)"
      "fs_of k' = fs_of k" "opens k k' i flags"
      by (rule sys_open_old [OF f(1,2) may_open_can [OF s c(3)] z d(4-6,1-3) Some c(1,2), where flags = flags])
    have "lists_handles k' a'" unfolding c(5) by (rule opens_handles [OF s k'(4)]) simp_all
    then show ?thesis using k'(1-3) f(3,4) c(4,5) n by (auto simp: simulates_def)
  next
    case None
    show ?thesis
    proof (cases "creates flags")
      case False
      then have "r = Number (- 1)" "a' = a" using c es None by simp_all
      then show ?thesis
        using sys_open_missing [OF f(1,2) z d(4-6,1-3) None False] simulates_error [OF s] by simp
    next
      case True
      define b where "b i = a\<lparr>nodes := add_name (nodes a) es name i (Blank INODE_FILE), spare := spare a - 2\<rparr>" for i
      obtain i where c: "next_inode a = Some i" "length es < 9" "2 \<le> spare a" "may_open ?p i a" "r = Number (int (length (handles a)))"
        "a' = add_handle ?p i flags (b i)" using c es None True by (auto simp: b_def split: Option.bind_splits if_splits)
      note room = rooms [OF f(4,5) c(3)]
      have new: "name \<notin> fst ` set es" using None by (simp add: map_of_eq_None_iff)
      obtain k' f' where k': "sys_open z k (dir @ slash # name) flags = Some (fdt_count (open_files k), k')"
        "mounts k' (add_name (nodes a) es name i (Blank INODE_FILE))" "fs_of k' = Some f'" "free_list (sb f') = drop 2 (free_list (sb f))"
        "bits (free_inode_bitmap (sb f')) = insert i (bits (free_inode_bitmap (sb f)))" "shape f' = shape f" "opens k k' i flags"
        by (rule sys_open_new [OF f(1-3) may_open_can [OF s c(4)] z d(4-6,1-3) new c(2) True next_inodeD(1) [OF s f(3) c(1)] room(1)])
      have "free_space f' (spare a - 2)" using k'(6) by (intro free_space_drop [OF room(2) k'(4)]) (simp add: shape_def)
      moreover have "bits (free_inode_bitmap (sb f')) = dom (add_name (nodes a) es name i (Blank INODE_FILE))"
        using k'(5) f(4) dom_add_name [where T = "nodes a", OF dir_of_own(2) [OF f(6,2) d(6)]] by (simp add: provides_def)
      ultimately have "provides f' (b i)" unfolding b_def by (rule provides_step [OF f(4) k'(6)])
      moreover have "lists_handles k' a'" unfolding c(6) by (rule opens_handles [OF s k'(7)]) (simp_all add: b_def)
      moreover have "nodes (b i) = add_name (nodes a) es name i (Blank INODE_FILE)" by (simp add: b_def)
      ultimately show ?thesis using k'(1-3) c(5,6) n by (auto simp: simulates_def)
    qed
  qed
qed

lemma step_ls:
  assumes s: "simulates k a" and z: "calm z" and m: "prepared (mem k) x (Ls path)" and c: "spec p (Ls path) a = Some (r, a')"
  shows "\<exists>k'. execute z x (Ls path) k = Some (r, k') \<and> simulates k' a'"
proof -
  obtain f where f: "mounts k (nodes a)" "nodes a 0 = Some (Dir (root_entries (nodes a)))" "fs_of k = Some f" "provides f a" "fs_ok f"
    "rep f (nodes a)" by (rule simulatesD [OF s])
  obtain i where i: "length path < 1024" "0 \<notin> set path" "leads_to (nodes a) (root_entries (nodes a)) path = Some i"
    using c by (auto split: Option.bind_splits if_splits)
  have e: "cstr_at (mem k) x = Some []" using m by simp
  show ?thesis
  proof (cases "i < 0")
    case True
    then have c: "r = Number (- 1)" "a' = a" using c i by (auto split: if_splits)
    obtain d where d: "root_dir k = Some d" "dir_ok d" "entries d = root_entries (nodes a)"
      using f(1,2) by (auto simp: mounts_def)
    have "sys_ls z k path x = Some (- 1, k)"
      using path_resolves [OF f(6) z d(2,3) i] True f(3) d(1) by (simp add: sys_ls_def put_fs_same)
    then show ?thesis using s c e by simp
  next
    case False
    then obtain es where c: "nodes a i = Some (Dir es)" "r = Contents (listing es)" "a' = a"
      using c i by (auto split: option.splits node.splits)
    obtain m where "sys_ls z k path x = Some (0, k\<lparr>mem := m\<rparr>)" "cstr_at m x = Some ([] @ listing es)"
      by (rule sys_ls_tree [OF f(1,2) z i c(1) e]) simp
    then show ?thesis using s c(2,3) by simp
  qed
qed

lemma step_simulates:
  assumes "simulates k a" "calm z" "prepared (mem k) x c" "spec (cur (tbl k)) c a = Some (r, a')"
  shows "\<exists>k'. execute z x c k = Some (r, k') \<and> simulates k' a'"
  using assms step_open step_write step_read step_mkdir step_rm step_rmdir step_ls by (cases c) metis+

section \<open>Sessions\<close>

lemma specs_snoc: "specs (cs @ [(p, c)]) a = do { (rs, a) \<leftarrow> specs cs a; (r, a) \<leftarrow> spec p c a; Some (rs @ [r], a) }"
  by (induction cs arbitrary: a) (auto split: Option.bind_splits)

lemma session_simulates:
  assumes "session k tr k'" "simulates k a" "specs (map (\<lambda>(p, c, _). (p, c)) tr) a = Some (rs, a')"
  shows "map (\<lambda>(_, _, r). r) tr = rs \<and> simulates k' a'"
  using assms
proof (induction arbitrary: rs a')
  case (step k tr k1 k2 z x c r k3)
  obtain rs1 a1 r1 where a1: "specs (map (\<lambda>(p, c, _). (p, c)) tr) a = Some (rs1, a1)" "spec (cur (tbl k2)) c a1 = Some (r1, a')"
    "rs = rs1 @ [r1]"
    using step.prems(2) by (auto simp: specs_snoc split: Option.bind_splits)
  have h: "map (\<lambda>(_, _, r). r) tr = rs1" "simulates k1 a1" using step.IH [OF step.prems(1) a1(1)] by simp_all
  obtain k' where "execute z x c k2 = Some (r1, k')" "simulates k' a'"
    using step_simulates [OF simulates_same [OF h(2) step(2)] step(3,4) a1(2)] by blast
  then show ?case using step(5) h(1) a1(3) by simp
qed simp

text \<open>The kernel can run every session that \<open>spec\<close> promises answers.\<close>

definition sendable :: "fcall \<Rightarrow> bool" where
  "sendable c = (case c of Write fd bs \<Rightarrow> length bs \<le> 2 ^ 31 | _ \<Rightarrow> True)"

lemma can_prepare: "sendable c \<Longrightarrow> \<exists>m. prepared m x c"
proof (cases c)
  case (Write fd bs)
  then show "sendable c \<Longrightarrow> ?thesis" using load_bytes_stored [of bs "\<lambda>_. 0" x] by (auto simp: sendable_def)
next
  case (Ls path)
  have "cstr_at (\<lambda>_. 0) x = Some []" by (simp add: cstr_at.simps)
  then show ?thesis using Ls by auto
qed simp_all

lemma switch_same_files:
  assumes "mounts k T" "valid_pid p"
  shows "same_files k (k\<lparr>mem := m, tbl := (tbl k)\<lparr>current := Some (process p)\<rparr>\<rparr>)"
  using assms by (simp add: same_files_def mounts_def procs_wf_current open_fds_def)

lemma sessions_exist:
  assumes "simulates k a" "calm z" "\<forall>(p, c) \<in> set cs. valid_pid p \<and> sendable c" "specs cs a = Some (rs, a')"
  shows "\<exists>tr k'. session k tr k' \<and> map (\<lambda>(p, c, _). (p, c)) tr = cs"
  using assms(3,4)
proof (induction cs arbitrary: rs a' rule: rev_induct)
  case Nil
  then show ?case using start by fastforce
next
  case (snoc pc cs)
  obtain p c where pc: "pc = (p, c)" by (cases pc)
  obtain rs1 a1 r where a1: "specs cs a = Some (rs1, a1)" "spec p c a1 = Some (r, a')"
    using snoc.prems(2) by (auto simp: pc specs_snoc split: Option.bind_splits)
  have ok: "valid_pid p" "sendable c" "\<forall>(p, c) \<in> set cs. valid_pid p \<and> sendable c" using snoc.prems(1) pc by auto
  obtain tr k' where k': "session k tr k'" "map (\<lambda>(p, c, _). (p, c)) tr = cs" using snoc.IH [OF ok(3) a1(1)] by blast
  have s: "simulates k' a1" using session_simulates [OF k'(1) assms(1)] k'(2) a1(1) by simp
  obtain m where m: "prepared m 4096 c" using can_prepare [OF ok(2)] by blast
  let ?j = "k'\<lparr>mem := m, tbl := (tbl k')\<lparr>current := Some (process p)\<rparr>\<rparr>"
  have j: "same_files k' ?j" using switch_same_files ok(1) s by (auto simp: simulates_def)
  have e: "prepared (mem ?j) 4096 c" "cur (tbl ?j) = p" using m by simp_all
  obtain k2 where "execute z 4096 c ?j = Some (r, k2)"
    using step_simulates [OF simulates_same [OF s j] assms(2) e(1)] a1(2) e(2) by auto
  from session.step [OF k'(1) j assms(2) e(1) this] show ?case using k'(2) e(2) pc by (intro exI conjI) auto
qed

text \<open>Giving up the processor and a time slice that ends leave the files alone.\<close>

lemma yield_same_files:
  assumes "procs_wf (tbl k)" "length (gpr c) = 13" "sys_yield k c = Some (k', c')"
  shows "same_files k k'"
proof -
  let ?p = "cur (tbl k)"
  let ?t = "upd (tbl k) ?p ((blk (tbl k) ?p)\<lparr>prio := (prio (blk (tbl k) ?p))\<lparr>time_left := 0\<rparr>\<rparr>)"
  have p: "valid_pid ?p" using cur_valid [OF assms(1)] .
  have wf: "procs_wf ?t" using assms(1) p by (intro procs_wf_upd pcb_wf_prio wf_blk wf_table)
  obtain t' where t': "scheduler ?t c = Some (t', c')" "k' = k\<lparr>tbl := t'\<rparr>"
    using assms(1,3) by (auto simp: sys_yield_def mod_current_upd split: Option.bind_splits)
  have "procs_wf t'" using scheduler_good [OF wf assms(2) t'(1)] by simp
  moreover have "open_fds t' q = open_fds (tbl k) q" if q: "valid_pid q" for q
    using scheduler_frame(6) [OF wf assms(2) t'(1) q] q p assms(1) by (simp add: open_fds_def blk_upd wf_table)
  ultimately show ?thesis by (simp add: same_files_def t'(2))
qed

lemma timer_same_files:
  assumes "procs_wf (tbl k)" "length (gpr c) = 13" "hilevel_handler_irq k c GIC_SOURCE_TIMER0 = Some (k', c')"
  shows "same_files k k'"
proof -
  let ?t = "(tbl k)\<lparr>BURSTS := i32 (BURSTS (tbl k) + 1)\<rparr>"
  have wf: "procs_wf ?t" using assms(1) by (simp add: procs_wf_def table_wf_def)
  obtain t' where t': "scheduler ?t c = Some (t', c')" "k' = k\<lparr>tbl := t'\<rparr>"
    using assms(3) by (auto simp: hilevel_handler_irq_def split: Option.bind_splits)
  have "procs_wf t'" using scheduler_good [OF wf assms(2) t'(1)] by simp
  moreover have "open_fds t' q = open_fds (tbl k) q" if q: "valid_pid q" for q
    using scheduler_frame(6) [OF wf assms(2) t'(1) q] by (simp add: open_fds_def blk_def)
  ultimately show ?thesis by (simp add: same_files_def t'(2))
qed

text \<open>What the first mount of a disk leaves.\<close>

definition mounted_afs :: "kernel \<Rightarrow> afs" where
  "mounted_afs k = \<lparr>nodes = with_devices root_tree (new_dir 0 0) 1,
     handles = [(2, READ_GLOBAL), (3, WRITE_GLOBAL), (4, WRITE_GLOBAL)], own = open_fds (tbl k), spare = spare_blocks (dsk k),
     inodes = inodes_of (block_num (peer (dsk k))), block = block_len (peer (dsk k))\<rparr>"

lemma first_mount_simulates:
  assumes "procs_wf (tbl k)" "mounted k \<noteq> None" "root_dir k \<noteq> None" "mountable (dsk k)" "unformatted (dsk k)" "calm z"
  shows "\<exists>k'. sys_mount z k = Some (0, k') \<and> simulates k' (mounted_afs k)"
proof -
  let ?T = "with_devices root_tree (new_dir 0 0) 1"
  obtain k' where k': "sys_mount z k = Some (0, k')" "mounts k' ?T" "fds (open_files k') = streams 2 3 4"
    "\<forall>f. fs_of k' = Some f \<longrightarrow> inodes_taken f 5 \<and> free_space f (spare_blocks (dsk k)) \<and>
       inode_num (sb f) = inodes_of (block_num (peer (dsk k))) \<and> blen f = block_len (peer (dsk k))" "tbl k' = tbl k"
    by (rule sys_mount_new [OF assms]) blast
  obtain f where f: "fs_of k' = Some f" using k'(2) by (auto simp: mounts_def)
  have "dom ?T = {0..<5}" by (auto simp: with_devices_def)
  then have "provides f (mounted_afs k)" using k'(4) f by (auto simp: provides_def mounted_afs_def inodes_taken_def)
  moreover have "lists_handles k' (mounted_afs k)" using k'(3,5) by (simp add: lists_handles_def mounted_afs_def upto_rec1)
  ultimately show ?thesis using k'(1,2) f by (auto simp: simulates_def mounted_afs_def)
qed

end
