(* ===== verification/Tree_Properties.thy ===== *)
theory Tree_Properties
  imports Demo Tree_Runs
begin

text \<open>
  The properties of the file system as a tree: what mounting, opening, writing, reading, making directories, removing, listing and
  resolving paths do to it, and whole sessions of such calls.
\<close>

section \<open>Mounting\<close>

lemma demo_calm [simp]: "calm demo_stack"
proof -
  have "directory_wf zero_directory" by (simp add: directory_wf_def zero_directory_def link_wf_def)
  then show ?thesis by (simp add: calm_def stack_wf_def demo_stack_def inode_types) (simp add: new_inode_def)
qed

lemma demo_mountable [simp]: "mountable demo_disk"
  by (simp add: mountable_def inodes_of_def)

lemma demo_unformatted [simp]: "unformatted demo_disk"
proof -
  have "get_block demo_disk 0 = replicate 1024 0"
    by (simp add: get_block_def file_read_def demo_disk_def)
  moreover have "dec_int (replicate 4 0 @ replicate 560 0) = 0"
    by (simp add: dec_int_def numeral_eq_Suc int_of_u32_def word_of_bytes_def)
  then have "dec_int (replicate 564 0) = 0" by (simp flip: replicate_add)
  ultimately show ?thesis by (simp add: unformatted_def dec_superblock_def)
qed

lemma demo_kernel_simps [simp]: "dsk (demo_kernel t) = demo_disk" "mounted (demo_kernel t) \<noteq> None" "root_dir (demo_kernel t) \<noteq> None"
  by (simp_all add: demo_kernel_def)

text \<open>C10. The first mount formats the disk: block 0 holds the superblock, for as many inodes as the size of the disk allows, every
  inode that is not used has been written as an empty one, the tree has the root directory and
  \<open>/dev\<close> with the three device files, and the shared descriptors 0, 1 and 2 lead to them (\<open>calm\<close>: the
  uninitialised inode on the stack is not a directory and lists no blocks).\<close>

theorem first_mount:
  assumes "procs_wf (tbl k)" "mounted k \<noteq> None" "root_dir k \<noteq> None" "mountable (dsk k)" "unformatted (dsk k)" "calm z"
  shows "\<exists>k' f. sys_mount z k = Some (0, k') \<and> fs_of k' = Some f \<and> superblock_saved f \<and>
    inode_num (sb f) = inodes_of (block_num (peer (dsk k))) \<and>
    (\<forall>i. 5 \<le> i \<and> i < inode_num (sb f) \<longrightarrow> inode_of f i = new_inode i) \<and>
    mounts k' (with_devices root_tree (new_dir 0 0) 1) \<and>
    fds (open_files k') = streams 2 3 4 \<and> STDIN_FD k' = 0 \<and> STDOUT_FD k' = 1 \<and> STDERR_FD k' = 2"
proof -
  obtain k' where k': "sys_mount z k = Some (0, k')" "mounts k' (with_devices root_tree (new_dir 0 0) 1)"
    "fds (open_files k') = streams 2 3 4" "STDIN_FD k' = 0" "STDOUT_FD k' = 1" "STDERR_FD k' = 2"
    "\<forall>f. fs_of k' = Some f \<longrightarrow> superblock_saved f \<and> inode_num (sb f) = inodes_of (block_num (peer (dsk k))) \<and>
       (\<forall>i. 5 \<le> i \<and> i < inode_num (sb f) \<longrightarrow> inode_of f i = new_inode i)"
    by (rule sys_mount_new [OF assms]) blast
  then show ?thesis by (auto simp: mounts_def)
qed

theorem first_mount_witness:
  "\<exists>k' f. sys_mount demo_stack (demo_kernel demo) = Some (0, k') \<and> fds (open_files k') = streams 2 3 4 \<and>
    fs_of k' = Some f \<and> inode_num (sb f) = 10 \<and> inode_of f 7 = new_inode 7"
proof -
  have "inodes_of (block_num (peer (dsk (demo_kernel demo)))) = 10" by (simp add: inodes_of_def)
  then show ?thesis using first_mount [of "demo_kernel demo" demo_stack] by fastforce
qed

text \<open>C11. What was mounted is found again: after \<open>unmount\<close> any kernel that mounts the same disk, whatever its buffers
  hold, sees the same tree. The tree has the three device files, the descriptors have different ids, and the stack at the mount
  is \<open>calm\<close>.\<close>

theorem tree_survives_unmount:
  assumes "mounts k T" "distinct (map fd_id (fds (open_files k)))" "T 0 = Some (Dir root)" "devices T root a b c" "stack_wf z"
  shows "\<exists>k'. sys_unmount z k = Some (0, k') \<and>
    (\<forall>j y. procs_wf (tbl j) \<and> mounted j \<noteq> None \<and> root_dir j \<noteq> None \<and> dsk j = dsk k' \<and> calm y \<longrightarrow>
       (\<exists>j'. sys_mount y j = Some (0, j') \<and> mounts j' T))"
proof -
  obtain k' f' where u: "sys_unmount z k = Some (0, k')" "dsk k' = dk f'" "rep f' T" "superblock_saved f'"
    by (rule sys_unmount_tree [OF assms(1,2,5)])
  have "\<exists>j'. sys_mount y j = Some (0, j') \<and> mounts j' T"
    if "procs_wf (tbl j)" "mounted j \<noteq> None" "root_dir j \<noteq> None" "dsk j = dsk k'" "calm y" for j y
    using that u(2) by (rule_tac sys_mount_again [OF that(1-3) u(3,4) _ assms(3,4) that(5)]) auto
  then show ?thesis using u(1) by blast
qed

theorem tree_survives_unmount_witness:
  "\<exists>k1 k2 k3. sys_mount demo_stack (demo_kernel demo) = Some (0, k1) \<and> sys_unmount demo_stack k1 = Some (0, k2) \<and>
     sys_mount demo_stack ((demo_kernel demo)\<lparr>dsk := dsk k2\<rparr>) = Some (0, k3) \<and>
     mounts k3 (with_devices root_tree (new_dir 0 0) 1)"
proof -
  obtain k1 where k1: "sys_mount demo_stack (demo_kernel demo) = Some (0, k1)" "mounts k1 (with_devices root_tree (new_dir 0 0) 1)"
    "fds (open_files k1) = streams 2 3 4"
    by (rule sys_mount_new [of "demo_kernel demo" demo_stack]) simp_all
  have "with_devices root_tree (new_dir 0 0) 1 0 = Some (Dir (new_dir 0 0 @ [(bstr ''dev'', 1)]))" by (simp add: with_devices_def)
  then obtain k2 where k2: "sys_unmount demo_stack k1 = Some (0, k2)"
    "\<forall>j y. procs_wf (tbl j) \<and> mounted j \<noteq> None \<and> root_dir j \<noteq> None \<and> dsk j = dsk k2 \<and> calm y \<longrightarrow>
       (\<exists>j'. sys_mount y j = Some (0, j') \<and> mounts j' (with_devices root_tree (new_dir 0 0) 1))"
    using tree_survives_unmount [OF k1(2) _ _ devices_new, of demo_stack] k1(3) calmD(1) [OF demo_calm] by auto
  have "procs_wf (tbl ((demo_kernel demo)\<lparr>dsk := dsk k2\<rparr>)) \<and> mounted ((demo_kernel demo)\<lparr>dsk := dsk k2\<rparr>) \<noteq> None \<and>
      root_dir ((demo_kernel demo)\<lparr>dsk := dsk k2\<rparr>) \<noteq> None \<and> dsk ((demo_kernel demo)\<lparr>dsk := dsk k2\<rparr>) = dsk k2 \<and> calm demo_stack"
    using demo_kernel_simps(2,3) [of demo] by simp
  then show ?thesis using k1(1) k2 by blast
qed

section \<open>Files\<close>

text \<open>A demonstration kernel with only the root directory.\<close>

lemma demo_rooted:
  obtains k f where "mounts k root_tree" "fs_of k = Some f" "inodes_taken f 1" "free_space f 10" "inode_num (sb f) = 10"
    "open_files k = zero_fd_table" "tbl k = demo" "mem k = (\<lambda>_. 0)"
proof -
  let ?f = "\<lparr>sb = first_sb demo_disk, dk = demo_disk\<rparr>"
  have s: "free_space ?f (2 + 10)" using free_space_mono [OF first_fs(3) [OF demo_mountable]] by simp
  have n: "0 < inode_num (sb ?f)" by (simp add: inodes_of_def)
  obtain d f where f: "dir_ok d" "entries d = new_dir 0 0" "rep f root_tree" "shape f = shape ?f" "inodes_taken f 1" "free_space f 10"
    by (rule create_root_tree [OF first_fs(1,2) [OF demo_mountable] s n demo_calm])
  let ?k = "(put_fs (demo_kernel demo) f)\<lparr>root_dir := Some d\<rparr>"
  have "mounts ?k root_tree" unfolding mounts_def using f(1-3) zero_fd_table_ok(1)
    by (intro conjI exI [of _ f] exI [of _ d]) (simp_all add: demo_kernel_def)
  moreover have "inode_num (sb f) = 10" using f(4) by (simp add: shape_def inodes_of_def)
  moreover have "open_files ?k = zero_fd_table" "tbl ?k = demo" "mem ?k = (\<lambda>_. 0)" by (simp_all add: demo_kernel_def)
  ultimately show thesis using that [of ?k f] f(5,6) by simp
qed

lemma demo_can_open: "open_files k = zero_fd_table \<Longrightarrow> tbl k = demo \<Longrightarrow> can_open k i"
proof -
  assume k: "open_files k = zero_fd_table" "tbl k = demo"
  have "open_fds demo 1 = []" by (simp add: open_fds_def)
  then show ?thesis using k by (simp add: can_open_def zero_fd_table_ok)
qed

text \<open>C12. Opening a path whose last name is missing, for writing, creates the file: its directory has one name more, the new
  inode was free, nothing else changes, and the descriptor leads to the file. Required are a free inode, two free blocks and a
  \<open>calm\<close> stack (its uninitialised inode is not a directory and lists no blocks).\<close>

theorem open_creates_file:
  assumes "mounts k T" "T 0 = Some (Dir root)" "fs_of k = Some f" "can_open k i" "calm z"
    and "length path + length name + 1 < 1024" "0 \<notin> set path" "dir_of T root path = Some es"
    and "component name" "length name < 100" "0 \<notin> set name" "name \<notin> fst ` set es" "length es < 9" "creates flags"
    and "offers f i" "room f 1044 b"
  shows "\<exists>k'. sys_open z k (path @ slash # name) flags = Some (fdt_count (open_files k), k') \<and> T i = None \<and>
    mounts k' (add_name T es name i (Blank INODE_FILE)) \<and> descriptor k' (fdt_count (open_files k)) i flags \<and> mem k' = mem k"
  by (rule sys_open_new [OF assms]) blast

lemma demo_name: "component (bstr ''a'')" "length (bstr ''a'') < 100" "0 \<notin> set (bstr ''a'')" "bstr ''a'' \<notin> fst ` set (new_dir i p)"
  by (simp_all add: component_def bstr_def slash_def)

theorem open_creates_file_witness:
  "\<exists>k k'. mounts k root_tree \<and> sys_open demo_stack k (bstr ''/a'') READ_WRITE = Some (0, k') \<and>
    mounts k' (add_name root_tree (new_dir 0 0) (bstr ''a'') 1 (Blank INODE_FILE))"
proof -
  obtain k f where k: "mounts k root_tree" "fs_of k = Some f" "inodes_taken f 1" "free_space f 10" "inode_num (sb f) = 10"
    "open_files k = zero_fd_table" "tbl k = demo" by (rule demo_rooted)
  have f: "fs_ok f" using mounts_fs [OF k(1,2)] by (simp add: rep_def)
  have o: "offers f 1" using taken_offers [OF k(3) f] k(5) by simp
  have r: "room f 1044 2" by (rule room_1044 [OF f free_space_mono [OF k(4)]]) simp
  have p: "[] @ slash # bstr ''a'' = bstr ''/a''" by (simp add: bstr_def slash_def)
  show ?thesis
    using open_creates_file [OF k(1) _ k(2) demo_can_open [OF k(6,7)] demo_calm _ _ _ demo_name(1-3) _ _ _ o r, of "new_dir 0 0" "[]" "new_dir 0 0" READ_WRITE]
      demo_name(4) k(1,6) unfolding p
    by (auto simp: dir_of_def zero_fd_table_ok bstr_def)
qed

text \<open>The same kernel with the file \<open>/a\<close> created and open as descriptor 0.\<close>

abbreviation a_tree :: tree where
  "a_tree \<equiv> add_name root_tree (new_dir 0 0) (bstr ''a'') 1 (Blank INODE_FILE)"

lemma demo_file:
  obtains k f where "mounts k a_tree" "fs_of k = Some f" "free_space f 8" "descriptor k 0 1 READ_WRITE" "mem k = (\<lambda>_. 0)" "a_tree 1 = Some (Blank INODE_FILE)"
proof -
  obtain k f where k: "mounts k root_tree" "fs_of k = Some f" "inodes_taken f 1" "free_space f 10" "inode_num (sb f) = 10"
    "open_files k = zero_fd_table" "tbl k = demo" "mem k = (\<lambda>_. 0)" by (rule demo_rooted)
  have f: "fs_ok f" using mounts_fs [OF k(1,2)] by (simp add: rep_def)
  have o: "offers f 1" using taken_offers [OF k(3) f] k(5) by simp
  have r: "room f 1044 2" by (rule room_1044 [OF f free_space_mono [OF k(4)]]) simp
  have pre: "root_tree 0 = Some (Dir (new_dir 0 0))" "length ([] :: u8 list) + length (bstr ''a'') + 1 < 1024"
    "0 \<notin> set ([] :: u8 list)" "dir_of root_tree (new_dir 0 0) [] = Some (new_dir 0 0)" "length (new_dir 0 0) < 9" "creates READ_WRITE"
    by (simp_all add: dir_of_def bstr_def)
  obtain k' f' where k': "mounts k' a_tree" "descriptor k' (fdt_count (open_files k)) 1 READ_WRITE" "mem k' = mem k"
    "fs_of k' = Some f'" "free_list (sb f') = drop 2 (free_list (sb f))" "shape f' = shape f"
    by (rule sys_open_new [OF k(1) pre(1) k(2) demo_can_open [OF k(6,7)] demo_calm pre(2-4) demo_name pre(5,6) o r])
  have "free_space f (2 + 8)" using k(4) by simp
  then have "free_space f' 8" using k'(6) by (intro free_space_drop [OF _ k'(5)]) (simp_all add: shape_def)
  moreover have "a_tree 1 = Some (Blank INODE_FILE)" by (simp add: add_name_def)
  ultimately show thesis using that k' k(6,8) by (simp add: zero_fd_table_ok)
qed

text \<open>C13. Writing through a descriptor replaces the contents of its file by the bytes of the caller's buffer and changes nothing else
  of the tree.\<close>

theorem write_updates_tree:
  assumes "mounts k T" "fs_of k = Some f" "descriptor k fd i flags" "flags = READ_WRITE \<or> flags = WRITE"
    and "T i = Some nd" "node_type nd = INODE_FILE" "stack_wf z" "room f n b"
  shows "\<exists>k'. sys_write z k fd a n = Some (n, k') \<and> mounts k' (T(i \<mapsto> File (load_bytes (mem k) a n))) \<and>
    mem k' = mem k \<and> descriptor k' fd i flags"
proof -
  obtain f' where "sys_write z k fd a n = Some (n, put_fs k f')" "mounts (put_fs k f') (T(i \<mapsto> File (load_bytes (mem k) a n)))"
    by (rule sys_write_tree [OF assms])
  then show ?thesis using assms(3) by (intro exI [of _ "put_fs k f'"]) simp
qed

theorem write_updates_tree_witness:
  "\<exists>k k'. mounts k a_tree \<and> sys_write demo_stack k 0 4096 3 = Some (3, k') \<and> mounts k' (a_tree(1 \<mapsto> File [0, 0, 0]))"
proof -
  obtain k f where k: "mounts k a_tree" "fs_of k = Some f" "free_space f 8" "descriptor k 0 1 READ_WRITE" "mem k = (\<lambda>_. 0)"
    "a_tree 1 = Some (Blank INODE_FILE)" by (rule demo_file)
  have "fs_ok f" using mounts_fs [OF k(1,2)] by (simp add: rep_def)
  then have r: "room f 3 1" using free_space_mono [OF k(3), of 1] by (simp add: room_def needs_def fs_ok_def)
  have "load_bytes (mem k) 4096 3 = [0, 0, 0]" by (simp add: load_bytes_def k(5) upto_rec1)
  then show ?thesis
    using write_updates_tree [OF k(1,2,4) disjI1 [OF refl] k(6) node_type.simps(1) calmD(1) [OF demo_calm] r, of 4096] k(1)
    by metis
qed

text \<open>C14. Reading through a descriptor gives the caller the first bytes of its file, as many as it asks for up to the file's length.\<close>

theorem read_gives_contents:
  assumes "mounts k T" "descriptor k fd i flags" "flags = READ_WRITE \<or> flags = READ" "T i = Some (File x)" "stack_wf z"
    and "0 < n" "n \<le> int (length x)"
  shows "\<exists>k'. sys_read z k fd a n = Some (n, k') \<and> mounts k' T \<and> load_bytes (mem k') a n = take (nat n) x"
proof -
  obtain f where "rep f T" using assms(1) by (auto simp: mounts_def)
  then have "length x \<le> 6144" using assms(4) by (rule file_size)
  then have "load_bytes (store_bytes (mem k) a (take (nat n) x)) a n = take (nat n) x"
    using load_bytes_stored [of "take (nat n) x" "mem k" a] assms(6,7) by simp
  then show ?thesis using sys_read_tree [OF assms] assms(1) by simp
qed

theorem read_gives_contents_witness:
  "\<exists>k k'. mounts k (a_tree(1 \<mapsto> File [0, 0, 0])) \<and> sys_read demo_stack k 0 4096 2 = Some (2, k') \<and> load_bytes (mem k') 4096 2 = [0, 0]"
proof -
  obtain k f where k: "mounts k a_tree" "fs_of k = Some f" "free_space f 8" "descriptor k 0 1 READ_WRITE" "mem k = (\<lambda>_. 0)"
    "a_tree 1 = Some (Blank INODE_FILE)" by (rule demo_file)
  have "fs_ok f" using mounts_fs [OF k(1,2)] by (simp add: rep_def)
  then have r: "room f 3 1" using free_space_mono [OF k(3), of 1] by (simp add: room_def needs_def fs_ok_def)
  have "load_bytes (mem k) 4096 3 = [0, 0, 0]" by (simp add: load_bytes_def k(5) upto_rec1)
  moreover obtain f' where "mounts (put_fs k f') (a_tree(1 \<mapsto> File (load_bytes (mem k) 4096 3)))"
    by (rule sys_write_tree [OF k(1,2,4) disjI1 [OF refl] k(6) node_type.simps(1) calmD(1) [OF demo_calm] r])
  ultimately have w: "mounts (put_fs k f') (a_tree(1 \<mapsto> File [0, 0, 0]))" "descriptor (put_fs k f') 0 1 READ_WRITE"
    using k(4) by simp_all
  have "(a_tree(1 \<mapsto> File [0, 0, 0])) 1 = Some (File [0, 0, 0])" by simp
  from read_gives_contents [OF w disjI1 [OF refl] this calmD(1) [OF demo_calm], of 2 4096] w(1) show ?thesis
    by (auto simp del: fun_upd_apply)
qed

text \<open>C15. Making a directory puts a directory with the entries \<open>.\<close> and \<open>..\<close> into its parent; as the function ends without a
  \<open>return\<close>, what the caller gets is whatever the register holds. Required are a free inode, blocks for both directories and a
  \<open>calm\<close> stack.\<close>

theorem mkdir_adds_directory:
  assumes "mounts k T" "T 0 = Some (Dir root)" "fs_of k = Some f" "calm z"
    and "length path + length name + 1 < 1024" "0 \<notin> set path" "dir_of T root path = Some es"
    and "component name" "length name < 100" "0 \<notin> set name" "name \<notin> fst ` set es" "length es < 9"
    and "offers f i" "needs (blen f) 1044 b" "b \<le> 6" "free_space f (b + b)"
  shows "\<exists>k'. sys_mkdir z k (path @ slash # name) = Some (s_ret z, k') \<and> T i = None \<and>
    mounts k' (add_name T es name i (Dir (new_dir i (snd (hd es))))) \<and> mem k' = mem k"
  by (rule sys_mkdir_tree [OF assms]) blast

theorem mkdir_adds_directory_witness:
  "\<exists>k k'. mounts k root_tree \<and> sys_mkdir demo_stack k (bstr ''/a'') = Some (0, k') \<and>
    mounts k' (add_name root_tree (new_dir 0 0) (bstr ''a'') 1 (Dir (new_dir 1 0)))"
proof -
  obtain k f where k: "mounts k root_tree" "fs_of k = Some f" "inodes_taken f 1" "free_space f 10" "inode_num (sb f) = 10" by (rule demo_rooted)
  have f: "fs_ok f" using mounts_fs [OF k(1,2)] by (simp add: rep_def)
  have o: "offers f 1" using taken_offers [OF k(3) f] k(5) by simp
  have n: "needs (blen f) 1044 2" "free_space f (2 + 2)" using f free_space_mono [OF k(4)] by (simp_all add: needs_def fs_ok_def)
  have p: "[] @ slash # bstr ''a'' = bstr ''/a''" by (simp add: bstr_def slash_def)
  have pre: "root_tree 0 = Some (Dir (new_dir 0 0))" "length ([] :: u8 list) + length (bstr ''a'') + 1 < 1024"
    "0 \<notin> set ([] :: u8 list)" "dir_of root_tree (new_dir 0 0) [] = Some (new_dir 0 0)" "length (new_dir 0 0) < 9"
    by (simp_all add: dir_of_def bstr_def)
  have "snd (hd (new_dir 0 0)) = 0" "s_ret demo_stack = 0" by (simp_all add: demo_stack_def)
  then show ?thesis
    using mkdir_adds_directory [OF k(1) pre(1) k(2) demo_calm pre(2-4) demo_name pre(5) o n(1) _ n(2)] k(1) unfolding p by auto
qed

section \<open>Removing and listing\<close>

text \<open>C16. Removing a file takes its name out of the directory and its inode out of the tree, changes nothing else, and frees the inode and
  all the blocks it lists; as the function ends without a \<open>return\<close>, what the caller gets is whatever the register holds. The stack is
  \<open>calm\<close>, and there are blocks to write the directory again.\<close>

theorem rm_removes_file:
  assumes "mounts k T" "T 0 = Some (Dir root)" "fs_of k = Some f" "calm z"
    and "length path + length name + 1 < 1024" "0 \<notin> set path" "dir_of T root path = Some es"
    and "component name" "length name < 100" "0 \<notin> set name"
    and "map_of es name = Some i" "T i = Some nd" "nd \<noteq> Blank INODE_DIRECTORY" "i \<noteq> snd (hd es)" "i \<noteq> 0" "room f 1044 b"
  shows "\<exists>k' f'. sys_rm z k (path @ slash # name) = Some (s_ret z, k') \<and> mounts k' (remove_name T es name i) \<and>
    mem k' = mem k \<and> fs_of k' = Some f' \<and> claims f i \<subseteq> set (free_list (sb f')) \<and>
    bits (free_inode_bitmap (sb f')) = bits (free_inode_bitmap (sb f)) - {i}"
  by (rule sys_rm_tree [OF assms]) blast

theorem rm_removes_file_witness:
  "\<exists>k k'. mounts k (a_tree(1 \<mapsto> File [0, 0, 0])) \<and> sys_rm demo_stack k (bstr ''/a'') = Some (0, k') \<and> mounts k' root_tree"
proof -
  obtain k f where k: "mounts k a_tree" "fs_of k = Some f" "free_space f 8" "descriptor k 0 1 READ_WRITE" "mem k = (\<lambda>_. 0)"
    "a_tree 1 = Some (Blank INODE_FILE)" by (rule demo_file)
  have f: "fs_ok f" using mounts_fs [OF k(1,2)] by (simp add: rep_def)
  then have r: "room f 3 1" using free_space_mono [OF k(3), of 1] by (simp add: room_def needs_def fs_ok_def)
  have x: "load_bytes (mem k) 4096 3 = [0, 0, 0]" by (simp add: load_bytes_def k(5) upto_rec1)
  let ?T = "a_tree(1 \<mapsto> File [0, 0, 0])" and ?es = "new_dir 0 0 @ [(bstr ''a'', 1)]"
  obtain f' where w: "mounts (put_fs k f') (a_tree(1 \<mapsto> File (load_bytes (mem k) 4096 3)))" "frame f f' {1}"
    "free_list (sb f') = drop 1 (free_list (sb f))"
    by (rule sys_write_tree [OF k(1,2,4) disjI1 [OF refl] k(6) node_type.simps(1) calmD(1) [OF demo_calm] r])
  have m: "mounts (put_fs k f') ?T" using w(1) by (simp only: x)
  have "free_space f (1 + 7)" using k(3) by simp
  then have sp: "free_space f' 7" using frame_shape [OF w(2)] by (intro free_space_drop [OF _ w(3)]) (simp_all add: shape_def)
  have "fs_ok f'" using w(2) by (simp add: frame_def)
  then have r': "room f' 1044 2" by (rule room_1044 [OF _ free_space_mono [OF sp]]) simp
  have pre: "?T 0 = Some (Dir ?es)" "length ([] :: u8 list) + length (bstr ''a'') + 1 < 1024" "0 \<notin> set ([] :: u8 list)"
    "dir_of ?T ?es [] = Some ?es" "map_of ?es (bstr ''a'') = Some 1" "?T 1 = Some (File [0, 0, 0])"
    "File [0, 0, 0] \<noteq> Blank INODE_DIRECTORY" "1 \<noteq> snd (hd ?es)" "(1 :: int) \<noteq> 0"
    by (simp_all add: add_name_def dir_of_def) (simp_all add: bstr_def)
  have eq: "remove_name ?T ?es (bstr ''a'') 1 = root_tree"
    by (simp add: remove_name_def add_name_def fun_eq_iff) (simp add: bstr_def)
  have p: "[] @ slash # bstr ''a'' = bstr ''/a''" "s_ret demo_stack = 0" by (simp_all add: bstr_def slash_def demo_stack_def)
  have "\<exists>k'. sys_rm demo_stack (put_fs k f') (bstr ''/a'') = Some (0, k') \<and> mounts k' root_tree"
    using rm_removes_file [OF m pre(1) put_fs_simps(4) demo_calm pre(2-4) demo_name(1-3) pre(5-9) r'] unfolding eq p by blast
  then show ?thesis using m by blast
qed

text \<open>C17. Removing an empty directory takes its name and its inode out of the tree. The mounted state follows when the parent is not the
  root; the root directory is not read again, so when its own entry was removed the copy in the kernel keeps the name. The
  stack is \<open>calm\<close>, and there are blocks to write the parent again.\<close>

theorem rmdir_removes_directory:
  assumes "mounts k T" "T 0 = Some (Dir root)" "fs_of k = Some f" "calm z"
    and "length path + length name + 1 < 1024" "0 \<notin> set path" "dir_of T root path = Some es"
    and "component name" "length name < 100" "0 \<notin> set name"
    and "map_of es name = Some i" "T i = Some (Dir es')" "length es' \<le> 2" "i \<noteq> snd (hd es)" "i \<noteq> 0" "room f 1044 b"
  shows "\<exists>k' f'. sys_rmdir z k (path @ slash # name) = Some (0, k') \<and> fs_of k' = Some f' \<and>
    rep f' (remove_name T es name i) \<and> root_dir k' = root_dir k \<and> mem k' = mem k \<and>
    (snd (hd es) = 0 \<or> mounts k' (remove_name T es name i))"
  by (rule sys_rmdir_tree [OF assms]) blast

theorem rmdir_removes_directory_witness:
  "\<exists>k k' f'. mounts k (add_name root_tree (new_dir 0 0) (bstr ''a'') 1 (Dir (new_dir 1 0))) \<and>
    sys_rmdir demo_stack k (bstr ''/a'') = Some (0, k') \<and> fs_of k' = Some f' \<and> rep f' root_tree"
proof -
  obtain k f where k: "mounts k root_tree" "fs_of k = Some f" "inodes_taken f 1" "free_space f 10" "inode_num (sb f) = 10" by (rule demo_rooted)
  have f: "fs_ok f" using mounts_fs [OF k(1,2)] by (simp add: rep_def)
  have o: "offers f 1" using taken_offers [OF k(3) f] k(5) by simp
  have n: "needs (blen f) 1044 2" "free_space f (2 + 2)" using f free_space_mono [OF k(4)] by (simp_all add: needs_def fs_ok_def)
  have p: "[] @ slash # bstr ''a'' = bstr ''/a''" by (simp add: bstr_def slash_def)
  have pre: "root_tree 0 = Some (Dir (new_dir 0 0))" "length ([] :: u8 list) + length (bstr ''a'') + 1 < 1024"
    "0 \<notin> set ([] :: u8 list)" "dir_of root_tree (new_dir 0 0) [] = Some (new_dir 0 0)" "length (new_dir 0 0) < 9"
    by (simp_all add: dir_of_def bstr_def)
  let ?T = "add_name root_tree (new_dir 0 0) (bstr ''a'') 1 (Dir (new_dir 1 (snd (hd (new_dir 0 0)))))" and ?es = "new_dir 0 0 @ [(bstr ''a'', 1)]"
  obtain k1 f1 where k1: "mounts k1 ?T" "fs_of k1 = Some f1" "free_list (sb f1) = drop (2 + 2) (free_list (sb f))" "shape f1 = shape f"
    by (rule sys_mkdir_tree [OF k(1) pre(1) k(2) demo_calm pre(2-4) demo_name pre(5) o n(1) _ n(2)]) simp
  have "free_space f ((2 + 2) + 6)" using k(4) by simp
  then have sp: "free_space f1 6" using k1(4) by (intro free_space_drop [OF _ k1(3)]) (simp_all add: shape_def)
  have "fs_ok f1" using mounts_fs [OF k1(1,2)] by (simp add: rep_def)
  then have r': "room f1 1044 2" by (rule room_1044 [OF _ free_space_mono [OF sp]]) simp
  have pre': "?T 0 = Some (Dir ?es)" "dir_of ?T ?es [] = Some ?es" "map_of ?es (bstr ''a'') = Some 1" "?T 1 = Some (Dir (new_dir 1 0))"
    "length (new_dir 1 0) \<le> 2" "1 \<noteq> snd (hd ?es)" "(1 :: int) \<noteq> 0"
    by (simp_all add: add_name_def dir_of_def) (simp_all add: bstr_def)
  have eq: "remove_name ?T ?es (bstr ''a'') 1 = root_tree"
    by (simp add: remove_name_def add_name_def fun_eq_iff) (simp add: bstr_def)
  have "\<exists>k' f'. sys_rmdir demo_stack k1 (bstr ''/a'') = Some (0, k') \<and> fs_of k' = Some f' \<and> rep f' root_tree"
    using rmdir_removes_directory [OF k1(1) pre'(1) k1(2) demo_calm pre(2,3) pre'(2) demo_name(1-3) pre'(3-7) r'] unfolding eq p by blast
  moreover have "mounts k1 (add_name root_tree (new_dir 0 0) (bstr ''a'') 1 (Dir (new_dir 1 0)))" using k1(1) by simp
  ultimately show ?thesis by blast
qed

text \<open>C18. Listing a directory appends the names of its entries, each with a line feed, to the string in the caller's memory and writes
  no byte behind the terminator of the longer string (\<open>calm\<close>: the inode variable that the path lookup leaves uninitialised
  does not look like a directory).\<close>

theorem ls_lists_names:
  assumes "mounts k T" "T 0 = Some (Dir root)" "calm z" "length path < 1024" "0 \<notin> set path"
    and "leads_to T root path = Some i" "T i = Some (Dir es)" "cstr_at (mem k) a = Some s" "length s < 2 ^ 31"
  shows "\<exists>m. sys_ls z k path a = Some (0, k\<lparr>mem := m\<rparr>) \<and> cstr_at m a = Some (s @ listing es) \<and>
    (\<forall>b. length (s @ listing es) < unat (b - a) \<longrightarrow> m b = mem k b)"
  by (rule sys_ls_tree [OF assms]) blast

theorem ls_lists_names_witness:
  "\<exists>k m. mounts k root_tree \<and> sys_ls demo_stack k (bstr ''/'') 4096 = Some (0, k\<lparr>mem := m\<rparr>) \<and>
    cstr_at m 4096 = Some (bstr ''.'' @ [10] @ bstr ''..'' @ [10])"
proof -
  obtain k where k: "mounts k root_tree" "mem k = (\<lambda>_. 0)" by (rule demo_rooted)
  have pre: "root_tree 0 = Some (Dir (new_dir 0 0))" "length (bstr ''/'') < 1024" "0 \<notin> set (bstr ''/'')"
    "leads_to root_tree (new_dir 0 0) (bstr ''/'') = Some 0"
    by (simp_all add: leads_to_def) (simp_all add: bstr_def slash_def)
  have s: "cstr_at (mem k) 4096 = Some []" "length ([] :: u8 list) < 2 ^ 31" by (simp_all add: k(2) cstr_at.simps)
  have "listing (new_dir 0 0) = bstr ''.'' @ [10] @ bstr ''..'' @ [10]" by (simp add: listing_def)
  then show ?thesis using ls_lists_names [OF k(1) pre(1) demo_calm pre(2-4,1) s] k(1) by auto
qed

section \<open>Paths\<close>

text \<open>C19. The kernel's path lookup is the lookup in the tree: the loop over the disk returns the inode that \<open>leads_to\<close> computes from
  the tree, for paths that lead to a file or directory and for those that do not, and changes nothing. The stack is
  \<open>calm\<close>: when the first component is missing the loop looks at the type of an uninitialised inode, and if that happened to be a
  directory it would read the next directory from the blocks that the stack content names.\<close>

theorem path_lookup_is_tree_lookup:
  assumes "rep f T" "calm z" "dir_ok d" "length path < 1024" "0 \<notin> set path" "leads_to T (entries d) path = Some i"
  shows "path_to_inode_id z f d path = Some (i, f)"
  by (rule path_resolves [OF assms(1-3) refl assms(4-6)])

theorem path_lookup_is_tree_lookup_witness:
  "\<exists>k f d. mounts k (with_devices root_tree (new_dir 0 0) 1) \<and> fs_of k = Some f \<and> root_dir k = Some d \<and>
    path_to_inode_id demo_stack f d (bstr ''/dev/stdout'') = Some (3, f) \<and>
    path_to_inode_id demo_stack f d (bstr ''/dev/tty/stdout'') = Some (3, f) \<and>
    path_to_inode_id demo_stack f d (bstr ''/tty'') = Some (- 1, f)"
proof -
  let ?T = "with_devices root_tree (new_dir 0 0) 1" and ?r = "new_dir 0 0 @ [(bstr ''dev'', 1)]"
  obtain k where k: "mounts k ?T" by (rule sys_mount_new [of "demo_kernel demo" demo_stack]) simp_all
  have "?T 0 = Some (Dir ?r)" by (simp add: with_devices_def)
  with k obtain f d where f: "fs_of k = Some f" "rep f ?T" "root_dir k = Some d" "dir_ok d" "entries d = ?r"
    by (auto simp: mounts_def)
  have t: "tokens (bstr ''/dev/stdout'') = [bstr ''dev'', bstr ''stdout'']"
    "tokens (bstr ''/dev/tty/stdout'') = [bstr ''dev'', bstr ''tty'', bstr ''stdout'']" "tokens (bstr ''/tty'') = [bstr ''tty'']"
    by (simp_all add: bstr_def slash_def)
  have "leads_to ?T ?r (bstr ''/dev/stdout'') = Some 3" "leads_to ?T ?r (bstr ''/dev/tty/stdout'') = Some 3"
    "leads_to ?T ?r (bstr ''/tty'') = Some (- 1)"
    unfolding leads_to_def t by (simp_all add: with_devices_def inode_types) (simp_all add: bstr_def)
  then have "path_to_inode_id demo_stack f d (bstr ''/dev/stdout'') = Some (3, f)"
    "path_to_inode_id demo_stack f d (bstr ''/dev/tty/stdout'') = Some (3, f)"
    "path_to_inode_id demo_stack f d (bstr ''/tty'') = Some (- 1, f)"
    by (rule_tac path_lookup_is_tree_lookup [OF f(2) demo_calm f(4)]; simp add: f(5) bstr_def)+
  then show ?thesis using k f(1,3) by blast
qed

section \<open>Sessions\<close>

lemma demo_session:
  "\<exists>a. specs [(1, Open [] (bstr ''a'') READ_WRITE), (1, Write 3 [7, 8, 9]), (2, Write 3 [1]), (1, Read 3 2), (1, Rm [] (bstr ''a''))]
     (mounted_afs (demo_kernel demo)) = Some ([Number 3, Number 3, Number (- 1), Contents [7, 8], Done], a) \<and>
     nodes a = with_devices root_tree (new_dir 0 0) 1"
proof -
  let ?T = "with_devices root_tree (new_dir 0 0) 1" and ?es = "new_dir 0 0 @ [(bstr ''dev'', 1)]"
  define a0 where "a0 = mounted_afs (demo_kernel demo)"
  have sp: "spare_blocks demo_disk = 9" by (simp add: spare_blocks_def inodes_of_def demo_disk_def)
  have a0: "nodes a0 = ?T" "handles a0 = [(2, READ_GLOBAL), (3, WRITE_GLOBAL), (4, WRITE_GLOBAL)]" "own a0 1 = []" "own a0 2 = []"
     "spare a0 = 9" "inodes a0 = 10" "block a0 = 1024"
    by (simp_all add: a0_def mounted_afs_def sp inodes_of_def demo_kernel_def open_fds_def)
  have T: "?T 0 = Some (Dir ?es)" by (simp add: with_devices_def)
  have d0: "directory_at a0 [] (bstr ''a'') = Some ?es" 
    using demo_name by (simp add: directory_at_def good_path_def a0 root_entries_def T dir_of_def)
  have n0: "next_inode a0 = Some 5"
    by (simp add: next_inode_def a0 with_devices_def upto_rec1)
  have m: "map_of ?es (bstr ''a'') = None" by (simp add: bstr_def)
  let ?a1 = "add_handle 1 5 READ_WRITE (a0\<lparr>nodes := add_name ?T ?es (bstr ''a'') 5 (Blank INODE_FILE), spare := 7\<rparr>)"
  have s1: "spec 1 (Open [] (bstr ''a'') READ_WRITE) a0 = Some (Number 3, ?a1)"
    using m by (simp add: d0 n0 a0 may_open_def)
  define a1 where "a1 = ?a1"
  have a1: "nodes a1 = add_name ?T ?es (bstr ''a'') 5 (Blank INODE_FILE)" "handle a1 3 = Some (5, READ_WRITE)" "own a1 1 = [3]" "own a1 2 = []"
     "spare a1 = 7" "block a1 = 1024"
    by (simp_all add: a1_def add_handle_def a0 handle_def)
  let ?a2 = "a1\<lparr>nodes := (nodes a1)(5 \<mapsto> File [7, 8, 9]), spare := 6\<rparr>"
  have s2: "spec 1 (Write 3 [7, 8, 9]) a1 = Some (Number 3, ?a2)"
    by (simp add: a1 foreign_def add_name_def cost_def)
  define a2 where "a2 = ?a2"
  have "handle a2 3 = handle a1 3" by (simp add: a2_def handle_def)
  then have a2: "handle a2 3 = Some (5, READ_WRITE)" "own a2 1 = [3]" "own a2 2 = []" "spare a2 = 6"
    "nodes a2 = (add_name ?T ?es (bstr ''a'') 5 (Blank INODE_FILE))(5 \<mapsto> File [7, 8, 9])"
    using a1(2) by (simp_all, simp_all add: a2_def a1)
  have s3: "spec 2 (Write 3 [1]) a2 = Some (Number (- 1), a2)"
    by (simp add: a2 foreign_def READ_WRITE_def WRITE_GLOBAL_def)
  have s4: "spec 1 (Read 3 2) a2 = Some (Contents [7, 8], a2)"
    by (simp add: a2 foreign_def)
  let ?es1 = "?es @ [(bstr ''a'', 5)]"
  have T2: "nodes a2 0 = Some (Dir ?es1)" "nodes a2 5 = Some (File [7, 8, 9])" by (simp_all add: a2 add_name_def)
  have d2: "directory_at a2 [] (bstr ''a'') = Some ?es1"
    using demo_name by (simp add: directory_at_def good_path_def root_entries_def T2 dir_of_def)
  have m2: "map_of ?es1 (bstr ''a'') = Some 5" by (simp add: bstr_def)
  have "remove_name (nodes a2) ?es1 (bstr ''a'') 5 = ?T"
    by (simp add: a2(5) remove_name_def add_name_def fun_eq_iff with_devices_def) (simp add: bstr_def)
  then have s5: "spec 1 (Rm [] (bstr ''a'')) a2 = Some (Done, a2\<lparr>nodes := ?T, spare := 4\<rparr>)"
    using m2 by (simp add: d2 T2 a2(4))
  show ?thesis using s1 [folded a1_def] s2 [folded a2_def] s3 s4 s5 by (simp del: spec.simps flip: a0_def)
qed

text \<open>C20. Whole sessions refine the abstract file system: from the first mount on, whatever calls any processes make, and whatever
  else happens in between as long as it leaves the files alone, the answers are those of \<open>spec\<close> and the disk holds its tree, as far as
  \<open>spec\<close> promises anything; and every further call that it promises an answer returns with this answer. The stack is
  \<open>calm\<close> at the mount and at every call.\<close>

theorem sessions_refine_tree:
  assumes "procs_wf (tbl k0)" "mounted k0 \<noteq> None" "root_dir k0 \<noteq> None" "mountable (dsk k0)" "unformatted (dsk k0)" "calm z0"
    and "sys_mount z0 k0 = Some (0, k)" "session k tr k'" "specs (map (\<lambda>(p, c, _). (p, c)) tr) (mounted_afs k0) = Some (rs, a)"
  shows "map (\<lambda>(_, _, r). r) tr = rs \<and> mounts k' (nodes a) \<and>
    (\<forall>j z x c r a'. same_files k' j \<and> calm z \<and> prepared (mem j) x c \<and> spec (cur (tbl j)) c a = Some (r, a') \<longrightarrow>
       (\<exists>j'. execute z x c j = Some (r, j') \<and> session k (tr @ [(cur (tbl j), c, r)]) j' \<and> mounts j' (nodes a')))"
proof -
  have "simulates k (mounted_afs k0)" using first_mount_simulates [OF assms(1-6)] assms(7) by simp
  then have s: "map (\<lambda>(_, _, r). r) tr = rs" "simulates k' a" using session_simulates [OF assms(8) _ assms(9)] by simp_all
  have "\<exists>j'. execute z x c j = Some (r, j') \<and> session k (tr @ [(cur (tbl j), c, r)]) j' \<and> mounts j' (nodes a')"
    if h: "same_files k' j" "calm z" "prepared (mem j) x c" "spec (cur (tbl j)) c a = Some (r, a')" for j z x c r a'
  proof -
    obtain j' where j': "execute z x c j = Some (r, j')" "simulates j' a'"
      using step_simulates [OF simulates_same [OF s(2) h(1)] h(2-4)] by blast
    then show ?thesis using session.step [OF assms(8) h(1-3) j'(1)] by (auto simp: simulates_def)
  qed
  then show ?thesis using s by (auto simp: simulates_def)
qed

theorem sessions_refine_tree_witness:
  "\<exists>k tr k'. sys_mount demo_stack (demo_kernel demo) = Some (0, k) \<and> session k tr k' \<and>
    tr = [(1, Open [] (bstr ''a'') READ_WRITE, Number 3), (1, Write 3 [7, 8, 9], Number 3), (2, Write 3 [1], Number (- 1)),
      (1, Read 3 2, Contents [7, 8]), (1, Rm [] (bstr ''a''), Done)] \<and> mounts k' (with_devices root_tree (new_dir 0 0) 1)"
proof -
  let ?cs = "[(1, Open [] (bstr ''a'') READ_WRITE), (1, Write 3 [7, 8, 9]), (2, Write 3 [1]), (1, Read 3 2), (1, Rm [] (bstr ''a''))]"
    and ?rs = "[Number 3, Number 3, Number (- 1), Contents [7, 8], Done]"
  have pre: "procs_wf (tbl (demo_kernel demo))" "mountable (dsk (demo_kernel demo))" "unformatted (dsk (demo_kernel demo))"
    by simp_all
  note pre = pre(1) demo_kernel_simps(2,3) pre(2,3) demo_calm
  obtain k where k: "sys_mount demo_stack (demo_kernel demo) = Some (0, k)" "simulates k (mounted_afs (demo_kernel demo))"
    using first_mount_simulates [OF pre] by blast
  obtain a where a: "specs ?cs (mounted_afs (demo_kernel demo)) = Some (?rs, a)" "nodes a = with_devices root_tree (new_dir 0 0) 1"
    using demo_session by blast
  have ok: "\<forall>(p, c) \<in> set ?cs. valid_pid p \<and> sendable c" by (simp add: sendable_def)
  obtain tr k' where s: "session k tr k'" "map (\<lambda>(p, c, _). (p, c)) tr = ?cs"
    using sessions_exist [OF k(2) demo_calm ok a(1)] by (elim exE conjE)
  have r: "map (\<lambda>(_, _, r). r) tr = ?rs" "mounts k' (nodes a)"
    using sessions_refine_tree [OF pre k(1) s(1), unfolded s(2), OF a(1)] by blast+
  have "tr = map2 (\<lambda>(p, c) r. (p, c, r)) (map (\<lambda>(p, c, _). (p, c)) tr) (map (\<lambda>(_, _, r). r) tr)"
    by (induction tr) auto
  then have "tr = map2 (\<lambda>(p, c) r. (p, c, r)) ?cs ?rs" by (simp only: s(2) r(1))
  then show ?thesis using k(1) s(1) r(2) a(2) by (intro exI [of _ k] exI [of _ tr] exI [of _ k']) simp
qed

end
