(* ===== verification/Interrupts.thy ===== *)
theory Interrupts
  imports Hilevel
begin

text \<open>
  The timer and the interrupt controller as \<open>src/question/kernel/hilevel.c\<close> programs them: the registers of
  \<open>src/question/device/SP804.h\<close> and \<open>GIC.h\<close> (the reserved bytes between them left out), the configuration at the end of the
  reset handler, and the acknowledgement of an interrupt. A register keeps what is written to it; when the devices raise and
  forward an interrupt is what their manuals say of these registers (\<open>forwards\<close>, \<open>ticks\<close>).
\<close>

section \<open>Registers\<close>

record SP804_t =
  Timer1Load :: u32
  Timer1Value :: u32
  Timer1Ctrl :: u32
  Timer1IntClr :: u32
  Timer1RIS :: u32
  Timer1MIS :: u32
  Timer1BGLoad :: u32
  Timer2Load :: u32
  Timer2Value :: u32
  Timer2Ctrl :: u32
  Timer2IntClr :: u32
  Timer2RIS :: u32
  Timer2MIS :: u32
  Timer2BGLoad :: u32
  TimerITCR :: u32
  TimerITOP :: u32
  PeriphID0 :: u32
  PeriphID1 :: u32
  PeriphID2 :: u32
  PeriphID3 :: u32
  PCellID0 :: u32
  PCellID1 :: u32
  PCellID2 :: u32
  PCellID3 :: u32

record GICC_t =
  GICC_CTLR :: u32
  PMR :: u32
  BPR :: u32
  IAR :: u32
  EOIR :: u32
  RPR :: u32
  HPPIR :: u32

record GICD_t =
  GICD_CTLR :: u32
  TYPER :: u32
  ISENABLER0 :: u32
  ISENABLER1 :: u32
  ISENABLER2 :: u32
  ICENABLER0 :: u32
  ICENABLER1 :: u32
  ICENABLER2 :: u32
  ISPENDR0 :: u32
  ISPENDR1 :: u32
  ISPENDR2 :: u32
  ICPENDR0 :: u32
  ICPENDR1 :: u32
  ICPENDR2 :: u32
  ISACTIVER0 :: u32
  ISACTIVER1 :: u32
  ISACTIVER2 :: u32
  IPRIORITYR :: "u32 list"
  ITARGETSR :: "u32 list"
  ICFGR0 :: u32
  ICFGR1 :: u32
  ICFGR2 :: u32
  ICFGR3 :: u32
  ICFGR4 :: u32
  ICFGR5 :: u32
  SGIR :: u32

record board =
  TIMER0 :: SP804_t
  GICC0 :: GICC_t
  GICD0 :: GICD_t

section \<open>Reset\<close>

definition configure_timer :: "SP804_t \<Rightarrow> SP804_t" where
  "configure_timer t = (
     let t = t\<lparr>Timer1Load := 0x00020000\<rparr>;
         t = t\<lparr>Timer1Ctrl := 0x00000002\<rparr>;
         t = t\<lparr>Timer1Ctrl := Timer1Ctrl t OR 0x00000040\<rparr>;
         t = t\<lparr>Timer1Ctrl := Timer1Ctrl t OR 0x00000020\<rparr>
     in t\<lparr>Timer1Ctrl := Timer1Ctrl t OR 0x00000080\<rparr>)"

definition configure_board :: "board \<Rightarrow> board" where
  "configure_board b = (
     let b = b\<lparr>TIMER0 := configure_timer (TIMER0 b)\<rparr>;
         b = b\<lparr>GICC0 := (GICC0 b)\<lparr>PMR := 0x000000F0\<rparr>\<rparr>;
         b = b\<lparr>GICD0 := (GICD0 b)\<lparr>ISENABLER1 := ISENABLER1 (GICD0 b) OR 0x00000010\<rparr>\<rparr>;
         b = b\<lparr>GICC0 := (GICC0 b)\<lparr>GICC_CTLR := 0x00000001\<rparr>\<rparr>
     in b\<lparr>GICD0 := (GICD0 b)\<lparr>GICD_CTLR := 0x00000001\<rparr>\<rparr>)"

text \<open>\<open>int_enable_irq\<close> and its relatives of \<open>int.s\<close>, on the status register.\<close>

definition int_enable_irq :: "u32 \<Rightarrow> u32" where "int_enable_irq psr = psr AND NOT 0x80"
definition int_unable_irq :: "u32 \<Rightarrow> u32" where "int_unable_irq psr = psr OR 0x80"
definition int_enable_fiq :: "u32 \<Rightarrow> u32" where "int_enable_fiq psr = psr AND NOT 0x40"
definition int_unable_fiq :: "u32 \<Rightarrow> u32" where "int_unable_fiq psr = psr OR 0x40"

definition handler_rst :: "u32 \<Rightarrow> kernel \<Rightarrow> board \<Rightarrow> u32 \<Rightarrow> (kernel \<times> ctx_t \<times> board \<times> u32) option" where
  "handler_rst main_console k b psr = do {
     (k, c) \<leftarrow> hilevel_handler_rst main_console k;
     Some (k, c, configure_board b, int_enable_irq psr)
   }"

section \<open>An interrupt\<close>

definition handler_irq :: "kernel \<Rightarrow> ctx_t \<Rightarrow> board \<Rightarrow> (kernel \<times> ctx_t \<times> board) option" where
  "handler_irq k c b = do {
     let n = IAR (GICC0 b);
     (k, c) \<leftarrow> hilevel_handler_irq k c n;
     let b = (if n = GIC_SOURCE_TIMER0 then b\<lparr>TIMER0 := (TIMER0 b)\<lparr>Timer1IntClr := 0x01\<rparr>\<rparr> else b);
     Some (k, c, b\<lparr>GICC0 := (GICC0 b)\<lparr>EOIR := n\<rparr>\<rparr>)
   }"

section \<open>What the devices do with the registers\<close>

text \<open>The timer raises its interrupt periodically: bit 7 enables it, bit 6 makes it periodic, bit 5 enables its interrupt.\<close>

definition ticks :: "SP804_t \<Rightarrow> bool" where
  "ticks t \<longleftrightarrow> bit (Timer1Ctrl t) 7 \<and> bit (Timer1Ctrl t) 6 \<and> bit (Timer1Ctrl t) 5"

text \<open>The controller forwards source \<open>n\<close>: distributor and interface are on, the source is enabled and its priority, a byte of
  \<open>IPRIORITYR\<close>, is above the mask (that is, a smaller number).\<close>

definition set_enable :: "GICD_t \<Rightarrow> nat \<Rightarrow> u32" where
  "set_enable d w = (if w = 0 then ISENABLER0 d else if w = 1 then ISENABLER1 d else if w = 2 then ISENABLER2 d else 0)"

definition source_priority :: "GICD_t \<Rightarrow> nat \<Rightarrow> u32" where
  "source_priority d n = drop_bit (8 * (n mod 4)) (IPRIORITYR d ! (n div 4)) AND 0xFF"

definition forwards :: "board \<Rightarrow> nat \<Rightarrow> bool" where
  "forwards b n \<longleftrightarrow> bit (GICD_CTLR (GICD0 b)) 0 \<and> bit (GICC_CTLR (GICC0 b)) 0 \<and>
     bit (set_enable (GICD0 b) (n div 32)) (n mod 32) \<and> source_priority (GICD0 b) n < PMR (GICC0 b)"

text \<open>After power-on no source is enabled and all priorities are 0.\<close>

definition power_on :: "board \<Rightarrow> bool" where
  "power_on b \<longleftrightarrow> ISENABLER0 (GICD0 b) = 0 \<and> ISENABLER1 (GICD0 b) = 0 \<and> ISENABLER2 (GICD0 b) = 0 \<and>
     IPRIORITYR (GICD0 b) = replicate 24 0"

lemma configured:
  "Timer1Ctrl (TIMER0 (configure_board b)) = 0xE2" "Timer1Load (TIMER0 (configure_board b)) = 0x20000"
  "PMR (GICC0 (configure_board b)) = 0xF0" "GICC_CTLR (GICC0 (configure_board b)) = 1" "GICD_CTLR (GICD0 (configure_board b)) = 1"
  "ISENABLER0 (GICD0 (configure_board b)) = ISENABLER0 (GICD0 b)" "ISENABLER2 (GICD0 (configure_board b)) = ISENABLER2 (GICD0 b)"
  "ISENABLER1 (GICD0 (configure_board b)) = ISENABLER1 (GICD0 b) OR 0x10"
  "IPRIORITYR (GICD0 (configure_board b)) = IPRIORITYR (GICD0 b)"
  by (simp_all add: configure_board_def configure_timer_def Let_def)

lemma bit_16: "bit (0x10 :: u32) n \<longleftrightarrow> n = 4"
proof -
  have "(0x10 :: u32) = push_bit 4 1" by simp
  then show ?thesis by (simp only: bit_push_bit_iff) (auto simp: bit_1_iff)
qed

lemma configured_ticks: "ticks (TIMER0 (configure_board b))"
  by (simp add: ticks_def configured bit_numeral_rec)

lemma configured_forwards:
  assumes "power_on b" "n < 96"
  shows "forwards (configure_board b) n \<longleftrightarrow> n = unat GIC_SOURCE_TIMER0"
proof -
  have p: "source_priority (GICD0 (configure_board b)) n = 0"
    using assms by (simp add: source_priority_def configured power_on_def)
  have "bit (set_enable (GICD0 (configure_board b)) (n div 32)) (n mod 32) \<longleftrightarrow> n div 32 = 1 \<and> n mod 32 = 4"
  proof -
    have "ISENABLER1 (GICD0 (configure_board b)) = 0x10" using assms(1) by (simp add: configured power_on_def)
    then have "bit (ISENABLER1 (GICD0 (configure_board b))) m \<longleftrightarrow> m = 4" for m by (simp only: bit_16)
    moreover have "ISENABLER0 (GICD0 (configure_board b)) = 0" "ISENABLER2 (GICD0 (configure_board b)) = 0"
      using assms(1) by (simp_all add: configured power_on_def)
    ultimately show ?thesis by (simp add: set_enable_def)
  qed
  also have "\<dots> \<longleftrightarrow> n = 36"
  proof
    assume "n div 32 = 1 \<and> n mod 32 = 4"
    then show "n = 36" using div_mult_mod_eq [of n 32] by linarith
  qed simp
  finally show ?thesis using p by (simp add: forwards_def configured GIC_SOURCE_TIMER0_def)
qed

end
