(* ===== verification/Lolevel.thy ===== *)
theory Lolevel
  imports Interrupts Kernel_Files
begin

text \<open>
  The assembly code around the handlers, \<open>src/question/kernel/lolevel.s\<close> and \<open>int.s\<close>: saving the context of the
  interrupted program on the stack of the handler's mode, calling the C function, restoring the context that it left there, and the
  copy of the vector table. Memory is the byte memory of the kernel model; a word is its four bytes, lowest first.
\<close>

section \<open>Words in memory\<close>

definition ldw :: "(u32 \<Rightarrow> u8) \<Rightarrow> u32 \<Rightarrow> u32" where
  "ldw m a = un_le32 (load_bytes m a 4)"

definition stw :: "(u32 \<Rightarrow> u8) \<Rightarrow> u32 \<Rightarrow> u32 \<Rightarrow> u32 \<Rightarrow> u8" where
  "stw m a w = store_bytes m a (le32 w)"

text \<open>\<open>stmia\<close> and \<open>ldmia\<close>: consecutive words from address \<open>a\<close> on.\<close>

definition stm :: "(u32 \<Rightarrow> u8) \<Rightarrow> u32 \<Rightarrow> u32 list \<Rightarrow> u32 \<Rightarrow> u8" where
  "stm m a ws = store_bytes m a (concat (map le32 ws))"

definition ldm :: "(u32 \<Rightarrow> u8) \<Rightarrow> u32 \<Rightarrow> nat \<Rightarrow> u32 list" where
  "ldm m a n = map (\<lambda>i. ldw m (a + of_nat (4 * i))) [0..<n]"

lemma length_words [simp]: "length (concat (map le32 ws)) = 4 * length ws"
  by (induction ws) simp_all

lemma length_ldm [simp]: "length (ldm m a n) = n"
  by (simp add: ldm_def)

text \<open>An offset of less than \<open>2^32\<close> bytes is the difference of the addresses.\<close>

lemma unat_minus_of_nat: "l \<le> unat (d :: u32) \<Longrightarrow> unat (d - of_nat l) = unat d - l"
proof -
  assume l: "l \<le> unat d"
  moreover have "unat d < 2 ^ 32" using unsigned_less [of d] by simp
  ultimately have "l < 2 ^ 32" by linarith
  then have "unat (of_nat l :: u32) = l" by (simp add: unat_of_nat take_bit_nat_eq_self)
  then show ?thesis using l by (simp add: unat_sub_if')
qed

lemma store_bytes_append:
  assumes "length xs + length ys \<le> 2 ^ 32"
  shows "store_bytes (store_bytes m (a + of_nat (length xs)) ys) a xs = store_bytes m a (xs @ ys)"
proof
  fix b
  let ?d = "unat (b - a)" and ?l = "length xs"
  have xy: "length xs \<le> 2 ^ 32" "length ys \<le> 2 ^ 32" "length (xs @ ys) \<le> 2 ^ 32" using assms by simp_all
  show "store_bytes (store_bytes m (a + of_nat ?l) ys) a xs b = store_bytes m a (xs @ ys) b"
  proof (cases "?d < ?l")
    case True
    then show ?thesis unfolding store_bytes_read [OF xy(1)] store_bytes_read [OF xy(3)] by (simp add: nth_append)
  next
    case False
    have "b - (a + of_nat ?l) = (b - a) - of_nat ?l" by simp
    then have "unat (b - (a + of_nat ?l)) = ?d - ?l" using unat_minus_of_nat [of ?l "b - a"] False by (simp only: not_less)
    then show ?thesis using False
      unfolding store_bytes_read [OF xy(1)] store_bytes_read [OF xy(2)] store_bytes_read [OF xy(3)]
      by (auto simp: nth_append)
  qed
qed

lemma stm_below:
  assumes "length ws < 2 ^ 20"
  shows "stm (stm m (a + 8) ws) a [x, y] = stm m a (x # y # ws)"
proof -
  have "length (le32 x @ le32 y) + length (concat (map le32 ws)) \<le> 2 ^ 32" using assms by simp
  from store_bytes_append [OF this, of m a] show ?thesis by (simp add: stm_def)
qed

lemma load_bytes_inside:
  assumes "length bs \<le> 2 ^ 31" "i + 4 \<le> length bs"
  shows "load_bytes (store_bytes m a bs) (a + of_nat i) 4 = take 4 (drop i bs)"
proof (rule nth_equalityI)
  fix j assume "j < length (load_bytes (store_bytes m a bs) (a + of_nat i) 4)"
  then have j: "j < 4" by simp
  have "i + j < 2 ^ 32" using assms j by simp
  then have u: "unat (of_nat (i + j) :: u32) = i + j" by (simp add: unat_of_nat take_bit_nat_eq_self del: of_nat_add)
  have "u32_of_int (int j) = of_nat j" by (simp add: u32_of_int_def)
  then have "load_bytes (store_bytes m a bs) (a + of_nat i) 4 ! j = store_bytes m a bs (a + of_nat (i + j))"
    using j by (simp add: load_bytes_def add.assoc)
  also have "\<dots> = bs ! (i + j)"
    using assms j u by (simp add: store_bytes_read del: of_nat_add)
  finally show "load_bytes (store_bytes m a bs) (a + of_nat i) 4 ! j = take 4 (drop i bs) ! j"
    using assms(2) j by simp
qed (use assms(2) in simp)

lemma word_of_words: "i < length ws \<Longrightarrow> take 4 (drop (4 * i) (concat (map le32 ws))) = le32 (ws ! i)"
proof (induction ws arbitrary: i)
  case (Cons w ws)
  then show ?case by (cases i) simp_all
qed simp

lemma ldm_stm:
  assumes "length ws < 2 ^ 20"
  shows "ldm (stm m a ws) a (length ws) = ws"
proof (rule nth_equalityI)
  fix i assume "i < length (ldm (stm m a ws) a (length ws))"
  then have i: "i < length ws" by simp
  then have "load_bytes (stm m a ws) (a + of_nat (4 * i)) 4 = le32 (ws ! i)"
    using assms load_bytes_inside [of "concat (map le32 ws)" "4 * i" m a] word_of_words [OF i] by (simp add: stm_def)
  then show "ldm (stm m a ws) a (length ws) ! i = ws ! i"
    using i un_le32_le32 [of "ws ! i" "[]"] by (simp add: ldm_def ldw_def)
qed simp

lemma ldm_append: "ldm m a (i + n) = ldm m a i @ ldm m (a + of_nat (4 * i)) n"
proof -
  have "[0..<i + n] = [0..<i] @ map (\<lambda>j. i + j) [0..<n]" by (simp add: map_add_upt [of i n] add.commute upt_add_eq_append [of 0])
  then show ?thesis by (simp add: ldm_def algebra_simps)
qed

section \<open>The processor\<close>

text \<open>The registers a handler sees: \<open>r0\<close> to \<open>r12\<close>, the banked \<open>sp\<close> and \<open>lr\<close> of USR mode, and \<open>sp\<close>, \<open>lr\<close> and \<open>spsr\<close> of the
  SVC and the IRQ mode. \<open>cpu_pc\<close> is the address of the next instruction of the user program.\<close>

record bank =
  b_sp :: u32
  b_lr :: u32
  b_spsr :: u32

record cpu =
  gp :: "u32 list"
  usr_sp :: u32
  usr_lr :: u32
  svc_bank :: bank
  irq_bank :: bank
  psr :: u32
  cpu_pc :: u32

definition irq_mode :: "cpu \<Rightarrow> bool" where
  "irq_mode s \<longleftrightarrow> psr s AND 0x1F = 0x12"

definition bank_of :: "cpu \<Rightarrow> bank" where
  "bank_of s = (if irq_mode s then irq_bank s else svc_bank s)"

definition with_bank :: "(bank \<Rightarrow> bank) \<Rightarrow> cpu \<Rightarrow> cpu" where
  "with_bank g s = (if irq_mode s then s\<lparr>irq_bank := g (irq_bank s)\<rparr> else s\<lparr>svc_bank := g (svc_bank s)\<rparr>)"

text \<open>What the processor does on an exception: the return address and the status go to the mode's bank, interrupts are disabled.\<close>

definition take_svc :: "cpu \<Rightarrow> cpu" where
  "take_svc s = s\<lparr>svc_bank := (svc_bank s)\<lparr>b_lr := cpu_pc s, b_spsr := psr s\<rparr>, psr := (psr s AND NOT 0x1F) OR 0x93\<rparr>"

definition take_irq :: "cpu \<Rightarrow> cpu" where
  "take_irq s = s\<lparr>irq_bank := (irq_bank s)\<lparr>b_lr := cpu_pc s + 4, b_spsr := psr s\<rparr>, psr := (psr s AND NOT 0x1F) OR 0x92\<rparr>"

text \<open>The unadorned \<open>msr spsr, r0\<close> writes the control and the flags field only.\<close>

definition msr_cf :: "u32 \<Rightarrow> u32 \<Rightarrow> u32" where
  "msr_cf old new = (old AND 0x00FFFF00) OR (new AND 0xFF0000FF)"

section \<open>The handlers\<close>

text \<open>The part before the call, \<open>d\<close> being what is subtracted from the return address.\<close>

definition save_context :: "u32 \<Rightarrow> (u32 \<Rightarrow> u8) \<times> cpu \<Rightarrow> (u32 \<Rightarrow> u8) \<times> cpu" where
  "save_context d = (\<lambda>(m, s).
     let s = with_bank (\<lambda>b. b\<lparr>b_lr := b_lr b - d\<rparr>) s;
         s = with_bank (\<lambda>b. b\<lparr>b_sp := b_sp b - 60\<rparr>) s;
         m = stm m (b_sp (bank_of s)) (gp s @ [usr_sp s, usr_lr s]);
         s = s\<lparr>gp := (gp s)[0 := b_spsr (bank_of s)]\<rparr>;
         s = with_bank (\<lambda>b. b\<lparr>b_sp := b_sp b - 8\<rparr>) s;
         m = stm m (b_sp (bank_of s)) [gp s ! 0, b_lr (bank_of s)];
         s = s\<lparr>gp := (gp s)[0 := b_sp (bank_of s)]\<rparr>;
         s = s\<lparr>gp := (gp s)[1 := ldw m (b_lr (bank_of s) - 4)]\<rparr>;
         s = s\<lparr>gp := (gp s)[1 := gp s ! 1 AND NOT 0xFF000000]\<rparr>
     in (m, s))"

text \<open>The part after the call.\<close>

definition restore_context :: "(u32 \<Rightarrow> u8) \<times> cpu \<Rightarrow> cpu" where
  "restore_context = (\<lambda>(m, s).
     let ws = ldm m (b_sp (bank_of s)) 2;
         s = (with_bank (\<lambda>b. b\<lparr>b_sp := b_sp b + 8, b_lr := ws ! 1\<rparr>) s)\<lparr>gp := (gp s)[0 := ws ! 0]\<rparr>;
         s = with_bank (\<lambda>b. b\<lparr>b_spsr := msr_cf (b_spsr b) (gp s ! 0)\<rparr>) s;
         ws = ldm m (b_sp (bank_of s)) 15;
         s = s\<lparr>gp := take 13 ws, usr_sp := ws ! 13, usr_lr := ws ! 14\<rparr>;
         s = with_bank (\<lambda>b. b\<lparr>b_sp := b_sp b + 60\<rparr>) s
     in s\<lparr>cpu_pc := b_lr (bank_of s), psr := b_spsr (bank_of s)\<rparr>)"

text \<open>The structure \<open>ctx_t\<close> in memory.\<close>

definition read_ctx :: "(u32 \<Rightarrow> u8) \<Rightarrow> u32 \<Rightarrow> ctx_t" where
  "read_ctx m a = (let ws = ldm m a 17 in
     \<lparr>cpsr = ws ! 0, pc = ws ! 1, gpr = take 13 (drop 2 ws), sp = ws ! 15, lr = ws ! 16\<rparr>)"

definition write_ctx :: "(u32 \<Rightarrow> u8) \<Rightarrow> u32 \<Rightarrow> ctx_t \<Rightarrow> u32 \<Rightarrow> u8" where
  "write_ctx m a c = stm m a (cpsr c # pc c # gpr c @ [sp c, lr c])"

text \<open>What a C function leaves in \<open>r0\<close> to \<open>r12\<close> and in \<open>lr\<close> is arbitrary (\<open>j\<close>); it restores \<open>sp\<close>.\<close>

definition returned :: "u32 list \<times> u32 \<Rightarrow> cpu \<Rightarrow> cpu" where
  "returned j s = (with_bank (\<lambda>b. b\<lparr>b_lr := snd j\<rparr>) s)\<lparr>gp := fst j\<rparr>"

text \<open>The handler works on the context through a pointer. A call that answers in \<open>r0\<close> assigns only that field, after
  the kernel function has returned; what the function has stored into the other fields, if the program
  passed an address on the stack of the handler, stays there. The other calls store nothing into user memory, so that the
  context they leave can be written as a whole.\<close>

definition answers :: "u32 \<Rightarrow> bool" where
  "answers n \<longleftrightarrow> n \<in> {SYS_WRITE, SYS_READ, SYS_OPEN, SYS_CLOSE, SYS_MOUNT, SYS_UNMOUNT, SYS_SHARE, SYS_UNSHARE, SYS_LOCK,
     SYS_UNLOCK, SYS_WAIT, SYS_LS, SYS_STAT, SYS_RMDIR, SYS_MKDIR, SYS_RM}"

definition leave_ctx :: "u32 \<Rightarrow> (u32 \<Rightarrow> u8) \<Rightarrow> u32 \<Rightarrow> ctx_t \<Rightarrow> u32 \<Rightarrow> u8" where
  "leave_ctx n m a c = (if answers n then stw m (a + 8) (gpr c ! 0) else write_ctx m a c)"

definition lolevel_handler_svc :: "stack \<Rightarrow> u8 list \<Rightarrow> u32 list \<times> u32 \<Rightarrow> kernel \<times> cpu \<Rightarrow> (kernel \<times> cpu) option" where
  "lolevel_handler_svc z b j = (\<lambda>(k, s). do {
     let (m, s) = save_context 0 (mem k, s);
     let a = gp s ! 0;
     (k, c) \<leftarrow> hilevel_handler_svc z b (k\<lparr>mem := m\<rparr>) (read_ctx m a) (gp s ! 1);
     let m = leave_ctx (gp s ! 1) (mem k) a c;
     Some (k\<lparr>mem := m\<rparr>, restore_context (m, returned j s))
   })"

definition lolevel_handler_irq :: "u32 list \<times> u32 \<Rightarrow> kernel \<times> board \<times> cpu \<Rightarrow> (kernel \<times> board \<times> cpu) option" where
  "lolevel_handler_irq j = (\<lambda>(k, b, s). do {
     let (m, s) = save_context 4 (mem k, s);
     let a = gp s ! 0;
     (k, c, b) \<leftarrow> handler_irq (k\<lparr>mem := m\<rparr>) (read_ctx m a) b;
     let m = write_ctx (mem k) a c;
     Some (k\<lparr>mem := m\<rparr>, b, restore_context (m, returned j s))
   })"

section \<open>Saving and restoring are inverse\<close>

text \<open>The context of the user program that the processor runs, or that an exception has interrupted.\<close>

definition running :: "cpu \<Rightarrow> ctx_t" where
  "running s = \<lparr>cpsr = psr s, pc = cpu_pc s, gpr = gp s, sp = usr_sp s, lr = usr_lr s\<rparr>"

definition interrupted :: "u32 \<Rightarrow> cpu \<Rightarrow> ctx_t" where
  "interrupted d s = \<lparr>cpsr = b_spsr (bank_of s), pc = b_lr (bank_of s) - d, gpr = gp s, sp = usr_sp s, lr = usr_lr s\<rparr>"

lemma with_bank_simps [simp]:
  "gp (with_bank g s) = gp s" "usr_sp (with_bank g s) = usr_sp s" "usr_lr (with_bank g s) = usr_lr s"
  "psr (with_bank g s) = psr s" "cpu_pc (with_bank g s) = cpu_pc s" "bank_of (with_bank g s) = g (bank_of s)"
  by (simp_all add: with_bank_def bank_of_def irq_mode_def)

lemma bank_of_gp [simp]: "bank_of (s\<lparr>gp := x\<rparr>) = bank_of s" "bank_of (s\<lparr>usr_sp := y\<rparr>) = bank_of s" "bank_of (s\<lparr>usr_lr := z\<rparr>) = bank_of s"
  by (simp_all add: bank_of_def irq_mode_def)

lemma read_write_ctx: "length (gpr c) = 13 \<Longrightarrow> read_ctx (write_ctx m a c) a = c"
proof -
  assume l: "length (gpr c) = 13"
  let ?ws = "cpsr c # pc c # gpr c @ [sp c, lr c]"
  have "ldm (write_ctx m a c) a 17 = ?ws" using ldm_stm [of ?ws m a] l by (simp add: write_ctx_def)
  then show ?thesis using l by (simp add: read_ctx_def Let_def nth_append)
qed

lemma save_context_spec:
  assumes "length (gp s) = 13" "save_context d (m, s) = (m', s')"
  shows "m' = write_ctx m (b_sp (bank_of s) - 68) (interrupted d s)" "gp s' ! 0 = b_sp (bank_of s) - 68"
    "gp s' ! 1 = ldw m' (b_lr (bank_of s) - d - 4) AND NOT 0xFF000000"
    "bank_of s' = (bank_of s)\<lparr>b_lr := b_lr (bank_of s) - d, b_sp := b_sp (bank_of s) - 68\<rparr>" "psr s' = psr s"
    "irq_mode s \<Longrightarrow> svc_bank s' = svc_bank s" "\<not> irq_mode s \<Longrightarrow> irq_bank s' = irq_bank s"
proof -
  let ?a = "b_sp (bank_of s) - 68"
  have "stm (stm m (?a + 8) (gp s @ [usr_sp s, usr_lr s])) ?a [b_spsr (bank_of s), b_lr (bank_of s) - d] =
      write_ctx m ?a (interrupted d s)"
    using assms(1) stm_below [of "gp s @ [usr_sp s, usr_lr s]" m ?a] by (simp add: write_ctx_def interrupted_def)
  then have m: "stm (stm m (b_sp (bank_of s) - 60) (gp s @ [usr_sp s, usr_lr s])) ?a [b_spsr (bank_of s), b_lr (bank_of s) - d] =
      write_ctx m ?a (interrupted d s)" by simp
  have g: "gp s \<noteq> []" "1 < length (gp s)" using assms(1) by auto
  show "m' = write_ctx m ?a (interrupted d s)" "gp s' ! 0 = ?a" "gp s' ! 1 = ldw m' (b_lr (bank_of s) - d - 4) AND NOT 0xFF000000"
    "bank_of s' = (bank_of s)\<lparr>b_lr := b_lr (bank_of s) - d, b_sp := ?a\<rparr>" "psr s' = psr s"
    "irq_mode s \<Longrightarrow> svc_bank s' = svc_bank s" "\<not> irq_mode s \<Longrightarrow> irq_bank s' = irq_bank s"
    using assms(2) g m by (auto simp: save_context_def Let_def) (simp_all add: with_bank_def irq_mode_def)
qed

lemma read_ctx_words: "ldm m a 17 = cpsr (read_ctx m a) # pc (read_ctx m a) # gpr (read_ctx m a) @ [sp (read_ctx m a), lr (read_ctx m a)]"
  "length (gpr (read_ctx m a)) = 13"
  by (simp_all add: read_ctx_def ldm_def upt_rec Let_def)

lemma restore_context_spec:
  assumes r: "read_ctx m a = c" and a: "b_sp (bank_of s) = a" and g: "gp s \<noteq> []"
    and s'_def: "s' = restore_context (m, s)"
  shows "running s' = c\<lparr>cpsr := msr_cf (b_spsr (bank_of s)) (cpsr c)\<rparr>"
    "irq_mode s \<Longrightarrow> b_sp (irq_bank s') = a + 68 \<and> svc_bank s' = svc_bank s"
    "\<not> irq_mode s \<Longrightarrow> b_sp (svc_bank s') = a + 68 \<and> irq_bank s' = irq_bank s"
proof -
  have c: "length (gpr c) = 13" "ldm m a (2 + 15) = cpsr c # pc c # gpr c @ [sp c, lr c]"
    using read_ctx_words [of m a] r by simp_all
  then have "ldm m a 2 @ ldm m (a + 8) 15 = [cpsr c, pc c] @ (gpr c @ [sp c, lr c])"
    using ldm_append [of m a 2 15] by simp
  then have "ldm m a 2 = [cpsr c, pc c] \<and> ldm m (a + 8) 15 = gpr c @ [sp c, lr c]"
    by (rule append_eq_append_conv [THEN iffD1, rotated]) simp
  then have l: "ldm m a 2 = [cpsr c, pc c]" "ldm m (a + 8) 15 = gpr c @ [sp c, lr c]"
    by simp_all
  have a': "irq_mode s \<Longrightarrow> b_sp (irq_bank s) = a" "\<not> irq_mode s \<Longrightarrow> b_sp (svc_bank s) = a"
    using a by (simp_all add: bank_of_def)
  note r = restore_context_def Let_def running_def l a nth_append c
  show "running s' = c\<lparr>cpsr := msr_cf (b_spsr (bank_of s)) (cpsr c)\<rparr>"
    unfolding s'_def using g by (cases "gp s") (simp_all add: r)
  show "irq_mode s \<Longrightarrow> b_sp (irq_bank s') = a + 68 \<and> svc_bank s' = svc_bank s"
    "\<not> irq_mode s \<Longrightarrow> b_sp (svc_bank s') = a + 68 \<and> irq_bank s' = irq_bank s"
    unfolding s'_def by (simp_all add: r) (simp_all add: with_bank_def irq_mode_def bank_of_def a' [unfolded irq_mode_def])
qed

section \<open>The handlers as functions of the context\<close>

lemma mode_bits: "(x AND NOT a OR b) AND a = b AND (a :: u32)"
  by (rule bit_eqI) (auto simp: bit_simps)

lemma take_modes: "\<not> irq_mode (take_svc s)" "irq_mode (take_irq s)"
  using mode_bits [of "psr s" "0x1F" "0x93"] mode_bits [of "psr s" "0x1F" "0x92"]
  by (simp_all add: irq_mode_def take_svc_def take_irq_def)

lemma take_bank:
  "bank_of (take_svc s) = (svc_bank s)\<lparr>b_lr := cpu_pc s, b_spsr := psr s\<rparr>" "irq_bank (take_svc s) = irq_bank s"
  "bank_of (take_irq s) = (irq_bank s)\<lparr>b_lr := cpu_pc s + 4, b_spsr := psr s\<rparr>" "svc_bank (take_irq s) = svc_bank s"
  "interrupted 0 (take_svc s) = running s" "interrupted 4 (take_irq s) = running s"
  "gp (take_svc s) = gp s" "gp (take_irq s) = gp s"
  by (simp_all add: bank_of_def take_modes interrupted_def running_def) (simp_all add: take_svc_def take_irq_def)

text \<open>Saving, a call that leaves the context \<open>c'\<close>, and restoring: the handler's stack is as it was, the other mode is untouched.\<close>

lemma around_call:
  assumes s: "length (gp s) = 13" "length (fst j) = 13" and e: "save_context d (m, s) = (m1, s1)" and c: "read_ctx m' a = c'"
    and a: "a = b_sp (bank_of s) - 68" and s'_def: "s' = restore_context (m', returned j s1)"
  shows "m1 = write_ctx m a (interrupted d s)" "gp s1 ! 0 = a" "gp s1 ! 1 = ldw m1 (b_lr (bank_of s) - d - 4) AND NOT 0xFF000000"
    "read_ctx m1 a = interrupted d s" "running s' = c'\<lparr>cpsr := msr_cf (b_spsr (bank_of s)) (cpsr c')\<rparr>"
    "irq_mode s \<Longrightarrow> b_sp (irq_bank s') = b_sp (irq_bank s) \<and> svc_bank s' = svc_bank s"
    "\<not> irq_mode s \<Longrightarrow> b_sp (svc_bank s') = b_sp (svc_bank s) \<and> irq_bank s' = irq_bank s"
proof -
  note sv = save_context_spec [OF s(1) e]
  show m1: "m1 = write_ctx m a (interrupted d s)" "gp s1 ! 0 = a" "gp s1 ! 1 = ldw m1 (b_lr (bank_of s) - d - 4) AND NOT 0xFF000000"
    using sv(1-3) by (simp_all add: a)
  show "read_ctx m1 a = interrupted d s" unfolding m1(1) using s(1) by (intro read_write_ctx) (simp add: interrupted_def)
  let ?r = "returned j s1"
  have mode: "irq_mode ?r \<longleftrightarrow> irq_mode s" using sv(5) by (simp add: irq_mode_def returned_def)
  have b: "b_sp (bank_of ?r) = a" "b_spsr (bank_of ?r) = b_spsr (bank_of s)" "gp ?r \<noteq> []"
    using sv(4) s(2) a by (auto simp: returned_def)
  have o: "irq_mode s \<Longrightarrow> svc_bank ?r = svc_bank s" "\<not> irq_mode s \<Longrightarrow> irq_bank ?r = irq_bank s"
    using sv(5-7) by (simp_all add: returned_def with_bank_def irq_mode_def)
  note rs = restore_context_spec [OF c b(1,3) s'_def]
  show "running s' = c'\<lparr>cpsr := msr_cf (b_spsr (bank_of s)) (cpsr c')\<rparr>" using rs(1) b(2) by simp
  show "irq_mode s \<Longrightarrow> b_sp (irq_bank s') = b_sp (irq_bank s) \<and> svc_bank s' = svc_bank s"
    "\<not> irq_mode s \<Longrightarrow> b_sp (svc_bank s') = b_sp (svc_bank s) \<and> irq_bank s' = irq_bank s"
    using rs(2,3) mode o by (simp_all add: a bank_of_def)
qed

text \<open>A context in memory is written by writing what it has.\<close>

lemma nth_load: "i < n \<Longrightarrow> load_bytes m a (int n) ! i = m (a + of_nat i)"
  by (simp add: load_bytes_def u32_of_int_def)

lemma store_loaded: "n \<le> 2 ^ 32 \<Longrightarrow> store_bytes m a (load_bytes m a (int n)) = m"
proof
  fix b assume n: "n \<le> 2 ^ 32"
  have "a + of_nat (unat (b - a)) = b" by simp
  then have "load_bytes m a (int n) ! unat (b - a) = m b" if "unat (b - a) < n"
    using nth_load [OF that, of m a] by (simp only:)
  then show "store_bytes m a (load_bytes m a (int n)) b = m b" using n by (simp add: store_bytes_read)
qed

lemma le32_ldw: "le32 (ldw m b) = load_bytes m b 4"
  by (simp add: ldw_def load_bytes_def upto_rec1 le32_word_of_bytes)

lemma load_append: "load_bytes m a (int (i + j)) = load_bytes m a (int i) @ load_bytes m (a + of_nat i) (int j)"
  by (rule nth_equalityI) (auto simp: nth_append nth_load add.assoc simp del: of_nat_add simp flip: of_nat_add)

lemma load_words: "load_bytes m a (int (4 * n)) = concat (map le32 (ldm m a n))"
proof (induction n)
  case (Suc n)
  have e: "4 * Suc n = 4 * n + 4" by simp
  show ?case using Suc load_append [of m a "4 * n" 4] unfolding e by (simp add: ldm_def le32_ldw)
qed (simp add: load_bytes_def ldm_def)

lemma write_read_ctx: "write_ctx m a (read_ctx m a) = m"
  using store_loaded [of 68 m a] load_words [of m a 17] by (simp add: write_ctx_def stm_def flip: read_ctx_words(1))

lemma store_inside:
  assumes "i + length ys \<le> length xs" "length xs \<le> 2 ^ 32" "i < 2 ^ 32"
  shows "store_bytes (store_bytes m a xs) (a + of_nat i) ys = store_bytes m a (take i xs @ ys @ drop (i + length ys) xs)"
proof
  fix b
  have l: "length ys \<le> 2 ^ 32" "length (take i xs @ ys @ drop (i + length ys) xs) \<le> 2 ^ 32" using assms by auto
  have e: "b - (a + of_nat i) = (b - a) - of_nat i" by simp
  show "store_bytes (store_bytes m a xs) (a + of_nat i) ys b = store_bytes m a (take i xs @ ys @ drop (i + length ys) xs) b"
  proof (cases "i \<le> unat (b - a)")
    case True
    then have "unat (b - (a + of_nat i)) = unat (b - a) - i" unfolding e by (rule unat_minus_of_nat)
    then show ?thesis using True assms
      unfolding store_bytes_read [OF l(1)] store_bytes_read [OF l(2)] store_bytes_read [OF assms(2)]
      by (auto simp: nth_append)
  next
    case False
    have "unat (of_nat i :: u32) = i" using assms(3) by (simp add: unat_of_nat take_bit_nat_eq_self)
    then have "unat (b - (a + of_nat i)) = 2 ^ 32 + unat (b - a) - i" unfolding e using False by (simp add: unat_sub_if')
    then have "length ys \<le> unat (b - (a + of_nat i))" using assms False by linarith
    then show ?thesis using False assms
      unfolding store_bytes_read [OF l(1)] store_bytes_read [OF l(2)] store_bytes_read [OF assms(2)]
      by (auto simp: nth_append)
  qed
qed

lemma answer_written:
  assumes "read_ctx m a = c"
  shows "stw m (a + 8) x = write_ctx m a (c\<lparr>gpr := (gpr c)[0 := x]\<rparr>)"
proof -
  obtain g gs where g: "gpr c = g # gs" "length gs = 12" using read_ctx_words(2) [of m a] assms by (cases "gpr c") auto
  let ?bs = "concat (map le32 (cpsr c # pc c # gpr c @ [sp c, lr c]))"
  have "stw m (a + 8) x = store_bytes (store_bytes m a ?bs) (a + of_nat 8) (le32 x)"
    using write_read_ctx [of m a] by (simp add: assms stw_def write_ctx_def stm_def)
  also have "\<dots> = store_bytes m a (take 8 ?bs @ le32 x @ drop (8 + length (le32 x)) ?bs)"
    using g by (intro store_inside) simp_all
  also have "take 8 ?bs @ le32 x @ drop (8 + length (le32 x)) ?bs =
      concat (map le32 (cpsr c # pc c # (x # gs) @ [sp c, lr c]))" using g by simp
  finally show ?thesis using g by (simp add: write_ctx_def stm_def)
qed

lemma answer_r0: "ret c r = Some (k', c') \<Longrightarrow> c' = c\<lparr>gpr := (gpr c)[0 := gpr c' ! 0]\<rparr>"
  by (auto simp: ret_def set_r0_def wr_def split: run_splits)

lemma svc_answers:
  assumes "hilevel_handler_svc z b k c n = Some (k', c')" "answers n"
  shows "c' = c\<lparr>gpr := (gpr c)[0 := gpr c' ! 0]\<rparr>"
proof -
  obtain r where "ret c r = Some (k', c')"
    using assms unfolding answers_def insert_iff empty_iff
    by (elim disjE FalseE; simp add: hilevel_handler_svc_def sys_nums split: Option.bind_splits; blast)
  then show ?thesis by (rule answer_r0)
qed

text \<open>A system call: the C handler sees the program's context and the number in the instruction, and the context that is then in memory
  is what the program, or the one the scheduler chose, continues with.\<close>

lemma svc_spec:
  assumes s: "length (gp s) = 13" "length (fst j) = 13"
    and a: "a = b_sp (svc_bank s) - 68" and m: "m = write_ctx (mem k) a (running s)" and n: "n = ldw m (cpu_pc s - 4) AND NOT 0xFF000000"
    and h: "hilevel_handler_svc z b (k\<lparr>mem := m\<rparr>) (running s) n = Some (k', c')"
    and u: "u = read_ctx (leave_ctx n (mem k') a c') a"
  obtains s' where "lolevel_handler_svc z b j (k, take_svc s) = Some (k'\<lparr>mem := leave_ctx n (mem k') a c'\<rparr>, s')"
    "running s' = u\<lparr>cpsr := msr_cf (psr s) (cpsr u)\<rparr>" "b_sp (svc_bank s') = b_sp (svc_bank s)" "irq_bank s' = irq_bank s"
proof -
  obtain m1 s1 where e: "save_context 0 (mem k, take_svc s) = (m1, s1)" by force
  let ?m = "leave_ctx n (mem k') a c'"
  let ?s = "restore_context (?m, returned j s1)"
  have g: "length (gp (take_svc s)) = 13" "a = b_sp (bank_of (take_svc s)) - 68" using s(1) a by (simp_all add: take_bank)
  note r = around_call [OF g(1) s(2) e u [symmetric] g(2) refl]
  have m1: "m1 = m" "gp s1 ! 1 = n" using r(1,3) by (simp_all add: take_bank m n)
  have "read_ctx m a = running s" using r(4) by (simp add: take_bank(5) m1(1))
  then have "lolevel_handler_svc z b j (k, take_svc s) = Some (k'\<lparr>mem := ?m\<rparr>, ?s)"
    unfolding lolevel_handler_svc_def prod.case e Let_def m1 r(2) by (simp only: h Option.bind.bind_lunit prod.case)
  moreover have "running ?s = u\<lparr>cpsr := msr_cf (psr s) (cpsr u)\<rparr>" using r(5) by (simp add: take_bank)
  moreover have "b_sp (svc_bank ?s) = b_sp (svc_bank s)" "irq_bank ?s = irq_bank s"
    using r(7) take_modes(1) [of s] by (simp_all add: take_svc_def)
  ultimately show thesis by (rule that)
qed

text \<open>If the call has not stored into the saved context, that is the context which the handler in C leaves.\<close>

lemma leave_ctx_spared:
  assumes "length (gpr c) = 13" "hilevel_handler_svc z b k c n = Some (k', c')" "length (gpr c') = 13"
    and "answers n \<longrightarrow> read_ctx (mem k') a = c"
  shows "leave_ctx n (mem k') a c' = write_ctx (mem k') a c'" "read_ctx (leave_ctx n (mem k') a c') a = c'"
proof -
  show w: "leave_ctx n (mem k') a c' = write_ctx (mem k') a c'"
  proof (cases "answers n")
    case True
    then have "c\<lparr>gpr := (gpr c)[0 := gpr c' ! 0]\<rparr> = c'" using svc_answers [OF assms(2)] by simp
    then show ?thesis using True assms(4) answer_written [of "mem k'" a c "gpr c' ! 0"] by (simp add: leave_ctx_def)
  qed (simp add: leave_ctx_def)
  show "read_ctx (leave_ctx n (mem k') a c') a = c'" unfolding w by (rule read_write_ctx [OF assms(3)])
qed

text \<open>An interrupt: the same around \<open>hilevel_handler_irq\<close>, on the stack of the IRQ mode, and the program resumes at the
  instruction that was not executed.\<close>

lemma irq_spec:
  assumes s: "length (gp s) = 13" "length (fst j) = 13" and k: "procs_wf (tbl k)"
    and a: "a = b_sp (irq_bank s) - 68" and m: "m = write_ctx (mem k) a (running s)"
    and h: "handler_irq (k\<lparr>mem := m\<rparr>) (running s) b = Some (k', c', b')"
  obtains s' where "lolevel_handler_irq j (k, b, take_irq s) = Some (k'\<lparr>mem := write_ctx (mem k') a c'\<rparr>, b', s')"
    "running s' = c'\<lparr>cpsr := msr_cf (psr s) (cpsr c')\<rparr>" "b_sp (irq_bank s') = b_sp (irq_bank s)" "svc_bank s' = svc_bank s"
proof -
  have "good (k\<lparr>mem := m\<rparr>, running s)" using k s(1) by (simp add: running_def)
  from irq_good [OF this] have "hilevel_handler_irq (k\<lparr>mem := m\<rparr>) (running s) n = Some (k1, c') \<Longrightarrow> length (gpr c') = 13" for n k1
    by simp
  then have c: "length (gpr c') = 13"
    using h by (cases "hilevel_handler_irq (k\<lparr>mem := m\<rparr>) (running s) (IAR (GICC0 b))")
      (auto simp: handler_irq_def Let_def)
  obtain m1 s1 where e: "save_context 4 (mem k, take_irq s) = (m1, s1)" by force
  let ?s = "restore_context (write_ctx (mem k') a c', returned j s1)"
  have s': "?s = restore_context (write_ctx (mem k') a c', returned j s1)" ..
  have g: "length (gp (take_irq s)) = 13" "a = b_sp (bank_of (take_irq s)) - 68" using s(1) a by (simp_all add: take_bank)
  note r = around_call [OF g(1) s(2) e read_write_ctx [OF c] g(2) s']
  have m1: "m1 = m" using r(1) by (simp add: take_bank m)
  have "read_ctx m a = running s" using r(4) by (simp add: take_bank(6) m1)
  then have "lolevel_handler_irq j (k, b, take_irq s) = Some (k'\<lparr>mem := write_ctx (mem k') a c'\<rparr>, b', ?s)"
    unfolding lolevel_handler_irq_def prod.case e Let_def m1 r(2) by (simp only: h Option.bind.bind_lunit prod.case)
  moreover have "running ?s = c'\<lparr>cpsr := msr_cf (psr s) (cpsr c')\<rparr>" using r(5) by (simp add: take_bank)
  moreover have "b_sp (irq_bank ?s) = b_sp (irq_bank s)" "svc_bank ?s = svc_bank s"
    using r(6) take_modes(2) [of s] by (simp_all add: take_irq_def)
  ultimately show thesis by (rule that)
qed

section \<open>Reset and the vector table\<close>

text \<open>The loop of \<open>int_init\<close>; it stops when the source address is the limit.\<close>

partial_function (option) int_init_loop :: "u32 \<Rightarrow> u32 \<Rightarrow> u32 \<Rightarrow> (u32 \<Rightarrow> u8) \<Rightarrow> (u32 \<Rightarrow> u8) option" where
  "int_init_loop r0 r1 r2 m = (
     let r3 = ldw m r1; r1 = r1 + 4; m = stw m r0 r3; r0 = r0 + 4
     in if r1 \<noteq> r2 then int_init_loop r0 r1 r2 m else Some m)"

definition int_init :: "u32 \<Rightarrow> u32 \<Rightarrow> (u32 \<Rightarrow> u8) \<Rightarrow> (u32 \<Rightarrow> u8) option" where
  "int_init int_data limit m = int_init_loop 0 int_data limit m"

text \<open>The words of the table: \<open>ldr pc, [pc, #offset]\<close> in the entries that are used, a branch to itself in the others, and the
  addresses that are loaded. The offset counts from two instructions further on.\<close>

definition int_data_words :: "u32 \<Rightarrow> u32 \<Rightarrow> u32 \<Rightarrow> u32 list" where
  "int_data_words int_addr_rst int_addr_svc int_addr_irq =
     [0xE59FF018, 0xEAFFFFFE, 0xE59FF014, 0xEAFFFFFE, 0xEAFFFFFE, 0xEAFFFFFE, 0xE59FF008, 0xEAFFFFFE,
      int_addr_rst, int_addr_svc, int_addr_irq]"

lemma int_data_length [simp]: "length (int_data_words r s i) = 11"
  by (simp add: int_data_words_def)

text \<open>Where the processor continues when an exception takes it to the address \<open>v\<close>; \<open>v\<close> itself is an endless loop.\<close>

definition enters :: "(u32 \<Rightarrow> u8) \<Rightarrow> u32 \<Rightarrow> u32 option" where
  "enters m v = (let w = ldw m v in
     if w AND 0xFFFFF000 = 0xE59FF000 then Some (ldw m (v + 8 + (w AND 0xFFF)))
     else if w = 0xEAFFFFFE then Some v else None)"

lemma vector_table:
  assumes "ldm m 0 11 = int_data_words r s i"
  shows "enters m 0 = Some r" "enters m 0x08 = Some s" "enters m 0x18 = Some i"
    "\<forall>v \<in> {0x04, 0x0C, 0x10, 0x14, 0x1C}. enters m v = Some v"
proof -
  have w: "ldw m (of_nat (4 * n)) = int_data_words r s i ! n" if "n < 11" for n
    using arg_cong [OF assms, of "\<lambda>ws. ws ! n"] that by (simp add: ldm_def del: of_nat_mult)
  have n: "ldw m 0 = 0xE59FF018" "ldw m 4 = 0xEAFFFFFE" "ldw m 8 = 0xE59FF014" "ldw m 12 = 0xEAFFFFFE" "ldw m 16 = 0xEAFFFFFE"
    "ldw m 20 = 0xEAFFFFFE" "ldw m 24 = 0xE59FF008" "ldw m 28 = 0xEAFFFFFE" "ldw m 32 = r" "ldw m 36 = s" "ldw m 40 = i"
    using w [of 0] w [of 1] w [of 2] w [of 3] w [of 4] w [of 5] w [of 6] w [of 7] w [of 8] w [of 9] w [of 10]
    by (simp_all add: int_data_words_def)
  show "enters m 0 = Some r" "enters m 0x08 = Some s" "enters m 0x18 = Some i"
    "\<forall>v \<in> {0x04, 0x0C, 0x10, 0x14, 0x1C}. enters m v = Some v"
    by (simp_all add: enters_def n)
qed

definition lolevel_handler_rst ::
  "u32 \<Rightarrow> u32 \<Rightarrow> u32 \<Rightarrow> u32 \<Rightarrow> u32 \<Rightarrow> u32 list \<times> u32 \<Rightarrow> kernel \<times> board \<times> cpu \<Rightarrow> (kernel \<times> board \<times> cpu) option" where
  "lolevel_handler_rst int_data limit tos_irq tos_svc main_console j = (\<lambda>(k, b, s). do {
     m \<leftarrow> int_init int_data limit (mem k);
     let s = s\<lparr>psr := 0xD2\<rparr>;
     let s = with_bank (\<lambda>b. b\<lparr>b_sp := tos_irq\<rparr>) s;
     let s = s\<lparr>psr := 0xD3\<rparr>;
     let s = with_bank (\<lambda>b. b\<lparr>b_sp := tos_svc\<rparr>) s;
     let s = with_bank (\<lambda>b. b\<lparr>b_sp := b_sp b - 68\<rparr>) s;
     let a = b_sp (bank_of s);
     (k, c, b, p) \<leftarrow> handler_rst main_console (k\<lparr>mem := m\<rparr>) b (psr s);
     let m = write_ctx (mem k) a c;
     Some (k\<lparr>mem := m\<rparr>, b, restore_context (m, (returned j s)\<lparr>psr := p\<rparr>))
   })"

lemma store_bytes_outside: "length xs \<le> 2 ^ 32 \<Longrightarrow> length xs \<le> unat (b - a) \<Longrightarrow> store_bytes m a xs b = m b"
  by (simp add: store_bytes_read)

text \<open>Copying \<open>n\<close> words to address \<open>4 * i\<close> below the source changes no word of the source that is still to be copied.\<close>

lemma ldw_above:
  assumes "4 * i + 4 \<le> unat a" "unat a + 4 \<le> 2 ^ 32"
  shows "ldw (stw m (of_nat (4 * i)) w) a = ldw m a"
proof -
  have far: "stw m (of_nat (4 * i)) w (a + of_nat n) = m (a + of_nat n)" if n: "n < 4" for n
  proof -
    have "unat (of_nat n :: u32) = n" using n by (simp add: unat_of_nat take_bit_nat_eq_self)
    then have u: "unat (a + of_nat n) = unat a + n"
      using assms(2) n unat_add_lem [of a "of_nat n"] by simp
    have "unat (a + of_nat n - of_nat (4 * i)) = unat a + n - 4 * i"
      using unat_minus_of_nat [of "4 * i" "a + of_nat n"] assms(1) u by (simp del: of_nat_mult)
    then show ?thesis unfolding stw_def using assms(1) by (intro store_bytes_outside) (simp_all del: of_nat_mult)
  qed
  have "stw m (of_nat (4 * i)) w (a + u32_of_int j) = m (a + u32_of_int j)" if j: "j \<in> set [0..3]" for j
  proof -
    obtain n where "j = int n" "n < 4" using j by (auto intro: that [of "nat j"])
    then show ?thesis using far [of n] by (simp add: u32_of_int_def)
  qed
  then have "load_bytes (stw m (of_nat (4 * i)) w) a 4 = load_bytes m a 4"
    unfolding load_bytes_def by (intro map_cong refl) simp
  then show ?thesis by (simp only: ldw_def)
qed

lemma store_bytes_then: "store_bytes (store_bytes m a xs) (a + of_nat (length xs)) ys = store_bytes m a (xs @ ys)"
proof (induction xs arbitrary: m a)
  case (Cons x xs)
  have "a + of_nat (length (x # xs)) = a + 1 + of_nat (length xs)" by simp
  then show ?case using Cons [of "m(a := x)" "a + 1"] by (simp only: store_bytes.simps append_Cons)
qed simp

lemma stm_Cons: "stm m a (w # ws) = stm (stw m a w) (a + 4) ws"
  using store_bytes_then [of m a "le32 w" "concat (map le32 ws)"] by (simp add: stm_def stw_def)

lemma int_init_loop_spec:
  assumes "0 < n" "4 * i + 4 * n \<le> unat r1" "unat r1 + 4 * n \<le> 2 ^ 32"
  shows "int_init_loop (of_nat (4 * i)) r1 (r1 + of_nat (4 * n)) m = Some (stm m (of_nat (4 * i)) (ldm m r1 n))"
  using assms
proof (induction n arbitrary: i r1 m)
  case (Suc n)
  let ?m = "stw m (of_nat (4 * i)) (ldw m r1)"
  have up: "of_nat (4 * i) + 4 = (of_nat (4 * Suc i) :: u32)" "r1 + 4 + of_nat (4 * n) = r1 + of_nat (4 * Suc n)" by simp_all
  have l: "ldm m r1 (Suc n) = ldw m r1 # ldm m (r1 + 4) n" using ldm_append [of m r1 1 n] by (simp add: ldm_def)
  show ?case
  proof (cases "n = 0")
    case True
    then show ?thesis by (subst int_init_loop.simps) (simp add: ldm_def Let_def stm_def stw_def)
  next
    case False
    have "(of_nat (4 * n) :: u32) \<noteq> 0"
    proof
      assume "(of_nat (4 * n) :: u32) = 0"
      moreover have "unat (of_nat (4 * n) :: u32) = 4 * n"
        using Suc.prems(3) by (simp add: unat_of_nat take_bit_nat_eq_self del: of_nat_mult)
      ultimately show False using False by simp
    qed
    then have go: "r1 + 4 \<noteq> r1 + of_nat (4 * Suc n)" by simp
    have u: "unat (r1 + 4) = unat r1 + 4" using Suc.prems(3) False unat_add_lem [of r1 4] by simp
    have "int_init_loop (of_nat (4 * Suc i)) (r1 + 4) (r1 + 4 + of_nat (4 * n)) ?m =
        Some (stm ?m (of_nat (4 * Suc i)) (ldm ?m (r1 + 4) n))"
      using Suc.prems False u by (intro Suc.IH) simp_all
    moreover have "ldm ?m (r1 + 4) n = ldm m (r1 + 4) n" unfolding ldm_def
    proof (intro map_cong refl)
      fix j assume j: "j \<in> set [0..<n]"
      then have "unat (of_nat (4 * j) :: u32) = 4 * j"
        using Suc.prems(3) by (simp add: unat_of_nat take_bit_nat_eq_self del: of_nat_mult)
      then have "unat (r1 + 4 + of_nat (4 * j)) = unat r1 + 4 + 4 * j"
        using Suc.prems(3) j u unat_add_lem [of "r1 + 4" "of_nat (4 * j)"] by (simp del: of_nat_mult)
      then show "ldw ?m (r1 + 4 + of_nat (4 * j)) = ldw m (r1 + 4 + of_nat (4 * j))"
        using Suc.prems j by (intro ldw_above) simp_all
    qed
    ultimately show ?thesis
      using go by (subst int_init_loop.simps) (simp only: Let_def up l stm_Cons if_True simp_thms)
  qed
qed simp

lemma int_init_spec:
  assumes "0 < n" "4 * n \<le> unat int_data" "unat int_data + 4 * n \<le> 2 ^ 32"
  shows "int_init int_data (int_data + of_nat (4 * n)) m = Some (stm m 0 (ldm m int_data n))"
  using int_init_loop_spec [of n 0 int_data m] assms by (simp add: int_init_def)

text \<open>Words below a structure stay when it is written.\<close>

lemma stm_low:
  assumes "4 * n \<le> unat a" "unat a + 4 * length ws \<le> 2 ^ 32"
  shows "ldm (stm m a ws) 0 n = ldm m 0 n"
proof -
  have low: "stm m a ws x = m x" if x: "unat x < 4 * n" for x
  proof -
    have a: "unat a \<le> 2 ^ 32" using assms(2) by simp
    have "unat (x - a) = 2 ^ 32 + unat x - unat a" using x assms(1) unat_sub_if' [of x a] a by simp
    then show ?thesis unfolding stm_def using assms x by (intro store_bytes_outside) simp_all
  qed
  have "ldw (stm m a ws) (0 + of_nat (4 * i)) = ldw m (0 + of_nat (4 * i))" if i: "i < n" for i
  proof -
    have "stm m a ws (of_nat (4 * i) + u32_of_int j) = m (of_nat (4 * i) + u32_of_int j)" if j: "j \<in> set [0..3]" for j
    proof -
      obtain l where l: "j = int l" "l < 4" using j by (auto intro: that [of "nat j"])
      have "4 * i + l < 2 ^ 32" using i l assms unsigned_less [of a] by simp
      then have "unat (of_nat (4 * i + l) :: u32) = 4 * i + l" by (simp add: unat_of_nat take_bit_nat_eq_self del: of_nat_add of_nat_mult)
      then show ?thesis using low [of "of_nat (4 * i + l)"] i l by (simp add: u32_of_int_def)
    qed
    then show ?thesis unfolding ldw_def load_bytes_def by (intro arg_cong [of _ _ un_le32] map_cong refl) simp
  qed
  then show ?thesis unfolding ldm_def by (intro map_cong refl) simp
qed

lemma msr_and: "msr_cf p q AND z = p AND (0x00FFFF00 AND z) OR q AND (0xFF0000FF AND z)"
proof -
  have "(p AND x OR q AND y) AND z = p AND (x AND z) OR q AND (y AND z)" for x y :: u32
    by (rule bit_eqI) (auto simp: bit_simps)
  then show ?thesis by (simp only: msr_cf_def)
qed

lemma msr_low: "msr_cf p q AND 0xFF = q AND 0xFF"
  by (simp add: msr_and)

lemma rst_spec:
  assumes k: "length (pcb (tbl k)) = 30" "length (sps (tbl k)) = 30" and j: "length (fst j) = 13"
    and i: "44 \<le> unat int_data" "unat int_data + 44 \<le> 2 ^ 32"
  obtains k' c s' where "lolevel_handler_rst int_data (int_data + 44) tos_irq tos_svc main_console j (k, b, s) =
      Some (k', configure_board b, s')"
    "running s' = c\<lparr>cpsr := msr_cf (b_spsr (svc_bank s)) 0x50\<rparr>" "pc c = main_console" "ctx (blk (tbl k') 1) = c" "cur (tbl k') = 1"
    "b_sp (svc_bank s') = tos_svc" "b_sp (irq_bank s') = tos_irq"
    "procs_wf (tbl k')" "class_of (tbl k') 1 = INTERACTIVE" "\<forall>p. 2 \<le> p \<and> p \<le> 30 \<longrightarrow> \<not> active (tbl k') p"
    "mem k' = write_ctx (stm (mem k) 0 (ldm (mem k) int_data 11)) (tos_svc - 68) c"
    "\<forall>p. valid_pid p \<longrightarrow> cpsr (ctx (blk (tbl k') p)) = 0x50" "length (gpr c) = 13"
    "hilevel_handler_rst main_console (k\<lparr>mem := stm (mem k) 0 (ldm (mem k) int_data 11)\<rparr>) =
      Some (k'\<lparr>mem := stm (mem k) 0 (ldm (mem k) int_data 11)\<rparr>, c)" "wait_of (tbl k') 1 = 0"
proof -
  let ?m = "stm (mem k) 0 (ldm (mem k) int_data 11)" and ?a = "tos_svc - 68"
  have init: "int_init int_data (int_data + 44) (mem k) = Some ?m" using int_init_spec [of 11 int_data "mem k"] i by simp
  obtain t c where t: "hilevel_handler_rst main_console (k\<lparr>mem := ?m\<rparr>) = Some ((k\<lparr>mem := ?m\<rparr>)\<lparr>tbl := t\<rparr>, c)" "procs_wf t" "cur t = 1"
    "pc c = main_console" "cpsr c = 0x50" "length (gpr c) = 13" "ctx (blk t 1) = c"
    "class_of t 1 = INTERACTIVE" "\<forall>p. 2 \<le> p \<and> p \<le> 30 \<longrightarrow> \<not> active t p"
    "\<forall>p. valid_pid p \<longrightarrow> cpsr (ctx (blk t p)) = 0x50" "wait_of t 1 = 0"
    by (rule rst_ok [of "k\<lparr>mem := ?m\<rparr>" main_console]) (use k in simp_all)
  define s1 where "s1 = with_bank (\<lambda>b. b\<lparr>b_sp := b_sp b - 68\<rparr>) (with_bank (\<lambda>b. b\<lparr>b_sp := tos_svc\<rparr>)
    ((with_bank (\<lambda>b. b\<lparr>b_sp := tos_irq\<rparr>) (s\<lparr>psr := 0xD2\<rparr>))\<lparr>psr := 0xD3\<rparr>))"
  have s1: "psr s1 = 0xD3" "svc_bank s1 = (svc_bank s)\<lparr>b_sp := ?a\<rparr>" "irq_bank s1 = (irq_bank s)\<lparr>b_sp := tos_irq\<rparr>"
    by (simp_all add: s1_def with_bank_def irq_mode_def)
  let ?r = "(returned j s1)\<lparr>psr := int_enable_irq (psr s1)\<rparr>"
  let ?s = "restore_context (write_ctx ?m ?a c, ?r)"
  have r: "\<not> irq_mode ?r" "svc_bank ?r = (svc_bank s1)\<lparr>b_lr := snd j\<rparr>" "irq_bank ?r = irq_bank s1" "gp ?r \<noteq> []"
    using s1(1) j by (auto simp: irq_mode_def returned_def with_bank_def int_enable_irq_def)
  then have b: "b_sp (bank_of ?r) = ?a" "b_spsr (bank_of ?r) = b_spsr (svc_bank s)" using s1(2) by (simp_all add: bank_of_def)
  have a: "b_sp (bank_of s1) = ?a" using s1(1,2) by (simp add: bank_of_def irq_mode_def)
  note rs = restore_context_spec [OF read_write_ctx [OF t(6)] b(1) r(4) refl]
  have "lolevel_handler_rst int_data (int_data + 44) tos_irq tos_svc main_console j (k, b, s) =
      Some (k\<lparr>tbl := t, mem := write_ctx ?m ?a c\<rparr>, configure_board b, ?s)"
    unfolding lolevel_handler_rst_def prod.case init Option.bind.bind_lunit Let_def s1_def [symmetric] a
    by (simp add: handler_rst_def t(1))
  then show thesis
    using rs(1) rs(3) [OF r(1)] b(2) r(3) s1(3) t by (rule_tac that) (assumption | simp)+
qed

end
