(* ===== verification/Contexts.thy ===== *)
theory Contexts
  imports Hilevel
begin

text \<open>
  What a round of the kernel does to the contexts of the processes that do not run: nothing, unless it ends them. The one
  exception is a process that kills itself: its status is stored in \<open>r0\<close> of the process that the scheduler has just
  loaded. The status registers never get a value that no process had, but the initial one.
\<close>

section \<open>Contexts that are carried along\<close>

definition modes :: "procs \<Rightarrow> ctx_t \<Rightarrow> u32 set" where
  "modes t c = (\<lambda>p. cpsr (proc_ctx t c p)) ` {1..30}"

text \<open>A step from table \<open>t\<close> and live context \<open>c\<close> to \<open>t'\<close> and \<open>c'\<close>.\<close>

definition carries :: "procs \<Rightarrow> ctx_t \<Rightarrow> procs \<Rightarrow> ctx_t \<Rightarrow> bool" where
  "carries t c t' c' \<longleftrightarrow>
     (\<forall>p. valid_pid p \<and> p \<noteq> cur t \<and> active t p \<and> active t' p \<longrightarrow> proc_ctx t' c' p = ctx (blk t p)) \<and>
     modes t' c' \<subseteq> insert 0x50 (modes t c)"

definition same_ctxs :: "procs \<Rightarrow> procs \<Rightarrow> bool" where
  "same_ctxs t u \<longleftrightarrow> cur u = cur t \<and> (\<forall>p. valid_pid p \<longrightarrow> ctx (blk u p) = ctx (blk t p))"

lemma same_ctxs_refl [simp]: "same_ctxs t t"
  by (simp add: same_ctxs_def)

lemma same_ctxs_frame: "same_frame t u \<Longrightarrow> same_ctxs t u"
  by (simp add: same_ctxs_def same_frame_def same_frame_cur)

lemma same_ctxs_upd: "table_wf t \<Longrightarrow> valid_pid p \<Longrightarrow> ctx b = ctx (blk t p) \<Longrightarrow> same_ctxs t (upd t p b)"
  by (simp add: same_ctxs_def blk_upd)

lemma same_ctxs_ctx: "same_ctxs t u \<Longrightarrow> valid_pid p \<Longrightarrow> proc_ctx u c p = proc_ctx t c p"
  by (simp add: same_ctxs_def proc_ctx_def)

lemma same_ctxs_active: "same_ctxs t u \<Longrightarrow> valid_pid p \<Longrightarrow> active u p = active t p"
  by (simp add: same_ctxs_def active_def)

lemma same_ctxs_modes: "same_ctxs t u \<Longrightarrow> modes u c = modes t c"
  using same_ctxs_ctx unfolding modes_def by (intro image_cong) auto

lemma modes_mem: "valid_pid p \<Longrightarrow> cpsr (proc_ctx t c p) \<in> modes t c"
  by (auto simp: modes_def)

lemma modesI: "(\<And>p. valid_pid p \<Longrightarrow> cpsr (proc_ctx t c p) \<in> M) \<Longrightarrow> modes t c \<subseteq> M"
  by (auto simp: modes_def)

lemma modes_live: "cpsr c' = cpsr c \<Longrightarrow> modes t c' = modes t c"
  unfolding modes_def proc_ctx_def by (intro image_cong) auto

lemma carries_same: "same_ctxs t u \<Longrightarrow> cpsr c' = cpsr c \<Longrightarrow> carries t c u c'"
  using same_ctxs_modes [of t u c'] modes_live [of c' c t]
  by (auto simp: carries_def same_ctxs_def proc_ctx_def)

lemma carries_before: "same_ctxs t u \<Longrightarrow> carries u c v c' \<Longrightarrow> carries t c v c'"
  using same_ctxs_modes [of t u c] by (auto simp: carries_def same_ctxs_def active_def)

lemma carries_after: "carries t c u c' \<Longrightarrow> same_ctxs u v \<Longrightarrow> carries t c v c'"
  using same_ctxs_modes [of u v c'] by (auto simp: carries_def same_ctxs_ctx same_ctxs_active)

lemma carriesI:
  assumes "\<And>p. valid_pid p \<Longrightarrow> proc_ctx u c' p = proc_ctx t c p"
  shows "carries t c u c'"
proof -
  have "modes u c' = modes t c" unfolding modes_def using assms by (intro image_cong) auto
  then show ?thesis using assms by (auto simp: carries_def proc_ctx_def)
qed

section \<open>The handlers\<close>

lemma scheduler_carries:
  assumes "procs_wf s" "length (gpr c) = 13" "scheduler s c = Some (s', c')"
  shows "carries s c s' c'"
  by (rule carriesI) (rule scheduler_ctx [OF assms])

text \<open>A process that is reset loses its context and gets the initial status.\<close>

lemma carries_reset:
  assumes "carries u c1 v c'" "cur u = cur t" "cpsr c1 = 0x50"
    and "\<forall>q. valid_pid q \<and> q \<noteq> cur t \<longrightarrow> ctx (blk u q) = ctx (blk t q)"
  shows "carries t c v c'"
proof -
  have "modes u c1 \<subseteq> insert 0x50 (modes t c)"
  proof (rule modesI)
    fix p :: int assume p: "valid_pid p"
    show "cpsr (proc_ctx u c1 p) \<in> insert 0x50 (modes t c)"
    proof (cases "p = cur t")
      case True
      then show ?thesis using assms(2,3) by (simp add: proc_ctx_def)
    next
      case False
      then show ?thesis using assms(2,4) p modes_mem [OF p, of t c] by (simp add: proc_ctx_def)
    qed
  qed
  then show ?thesis using assms(1,2,4) by (auto simp: carries_def active_def)
qed

lemma reset_ctx_cpsr: "reset_ctx t c p = Some c' \<Longrightarrow> cpsr c' = 0x50 \<and> pc c' = 0"
  by (auto simp: reset_ctx_def split: run_splits)

lemma exit_carries:
  assumes g: "good (k, c)" and r: "sys_exit k c x = Some (k', c')"
  shows "carries (tbl k) c (tbl k') c'"
proof -
  have wf: "procs_wf (tbl k)" and len: "length (gpr c) = 13" using g by simp_all
  have "\<forall>j < 5. registered (tbl k) (cur (tbl k)) j"
    using exit_undefined [OF wf] r by (metis option.distinct(1))
  then obtain t0 t c0 c1 where e: "left (tbl k) (cur (tbl k)) x t0" "length (gpr c0) = 13"
    "scheduler t0 c0 = Some (t, c1)" "sys_exit k c x = Some (k\<lparr>tbl := t\<rparr>, c1)" "cpsr c0 = 0x50"
    using exit_ok [OF wf len] by metis
  have t0: "procs_wf t0" "cur t0 = cur (tbl k)" using e(1) same_globals_cur by (auto simp: left_def)
  have "carries (tbl k) c t c1"
    by (rule carries_reset [OF scheduler_carries [OF t0(1) e(2,3)] t0(2) e(5)]) (use left_blk(1) [OF e(1)] in simp)
  then show ?thesis using e(4) r by simp
qed

lemma fork_carries:
  assumes g: "good (k, c)" and r: "sys_fork k c = Some (k', c')"
  shows "carries (tbl k) c (tbl k') c'"
  using g r
proof (cases rule: fork_shape)
  case full
  then show ?thesis by (intro carries_same) (simp_all add: with_r0_def)
next
  case (child p t t')
  let ?c = "with_r0 c (u32_of_int p)"
  have s: "proc_ctx t' c' q = proc_ctx t ?c q" if "valid_pid q" for q
    by (rule set_current_ctx [OF child(3,1) _ child(6) that]) (use g in simp)
  have cp: "cpsr (with_r0 c x) = cpsr c" for x by (simp add: with_r0_def)
  have m: "modes t' c' \<subseteq> insert 0x50 (modes (tbl k) c)"
  proof (rule modesI)
    fix q :: int assume q: "valid_pid q"
    have "valid_pid (cur (tbl k))" using g cur_valid by simp
    then have "cpsr c \<in> modes (tbl k) c" using modes_mem [of "cur (tbl k)" "tbl k" c] by (simp add: proc_ctx_def)
    then show "cpsr (proc_ctx t' c' q) \<in> insert 0x50 (modes (tbl k) c)"
      using s [OF q] child(4,5) q modes_mem [OF q, of "tbl k" c] by (auto simp: proc_ctx_def cp)
  qed
  have "proc_ctx t' c' q = ctx (blk (tbl k) q)" if "valid_pid q" "q \<noteq> cur (tbl k)" "active (tbl k) q" for q
    using that s [OF that(1)] child(2,4,5) by (auto simp: proc_ctx_def)
  then show ?thesis using m child(7) by (auto simp: carries_def)
qed

lemma fork_wait_carries:
  assumes g: "good (k, c)" and r: "sys_fork_wait k c = Some (k', c')"
  shows "carries (tbl k) c (tbl k') c'"
proof -
  have wf: "procs_wf (tbl k)" using g by simp
  obtain k1 x where f: "sys_fork k c = Some (k1, c')" "sys_wait k1 (cur (tbl k)) (cur (tbl k1)) = Some (x, k')"
    using r wf fork_good [OF g] by (auto simp: sys_fork_wait_def current_pid_cur split: run_splits)
  have "procs_wf (tbl k1)" using fork_good [OF g f(1)] by simp
  from wait_wf(3) [OF this cur_valid [OF wf] f(2)] show ?thesis
    by (rule carries_after [OF fork_carries [OF g f(1)] same_ctxs_frame])
qed

lemma kill_carries:
  assumes g: "good (k, c)" and r: "sys_kill k c p sig = Some (x, k', c')"
  shows "carries (tbl k) c (tbl k') c'" "p \<noteq> cur (tbl k) \<or> sig \<noteq> SIG_TERM \<Longrightarrow> cur (tbl k') = cur (tbl k)"
proof -
  have "carries (tbl k) c (tbl k') c' \<and> (p \<noteq> cur (tbl k) \<or> sig \<noteq> SIG_TERM \<longrightarrow> cur (tbl k') = cur (tbl k))"
    using g r
  proof (cases rule: kill_shape)
    case none
    then show ?thesis using carries_same [of "tbl k" "tbl k'"] by simp
  next
    case (self u c1)
    have "carries u c1 (tbl k') c'" by (rule scheduler_carries [OF self(3) reset_ctx_len [OF self(6)] self(7)])
    then show ?thesis using carries_reset self reset_ctx_cpsr [OF self(6)] by simp
  next
    case (other u c1)
    have b: "ctx (blk (tbl k') q) = (if q = p then c1 else ctx (blk (tbl k) q))" if "valid_pid q" for q
      using that other wf_table [OF other(3)] by (simp add: blk_upd)
    have cu: "cur (tbl k') = cur (tbl k)" using other(4,8) by simp
    have "modes (tbl k') c \<subseteq> insert 0x50 (modes (tbl k) c)"
    proof (rule modesI)
      fix q :: int assume q: "valid_pid q"
      show "cpsr (proc_ctx (tbl k') c q) \<in> insert 0x50 (modes (tbl k) c)"
        using modes_mem [OF q, of "tbl k" c] b [OF q] cu reset_ctx_cpsr [OF other(6)] by (auto simp: proc_ctx_def)
    qed
    moreover have "ctx (blk (tbl k') q) = ctx (blk (tbl k) q)" if "valid_pid q" "active (tbl k') q" for q
      using that b [OF that(1)] reset_ctx_cpsr [OF other(6)] by (auto simp: active_def split: if_splits)
    ultimately show ?thesis using cu other(7) by (auto simp: carries_def proc_ctx_def)
  qed
  then show "carries (tbl k) c (tbl k') c'" "p \<noteq> cur (tbl k) \<or> sig \<noteq> SIG_TERM \<Longrightarrow> cur (tbl k') = cur (tbl k)" by simp_all
qed

lemma yield_carries:
  assumes g: "good (k, c)" and r: "sys_yield k c = Some (k', c')"
  shows "carries (tbl k) c (tbl k') c'"
proof -
  have wf: "procs_wf (tbl k)" and len: "length (gpr c) = 13" using g by simp_all
  let ?b = "blk (tbl k) (cur (tbl k))"
  let ?t = "upd (tbl k) (cur (tbl k)) (?b\<lparr>prio := (prio ?b)\<lparr>time_left := 0\<rparr>\<rparr>)"
  note cv = cur_valid [OF wf]
  have t: "procs_wf ?t" using wf cv by (intro procs_wf_upd pcb_wf_prio wf_blk wf_table)
  have s: "same_ctxs (tbl k) ?t" using wf cv by (intro same_ctxs_upd wf_table) simp_all
  obtain u where "scheduler ?t c = Some (u, c')" "k' = k\<lparr>tbl := u\<rparr>"
    using r wf by (auto simp: sys_yield_def mod_current_upd split: run_splits)
  then show ?thesis using carries_before [OF s scheduler_carries [OF t len]] by simp
qed

lemma exec_carries:
  assumes g: "good (k, c)" and r: "sys_exec k c x i args = Some (k', c')"
  shows "carries (tbl k) c (tbl k') c'"
proof (cases "x = 0")
  case True
  then have "sys_exit (error k ''Invalid program\<newline>'') c EXIT_FAILURE = Some (k', c')" using r by (simp add: sys_exec_def)
  then show ?thesis using exit_carries [of "error k ''Invalid program\<newline>''" c] g by simp
next
  case False
  have wf: "procs_wf (tbl k)" using g by simp
  note e = exec_ok [OF wf False, of c i args, unfolded r, symmetric]
  have c': "cpsr c' = 0x50" and t': "\<exists>b. tbl k' = upd (tbl k) (cur (tbl k)) b" using e by auto
  then obtain b where b: "tbl k' = upd (tbl k) (cur (tbl k)) b" by blast
  have "blk (tbl k') q = blk (tbl k) q" if "valid_pid q" "q \<noteq> cur (tbl k)" for q
    using that wf cur_valid [OF wf] b by (simp add: blk_upd wf_table)
  then have s: "\<forall>q. valid_pid q \<and> q \<noteq> cur (tbl k) \<longrightarrow> ctx (blk (tbl k') q) = ctx (blk (tbl k) q)" by simp
  have "carries (tbl k') c' (tbl k') c'" by (simp add: carries_same)
  then show ?thesis using carries_reset [OF _ _ c' s] b by simp
qed

section \<open>Calls that leave the contexts alone\<close>

lemma fd_ctxs:
  assumes "procs_wf t" "valid_pid p"
  shows "add_process_fd t p fd = Some (r, t') \<Longrightarrow> same_ctxs t t'" "remove_process_fd t p fd = Some (r, t') \<Longrightarrow> same_ctxs t t'"
  using assms unfolding add_process_fd_def remove_process_fd_def
  by (auto simp: wf_table pcb_at_blk put_pcb_upd mod_pcb_upd Let_def intro!: same_ctxs_upd split: run_splits)

lemma fd_ctxs_cur:
  assumes "procs_wf t"
  shows "add_process_fd t (cur t) fd = Some (r, t') \<Longrightarrow> same_ctxs t t'" "remove_process_fd t (cur t) fd = Some (r, t') \<Longrightarrow> same_ctxs t t'"
  using fd_ctxs [OF assms cur_valid [OF assms]] by blast+

lemma tbl_ctxs: "tbl k' = tbl k \<Longrightarrow> same_ctxs (tbl k) (tbl k')"
  by simp

lemma open_ctxs: "sys_open z k path x = Some (r, k') \<Longrightarrow> procs_wf (tbl k) \<Longrightarrow> same_ctxs (tbl k) (tbl k')"
  by (auto simp: sys_open_def Let_def current_pid_cur dest!: refresh_tbl intro: fd_ctxs_cur split: run_splits)

lemma close_ctxs: "sys_close k fd = Some (r, k') \<Longrightarrow> procs_wf (tbl k) \<Longrightarrow> same_ctxs (tbl k) (tbl k')"
  by (auto simp: sys_close_def Let_def current_pid_cur intro: fd_ctxs_cur split: run_splits)

lemma read_ctxs: "sys_read z k fd x n = Some (r, k') \<Longrightarrow> procs_wf (tbl k) \<Longrightarrow> same_ctxs (tbl k) (tbl k')"
  by (auto simp: sys_read_def read_device_def Let_def mod_current_upd dest!: read_chars_tbl
      intro!: same_ctxs_upd wf_table cur_valid split: run_splits)

lemma shared_ctxs:
  assumes "procs_wf t" "valid_pid p"
  shows "share t p a = Some (r, t') \<Longrightarrow> same_ctxs t t'" "unshare t p a = Some (r, t') \<Longrightarrow> same_ctxs t t'"
    "lock t p a = Some (r, t') \<Longrightarrow> same_ctxs t t'" "unlock t p a = Some (r, t') \<Longrightarrow> same_ctxs t t'"
proof -
  have own: "\<exists>q. valid_pid q \<and> i = process q" if "is_shared t p a = Some (Some i)" for i
  proof -
    have "valid_pid (ppid (blk t p))" if "ppid (blk t p) \<noteq> 0"
      using wf_blk [OF wf_table [OF assms(1)] assms(2)] that by (auto simp: pcb_wf_def)
    then show ?thesis using that is_shared_spec [OF wf_table [OF assms(1)] assms(2), of a] assms(2) by (auto split: if_splits)
  qed
  show "share t p a = Some (r, t') \<Longrightarrow> same_ctxs t t'" "unshare t p a = Some (r, t') \<Longrightarrow> same_ctxs t t'"
    using assms by (auto simp: share_def unshare_def wf_table pcb_at_blk mod_pcb_upd intro!: same_ctxs_upd split: if_splits)
  show "lock t p a = Some (r, t') \<Longrightarrow> same_ctxs t t'" "unlock t p a = Some (r, t') \<Longrightarrow> same_ctxs t t'"
    using assms by (auto simp: lock_def unlock_def wf_table pcb_at_blk mod_pcb_upd
        intro!: same_ctxs_upd dest!: own split: run_splits)
qed

lemma shared_calls_ctxs:
  assumes wf: "procs_wf (tbl k)"
  shows "sys_share k a = Some (r, k') \<Longrightarrow> same_ctxs (tbl k) (tbl k')"
    "sys_unshare k a = Some (r, k') \<Longrightarrow> same_ctxs (tbl k) (tbl k')"
    "sys_lock k a = Some (r, k') \<Longrightarrow> same_ctxs (tbl k) (tbl k')"
    "sys_unlock k a = Some (r, k') \<Longrightarrow> same_ctxs (tbl k) (tbl k')"
  using shared_ctxs [OF wf cur_valid [OF wf]] wf
  by (auto simp: sys_share_def sys_unshare_def sys_lock_def sys_unlock_def current_pid_cur Let_def split: run_splits)

section \<open>Every handler carries the contexts along\<close>

lemma ret_carries:
  assumes "ret c q = Some (k', c')" "length (gpr c) = 13" "\<And>x. q = Some (x, k') \<Longrightarrow> same_ctxs t (tbl k')"
  shows "carries t c (tbl k') c'"
  using assms by (intro carries_same) (auto simp: ret_def set_r0_def split: run_splits)

text \<open>A process that kills itself leaves its status in the context of the next one.\<close>

definition suicide :: "kernel \<Rightarrow> ctx_t \<Rightarrow> u32 \<Rightarrow> bool" where
  "suicide k c n \<longleftrightarrow> n = SYS_KILL \<and> int_of_u32 (gpr c ! 0) = cur (tbl k) \<and> gpr c ! 1 = SIG_TERM"

lemma kill_call_carries:
  assumes g: "good (k, c)"
    and r: "do { (status, k, c) \<leftarrow> sys_kill k c p sig; c \<leftarrow> set_r0 c (u32_of_int status); Some (k, c) } = Some (k', c')"
  shows "modes (tbl k') c' \<subseteq> insert 0x50 (modes (tbl k) c)"
    "p \<noteq> cur (tbl k) \<or> sig \<noteq> SIG_TERM \<Longrightarrow> carries (tbl k) c (tbl k') c'"
proof -
  obtain x c1 where s: "sys_kill k c p sig = Some (x, k', c1)" "set_r0 c1 (u32_of_int x) = Some c'"
    using r by (auto split: run_splits)
  have m: "cpsr c' = cpsr c1" using s(2) by (auto simp: set_r0_def split: run_splits)
  note kc = kill_carries [OF g s(1)]
  show "modes (tbl k') c' \<subseteq> insert 0x50 (modes (tbl k) c)"
    using kc(1) modes_live [OF m, of "tbl k'"] by (simp add: carries_def)
  then show "carries (tbl k) c (tbl k') c'" if "p \<noteq> cur (tbl k) \<or> sig \<noteq> SIG_TERM"
    using kc(1) kc(2) [OF that] by (auto simp: carries_def proc_ctx_def)
qed

lemma svc_carries:
  assumes g: "good (k, c)" and r: "hilevel_handler_svc z b k c n = Some (k', c')"
  shows "modes (tbl k') c' \<subseteq> insert 0x50 (modes (tbl k) c)" "\<not> suicide k c n \<Longrightarrow> carries (tbl k) c (tbl k') c'"
proof -
  have wf: "procs_wf (tbl k)" and len: "length (gpr c) = 13" using g by simp_all
  have rds: "rd (gpr c) 0 = Some (gpr c ! 0)" "rd (gpr c) 1 = Some (gpr c ! 1)" "rd (gpr c) 2 = Some (gpr c ! 2)"
    using len by (simp_all add: rd_def)
  let ?G = "modes (tbl k') c' \<subseteq> insert 0x50 (modes (tbl k) c) \<and> (\<not> suicide k c n \<longrightarrow> carries (tbl k) c (tbl k') c')"
  have G: ?G if "carries (tbl k) c (tbl k') c'" using that by (simp add: carries_def)
  note proc_calls = fork_carries [OF g] fork_wait_carries [OF g] exit_carries [OF g] yield_carries [OF g] exec_carries [OF g]
  note rets = ret_carries [OF _ len]
  note io = shared_calls_ctxs [OF wf] open_ctxs [OF _ wf] close_ctxs [OF _ wf] read_ctxs [OF _ wf]
    same_ctxs_frame [OF wait_wf(3) [OF wf cur_valid [OF wf]]] fs_tbl [THEN tbl_ctxs]
  have killed: ?G
    if "n = SYS_KILL"
      and "do { (status, k, c) \<leftarrow> sys_kill k c (int_of_u32 (gpr c ! 0)) (gpr c ! 1); c \<leftarrow> set_r0 c (u32_of_int status); Some (k, c) } = Some (k', c')"
    using kill_call_carries [OF g that(2)] that(1) by (auto simp: suicide_def)
  have paths: "carries (tbl k) c (tbl k') c'"
    if d: "do { path \<leftarrow> cstr_at (mem k) a; ret c (f path) } = Some (k', c')"
      and f: "\<And>x path. f path = Some (x, k') \<Longrightarrow> same_ctxs (tbl k) (tbl k')" for a f
  proof -
    obtain path where "ret c (f path) = Some (k', c')" using d by (cases "cstr_at (mem k) a") simp_all
    then show ?thesis using rets f by blast
  qed
  have ps: "carries (tbl k) c (tbl k') c'"
    if "do { k \<leftarrow> (if v then sys_ps b k else ps_stats b k p); Some (k, c) } = Some (k', c')" for v p
    using that by (intro carries_same) (auto dest!: sys_ps_tbl ps_stats_tbl split: run_splits)
  have wait: "carries (tbl k) c (tbl k') c'" if "do { p \<leftarrow> current_pid (tbl k); ret c (sys_wait k p q) } = Some (k', c')" for q
    using that rets wf io(8) by (auto simp: current_pid_cur)
  have nocall: "carries (tbl k) c (tbl k') c'" if "Some (error k m, c) = Some (k', c')" for m
    using that by (auto intro!: carries_same)
  have ?G
    using r unfolding hilevel_handler_svc_def rds Option.bind.bind_lunit
    by (elim if_SomeE)
      (erule (1) killed | (rule G, erule proc_calls ps wait nocall) | (rule G, erule rets, erule io) | (rule G, erule paths, erule io))+
  then show "modes (tbl k') c' \<subseteq> insert 0x50 (modes (tbl k) c)" "\<not> suicide k c n \<Longrightarrow> carries (tbl k) c (tbl k') c'"
    by simp_all
qed

text \<open>An interrupt changes no context at all.\<close>

lemma irq_ctx:
  assumes "good (k, c)" "hilevel_handler_irq k c n = Some (k', c')" "valid_pid p"
  shows "proc_ctx (tbl k') c' p = proc_ctx (tbl k) c p"
proof (cases "n = GIC_SOURCE_TIMER0")
  case True
  let ?t = "(tbl k)\<lparr>BURSTS := i32 (BURSTS (tbl k) + 1)\<rparr>"
  have wf: "procs_wf ?t" "length (gpr c) = 13" using assms(1) by (simp_all add: procs_wf_def table_wf_def)
  obtain t where "scheduler ?t c = Some (t, c')" "k' = k\<lparr>tbl := t\<rparr>"
    using assms(2) True by (cases "scheduler ?t c") (auto simp: hilevel_handler_irq_def Let_def)
  then show ?thesis using scheduler_ctx [OF wf _ assms(3)] by (simp add: proc_ctx_def cur_def blk_def)
next
  case False
  then show ?thesis using assms(2) by (auto simp: hilevel_handler_irq_def)
qed

lemma irq_carries: "good (k, c) \<Longrightarrow> hilevel_handler_irq k c n = Some (k', c') \<Longrightarrow> carries (tbl k) c (tbl k') c'"
  by (rule carriesI) (rule irq_ctx)

text \<open>The scheduler at the end of a time slice when the other class has exactly one candidate.\<close>

lemma scheduler_switch:
  assumes s: "procs_wf s" "length (gpr c) = 13" "scheduler s c = Some (s', c')"
    and t: "time_left (prio (blk s (cur s))) \<le> 0"
    and q: "valid_pid q" "active s q" "class_of s q = other_class (class_of s (cur s))" "0 \<le> wait_of s q" "wait_of s q < 2 ^ 31 - 1"
    and only: "\<forall>p. valid_pid p \<and> active s p \<and> class_of s p = class_of s q \<longrightarrow> p = q"
  shows "procs_wf s'" "length (gpr c') = 13" "cur s' = q" "q \<noteq> cur s" "c' = ctx (blk s q)" "ctx (blk s' (cur s)) = c"
    "\<And>p. valid_pid p \<Longrightarrow> class_of s' p = class_of s p" "\<And>p. valid_pid p \<Longrightarrow> p \<noteq> cur s \<Longrightarrow> ctx (blk s' p) = ctx (blk s p)"
    "wait_of s' (cur s) = wait_of s (cur s)"
proof -
  have qc: "q \<noteq> cur s" using q(3) by (auto simp: other_class_def proc_consts split: if_splits)
  then show "q \<noteq> cur s" .
  note st = sched_state_spec [OF s(1,2) scheduler_result [OF s]] and cv = cur_valid [OF s(1)]
  let ?a = "aged s" and ?ty = "other_class (class_of s (cur s))"
  have w: "wait_of ?a q = wait_of s q + 1" using aged_wait(1) [OF s(1) q(1,2) qc] q(4,5) by (simp add: i32_id)
  have cq: "candidate ?a ?ty q" using q w aged_class_active [OF s(1)] by (simp add: candidate_def)
  have "p = q" if "candidate ?a ?ty p" for p
    using only q(3) aged_class_active [OF s(1), of p] that by (simp add: candidate_def)
  then have "best ?a ?ty = q" using best_some [of ?a ?ty] best_none [of ?a ?ty] cq by blast
  moreover have "class_of ?a (cur ?a) = class_of s (cur s)"
    using aged_class_active(1) [OF s(1) cv] by (simp add: aged_spec(2) [OF s(1)])
  ultimately have ch: "choice ?a = q" using q(1) by (simp add: choice_def)
  then have n: "next_cur s = q" "dispatches s" using t q(1) by (simp_all add: next_cur_def dispatches_def)
  show "procs_wf s'" "length (gpr c') = 13" by (rule st(1), rule st(3))
  show "cur s' = q" "c' = ctx (blk s q)" using st(2,7) n qc by simp_all
  show "ctx (blk s' (cur s)) = c" "wait_of s' (cur s) = wait_of s (cur s)"
    using st(4) [OF cv] n ch qc by (auto simp: sched_blk_def Let_def wait_of_def aged_pcb_def)
  show "class_of s' p = class_of s p" if "valid_pid p" for p using scheduler_frame(7) [OF s that] .
  show "ctx (blk s' p) = ctx (blk s p)" if "valid_pid p" "p \<noteq> cur s" for p
    using st(4) [OF that(1)] n that(2) by (auto simp: sched_blk_def Let_def)
qed

end
