(* ===== verification/Machine.thy ===== *)
theory Machine
  imports Lolevel Contexts
begin

text \<open>
  Runs of the whole machine: a program in user mode, an exception, the assembly around the handler in C, and a program again.
  They refine the runs of the kernel (\<open>kstep\<close>, \<open>reachable\<close>). The programs are arbitrary: between two exceptions
  a program may leave any registers, any memory and any condition flags, but not what user mode cannot
  write, which is the control bits of the status register and the registers of the other modes. It is assumed to leave the vector table alone,
  so that exceptions enter the handlers, and not to let a \<open>read\<close>, \<open>ls\<close> or \<open>stat\<close> store into the context that is saved for the
  call (\<open>spares\<close>): the kernel does not check the address, and a program that does this can leave user mode.
\<close>

section \<open>Rounds\<close>

type_synonym machine = "kernel \<times> board \<times> cpu"

text \<open>The control bits of the status register but the Thumb bit: mode and interrupt masks. In user mode with interrupts
  enabled they are \<open>0x50\<close>.\<close>

definition user_mode :: "u32 \<Rightarrow> bool" where
  "user_mode w \<longleftrightarrow> w AND 0xDF = 0x50"

definition runs :: "cpu \<Rightarrow> cpu \<Rightarrow> bool" where
  "runs s u \<longleftrightarrow> length (gp u) = 13 \<and> svc_bank u = svc_bank s \<and> irq_bank u = irq_bank s \<and> psr u AND 0xDF = psr s AND 0xDF"

text \<open>What the rest of the world changes meanwhile: the memory, and the characters that are typed.\<close>

definition world :: "kernel \<Rightarrow> (u32 \<Rightarrow> u8) \<Rightarrow> u8 list \<Rightarrow> kernel" where
  "world k m typed = k\<lparr>mem := m, uart1 := (uart1 k)\<lparr>rx := rx (uart1 k) @ typed\<rparr>\<rparr>"

text \<open>The stack of the supervisor mode when the handler reads the number of the call from the instruction.\<close>

definition svc_memory :: "(u32 \<Rightarrow> u8) \<Rightarrow> cpu \<Rightarrow> u32 \<Rightarrow> u8" where
  "svc_memory m u = write_ctx m (b_sp (svc_bank u) - 68) (running u)"

definition svc_number :: "(u32 \<Rightarrow> u8) \<Rightarrow> cpu \<Rightarrow> u32" where
  "svc_number m u = ldw (svc_memory m u) (cpu_pc u - 4) AND NOT 0xFF000000"

text \<open>The call stores nothing into the saved context. Only three calls store into user memory.\<close>

definition spares :: "stack \<Rightarrow> u8 list \<Rightarrow> kernel \<Rightarrow> cpu \<Rightarrow> bool" where
  "spares z b k u \<longleftrightarrow> (svc_number (mem k) u \<in> {SYS_READ, SYS_LS, SYS_STAT} \<longrightarrow>
     (case hilevel_handler_svc z b (k\<lparr>mem := svc_memory (mem k) u\<rparr>) (running u) (svc_number (mem k) u) of
        None \<Rightarrow> True | Some (k1, c1) \<Rightarrow> read_ctx (mem k1) (b_sp (svc_bank u) - 68) = running u))"

datatype event = Call u32 ctx_t | Interrupt u32 ctx_t

inductive mstep :: "stack \<Rightarrow> u8 list \<Rightarrow> machine \<Rightarrow> event \<Rightarrow> machine \<Rightarrow> bool" for z b where
  call: "runs s u \<Longrightarrow> length (fst j) = 13 \<Longrightarrow> spares z b (world k m typed) u \<Longrightarrow>
    lolevel_handler_svc z b j (world k m typed, take_svc u) = Some (k', s') \<Longrightarrow>
    mstep z b (k, bd, s) (Call (svc_number m u) (running u)) (k', bd, s')"
| interrupt: "runs s u \<Longrightarrow> length (fst j) = 13 \<Longrightarrow>
    lolevel_handler_irq j (world k m typed, bd', take_irq u) = Some w \<Longrightarrow>
    mstep z b (k, bd, s) (Interrupt (IAR (GICC0 bd')) (running u)) w"

inductive_cases mstepE: "mstep z b (k, bd, s) e (k', bd', s')"

text \<open>The states reachable from a reset, with the tops of the two exception stacks.\<close>

inductive booted :: "stack \<Rightarrow> u8 list \<Rightarrow> u32 \<Rightarrow> u32 \<Rightarrow> machine \<Rightarrow> bool" for z b tos_irq tos_svc where
  reset: "length (pcb (tbl k)) = 30 \<Longrightarrow> length (sps (tbl k)) = 30 \<Longrightarrow> length (fst j) = 13 \<Longrightarrow>
    44 \<le> unat int_data \<Longrightarrow> unat int_data + 44 \<le> 2 ^ 32 \<Longrightarrow>
    lolevel_handler_rst int_data (int_data + 44) tos_irq tos_svc main_console j (k, bd, s) = Some w \<Longrightarrow>
    booted z b tos_irq tos_svc w"
| round: "booted z b tos_irq tos_svc w \<Longrightarrow> mstep z b w e w' \<Longrightarrow> booted z b tos_irq tos_svc w'"

lemma running_gp [simp]: "gpr (running s) = gp s"
  by (simp add: running_def)

lemma world_simps [simp]: "tbl (world k m typed) = tbl k" "mem (world k m typed) = m" "(world k m typed)\<lparr>mem := m'\<rparr> = world k m' typed"
  by (simp_all add: world_def)

section \<open>Calls that store nothing into user memory\<close>

lemma mem_simps [simp]: "mem (put_fs k f) = mem k" "mem (error k' msg) = mem k'" "mem (error_bytes k' bs) = mem k'"
  by (simp_all add: put_fs_def error_def error_bytes_def)

lemma process_mem:
  "sys_fork k c = Some (k', c') \<Longrightarrow> mem k' = mem k"
  "sys_exit k c x = Some (k', c') \<Longrightarrow> mem k' = mem k"
  "sys_kill k c p sig = Some (r, k', c') \<Longrightarrow> mem k' = mem k"
  "sys_yield k c = Some (k', c') \<Longrightarrow> mem k' = mem k"
  "sys_wait k p q = Some (r, k') \<Longrightarrow> mem k' = mem k"
  by (auto simp: sys_fork_def sys_exit_def sys_kill_def sys_yield_def sys_wait_def Let_def split: run_splits)

lemma exec_mem: "sys_exec k c f i a = Some (k', c') \<Longrightarrow> mem k' = mem k"
  by (auto simp: sys_exec_def Let_def dest!: process_mem(2) split: run_splits)

lemma fork_wait_mem: "sys_fork_wait k c = Some (k', c') \<Longrightarrow> mem k' = mem k"
  by (auto simp: sys_fork_wait_def dest!: process_mem(1,5) split: run_splits)

lemma ps_line_mem: "ps_line b k xs = Some (b', k') \<Longrightarrow> mem k' = mem k"
proof (induction xs arbitrary: b' k' rule: rev_induct)
  case (snoc x xs)
  then show ?case by (cases x) (auto simp: ps_line_def Let_def split: run_splits)
qed (simp add: ps_line_def)

lemma ps_stats_mem: "ps_stats b k p = Some k' \<Longrightarrow> mem k' = mem k"
  by (auto simp: ps_stats_def Let_def dest!: ps_line_mem split: run_splits)

lemma ps_mem: "sys_ps b k = Some k' \<Longrightarrow> mem k' = mem k"
proof -
  have "foreach (\<lambda>p k. do { a \<leftarrow> active_process (tbl k) p; if a then ps_stats b k p else Some k }) ps k = Some k' \<Longrightarrow> mem k' = mem k" for ps
    by (induction ps arbitrary: k) (auto dest!: ps_stats_mem split: run_splits)
  then show "sys_ps b k = Some k' \<Longrightarrow> mem k' = mem k" by (simp add: sys_ps_def)
qed

lemma refresh_mem: "refresh_root z k = Some (r, k') \<Longrightarrow> mem k' = mem k"
  by (auto simp: refresh_root_def split: run_splits)

lemma open_io_mem: "open_io_devices z k = Some (r, k') \<Longrightarrow> mem k' = mem k"
  by (auto simp: open_io_devices_def Let_def split: run_splits)

lemma mount_mem: "sys_mount z k = Some (r, k') \<Longrightarrow> mem k' = mem k"
  by (auto simp: sys_mount_def init_disk_globals_def Let_def dest!: open_io_mem split: run_splits)

lemma files_mem:
  "sys_write z k fd x n = Some (r, k') \<Longrightarrow> mem k' = mem k"
  "sys_unmount z k = Some (r, k') \<Longrightarrow> mem k' = mem k"
  "sys_close k fd = Some (r, k') \<Longrightarrow> mem k' = mem k"
  "sys_rmdir z k path = Some (r, k') \<Longrightarrow> mem k' = mem k"
  by (auto simp: sys_write_def write_device_def sys_unmount_def sys_close_def sys_rmdir_def Let_def split: run_splits)

lemma open_mem: "sys_open z k path flags = Some (r, k') \<Longrightarrow> mem k' = mem k"
  by (auto simp: sys_open_def Let_def dest!: refresh_mem split: run_splits)

lemma names_mem:
  "sys_mkdir z k path = Some (r, k') \<Longrightarrow> mem k' = mem k"
  "sys_rm z k path = Some (r, k') \<Longrightarrow> mem k' = mem k"
  by (auto simp: sys_mkdir_def sys_rm_def Let_def dest!: refresh_mem split: run_splits)

lemma shared_mem:
  "sys_share k a = Some (r, k') \<Longrightarrow> mem k' = mem k"
  "sys_unshare k a = Some (r, k') \<Longrightarrow> mem k' = mem k"
  "sys_lock k a = Some (r, k') \<Longrightarrow> mem k' = mem k"
  "sys_unlock k a = Some (r, k') \<Longrightarrow> mem k' = mem k"
  by (auto simp: sys_share_def sys_unshare_def sys_lock_def sys_unlock_def Let_def split: run_splits)

lemma ret_mem: "ret c r = Some (k', c') \<Longrightarrow> \<exists>x. r = Some (x, k')"
  by (auto simp: ret_def split: run_splits)

lemma svc_mem:
  assumes r: "hilevel_handler_svc z b k c n = Some (k', c')" and n: "n \<notin> {SYS_READ, SYS_LS, SYS_STAT}" and l: "length (gpr c) = 13"
  shows "mem k' = mem k"
proof -
  have rds: "rd (gpr c) 0 = Some (gpr c ! 0)" "rd (gpr c) 1 = Some (gpr c ! 1)" "rd (gpr c) 2 = Some (gpr c ! 2)"
    using l by (simp_all add: rd_def)
  have killed: "mem k' = mem k"
    if "do { (status, k, c) \<leftarrow> sys_kill k c p s; c \<leftarrow> set_r0 c (u32_of_int status); Some (k, c) } = Some (k', c')" for p s
    using that by (auto dest!: process_mem(3) split: run_splits)
  have rets: "mem k' = mem k" if "ret c q = Some (k', c')" "\<And>x. q = Some (x, k') \<Longrightarrow> mem k' = mem k" for q
    using ret_mem [OF that(1)] that(2) by blast
  have paths: "mem k' = mem k"
    if "do { path \<leftarrow> cstr_at (mem k) a; ret c (f path) } = Some (k', c')" "\<And>x path. f path = Some (x, k') \<Longrightarrow> mem k' = mem k" for a f
    using that(1) by (cases "cstr_at (mem k) a") (auto intro: rets that(2))
  have ps: "mem k' = mem k" if "do { k \<leftarrow> (if v then sys_ps b k else ps_stats b k p); Some (k, c) } = Some (k', c')" for v p
    using that by (auto dest!: ps_mem ps_stats_mem split: run_splits)
  have wait: "mem k' = mem k" if "do { p \<leftarrow> current_pid (tbl k); ret c (sys_wait k p q) } = Some (k', c')" for q
    using that by (cases "current_pid (tbl k)") (auto intro: rets process_mem(5))
  show ?thesis
    using r n unfolding hilevel_handler_svc_def rds Option.bind.bind_lunit
    by (elim if_SomeE)
      (erule process_mem exec_mem fork_wait_mem killed ps wait | (erule rets, erule files_mem mount_mem shared_mem)
        | (erule paths, erule open_mem names_mem files_mem) | auto)+
qed

section \<open>A handler that returns has done what the handler in C did\<close>

lemma svc_undefined:
  assumes s: "length (gp s) = 13"
    and h: "hilevel_handler_svc z b (k\<lparr>mem := svc_memory (mem k) s\<rparr>) (running s) (svc_number (mem k) s) = None"
  shows "lolevel_handler_svc z b j (k, take_svc s) = None"
proof -
  let ?a = "b_sp (svc_bank s) - 68"
  obtain m1 s1 where e: "save_context 0 (mem k, take_svc s) = (m1, s1)" by force
  have g: "length (gp (take_svc s)) = 13" using s by (simp add: take_bank)
  note sv = save_context_spec [OF g e]
  have m: "m1 = svc_memory (mem k) s" "gp s1 ! 0 = ?a" "gp s1 ! 1 = svc_number (mem k) s"
    using sv(1-3) by (simp_all add: take_bank svc_memory_def svc_number_def)
  have "read_ctx m1 ?a = running s" unfolding m(1) svc_memory_def using s by (intro read_write_ctx) (simp add: running_def)
  then show ?thesis unfolding lolevel_handler_svc_def prod.case e Let_def m(2,3) using h m(1) by simp
qed

lemma svc_spared:
  assumes s: "length (gp s) = 13" "length (fst j) = 13" and k: "procs_wf (tbl k)" and p: "spares z b k s"
    and h: "hilevel_handler_svc z b (k\<lparr>mem := svc_memory (mem k) s\<rparr>) (running s) (svc_number (mem k) s) = Some (k', c')"
  obtains s' where "lolevel_handler_svc z b j (k, take_svc s) = Some (k'\<lparr>mem := write_ctx (mem k') (b_sp (svc_bank s) - 68) c'\<rparr>, s')"
    "running s' = c'\<lparr>cpsr := msr_cf (psr s) (cpsr c')\<rparr>" "b_sp (svc_bank s') = b_sp (svc_bank s)" "irq_bank s' = irq_bank s"
proof -
  let ?a = "b_sp (svc_bank s) - 68" and ?n = "svc_number (mem k) s"
  have "good (k\<lparr>mem := svc_memory (mem k) s\<rparr>, running s)" using k s(1) by simp
  then have c: "length (gpr c') = 13" using svc_good [OF _ h] by simp
  have r: "read_ctx (svc_memory (mem k) s) ?a = running s"
    unfolding svc_memory_def using s(1) by (intro read_write_ctx) simp
  have "read_ctx (mem k') ?a = running s"
  proof (cases "?n \<in> {SYS_READ, SYS_LS, SYS_STAT}")
    case True
    then show ?thesis using p h by (simp add: spares_def)
  next
    case False
    then show ?thesis using svc_mem [OF h] r s(1) by simp
  qed
  then have l: "leave_ctx ?n (mem k') ?a c' = write_ctx (mem k') ?a c'" "read_ctx (leave_ctx ?n (mem k') ?a c') ?a = c'"
    using leave_ctx_spared [OF _ h c] s(1) by simp_all
  obtain s' where s': "lolevel_handler_svc z b j (k, take_svc s) = Some (k'\<lparr>mem := leave_ctx ?n (mem k') ?a c'\<rparr>, s')"
    "running s' = (read_ctx (leave_ctx ?n (mem k') ?a c') ?a)\<lparr>cpsr := msr_cf (psr s) (cpsr (read_ctx (leave_ctx ?n (mem k') ?a c') ?a))\<rparr>"
    "b_sp (svc_bank s') = b_sp (svc_bank s)" "irq_bank s' = irq_bank s"
    by (rule svc_spec [OF s refl svc_memory_def svc_number_def [unfolded svc_memory_def, folded svc_memory_def] h refl])
  show thesis by (rule that [OF s'(1) [unfolded l(1)] s'(2) [unfolded l(2)] s'(3,4)])
qed

lemma svc_round:
  assumes s: "length (gp s) = 13" "length (fst j) = 13" and k: "procs_wf (tbl k)" and p: "spares z b k s"
    and r: "lolevel_handler_svc z b j (k, take_svc s) = Some (k', s')"
  obtains k1 c1 m' where "hilevel_handler_svc z b (k\<lparr>mem := svc_memory (mem k) s\<rparr>) (running s) (svc_number (mem k) s) = Some (k1, c1)"
    "k' = k1\<lparr>mem := m'\<rparr>" "running s' = c1\<lparr>cpsr := msr_cf (psr s) (cpsr c1)\<rparr>"
    "b_sp (svc_bank s') = b_sp (svc_bank s)" "irq_bank s' = irq_bank s"
proof -
  obtain k1 c1 where h: "hilevel_handler_svc z b (k\<lparr>mem := svc_memory (mem k) s\<rparr>) (running s) (svc_number (mem k) s) = Some (k1, c1)"
    using svc_undefined [OF s(1), of z b k j] r by force
  from svc_spared [OF s k p h]
  obtain s1 where s1: "lolevel_handler_svc z b j (k, take_svc s) =
      Some (k1\<lparr>mem := write_ctx (mem k1) (b_sp (svc_bank s) - 68) c1\<rparr>, s1)"
    "running s1 = c1\<lparr>cpsr := msr_cf (psr s) (cpsr c1)\<rparr>" "b_sp (svc_bank s1) = b_sp (svc_bank s)" "irq_bank s1 = irq_bank s" .
  show thesis by (rule that [OF h]) (use r s1 in auto)
qed

lemma irq_undefined:
  assumes s: "length (gp s) = 13"
    and h: "handler_irq (k\<lparr>mem := write_ctx (mem k) (b_sp (irq_bank s) - 68) (running s)\<rparr>) (running s) bd = None"
  shows "lolevel_handler_irq j (k, bd, take_irq s) = None"
proof -
  let ?a = "b_sp (irq_bank s) - 68"
  obtain m1 s1 where e: "save_context 4 (mem k, take_irq s) = (m1, s1)" by force
  have g: "length (gp (take_irq s)) = 13" using s by (simp add: take_bank)
  note sv = save_context_spec [OF g e]
  have m: "m1 = write_ctx (mem k) ?a (running s)" "gp s1 ! 0 = ?a" using sv(1,2) by (simp_all add: take_bank)
  have "read_ctx m1 ?a = running s" unfolding m(1) using s by (intro read_write_ctx) (simp add: running_def)
  then show ?thesis unfolding lolevel_handler_irq_def prod.case e Let_def m(2) using h m(1) by simp
qed

lemma irq_round:
  assumes s: "length (gp s) = 13" "length (fst j) = 13" and k: "procs_wf (tbl k)"
    and r: "lolevel_handler_irq j (k, bd, take_irq s) = Some (k', bd', s')"
  obtains k1 c1 m m' where "hilevel_handler_irq (k\<lparr>mem := m\<rparr>) (running s) (IAR (GICC0 bd)) = Some (k1, c1)"
    "k' = k1\<lparr>mem := m'\<rparr>" "running s' = c1\<lparr>cpsr := msr_cf (psr s) (cpsr c1)\<rparr>"
    "b_sp (irq_bank s') = b_sp (irq_bank s)" "svc_bank s' = svc_bank s"
proof -
  let ?k = "k\<lparr>mem := write_ctx (mem k) (b_sp (irq_bank s) - 68) (running s)\<rparr>"
  obtain k1 c1 bd1 where h: "handler_irq ?k (running s) bd = Some (k1, c1, bd1)"
    using irq_undefined [OF s(1), of k bd j] r by force
  from irq_spec [OF s k refl refl h]
  obtain s1 where s1: "lolevel_handler_irq j (k, bd, take_irq s) =
      Some (k1\<lparr>mem := write_ctx (mem k1) (b_sp (irq_bank s) - 68) c1\<rparr>, bd1, s1)"
    "running s1 = c1\<lparr>cpsr := msr_cf (psr s) (cpsr c1)\<rparr>" "b_sp (irq_bank s1) = b_sp (irq_bank s)" "svc_bank s1 = svc_bank s" .
  have "hilevel_handler_irq ?k (running s) (IAR (GICC0 bd)) = Some (k1, c1)"
    using h by (auto simp: handler_irq_def Let_def split: run_splits)
  then show thesis by (rule that) (use r s1 in auto)
qed

text \<open>The number is the word before the return address, unless the stack of the handler covers it.\<close>

lemma svc_number_low:
  assumes "length (gp u) = 13" "cpu_pc u - 4 = of_nat (4 * i)" "4 * (i + 1) \<le> unat (b_sp (svc_bank u) - 68)"
    and "unat (b_sp (svc_bank u) - 68) + 68 \<le> 2 ^ 32"
  shows "svc_number m u = ldw m (cpu_pc u - 4) AND NOT 0xFF000000"
proof -
  let ?c = "running u"
  have "ldm (svc_memory m u) 0 (i + 1) = ldm m 0 (i + 1)"
    unfolding svc_memory_def write_ctx_def by (rule stm_low) (use assms in simp_all)
  then have "ldm (svc_memory m u) 0 (i + 1) ! i = ldm m 0 (i + 1) ! i" by simp
  then have "ldw (svc_memory m u) (of_nat (4 * i)) = ldw m (of_nat (4 * i))" by (simp add: ldm_def nth_append)
  then show ?thesis using assms(2) by (simp add: svc_number_def)
qed

lemma spares_others: "svc_number m u \<notin> {SYS_READ, SYS_LS, SYS_STAT} \<Longrightarrow> spares z b (world k m typed) u"
  by (simp add: spares_def)

text \<open>Conversely, the machine does what the handler in C does.\<close>

lemma call_happens:
  assumes u: "runs s u" and k: "procs_wf (tbl k)" and p: "spares z b (world k m typed) u"
    and h: "hilevel_handler_svc z b (world k (svc_memory m u) typed) (running u) (svc_number m u) = Some (k1, c1)"
  obtains m' s' where "mstep z b (k, bd, s) (Call (svc_number m u) (running u)) (k1\<lparr>mem := m'\<rparr>, bd, s')"
    "running s' = c1\<lparr>cpsr := msr_cf (psr u) (cpsr c1)\<rparr>" "b_sp (svc_bank s') = b_sp (svc_bank s)" "irq_bank s' = irq_bank s"
proof -
  let ?j = "(replicate 13 0, 0) :: u32 list \<times> u32" and ?k = "world k m typed"
  have l: "length (gp u) = 13" "length (fst ?j) = 13" "svc_bank u = svc_bank s" "irq_bank u = irq_bank s" using u by (simp_all add: runs_def)
  have w: "procs_wf (tbl ?k)" using k by simp
  have h': "hilevel_handler_svc z b (?k\<lparr>mem := svc_memory (mem ?k) u\<rparr>) (running u) (svc_number (mem ?k) u) = Some (k1, c1)"
    using h by simp
  obtain s' where s': "lolevel_handler_svc z b ?j (?k, take_svc u) = Some (k1\<lparr>mem := write_ctx (mem k1) (b_sp (svc_bank u) - 68) c1\<rparr>, s')"
    "running s' = c1\<lparr>cpsr := msr_cf (psr u) (cpsr c1)\<rparr>" "b_sp (svc_bank s') = b_sp (svc_bank u)" "irq_bank s' = irq_bank u"
    by (rule svc_spared [OF l(1,2) w p h'])
  show thesis by (rule that [OF mstep.call [OF u l(2) p s'(1)] s'(2)]) (use s'(3,4) l(3,4) in simp_all)
qed

lemma interrupt_happens:
  fixes bd :: board
  assumes u: "runs s u" and k: "procs_wf (tbl k)" and n: "IAR (GICC0 bd) = n"
    and h: "hilevel_handler_irq (world k (write_ctx m (b_sp (irq_bank u) - 68) (running u)) typed) (running u) n = Some (k1, c1)"
  obtains m' bd' s' where "mstep z b (k, bd0, s) (Interrupt n (running u)) (k1\<lparr>mem := m'\<rparr>, bd', s')"
    "running s' = c1\<lparr>cpsr := msr_cf (psr u) (cpsr c1)\<rparr>" "svc_bank s' = svc_bank s"
proof -
  let ?j = "(replicate 13 0, 0) :: u32 list \<times> u32" and ?k = "world k m typed"
  have l: "length (gp u) = 13" "length (fst ?j) = 13" "svc_bank u = svc_bank s" using u by (simp_all add: runs_def)
  have w: "procs_wf (tbl ?k)" using k by simp
  obtain bd' where h': "handler_irq (?k\<lparr>mem := write_ctx (mem ?k) (b_sp (irq_bank u) - 68) (running u)\<rparr>) (running u) bd = Some (k1, c1, bd')"
    using h n by (simp add: handler_irq_def Let_def)
  obtain s' where s': "lolevel_handler_irq ?j (?k, bd, take_irq u) = Some (k1\<lparr>mem := write_ctx (mem k1) (b_sp (irq_bank u) - 68) c1\<rparr>, bd', s')"
    "running s' = c1\<lparr>cpsr := msr_cf (psr u) (cpsr c1)\<rparr>" "svc_bank s' = svc_bank u"
    by (rule irq_spec [OF l(1,2) w refl refl h'])
  show thesis by (rule that [OF mstep.interrupt [OF u l(2) s'(1), unfolded n] s'(2)]) (use s'(3) l(3) in simp)
qed

section \<open>The invariant of the machine\<close>

definition sound :: "u32 \<Rightarrow> u32 \<Rightarrow> machine \<Rightarrow> bool" where
  "sound tos_irq tos_svc = (\<lambda>(k, bd, s). procs_wf (tbl k) \<and> length (gp s) = 13 \<and>
     b_sp (irq_bank s) = tos_irq \<and> b_sp (svc_bank s) = tos_svc \<and> (\<forall>w \<in> modes (tbl k) (running s). user_mode w))"

lemma user_mode_initial: "user_mode 0x50"
  by (simp add: user_mode_def)

lemma user_mode_masked: "x AND 0xDF = y AND 0xDF \<Longrightarrow> user_mode x = user_mode y"
  by (simp add: user_mode_def)

lemma user_mode_restored: "user_mode (msr_cf old new) = user_mode new"
  by (rule user_mode_masked) (simp add: msr_and)

text \<open>Every round is one of the kernel, on the context of the program.\<close>

lemma machine_round:
  assumes w: "sound tos_irq tos_svc (k, bd, s)" and r: "mstep z b (k, bd, s) e (k', bd', s')"
  obtains u m typed k1 c1 m' n where "runs s u" "k' = k1\<lparr>mem := m'\<rparr>" "running s' = c1\<lparr>cpsr := msr_cf (psr u) (cpsr c1)\<rparr>"
    "b_sp (irq_bank s') = tos_irq" "b_sp (svc_bank s') = tos_svc"
    "e = Call n (running u) \<and> hilevel_handler_svc z b (world k m typed) (running u) n = Some (k1, c1) \<or>
     e = Interrupt n (running u) \<and> hilevel_handler_irq (world k m typed) (running u) n = Some (k1, c1)"
  using r
proof (rule mstepE)
  fix u j m typed
  assume call: "e = Call (svc_number m u) (running u)" "bd' = bd" "runs s u" "length (fst j) = 13" "spares z b (world k m typed) u"
    "lolevel_handler_svc z b j (world k m typed, take_svc u) = Some (k', s')"
  have u: "length (gp u) = 13" "svc_bank u = svc_bank s" "irq_bank u = irq_bank s" using call(3) by (simp_all add: runs_def)
  have wf: "procs_wf (tbl (world k m typed))" using w by (simp add: sound_def)
  obtain k1 c1 m' where h: "hilevel_handler_svc z b (world k (svc_memory m u) typed) (running u) (svc_number m u) = Some (k1, c1)"
    "k' = k1\<lparr>mem := m'\<rparr>" "running s' = c1\<lparr>cpsr := msr_cf (psr u) (cpsr c1)\<rparr>" "b_sp (svc_bank s') = b_sp (svc_bank u)" "irq_bank s' = irq_bank u"
    using svc_round [OF u(1) call(4) wf call(5,6)] by auto
  show thesis by (rule that [OF call(3) h(2,3)]) (use h(1,4,5) u w call(1) in \<open>auto simp: sound_def\<close>)
next
  fix u j m typed bd1
  assume irq: "e = Interrupt (IAR (GICC0 bd1)) (running u)" "runs s u" "length (fst j) = 13"
    "lolevel_handler_irq j (world k m typed, bd1, take_irq u) = Some (k', bd', s')"
  have u: "length (gp u) = 13" "svc_bank u = svc_bank s" "irq_bank u = irq_bank s" using irq(2) by (simp_all add: runs_def)
  have wf: "procs_wf (tbl (world k m typed))" using w by (simp add: sound_def)
  obtain k1 c1 m1 m' where h: "hilevel_handler_irq ((world k m typed)\<lparr>mem := m1\<rparr>) (running u) (IAR (GICC0 bd1)) = Some (k1, c1)"
    "k' = k1\<lparr>mem := m'\<rparr>" "running s' = c1\<lparr>cpsr := msr_cf (psr u) (cpsr c1)\<rparr>" "b_sp (irq_bank s') = b_sp (irq_bank u)" "svc_bank s' = svc_bank u"
    by (rule irq_round [OF u(1) irq(3) wf irq(4)])
  show thesis by (rule that [OF irq(2) h(2,3)]) (use h(1,4,5) u w irq(1) in \<open>auto simp: sound_def\<close>)
qed

lemma user_mode_modes:
  assumes "runs s u" "\<forall>w \<in> modes t (running s). user_mode w" "valid_pid (cur t)"
  shows "\<forall>w \<in> modes t (running u). user_mode w"
proof -
  have "user_mode (psr s)"
    using assms(2) modes_mem [OF assms(3), of t "running s"] by (simp add: proc_ctx_def running_def)
  then have "user_mode (psr u)" using assms(1) user_mode_masked [of "psr u" "psr s"] by (simp add: runs_def)
  then show ?thesis using assms(2) by (auto simp: modes_def proc_ctx_def running_def)
qed

lemma modes_restored:
  assumes "modes t' c1 \<subseteq> insert 0x50 M" "\<forall>w \<in> M. user_mode w"
  shows "\<forall>w \<in> modes t' (c1\<lparr>cpsr := msr_cf p (cpsr c1)\<rparr>). user_mode w"
proof -
  have um: "user_mode (cpsr (proc_ctx t' c1 q))" if "valid_pid q" for q
    using assms modes_mem [OF that, of t' c1] user_mode_initial by auto
  then have "user_mode (cpsr (proc_ctx t' (c1\<lparr>cpsr := msr_cf p (cpsr c1)\<rparr>) q))" if "valid_pid q" for q
    using um [OF that] by (simp add: proc_ctx_def user_mode_restored split: if_splits)
  then show ?thesis by (auto simp: modes_def)
qed

lemma sound_step:
  assumes w: "sound tos_irq tos_svc w" and r: "mstep z b w e w'"
  shows "sound tos_irq tos_svc w'"
proof -
  obtain k bd s k' bd' s' where ww: "w = (k, bd, s)" "w' = (k', bd', s')" by (metis prod_cases3)
  note w = w [unfolded ww]
  obtain u m typed k1 c1 m' n where h: "runs s u" "k' = k1\<lparr>mem := m'\<rparr>" "running s' = c1\<lparr>cpsr := msr_cf (psr u) (cpsr c1)\<rparr>"
    "b_sp (irq_bank s') = tos_irq" "b_sp (svc_bank s') = tos_svc"
    "hilevel_handler_svc z b (world k m typed) (running u) n = Some (k1, c1) \<or> hilevel_handler_irq (world k m typed) (running u) n = Some (k1, c1)"
    by (rule machine_round [OF w r [unfolded ww]]) blast
  have wf: "procs_wf (tbl k)" and um: "\<forall>w \<in> modes (tbl k) (running s). user_mode w" using w by (simp_all add: sound_def)
  have g: "good (world k m typed, running u)" using wf h(1) by (simp add: runs_def running_def)
  have g': "good (k1, c1)" using h(6) svc_good [OF g] irq_good [OF g] by blast
  have "modes (tbl k1) c1 \<subseteq> insert 0x50 (modes (tbl k) (running u))"
    using h(6) svc_carries(1) [OF g] irq_carries [OF g] by (elim disjE) (simp_all add: carries_def)
  then have "\<forall>w \<in> modes (tbl k1) (running s'). user_mode w"
    unfolding h(3) by (rule modes_restored) (rule user_mode_modes [OF h(1) um cur_valid [OF wf]])
  moreover have "gp s' = gpr c1" using arg_cong [OF h(3), of gpr] by simp
  ultimately show ?thesis using g' h(2,4,5) by (simp add: sound_def ww)
qed

section \<open>Refinement\<close>

definition refines :: "machine \<Rightarrow> kernel \<times> ctx_t \<Rightarrow> bool" where
  "refines = (\<lambda>(k, _, s) (k0, c). k = k0\<lparr>mem := mem k\<rparr> \<and> (\<exists>p. running s = c\<lparr>cpsr := msr_cf p (cpsr c)\<rparr>))"

lemma refines_step:
  assumes w: "sound tos_irq tos_svc w" and r: "mstep z b w e w'" and f: "refines w kc"
  shows "\<exists>kc'. kstep z b kc kc' \<and> refines w' kc'"
proof -
  obtain k bd s k' bd' s' k0 c where ww: "w = (k, bd, s)" "w' = (k', bd', s')" "kc = (k0, c)" by (metis prod_cases3 surj_pair)
  obtain u m typed k1 c1 m' n where h: "runs s u" "k' = k1\<lparr>mem := m'\<rparr>" "running s' = c1\<lparr>cpsr := msr_cf (psr u) (cpsr c1)\<rparr>"
    "hilevel_handler_svc z b (world k m typed) (running u) n = Some (k1, c1) \<or> hilevel_handler_irq (world k m typed) (running u) n = Some (k1, c1)"
    by (rule machine_round [OF w [unfolded ww] r [unfolded ww]]) blast
  have k: "k = k0\<lparr>mem := mem k\<rparr>" using f by (simp add: refines_def ww)
  have e: "world k m typed = k0\<lparr>mem := m, uart1 := (uart1 k0)\<lparr>rx := rx (uart1 k0) @ typed\<rparr>\<rparr>"
    by (subst k) (simp add: world_def)
  have "length (gpr (running u)) = 13" using h(1) by (simp add: runs_def)
  from kstep.svc [OF this] kstep.irq [OF this] have "kstep z b (k0, c) (k1, c1)" using h(4) unfolding e by blast
  then show ?thesis using h(2,3) by (auto simp: refines_def ww)
qed

lemma booted_sound:
  assumes "booted z b tos_irq tos_svc w"
  shows "sound tos_irq tos_svc w \<and> (\<exists>kc. reachable z b kc \<and> refines w kc)"
  using assms
proof (induction rule: booted.induct)
  case (reset k j int_data main_console bd s w)
  let ?m = "stm (mem k) 0 (ldm (mem k) int_data 11)"
  obtain k' c s' where r: "w = (k', configure_board bd, s')" "running s' = c\<lparr>cpsr := msr_cf (b_spsr (svc_bank s)) 0x50\<rparr>"
    "ctx (blk (tbl k') 1) = c" "cur (tbl k') = 1" "b_sp (svc_bank s') = tos_svc" "b_sp (irq_bank s') = tos_irq" "procs_wf (tbl k')"
    "\<forall>p. valid_pid p \<longrightarrow> cpsr (ctx (blk (tbl k') p)) = 0x50" "length (gpr c) = 13"
    "hilevel_handler_rst main_console (k\<lparr>mem := ?m\<rparr>) = Some (k'\<lparr>mem := ?m\<rparr>, c)"
    by (rule rst_spec [OF reset(1-5), of tos_irq tos_svc main_console bd s]) (use reset(6) in simp)
  have c: "cpsr c = 0x50" using r(3,8) by auto
  have "modes (tbl k') c \<subseteq> insert 0x50 {}"
    using r(8) c by (intro modesI) (simp add: proc_ctx_def)
  then have "\<forall>w \<in> modes (tbl k') (c\<lparr>cpsr := msr_cf (b_spsr (svc_bank s)) (cpsr c)\<rparr>). user_mode w"
    by (rule modes_restored) simp
  then have "\<forall>w \<in> modes (tbl k') (running s'). user_mode w" using r(2) c by simp
  moreover have "length (gp s') = 13" using arg_cong [OF r(2), of gpr] r(9) by simp
  moreover have "reachable z b (k'\<lparr>mem := ?m\<rparr>, c)"
    using reset(1,2) by (intro reachable.reset [OF _ _ r(10)]) simp_all
  moreover have "refines w (k'\<lparr>mem := ?m\<rparr>, c)" using r(1,2) c by (auto simp: refines_def)
  ultimately show ?case using r(1,5-7) by (auto simp: sound_def)
next
  case (round w e w')
  then obtain kc where kc: "reachable z b kc" "refines w kc" "sound tos_irq tos_svc w" by blast
  then obtain kc' where "kstep z b kc kc'" "refines w' kc'" using refines_step [OF kc(3) round(2)] by blast
  then show ?case using sound_step [OF kc(3) round(2)] reachable.round [OF kc(1)] by blast
qed

section \<open>A program that waits for its turn\<close>

definition turn :: "machine \<Rightarrow> int" where
  "turn w = cur (tbl (fst w))"

definition kills_itself :: "machine \<Rightarrow> event \<Rightarrow> bool" where
  "kills_itself w e \<longleftrightarrow> (\<exists>n c. e = Call n c \<and> suicide (fst w) c n)"

text \<open>Rounds of other processes until it is the turn of \<open>p\<close>, which is never ended.\<close>

inductive passes :: "stack \<Rightarrow> u8 list \<Rightarrow> int \<Rightarrow> machine \<Rightarrow> machine \<Rightarrow> bool" for z b p where
  start: "passes z b p w w"
| round: "passes z b p w w' \<Longrightarrow> turn w' \<noteq> p \<Longrightarrow> mstep z b w' e w'' \<Longrightarrow> \<not> kills_itself w' e \<Longrightarrow>
    active (tbl (fst w'')) p \<Longrightarrow> passes z b p w w''"

text \<open>The context of \<open>p\<close>, as it is saved or, up to what the restoring code does to the status, as it runs.\<close>

definition holds :: "int \<Rightarrow> ctx_t \<Rightarrow> machine \<Rightarrow> bool" where
  "holds p c = (\<lambda>(k, _, s). if cur (tbl k) = p then (\<exists>x. running s = c\<lparr>cpsr := msr_cf x (cpsr c)\<rparr>) else ctx (blk (tbl k) p) = c)"

lemma holds_after:
  assumes "proc_ctx (tbl k1) c1 p = c"
  shows "k' = k1\<lparr>mem := m'\<rparr> \<Longrightarrow> running s' = c1\<lparr>cpsr := msr_cf x (cpsr c1)\<rparr> \<Longrightarrow> holds p c (k', bd', s')"
  using assms by (auto simp: holds_def proc_ctx_def split: if_splits)

lemma others_keep_context:
  assumes w: "sound tos_irq tos_svc w" and p: "valid_pid p" "turn w \<noteq> p" "active (tbl (fst w)) p" "holds p c w"
    and r: "mstep z b w e w'" "\<not> kills_itself w e" "active (tbl (fst w')) p"
  shows "holds p c w'"
proof -
  obtain k bd s k' bd' s' where ww: "w = (k, bd, s)" "w' = (k', bd', s')" by (metis prod_cases3)
  note w = w [unfolded ww]
  obtain u m typed k1 c1 m' n where h: "runs s u" "k' = k1\<lparr>mem := m'\<rparr>" "running s' = c1\<lparr>cpsr := msr_cf (psr u) (cpsr c1)\<rparr>"
    "e = Call n (running u) \<and> hilevel_handler_svc z b (world k m typed) (running u) n = Some (k1, c1) \<or>
     e = Interrupt n (running u) \<and> hilevel_handler_irq (world k m typed) (running u) n = Some (k1, c1)"
    by (rule machine_round [OF w r(1) [unfolded ww]])
  have g: "good (world k m typed, running u)" using w h(1) by (simp add: sound_def runs_def)
  have ns: "\<not> suicide (world k m typed) (running u) n" if "e = Call n (running u)"
    using that r(2) by (simp add: kills_itself_def suicide_def ww)
  have "carries (tbl k) (running u) (tbl k1) c1"
    using h(4) svc_carries(2) [OF g _ ns, of z b k1 c1] irq_carries [OF g, of n k1 c1] by auto
  then have "proc_ctx (tbl k1) c1 p = ctx (blk (tbl k) p)"
    using p(1-3) r(3) h(2) by (simp add: carries_def turn_def ww)
  moreover have "ctx (blk (tbl k) p) = c" using p(2,4) by (simp add: holds_def turn_def ww)
  ultimately show ?thesis using holds_after h(2,3) by (simp add: ww(2))
qed

lemma passes_keep_context:
  assumes "passes z b p w w'" "sound tos_irq tos_svc w" "valid_pid p" "active (tbl (fst w)) p" "holds p c w"
  shows "holds p c w' \<and> sound tos_irq tos_svc w' \<and> active (tbl (fst w')) p"
  using assms
proof (induction rule: passes.induct)
  case (round w w' e w'')
  then show ?case using others_keep_context [of tos_irq tos_svc w'] sound_step [of tos_irq tos_svc w'] by blast
qed simp

text \<open>An interrupt leaves the context of the program it interrupts where \<open>holds\<close> finds it.\<close>

lemma interrupt_holds:
  assumes w: "sound tos_irq tos_svc w" and r: "mstep z b w (Interrupt n u) w'"
  shows "holds (turn w) u w'"
proof -
  obtain k bd s k' bd' s' where ww: "w = (k, bd, s)" "w' = (k', bd', s')" by (metis prod_cases3)
  note w = w [unfolded ww]
  obtain v m typed k1 c1 m' l where h: "runs s v" "k' = k1\<lparr>mem := m'\<rparr>" "running s' = c1\<lparr>cpsr := msr_cf (psr v) (cpsr c1)\<rparr>"
    "Interrupt n u = Call l (running v) \<and> hilevel_handler_svc z b (world k m typed) (running v) l = Some (k1, c1) \<or>
     Interrupt n u = Interrupt l (running v) \<and> hilevel_handler_irq (world k m typed) (running v) l = Some (k1, c1)"
    by (rule machine_round [OF w r [unfolded ww]])
  have g: "good (world k m typed, running v)" "valid_pid (cur (tbl k))"
    using w h(1) cur_valid by (simp_all add: sound_def runs_def)
  have "proc_ctx (tbl k1) c1 (cur (tbl k)) = u"
    using irq_ctx [OF g(1) _ g(2), of l k1 c1] h(4) by (auto simp: proc_ctx_def)
  then show ?thesis using holds_after h(2,3) by (simp add: ww turn_def)
qed

lemma holds_running:
  assumes "holds p c (k, bd, s)" "cur (tbl k) = p"
  shows "gp s = gpr c" "usr_sp s = sp c" "usr_lr s = lr c" "cpu_pc s = pc c" "psr s AND 0xFF0000FF = cpsr c AND 0xFF0000FF"
proof -
  obtain x where x: "running s = c\<lparr>cpsr := msr_cf x (cpsr c)\<rparr>" using assms by (auto simp: holds_def)
  show "gp s = gpr c" using arg_cong [OF x, of gpr] by simp
  show "usr_sp s = sp c" using arg_cong [OF x, of sp] by (simp add: running_def)
  show "usr_lr s = lr c" using arg_cong [OF x, of lr] by (simp add: running_def)
  show "cpu_pc s = pc c" using arg_cong [OF x, of pc] by (simp add: running_def)
  show "psr s AND 0xFF0000FF = cpsr c AND 0xFF0000FF"
    using arg_cong [OF x, of cpsr] by (simp add: running_def msr_and)
qed

end
