(* ===== verification/Uart_Registers.thy ===== *)
theory Uart_Registers
  imports Serial
begin

text \<open>
  The polling routines of \<open>src/question/device/PL011.c\<close> on the registers of \<open>PL011.h\<close> they use, the data register \<open>DR\<close>
  and the flag register \<open>FR\<close>, with both values of the flag \<open>f\<close>. Behind the registers are two FIFOs; while a routine polls, the
  line takes bytes out of the transmit FIFO (\<open>tick\<close>). What has been written but not yet sent makes no difference: the theory
  \<open>Serial\<close>, which every other part of the model uses, is what remains when the transmit FIFO is drained (\<open>drained\<close>).
\<close>

record 'p pl011 =
  tx_fifo :: "u8 list"
  rx_fifo :: "u8 list"
  far_end :: 'p

text \<open>The transmit FIFO has \<open>n\<close> places.\<close>

definition FR :: "nat \<Rightarrow> 'p pl011 \<Rightarrow> u32" where
  "FR n d = (if n \<le> length (tx_fifo d) then 0x20 else 0) OR (if rx_fifo d = [] then 0x10 else 0)"

definition write_DR :: "nat \<Rightarrow> u8 \<Rightarrow> 'p pl011 \<Rightarrow> 'p pl011" where
  "write_DR n x d = (if n \<le> length (tx_fifo d) then d else d\<lparr>tx_fifo := tx_fifo d @ [x]\<rparr>)"

text \<open>What a read of the empty FIFO gives (\<open>stale\<close>) is not defined.\<close>

definition read_DR :: "u8 \<Rightarrow> 'p pl011 \<Rightarrow> u8 \<times> 'p pl011" where
  "read_DR stale d = (case rx_fifo d of [] \<Rightarrow> (stale, d) | r # rs \<Rightarrow> (r, d\<lparr>rx_fifo := rs\<rparr>))"

definition tick :: "'p react \<Rightarrow> 'p pl011 \<Rightarrow> 'p pl011" where
  "tick react d = (case tx_fifo d of
     [] \<Rightarrow> d
   | x # xs \<Rightarrow> (let (p, out) = react (far_end d) x in d\<lparr>tx_fifo := xs, rx_fifo := rx_fifo d @ out, far_end := p\<rparr>))"

definition can_putc :: "nat \<Rightarrow> 'p pl011 \<Rightarrow> bool" where
  "can_putc n d \<longleftrightarrow> \<not> (FR n d AND 0x20 \<noteq> 0)"

definition can_getc :: "nat \<Rightarrow> 'p pl011 \<Rightarrow> bool" where
  "can_getc n d \<longleftrightarrow> \<not> (FR n d AND 0x10 \<noteq> 0)"

text \<open>A loop that waits while a flag is set.\<close>

partial_function (option) poll :: "'p react \<Rightarrow> nat \<Rightarrow> u32 \<Rightarrow> 'p pl011 \<Rightarrow> 'p pl011 option" where
  "poll react n flag d = (if FR n d AND flag \<noteq> 0 then poll react n flag (tick react d) else Some d)"

definition putc :: "'p react \<Rightarrow> nat \<Rightarrow> 'p pl011 \<Rightarrow> u8 \<Rightarrow> bool \<Rightarrow> 'p pl011 option" where
  "putc react n d x f = do {
     d \<leftarrow> (if f then poll react n 0x20 d else Some d);
     Some (write_DR n x d)
   }"

definition getc :: "'p react \<Rightarrow> nat \<Rightarrow> u8 \<Rightarrow> 'p pl011 \<Rightarrow> bool \<Rightarrow> (u8 \<times> 'p pl011) option" where
  "getc react n stale d f = do {
     d \<leftarrow> (if f then poll react n 0x10 d else Some d);
     Some (read_DR stale d)
   }"

definition puth :: "'p react \<Rightarrow> nat \<Rightarrow> 'p pl011 \<Rightarrow> u8 \<Rightarrow> bool \<Rightarrow> 'p pl011 option" where
  "puth react n d x f = do {
     d \<leftarrow> putc react n d (itox (uint (drop_bit 4 x AND 0xF))) f;
     putc react n d (itox (uint (drop_bit 0 x AND 0xF))) f
   }"

definition geth :: "'p react \<Rightarrow> nat \<Rightarrow> u8 \<Rightarrow> 'p pl011 \<Rightarrow> bool \<Rightarrow> (u8 \<times> 'p pl011) option" where
  "geth react n stale d f = do {
     (c1, d) \<leftarrow> getc react n stale d f;
     let r = push_bit 4 (word_of_int (xtoi c1));
     (c2, d) \<leftarrow> getc react n stale d f;
     Some (r OR push_bit 0 (word_of_int (xtoi c2)), d)
   }"

section \<open>What the line sees\<close>

definition drained :: "'p react \<Rightarrow> 'p pl011 \<Rightarrow> 'p uart" where
  "drained react d = foldl (PL011_putc react) \<lparr>rx = rx_fifo d, peer = far_end d\<rparr> (tx_fifo d)"

lemma flags [simp]:
  "FR n d AND 0x20 \<noteq> 0 \<longleftrightarrow> n \<le> length (tx_fifo d)" "FR n d AND 0x10 \<noteq> 0 \<longleftrightarrow> rx_fifo d = []"
  by (simp_all add: FR_def)

lemma drained_tick: "drained react (tick react d) = drained react d"
  by (cases "tx_fifo d") (simp_all add: drained_def tick_def PL011_putc_def split: prod.splits)

lemma length_tick: "tx_fifo d \<noteq> [] \<Longrightarrow> length (tx_fifo (tick react d)) < length (tx_fifo d)"
  by (cases "tx_fifo d") (simp_all add: tick_def split: prod.splits)

text \<open>Waiting for room ends.\<close>

lemma poll_room:
  assumes "0 < n"
  shows "\<exists>d'. poll react n 0x20 d = Some d' \<and> length (tx_fifo d') < n \<and> drained react d' = drained react d"
proof (induction d rule: measure_induct_rule [of "\<lambda>d. length (tx_fifo d)"])
  case (less d)
  show ?case
  proof (cases "n \<le> length (tx_fifo d)")
    case True
    then have "tx_fifo d \<noteq> []" using assms by auto
    from less [OF length_tick [OF this, of react]] show ?thesis
      using True by (subst poll.simps) (simp add: drained_tick)
  qed (subst poll.simps, simp)
qed

lemma putc_blocking:
  assumes "0 < n"
  shows "\<exists>d'. putc react n d x True = Some d' \<and> drained react d' = PL011_putc react (drained react d) x"
proof -
  obtain d' where d': "poll react n 0x20 d = Some d'" "length (tx_fifo d') < n" "drained react d' = drained react d"
    using poll_room [OF assms] by blast
  then have "drained react (write_DR n x d') = PL011_putc react (drained react d) x"
    using d'(2) unfolding d'(3) [symmetric] by (simp add: write_DR_def drained_def)
  then show ?thesis using d'(1) by (simp add: putc_def)
qed

text \<open>Without waiting the byte is lost when the FIFO is full.\<close>

lemma putc_nonblocking:
  "\<exists>d'. putc react n d x False = Some d' \<and>
     drained react d' = (if can_putc n d then PL011_putc react (drained react d) x else drained react d)"
  by (simp add: putc_def write_DR_def drained_def can_putc_def)

text \<open>Waiting for a byte ends exactly when the drained line has one.\<close>

lemma drained_empty: "tx_fifo d = [] \<Longrightarrow> drained react d = \<lparr>rx = rx_fifo d, peer = far_end d\<rparr>"
  by (simp add: drained_def)

lemma drained_rx: "\<exists>out. rx (drained react d) = rx_fifo d @ out"
proof -
  have "\<exists>out. rx (foldl (PL011_putc react) u xs) = rx u @ out" for u xs
  proof (induction xs arbitrary: u)
    case (Cons x xs)
    obtain p out where r: "react (peer u) x = (p, out)" by force
    then have "rx (PL011_putc react u x) = rx u @ out" by (simp add: PL011_putc_def)
    then show ?case using Cons [of "PL011_putc react u x"] by auto
  qed simp
  from this [of "\<lparr>rx = rx_fifo d, peer = far_end d\<rparr>" "tx_fifo d"] show ?thesis by (simp add: drained_def)
qed

lemma poll_byte:
  assumes "rx (drained react d) \<noteq> []"
  shows "\<exists>d'. poll react n 0x10 d = Some d' \<and> rx_fifo d' \<noteq> [] \<and> drained react d' = drained react d"
  using assms
proof (induction d rule: measure_induct_rule [of "\<lambda>d. length (tx_fifo d)"])
  case (less d)
  show ?case
  proof (cases "rx_fifo d = []")
    case True
    then have "tx_fifo d \<noteq> []" using less.prems drained_empty [of d react] by auto
    from less.IH [OF length_tick [OF this, of react]] show ?thesis
      using True less.prems by (subst poll.simps) (simp add: drained_tick)
  qed (subst poll.simps, simp)
qed

lemma poll_returns:
  assumes "poll react n flag d = Some d'"
  shows "drained react d' = drained react d \<and> FR n d' AND flag = 0"
proof (rule poll.raw_induct [where P = "\<lambda>react n flag d d'. drained react d' = drained react d \<and> FR n d' AND flag = 0", OF _ assms], goal_cases)
  case (1 poll' react n flag d d')
  then show ?case by (auto simp: drained_tick split: if_splits)
qed

lemma front_putc: "foldl (PL011_putc react) (u\<lparr>rx := r # rx u\<rparr>) xs =
    (foldl (PL011_putc react) u xs)\<lparr>rx := r # rx (foldl (PL011_putc react) u xs)\<rparr>"
proof (induction xs arbitrary: u)
  case (Cons x xs)
  obtain p out where r: "react (peer u) x = (p, out)" by force
  then have "PL011_putc react (u\<lparr>rx := r # rx u\<rparr>) x = (PL011_putc react u x)\<lparr>rx := r # rx (PL011_putc react u x)\<rparr>"
    by (simp add: PL011_putc_def)
  then show ?case using Cons [of "PL011_putc react u x"] by simp
qed simp

lemma drained_read:
  assumes "rx_fifo d = r # rs"
  shows "PL011_getc (drained react d) = Some (r, drained react (d\<lparr>rx_fifo := rs\<rparr>))"
  using front_putc [of react r "\<lparr>rx = rs, peer = far_end d\<rparr>" "tx_fifo d"] assms
  by (simp add: drained_def PL011_getc_def)

text \<open>A blocking read returns what the drained line has first, and never returns when it has nothing.\<close>

lemma getc_blocking:
  "case PL011_getc (drained react d) of
     None \<Rightarrow> getc react n stale d True = None
   | Some (c, u) \<Rightarrow> \<exists>d'. getc react n stale d True = Some (c, d') \<and> drained react d' = u"
proof (cases "rx (drained react d) = []")
  case True
  have "poll react n 0x10 d = None"
  proof (rule ccontr)
    assume "poll react n 0x10 d \<noteq> None"
    then obtain d' where "poll react n 0x10 d = Some d'" by blast
    from poll_returns [OF this] have "rx_fifo d' \<noteq> []" "drained react d' = drained react d"
      using flags(2) [of n d'] by auto
    then show False using True drained_rx [of react d'] by auto
  qed
  then show ?thesis using True by (simp add: PL011_getc_def getc_def)
next
  case False
  obtain d' r rs where d': "poll react n 0x10 d = Some d'" "rx_fifo d' = r # rs" "drained react d' = drained react d"
    using poll_byte [OF False, of n] by (metis list.exhaust)
  then show ?thesis using drained_read [OF d'(2), of react] by (simp add: getc_def read_DR_def)
qed

text \<open>Hence the transfers in hexadecimal are those of \<open>Serial\<close>.\<close>

lemma puth_blocking:
  assumes "0 < n"
  shows "\<exists>d'. puth react n d x True = Some d' \<and> drained react d' = PL011_puth react (drained react d) x"
proof -
  let ?a = "itox (uint (drop_bit 4 x AND 0xF))" and ?b = "itox (uint (drop_bit 0 x AND 0xF))"
  obtain d1 where d1: "putc react n d ?a True = Some d1" "drained react d1 = PL011_putc react (drained react d) ?a"
    using putc_blocking [OF assms] by blast
  obtain d2 where "putc react n d1 ?b True = Some d2" "drained react d2 = PL011_putc react (drained react d1) ?b"
    using putc_blocking [OF assms] by blast
  then show ?thesis using d1 by (simp add: puth_def PL011_puth_def)
qed

lemma geth_blocking:
  "case PL011_geth (drained react d) of
     None \<Rightarrow> geth react n stale d True = None
   | Some (c, u) \<Rightarrow> \<exists>d'. geth react n stale d True = Some (c, d') \<and> drained react d' = u"
proof (cases "PL011_getc (drained react d)")
  case None
  then show ?thesis using getc_blocking [of react n stale d] by (simp add: PL011_geth_def geth_def)
next
  case (Some r)
  then obtain c1 u1 d1 where 1: "PL011_getc (drained react d) = Some (c1, u1)" "getc react n stale d True = Some (c1, d1)"
    "drained react d1 = u1"
    using getc_blocking [of react n stale d] by (cases r) auto
  show ?thesis
  proof (cases "PL011_getc u1")
    case None
    then show ?thesis using getc_blocking [of react n stale d1] 1 by (simp add: PL011_geth_def geth_def Let_def)
  next
    case (Some r)
    then show ?thesis using getc_blocking [of react n stale d1] 1
      by (cases r) (auto simp: PL011_geth_def geth_def Let_def)
  qed
qed

end
