(* ===== verification/Registers.thy ===== *)
theory Registers
  imports Prelude
begin

text \<open>
  The register structures of the headers under \<open>src/question/device\<close> and the fixed addresses of the sources beside them: where the
  compiler puts each register, and the two routines of \<open>PL050.c\<close>, which poll a status register. A structure is given as
  its declarations; the last argument of a register is the offset that the comment beside it states after the device's manual.
\<close>

section \<open>Structures\<close>

text \<open>\<open>Reg s w c d\<close> declares register \<open>s\<close> as \<open>c\<close> elements of \<open>w\<close> bytes, \<open>Union\<close> several words at one place, and \<open>RSVD y z\<close> the byte
  array of the macro of this name, \<open>uint8_t reserved[z - y + 1]\<close>.\<close>

datatype item = Reg string nat nat nat | Union "(string \<times> nat) list" | RSVD nat nat

text \<open>A member starts at the next multiple of its element size.\<close>

definition align_up :: "nat \<Rightarrow> nat \<Rightarrow> nat" where
  "align_up n w = (n + w - 1) div w * w"

fun item_start :: "nat \<Rightarrow> item \<Rightarrow> nat" where
  "item_start n (Reg s w c d) = align_up n w"
| "item_start n (Union ms) = align_up n 4"
| "item_start n (RSVD y z) = n"

fun item_size :: "item \<Rightarrow> nat" where
  "item_size (Reg s w c d) = w * c"
| "item_size (Union ms) = 4"
| "item_size (RSVD y z) = z - y + 1"

fun item_names :: "item \<Rightarrow> (string \<times> nat) list" where
  "item_names (Reg s w c d) = [(s, d)]"
| "item_names (Union ms) = ms"
| "item_names (RSVD y z) = []"

text \<open>Name, offset and documented offset of every register, and the size of the whole structure.\<close>

fun place :: "nat \<Rightarrow> item list \<Rightarrow> (string \<times> nat \<times> nat) list" where
  "place n [] = []"
| "place n (x # xs) =
     map (\<lambda>(s, d). (s, item_start n x, d)) (item_names x) @ place (item_start n x + item_size x) xs"

definition struct_size :: "item list \<Rightarrow> nat" where
  "struct_size L = align_up (foldl (\<lambda>n x. item_start n x + item_size x) 0 L) 4"

text \<open>The registers that are not where the comment says.\<close>

definition misplaced :: "item list \<Rightarrow> string list" where
  "misplaced L = map fst (filter (\<lambda>(s, a, d). a \<noteq> d) (place 0 L))"

definition offset_of :: "item list \<Rightarrow> string \<Rightarrow> nat option" where
  "offset_of L s = map_of (map (\<lambda>(s, a, d). (s, a)) (place 0 L)) s"

section \<open>The devices\<close>

definition PL011_layout :: "item list" where
  "PL011_layout = [
    Reg ''DR'' 4 1 0x0000, Union [(''RSR'', 0x0004), (''ECR'', 0x0004)], RSVD 0x0008 0x0017, Reg ''FR'' 4 1 0x0018,
    RSVD 0x001C 0x001F, Reg ''LPR'' 4 1 0x0020, Reg ''IBRD'' 4 1 0x0024, Reg ''FBRD'' 4 1 0x0028, Reg ''LCR'' 4 1 0x002C,
    Reg ''CR'' 4 1 0x0030, Reg ''IFLS'' 4 1 0x0034, Reg ''IMSC'' 4 1 0x0038, Reg ''RIS'' 4 1 0x003C, Reg ''MIS'' 4 1 0x0040,
    Reg ''ICR'' 4 1 0x0044, Reg ''DMACR'' 4 1 0x0048, RSVD 0x004C 0x0FDF, Reg ''PeriphID0'' 4 1 0x0FE0,
    Reg ''PeriphID1'' 4 1 0x0FE4, Reg ''PeriphID2'' 4 1 0x0FE8, Reg ''PeriphID3'' 4 1 0x0FEC, Reg ''PCellID0'' 4 1 0x0FF0,
    Reg ''PCellID1'' 4 1 0x0FF4, Reg ''PCellID2'' 4 1 0x0FF8, Reg ''PCellID3'' 4 1 0x0FFC]"

definition SP804_layout :: "item list" where
  "SP804_layout = [
    Reg ''Timer1Load'' 4 1 0x0000, Reg ''Timer1Value'' 4 1 0x0004, Reg ''Timer1Ctrl'' 4 1 0x0008,
    Reg ''Timer1IntClr'' 4 1 0x000C, Reg ''Timer1RIS'' 4 1 0x0010, Reg ''Timer1MIS'' 4 1 0x0014,
    Reg ''Timer1BGLoad'' 4 1 0x0018, RSVD 0x001C 0x001F, Reg ''Timer2Load'' 4 1 0x0020, Reg ''Timer2Value'' 4 1 0x0024,
    Reg ''Timer2Ctrl'' 4 1 0x0028, Reg ''Timer2IntClr'' 4 1 0x002C, Reg ''Timer2RIS'' 4 1 0x0030, Reg ''Timer2MIS'' 4 1 0x0034,
    Reg ''Timer2BGLoad'' 4 1 0x0038, RSVD 0x003C 0x0EFF, Reg ''TimerITCR'' 4 1 0x0F00, Reg ''TimerITOP'' 4 1 0x0F04,
    RSVD 0x0F08 0x0FDF, Reg ''PeriphID0'' 4 1 0x0FE0, Reg ''PeriphID1'' 4 1 0x0FE4, Reg ''PeriphID2'' 4 1 0x0FE8,
    Reg ''PeriphID3'' 4 1 0x0FEC, Reg ''PCellID0'' 4 1 0x0FF0, Reg ''PCellID1'' 4 1 0x0FF4, Reg ''PCellID2'' 4 1 0x0FF8,
    Reg ''PCellID3'' 4 1 0x0FFC]"

definition GICC_layout :: "item list" where
  "GICC_layout = [
    Reg ''CTLR'' 4 1 0x0000, Reg ''PMR'' 4 1 0x0004, Reg ''BPR'' 4 1 0x0008, Reg ''IAR'' 4 1 0x000C, Reg ''EOIR'' 4 1 0x0010,
    Reg ''RPR'' 4 1 0x0014, Reg ''HPPIR'' 4 1 0x0018]"

definition GICD_layout :: "item list" where
  "GICD_layout = [
    Reg ''CTLR'' 4 1 0x0000, Reg ''TYPER'' 4 1 0x0004, RSVD 0x0008 0x00FC, Reg ''ISENABLER0'' 4 1 0x0100,
    Reg ''ISENABLER1'' 4 1 0x0104, Reg ''ISENABLER2'' 4 1 0x0108, RSVD 0x010C 0x017C, Reg ''ICENABLER0'' 4 1 0x0180,
    Reg ''ICENABLER1'' 4 1 0x0184, Reg ''ICENABLER2'' 4 1 0x0188, RSVD 0x018C 0x01FC, Reg ''ISPENDR0'' 4 1 0x0200,
    Reg ''ISPENDR1'' 4 1 0x0204, Reg ''ISPENDR2'' 4 1 0x0208, RSVD 0x020C 0x027C, Reg ''ICPENDR0'' 4 1 0x0280,
    Reg ''ICPENDR1'' 4 1 0x0284, Reg ''ICPENDR2'' 4 1 0x0288, RSVD 0x028C 0x02FC, Reg ''ISACTIVER0'' 4 1 0x0300,
    Reg ''ISACTIVER1'' 4 1 0x0304, Reg ''ISACTIVER2'' 4 1 0x0308, RSVD 0x030C 0x03FC, Reg ''IPRIORITYR'' 4 24 0x0400,
    RSVD 0x0460 0x07FC, Reg ''ITARGETSR'' 4 24 0x0800, RSVD 0x0860 0x0BFC, Reg ''ICFGR0'' 4 1 0x0C00,
    Reg ''ICFGR1'' 4 1 0x0C04, Reg ''ICFGR2'' 4 1 0x0C08, Reg ''ICFGR3'' 4 1 0x0C0C, Reg ''ICFGR4'' 4 1 0x0C10,
    Reg ''ICFGR5'' 4 1 0x0C14, RSVD 0x0C18 0x0EFC, Reg ''SGIR'' 4 1 0x0F00, RSVD 0x0F04 0x0FFC]"

definition SYSCONF_layout :: "item list" where
  "SYSCONF_layout = [
    Reg ''ID'' 4 1 0x0000, Reg ''USERSW'' 4 1 0x0004, Reg ''LED'' 4 1 0x0008, Reg ''OSC0'' 4 1 0x000C, Reg ''OSC1'' 4 1 0x0010,
    Reg ''OSC2'' 4 1 0x0014, Reg ''OSC3'' 4 1 0x0018, Reg ''OSC4'' 4 1 0x001C, Reg ''LOCK'' 4 1 0x0020,
    Reg ''COUNTER_100HZ'' 4 1 0x0024, RSVD 0x0028 0x002C, Union [(''FLAGS'', 0x0030), (''FLAGSSET'', 0x0030)],
    Reg ''FLAGSCLR'' 4 1 0x0034, Union [(''NVFLAGS'', 0x0038), (''NVFLAGSSET'', 0x0038)], Reg ''NVFLAGSCLR'' 4 1 0x003C,
    Reg ''RESETCTL'' 4 1 0x0040, RSVD 0x0044 0x0047, Reg ''MCI'' 4 1 0x0048, Reg ''FLASH'' 4 1 0x004C, Reg ''CLCD'' 4 1 0x0050,
    RSVD 0x0054 0x0057, Reg ''CFGSW'' 4 1 0x0058, Reg ''COUNTER_24MHZ'' 4 1 0x005C, Reg ''MISC'' 4 1 0x0060,
    Reg ''DMAPSR'' 4 1 0x0064, Reg ''PEX_STAT'' 4 1 0x0068, Reg ''PCI_STAT'' 4 1 0x006C, RSVD 0x0070 0x0073,
    Reg ''PLD_CTRL1'' 4 1 0x0074, Reg ''PLD_CTRL2'' 4 1 0x0078, Reg ''PLL_INIT'' 4 1 0x007C, RSVD 0x0080 0x0083,
    Reg ''PROCID0'' 4 1 0x0084, Reg ''PROCID1'' 4 1 0x0088, Reg ''OSCRESET0'' 4 1 0x008C, Reg ''OSCRESET1'' 4 1 0x0090,
    Reg ''OSCRESET2'' 4 1 0x0094, Reg ''OSCRESET3'' 4 1 0x0098, Reg ''OSCRESET4'' 4 1 0x009A, Reg ''VOLTAGE_CTL0'' 4 1 0x00A0,
    Reg ''VOLTAGE_CTL1'' 4 1 0x00A4, Reg ''VOLTAGE_CTL2'' 4 1 0x00A8, Reg ''VOLTAGE_CTL3'' 4 1 0x00AA,
    Reg ''VOLTAGE_CTL4'' 4 1 0x00AC, Reg ''VOLTAGE_CTL5'' 4 1 0x00B0, Reg ''VOLTAGE_CTL6'' 4 1 0x00B4,
    Reg ''VOLTAGE_CTL7'' 4 1 0x00B8, Reg ''VOLTAGE_CTL8'' 4 1 0x00BC, Reg ''TEST_OSC0'' 4 1 0x00C0,
    Reg ''TEST_OSC1'' 4 1 0x00C4, Reg ''TEST_OSC2'' 4 1 0x00C8, Reg ''TEST_OSC3'' 4 1 0x00CC, Reg ''TEST_OSC4'' 4 1 0x00D0,
    Reg ''OSC5'' 4 1 0x00D4, Reg ''OSC6'' 4 1 0x00D8, Reg ''OSCRESET5'' 4 1 0x00DC, Reg ''OSCRESET6'' 4 1 0x00E0,
    Reg ''TEST_OSC5'' 4 1 0x00E4, Reg ''TEST_OSC6'' 4 1 0x00E8, Reg ''OSC7'' 4 1 0x00EC, Reg ''OSCRESET7'' 4 1 0x00F0,
    Reg ''TEST_OSC7'' 4 1 0x00F4, Reg ''DEBUG'' 4 1 0x00F8, Reg ''TESTMODE'' 4 1 0x00FC, Reg ''PLL_RESET'' 4 1 0x0100]"

definition PL050_layout :: "item list" where
  "PL050_layout = [
    Reg ''CR'' 4 1 0x0000, Reg ''STAT'' 4 1 0x0004, Reg ''DATA'' 4 1 0x0008, Reg ''CLKDIV'' 4 1 0x000C, Reg ''IR'' 4 1 0x0010,
    RSVD 0x0008 0x0017, RSVD 0x001C 0x001F, RSVD 0x004C 0x0FDF]"

definition PL111_layout :: "item list" where
  "PL111_layout = [
    Reg ''LCDTiming0'' 4 1 0x0000, Reg ''LCDTiming1'' 4 1 0x0004, Reg ''LCDTiming2'' 4 1 0x0008, Reg ''LCDTiming3'' 4 1 0x000C,
    Reg ''LCDUPBASE'' 4 1 0x0010, Reg ''LCDLPBASE'' 4 1 0x0014, Reg ''LCDControl'' 4 1 0x0018, Reg ''LCDIMSC'' 4 1 0x001C,
    Reg ''LCDRIS'' 4 1 0x0020, Reg ''LCDMIS'' 4 1 0x0024, Reg ''LCDICR'' 4 1 0x0028, Reg ''LCDUPCURR'' 4 1 0x002C,
    Reg ''LCDLPCURR'' 4 1 0x0030, RSVD 0x0034 0x01FC, Reg ''LCDPalette'' 2 256 0x0200, RSVD 0x0400 0x07FC,
    Reg ''ClcdCrsrImage'' 4 256 0x0800, Reg ''ClcdCrsrCtrl'' 4 1 0x0C00, Reg ''ClcdCrsrConfig'' 4 1 0x0C04,
    Reg ''ClcdCrsrPalette0'' 4 1 0x0C08, Reg ''ClcdCrsrPalette1'' 4 1 0x0C0C, Reg ''ClcdCrsrXY'' 4 1 0x0C10,
    Reg ''ClcdCrsrClip'' 4 1 0x0C14, RSVD 0x0C18 0x0C1C, Reg ''ClcdCrsrIMSC'' 4 1 0x0C20, Reg ''ClcdCrsrICR'' 4 1 0x0C24,
    Reg ''ClcdCrsrRIS'' 4 1 0x0C28, Reg ''ClcdCrsrMIS'' 4 1 0x0C2C, RSVD 0x0C30 0x0DFC, RSVD 0x0F00 0x0F08, RSVD 0x0F0C 0x0FDC,
    Reg ''PeriphID0'' 4 1 0x0FE0, Reg ''PeriphID1'' 4 1 0x0FE4, Reg ''PeriphID2'' 4 1 0x0FE8, Reg ''PeriphID3'' 4 1 0x0FEC,
    Reg ''PCellID0'' 4 1 0x0FF0, Reg ''PCellID1'' 4 1 0x0FF4, Reg ''PCellID2'' 4 1 0x0FF8, Reg ''PCellID3'' 4 1 0x0FFC]"

text \<open>The fixed addresses.\<close>

definition UART_base :: "u32 list" where "UART_base = [0x10009000, 0x1000A000, 0x1000B000, 0x1000C000]"
definition TIMER_base :: "u32 list" where "TIMER_base = [0x10011000, 0x10012000, 0x10018000, 0x10019000]"
definition GICC_base :: "u32 list" where "GICC_base = [0x1E000000, 0x1E010000, 0x1E020000, 0x1E030000]"
definition GICD_base :: "u32 list" where "GICD_base = [0x1E001000, 0x1E011000, 0x1E021000, 0x1E031000]"
definition SYSCONF_base :: u32 where "SYSCONF_base = 0x10000000"
definition SYSCTRL_base :: "u32 list" where "SYSCTRL_base = [0x10001000, 0x1001A000]"
definition PS2_base :: "u32 list" where "PS2_base = [0x10006000, 0x10007000]"
definition LCD_base :: u32 where "LCD_base = 0x10020000"

text \<open>All structures with their addresses, in ascending order. \<open>SYSCTRL0\<close> and \<open>SYSCTRL1\<close> point to a word.\<close>

definition device_map :: "(u32 \<times> item list) list" where
  "device_map =
     [(SYSCONF_base, SYSCONF_layout), (SYSCTRL_base ! 0, [Reg ''SYSCTRL0'' 4 1 0]),
      (PS2_base ! 0, PL050_layout), (PS2_base ! 1, PL050_layout)] @
     map (\<lambda>a. (a, PL011_layout)) UART_base @ map (\<lambda>a. (a, SP804_layout)) TIMER_base @
     [(SYSCTRL_base ! 1, [Reg ''SYSCTRL1'' 4 1 0]), (LCD_base, PL111_layout)] @
     concat (map2 (\<lambda>c d. [(c, GICC_layout), (d, GICD_layout)]) GICC_base GICD_base)"

definition register :: "u32 \<Rightarrow> item list \<Rightarrow> string \<Rightarrow> u32 option" where
  "register base L s = map_option (\<lambda>a. base + of_nat a) (offset_of L s)"

lemmas layouts = PL011_layout_def SP804_layout_def GICC_layout_def GICD_layout_def SYSCONF_layout_def PL050_layout_def PL111_layout_def

lemma sizes:
  "struct_size PL011_layout = 0x1000" "struct_size SP804_layout = 0x1000" "struct_size GICC_layout = 0x1C" "struct_size GICD_layout = 0x1000"
  "struct_size SYSCONF_layout = 0x108" "struct_size PL050_layout = 0xFBC" "struct_size PL111_layout = 0xEF4"
  by (simp_all add: struct_size_def layouts align_up_def)

text \<open>The macro leaves a gap of up to three bytes before the end of a reserved range that is given by its words; the alignment
  of the word that follows closes it.\<close>

lemma kernel_registers:
  "misplaced PL011_layout = []" "misplaced SP804_layout = []" "misplaced GICC_layout = []" "misplaced GICD_layout = []"
  by (simp_all add: misplaced_def layouts align_up_def)

text \<open>In the structure of the display the palette has elements of two bytes, so the gap before it is closed only in part, and
  a reserved range is missing before the identification registers. In the comments of the configuration registers two
  offsets are not multiples of four, and those from the second on are below the registers.\<close>

lemma other_registers:
  "misplaced PL050_layout = []"
  "misplaced PL111_layout = map fst (drop 13 (place 0 PL111_layout))"
  "misplaced SYSCONF_layout = ''OSCRESET4'' # map fst (drop 39 (place 0 SYSCONF_layout))"
  "offset_of PL111_layout ''LCDPalette'' = Some 0x1FE" "offset_of PL111_layout ''PeriphID0'' = Some 0xED4"
  "offset_of SYSCONF_layout ''TEST_OSC0'' = Some 0xC4"
  by (simp_all add: misplaced_def offset_of_def layouts align_up_def)

lemma devices_apart: "sorted_wrt (\<lambda>(a, L) (b, M). uint a + int (struct_size L) \<le> uint b) device_map"
  unfolding device_map_def UART_base_def TIMER_base_def GICC_base_def GICD_base_def SYSCONF_base_def SYSCTRL_base_def PS2_base_def LCD_base_def
  by (simp add: sizes) (simp add: struct_size_def align_up_def)

section \<open>Keyboard and mouse\<close>

text \<open>The device is a parameter: its status register, what time does to it, and what reading and writing the data register do.\<close>

partial_function (option) PL050_wait :: "('d \<Rightarrow> u32) \<Rightarrow> ('d \<Rightarrow> 'd) \<Rightarrow> u32 \<Rightarrow> 'd \<Rightarrow> 'd option" where
  "PL050_wait STAT tick flag d = (if \<not> (STAT d AND flag \<noteq> 0) then PL050_wait STAT tick flag (tick d) else Some d)"

definition PL050_putc :: "('d \<Rightarrow> u32) \<Rightarrow> ('d \<Rightarrow> 'd) \<Rightarrow> (u8 \<Rightarrow> 'd \<Rightarrow> 'd) \<Rightarrow> 'd \<Rightarrow> u8 \<Rightarrow> 'd option" where
  "PL050_putc STAT tick write_DATA d x = do {
     d \<leftarrow> PL050_wait STAT tick 0x40 d;
     Some (write_DATA x d)
   }"

definition PL050_getc :: "('d \<Rightarrow> u32) \<Rightarrow> ('d \<Rightarrow> 'd) \<Rightarrow> ('d \<Rightarrow> u8 \<times> 'd) \<Rightarrow> 'd \<Rightarrow> (u8 \<times> 'd) option" where
  "PL050_getc STAT tick read_DATA d = do {
     d \<leftarrow> PL050_wait STAT tick 0x10 d;
     Some (read_DATA d)
   }"

text \<open>The wait ends at the first moment the flag is set, if there is one.\<close>

lemma PL050_wait_ends:
  assumes "STAT ((tick ^^ n) d) AND flag \<noteq> 0" "\<forall>m < n. STAT ((tick ^^ m) d) AND flag = 0"
  shows "PL050_wait STAT tick flag d = Some ((tick ^^ n) d)"
  using assms
proof (induction n arbitrary: d)
  case (Suc n)
  have s: "(tick ^^ m) (tick d) = (tick ^^ Suc m) d" for m by (simp add: funpow_swap1)
  have "STAT d AND flag = 0" using Suc.prems(2) by (auto dest: spec [of _ 0])
  moreover have "PL050_wait STAT tick flag (tick d) = Some ((tick ^^ n) (tick d))"
    using Suc.prems by (intro Suc.IH) (simp_all only: s, auto)
  ultimately show ?case by (subst PL050_wait.simps) (simp add: s del: funpow.simps)
qed (subst PL050_wait.simps, simp)

lemma PL050_wait_hangs:
  assumes "\<forall>n. STAT ((tick ^^ n) d) AND flag = 0"
  shows "PL050_wait STAT tick flag d = None"
proof (rule ccontr)
  assume "PL050_wait STAT tick flag d \<noteq> None"
  then obtain d' where r: "PL050_wait STAT tick flag d = Some d'" by blast
  have "\<exists>n. STAT ((tick ^^ n) d) AND flag \<noteq> 0"
  proof (rule PL050_wait.raw_induct [where P = "\<lambda>STAT tick flag d d'. \<exists>n. STAT ((tick ^^ n) d) AND flag \<noteq> 0", OF _ r], goal_cases)
    case (1 wait STAT tick flag d d')
    show ?case
    proof (cases "STAT d AND flag = 0")
      case True
      then have "wait STAT tick flag (tick d) = Some d'" using 1(2) by simp
      from 1(1) [OF this] obtain n where "STAT ((tick ^^ n) (tick d)) AND flag \<noteq> 0" by blast
      then show ?thesis by (intro exI [of _ "Suc n"]) (simp add: funpow_swap1)
    qed (auto intro: exI [of _ 0])
  qed
  then show False using assms by simp
qed

end
