(* ===== verification/Machine_Properties.thy ===== *)
theory Machine_Properties
  imports Demo Machine Uart_Registers Registers
begin

text \<open>
  The properties of the machine level: what an exception does to the program it interrupts, what a reset leaves, the serial
  driver on the registers of its device, and the addresses of the registers.
\<close>

section \<open>A processor to instantiate them on\<close>

definition demo_cpu :: cpu where
  "demo_cpu = \<lparr>gp = replicate 13 7, usr_sp = 0x8000, usr_lr = 0x1234,
     svc_bank = \<lparr>b_sp = 0x10000, b_lr = 0, b_spsr = 0\<rparr>, irq_bank = \<lparr>b_sp = 0x20000, b_lr = 0, b_spsr = 0\<rparr>,
     psr = 0x50, cpu_pc = 0x1004\<rparr>"

definition demo_board :: board where
  "demo_board = \<lparr>
     TIMER0 = \<lparr>Timer1Load = 0, Timer1Value = 0, Timer1Ctrl = 0, Timer1IntClr = 0, Timer1RIS = 0, Timer1MIS = 0, Timer1BGLoad = 0,
       Timer2Load = 0, Timer2Value = 0, Timer2Ctrl = 0, Timer2IntClr = 0, Timer2RIS = 0, Timer2MIS = 0, Timer2BGLoad = 0,
       TimerITCR = 0, TimerITOP = 0,
       PeriphID0 = 0, PeriphID1 = 0, PeriphID2 = 0, PeriphID3 = 0, PCellID0 = 0, PCellID1 = 0, PCellID2 = 0, PCellID3 = 0\<rparr>,
     GICC0 = \<lparr>GICC_CTLR = 0, PMR = 0, BPR = 0, IAR = 36, EOIR = 0, RPR = 0, HPPIR = 0\<rparr>,
     GICD0 = \<lparr>GICD_CTLR = 0, TYPER = 0, ISENABLER0 = 0, ISENABLER1 = 0, ISENABLER2 = 0, ICENABLER0 = 0, ICENABLER1 = 0,
       ICENABLER2 = 0, ISPENDR0 = 0, ISPENDR1 = 0, ISPENDR2 = 0, ICPENDR0 = 0, ICPENDR1 = 0, ICPENDR2 = 0, ISACTIVER0 = 0,
       ISACTIVER1 = 0, ISACTIVER2 = 0, IPRIORITYR = replicate 24 0, ITARGETSR = replicate 24 0,
       ICFGR0 = 0, ICFGR1 = 0, ICFGR2 = 0, ICFGR3 = 0, ICFGR4 = 0, ICFGR5 = 0, SGIR = 0\<rparr>\<rparr>"

lemma demo_cpu_simps [simp]:
  "length (gp demo_cpu) = 13" "cpu_pc demo_cpu = 0x1004" "psr demo_cpu = 0x50" "b_sp (svc_bank demo_cpu) = 0x10000"
  "b_sp (irq_bank demo_cpu) = 0x20000" "length (gpr (running demo_cpu)) = 13"
  by (simp_all add: demo_cpu_def running_def)

lemma demo_power_on: "power_on demo_board" "IAR (GICC0 demo_board) = GIC_SOURCE_TIMER0"
  by (simp_all add: power_on_def demo_board_def GIC_SOURCE_TIMER0_def)

section \<open>The properties\<close>

text \<open>C21. A system call is transparent: the handler in C receives exactly the context of the program that executed the
  instruction, as it was saved on the stack of the supervisor mode, and the number in that instruction, and the processor continues with the context
  that is then on the stack, up to the middle bytes of the status register, which the
  restoring instruction does not write. That is the context which the handler leaves (of this program or of the one the scheduler chose), unless a
  call that answers in \<open>r0\<close> has stored over the saved context: then everything but \<open>r0\<close> is what it stored. The
  stack pointer of the supervisor mode and the registers of the interrupt mode are as before.\<close>

theorem system_call_is_transparent:
  assumes "length (gp s) = 13" "length (fst j) = 13" "procs_wf (tbl k)"
    and "a = b_sp (svc_bank s) - 68" "m = write_ctx (mem k) a (running s)" "n = ldw m (cpu_pc s - 4) AND NOT 0xFF000000"
    and "hilevel_handler_svc z b (k\<lparr>mem := m\<rparr>) (running s) n = Some (k', c')"
  shows "\<exists>s' m' u. lolevel_handler_svc z b j (k, take_svc s) = Some (k'\<lparr>mem := m'\<rparr>, s') \<and>
    running s' = u\<lparr>cpsr := msr_cf (psr s) (cpsr u)\<rparr> \<and> b_sp (svc_bank s') = b_sp (svc_bank s) \<and> irq_bank s' = irq_bank s \<and>
    (if answers n \<and> read_ctx (mem k') a \<noteq> running s then m' = stw (mem k') (a + 8) (gpr c' ! 0) \<and>
       u = (read_ctx (mem k') a)\<lparr>gpr := (gpr (read_ctx (mem k') a))[0 := gpr c' ! 0]\<rparr>
     else m' = write_ctx (mem k') a c' \<and> u = c')"
proof -
  let ?m = "leave_ctx n (mem k') a c'"
  obtain s' where s': "lolevel_handler_svc z b j (k, take_svc s) = Some (k'\<lparr>mem := ?m\<rparr>, s')"
    "running s' = (read_ctx ?m a)\<lparr>cpsr := msr_cf (psr s) (cpsr (read_ctx ?m a))\<rparr>"
    "b_sp (svc_bank s') = b_sp (svc_bank s)" "irq_bank s' = irq_bank s"
    by (rule svc_spec [OF assms(1,2,4-7) refl])
  have "good (k\<lparr>mem := m\<rparr>, running s)" using assms(1,3) by simp
  then have c: "length (gpr c') = 13" using svc_good [OF _ assms(7)] by simp
  show ?thesis
  proof (cases "answers n \<and> read_ctx (mem k') a \<noteq> running s")
    case True
    then have m: "?m = stw (mem k') (a + 8) (gpr c' ! 0)" by (simp add: leave_ctx_def)
    have "read_ctx ?m a = (read_ctx (mem k') a)\<lparr>gpr := (gpr (read_ctx (mem k') a))[0 := gpr c' ! 0]\<rparr>"
      unfolding m answer_written [OF refl] by (rule read_write_ctx) (simp add: read_ctx_words(2))
    then show ?thesis using s' True m by metis
  next
    case False
    then have "?m = write_ctx (mem k') a c'" "read_ctx ?m a = c'"
      using leave_ctx_spared [OF _ assms(7) c, of a] assms(1) by auto
    then show ?thesis using s' False by metis
  qed
qed

text \<open>The supervisor call 0, \<open>yield\<close>, at address 0x1000.\<close>

lemma demo_yield:
  defines "k \<equiv> (demo_kernel demo)\<lparr>mem := write_ctx (\<lambda>_. 0) 0xFFBC (running demo_cpu)\<rparr>"
  obtains k' c' where "sys_yield k (running demo_cpu) = Some (k', c')"
    "hilevel_handler_svc z b k (running demo_cpu) (ldw (mem k) (cpu_pc demo_cpu - 4) AND NOT 0xFF000000) = Some (k', c')"
    "ldw (mem k) (cpu_pc demo_cpu - 4) AND NOT 0xFF000000 = SYS_YIELD"
proof -
  have t: "procs_wf (tbl k)" "length (gpr (running demo_cpu)) = 13" by (simp_all add: k_def)
  let ?b = "blk (tbl k) (cur (tbl k))"
  have "procs_wf (upd (tbl k) (cur (tbl k)) (?b\<lparr>prio := (prio ?b)\<lparr>time_left := 0\<rparr>\<rparr>))"
    using t(1) cur_valid [OF t(1)] by (intro procs_wf_upd pcb_wf_prio wf_blk wf_table)
  then obtain s' c' where "scheduler (upd (tbl k) (cur (tbl k)) (?b\<lparr>prio := (prio ?b)\<lparr>time_left := 0\<rparr>\<rparr>)) (running demo_cpu) = Some (s', c')"
    by (rule scheduler_total [OF _ t(2)])
  then have y: "sys_yield k (running demo_cpu) = Some (k\<lparr>tbl := s'\<rparr>, c')"
    using t(1) by (simp add: sys_yield_def mod_current_upd)
  have n: "4 * 1025 \<le> unat (0xFFBC :: u32)" "unat (0xFFBC :: u32) + 4 * length (cpsr (running demo_cpu) # pc (running demo_cpu) #
      gpr (running demo_cpu) @ [sp (running demo_cpu), lr (running demo_cpu)]) \<le> 2 ^ 32" by simp_all
  have "ldm (mem k) 0 1025 ! 1024 = ldm (\<lambda>_. 0) 0 1025 ! 1024"
    using stm_low [OF n, of "\<lambda>_. 0"] by (simp add: k_def write_ctx_def)
  then have "ldw (mem k) 0x1000 = ldw (\<lambda>_. 0) 0x1000" by (simp add: ldm_def)
  then have n: "ldw (mem k) (cpu_pc demo_cpu - 4) AND NOT 0xFF000000 = SYS_YIELD"
    by (simp add: ldw_def load_bytes_def word_of_bytes_def SYS_YIELD_def upto_rec1)
  show thesis by (rule that [OF y _ n]) (use y t(2) n in \<open>simp add: hilevel_handler_svc_def rd_Some sys_nums\<close>)
qed

theorem system_call_is_transparent_witness:
  "\<exists>k' c' s'. sys_yield ((demo_kernel demo)\<lparr>mem := write_ctx (\<lambda>_. 0) 0xFFBC (running demo_cpu)\<rparr>) (running demo_cpu) = Some (k', c') \<and>
    lolevel_handler_svc demo_stack [] (replicate 13 9, 9) (demo_kernel demo, take_svc demo_cpu) = Some (k'\<lparr>mem := write_ctx (mem k') 0xFFBC c'\<rparr>, s') \<and>
    running s' = c'\<lparr>cpsr := msr_cf 0x50 (cpsr c')\<rparr>"
proof -
  let ?k = "(demo_kernel demo)\<lparr>mem := write_ctx (\<lambda>_. 0) 0xFFBC (running demo_cpu)\<rparr>"
  obtain k' c' where y: "sys_yield ?k (running demo_cpu) = Some (k', c')"
    "hilevel_handler_svc demo_stack [] ?k (running demo_cpu) (ldw (mem ?k) (cpu_pc demo_cpu - 4) AND NOT 0xFF000000) = Some (k', c')"
    "ldw (mem ?k) (cpu_pc demo_cpu - 4) AND NOT 0xFF000000 = SYS_YIELD"
    by (rule demo_yield)
  have m: "mem (demo_kernel demo) = (\<lambda>_. 0)" by (simp add: demo_kernel_def)
  have n: "\<not> answers (ldw (mem ?k) (cpu_pc demo_cpu - 4) AND NOT 0xFF000000)" unfolding y(3) by (simp add: answers_def sys_nums)
  from system_call_is_transparent [of demo_cpu "(replicate 13 9, 9)" "demo_kernel demo" "0xFFBC", OF _ _ _ _ refl refl, of demo_stack "[]" k' c']
  show ?thesis using y(1,2) n by (fastforce simp: m)
qed

text \<open>C22. An interrupt is transparent: the handler receives the context of the interrupted program with the address of the
  instruction that was not executed, and the processor continues with the context that the handler leaves; the stack pointer of
  the interrupt mode and the registers of the supervisor mode are as before.\<close>

theorem interrupt_is_transparent:
  assumes "length (gp s) = 13" "length (fst j) = 13" "procs_wf (tbl k)"
    and "a = b_sp (irq_bank s) - 68" "m = write_ctx (mem k) a (running s)"
    and "handler_irq (k\<lparr>mem := m\<rparr>) (running s) b = Some (k', c', b')"
  shows "\<exists>s'. lolevel_handler_irq j (k, b, take_irq s) = Some (k'\<lparr>mem := write_ctx (mem k') a c'\<rparr>, b', s') \<and>
    running s' = c'\<lparr>cpsr := msr_cf (psr s) (cpsr c')\<rparr> \<and> b_sp (irq_bank s') = b_sp (irq_bank s) \<and> svc_bank s' = svc_bank s"
  using irq_spec [OF assms] by metis

theorem interrupt_is_transparent_witness:
  "\<exists>k' c' s'. scheduler (demo\<lparr>BURSTS := 1\<rparr>) (running demo_cpu) = Some (tbl k', c') \<and>
    lolevel_handler_irq (replicate 13 9, 9) (demo_kernel demo, demo_board, take_irq demo_cpu) =
      Some (k'\<lparr>mem := write_ctx (mem k') 0x1FFBC c'\<rparr>, demo_board\<lparr>TIMER0 := (TIMER0 demo_board)\<lparr>Timer1IntClr := 1\<rparr>,
        GICC0 := (GICC0 demo_board)\<lparr>EOIR := 36\<rparr>\<rparr>, s') \<and>
    running s' = c'\<lparr>cpsr := msr_cf 0x50 (cpsr c')\<rparr>"
proof -
  let ?m = "write_ctx (\<lambda>_. 0) 0x1FFBC (running demo_cpu)" and ?k = "demo_kernel demo"
  have "procs_wf (demo\<lparr>BURSTS := 1\<rparr>)" using demo_wf by (simp add: procs_wf_def table_wf_def)
  then obtain t c' where t: "scheduler (demo\<lparr>BURSTS := 1\<rparr>) (running demo_cpu) = Some (t, c')"
    by (rule scheduler_total [of _ "running demo_cpu"]) simp
  have m: "mem ?k = (\<lambda>_. 0)" "BURSTS demo = 0" by (simp_all add: demo_kernel_def demo_def)
  let ?b = "demo_board\<lparr>TIMER0 := (TIMER0 demo_board)\<lparr>Timer1IntClr := 1\<rparr>, GICC0 := (GICC0 demo_board)\<lparr>EOIR := 36\<rparr>\<rparr>"
  have "hilevel_handler_irq (?k\<lparr>mem := ?m\<rparr>) (running demo_cpu) GIC_SOURCE_TIMER0 = Some (?k\<lparr>mem := ?m, tbl := t\<rparr>, c')"
    using t by (simp add: hilevel_handler_irq_def m(2) i32_id)
  then have h: "handler_irq (?k\<lparr>mem := ?m\<rparr>) (running demo_cpu) demo_board = Some (?k\<lparr>mem := ?m, tbl := t\<rparr>, c', ?b)"
    by (simp add: handler_irq_def demo_power_on(2)) (simp add: GIC_SOURCE_TIMER0_def)
  have pre: "length (gp demo_cpu) = 13" "length (fst (replicate 13 (9 :: u32), 9 :: u32)) = 13" "procs_wf (tbl ?k)"
    "0x1FFBC = b_sp (irq_bank demo_cpu) - 68" "?m = write_ctx (mem ?k) 0x1FFBC (running demo_cpu)" by (simp_all add: m)
  obtain s' where "lolevel_handler_irq (replicate 13 9, 9) (?k, demo_board, take_irq demo_cpu) =
      Some ((?k\<lparr>mem := ?m, tbl := t\<rparr>)\<lparr>mem := write_ctx (mem (?k\<lparr>mem := ?m, tbl := t\<rparr>)) 0x1FFBC c'\<rparr>, ?b, s')"
    "running s' = c'\<lparr>cpsr := msr_cf 0x50 (cpsr c')\<rparr>"
    using interrupt_is_transparent [OF pre h] by auto
  moreover have "scheduler (demo\<lparr>BURSTS := 1\<rparr>) (running demo_cpu) = Some (tbl (?k\<lparr>mem := ?m, tbl := t\<rparr>), c')" using t by simp
  ultimately show ?thesis by blast
qed

text \<open>C23. A reset from the power-on state of the interrupt controller starts the machine: the vector table at address 0 takes a
  reset, a supervisor call and an interrupt to their handlers and every other exception to an endless loop, both exception stacks are set, the timer ticks, its interrupt is the only one the controller forwards, and the processor runs
  the console as process 1, interactive, in user mode with interrupts enabled (the low byte of the status register is 0x50), with
  all other slots of a well-formed process table free.\<close>

theorem reset_starts_machine:
  assumes "length (pcb (tbl k)) = 30" "length (sps (tbl k)) = 30" "length (fst j) = 13" "power_on b"
    and "44 \<le> unat int_data" "unat int_data + 44 \<le> 2 ^ 32" "112 \<le> unat tos_svc"
    and "ldm (mem k) int_data 11 = int_data_words rst svc irq"
  shows "\<exists>k' b' s'. lolevel_handler_rst int_data (int_data + 44) tos_irq tos_svc main_console j (k, b, s) = Some (k', b', s') \<and>
    enters (mem k') 0 = Some rst \<and> enters (mem k') 0x08 = Some svc \<and> enters (mem k') 0x18 = Some irq \<and>
    (\<forall>v \<in> {0x04, 0x0C, 0x10, 0x14, 0x1C}. enters (mem k') v = Some v) \<and> b_sp (svc_bank s') = tos_svc \<and> b_sp (irq_bank s') = tos_irq \<and>
    ticks (TIMER0 b') \<and> (\<forall>n < 96. forwards b' n \<longleftrightarrow> n = unat GIC_SOURCE_TIMER0) \<and>
    cpu_pc s' = main_console \<and> psr s' AND 0xFF = 0x50 \<and> procs_wf (tbl k') \<and> cur (tbl k') = 1 \<and>
    class_of (tbl k') 1 = INTERACTIVE \<and> (\<forall>p. 2 \<le> p \<and> p \<le> 30 \<longrightarrow> \<not> active (tbl k') p)"
proof -
  from rst_spec [OF assms(1-3,5,6), of tos_irq tos_svc main_console b s]
  obtain k' c s' where r: "lolevel_handler_rst int_data (int_data + 44) tos_irq tos_svc main_console j (k, b, s) = Some (k', configure_board b, s')"
    "running s' = c\<lparr>cpsr := msr_cf (b_spsr (svc_bank s)) 0x50\<rparr>" "pc c = main_console" "ctx (blk (tbl k') 1) = c" "cur (tbl k') = 1"
    "b_sp (svc_bank s') = tos_svc" "b_sp (irq_bank s') = tos_irq"
    "procs_wf (tbl k')" "class_of (tbl k') 1 = INTERACTIVE" "\<forall>p. 2 \<le> p \<and> p \<le> 30 \<longrightarrow> \<not> active (tbl k') p"
    "mem k' = write_ctx (stm (mem k) 0 (ldm (mem k) int_data 11)) (tos_svc - 68) c" by blast
  have "ctx_t.cpsr (running s') = msr_cf (b_spsr (svc_bank s)) 0x50" "pc (running s') = main_console" using r(2,3) by simp_all
  then have p: "psr s' AND 0xFF = 0x50" "cpu_pc s' = main_console" by (simp_all add: running_def msr_low)
  let ?ws = "cpsr c # pc c # gpr c @ [sp c, lr c]"
  have len: "length (gpr c) = 13" using pcb_wf_gpr [OF wf_table [OF r(8)], of 1] r(4) by simp
  have "unat tos_svc < 2 ^ 32" using unsigned_less [of tos_svc] by simp
  moreover have "unat (tos_svc - 68) = unat tos_svc - 68" using assms(7) by (simp add: unat_sub_if')
  ultimately have "4 * 11 \<le> unat (tos_svc - 68)" "unat (tos_svc - 68) + 4 * length ?ws \<le> 2 ^ 32"
    using assms(7) len by simp_all
  from stm_low [OF this, of "stm (mem k) 0 (ldm (mem k) int_data 11)"]
  have "ldm (mem k') 0 11 = int_data_words rst svc irq"
    using ldm_stm [of "ldm (mem k) int_data 11" "mem k" 0] assms(8) by (simp add: r(11) write_ctx_def)
  from vector_table [OF this] show ?thesis using r(1,5-10) p configured_ticks configured_forwards [OF assms(4)] by blast
qed

theorem reset_starts_machine_witness:
  "\<exists>k' b' s'. lolevel_handler_rst 0x100 0x12C 0x20000 0x10000 0x1000 (replicate 13 9, 9)
        ((demo_kernel demo)\<lparr>mem := stm (\<lambda>_. 0) 0x100 (int_data_words 0x200 0x300 0x400)\<rparr>, demo_board, demo_cpu) = Some (k', b', s') \<and>
      cpu_pc s' = 0x1000 \<and> forwards b' 36 \<and> \<not> forwards b' 37 \<and> enters (mem k') 0x18 = Some 0x400 \<and> enters (mem k') 0x0C = Some 0x0C"
proof -
  let ?ws = "int_data_words 0x200 0x300 0x400" and ?k = "(demo_kernel demo)\<lparr>mem := stm (\<lambda>_. 0) 0x100 (int_data_words 0x200 0x300 0x400)\<rparr>"
  have "ldm (mem ?k) 0x100 11 = ?ws" using ldm_stm [of ?ws "\<lambda>_. 0" "0x100"] by simp
  from reset_starts_machine [OF _ _ _ _ _ _ _ this, of "(replicate 13 9, 9)" demo_board "0x10000" "0x20000" "0x1000" demo_cpu]
  show ?thesis by (fastforce simp: demo_lengths demo_power_on GIC_SOURCE_TIMER0_def)
qed

section \<open>Runs of the machine\<close>

lemma demo_booted:
  obtains k c s where "lolevel_handler_rst 0x100 0x12C 0x20000 0x10000 0x1000 (replicate 13 9, 9) (demo_kernel demo, demo_board, demo_cpu) =
      Some (k, configure_board demo_board, s)"
    "booted demo_stack [] 0x20000 0x10000 (k, configure_board demo_board, s)" "running s = c\<lparr>cpsr := 0x50\<rparr>" "pc c = 0x1000"
    "cur (tbl k) = 1" "procs_wf (tbl k)" "\<forall>p. 2 \<le> p \<and> p \<le> 30 \<longrightarrow> \<not> active (tbl k) p" "ctx (blk (tbl k) 1) = c" "length (gpr c) = 13"
    "b_sp (svc_bank s) = 0x10000" "class_of (tbl k) 1 = INTERACTIVE" "wait_of (tbl k) 1 = 0"
proof -
  have pre: "length (pcb (tbl (demo_kernel demo))) = 30" "length (sps (tbl (demo_kernel demo))) = 30"
    "length (fst (replicate 13 9 :: u32 list, 9 :: u32)) = 13" "44 \<le> unat (0x100 :: u32)" "unat (0x100 :: u32) + 44 \<le> 2 ^ 32"
    by (simp_all add: demo_lengths)
  obtain k c s where r: "lolevel_handler_rst 0x100 (0x100 + 44) 0x20000 0x10000 0x1000 (replicate 13 9, 9) (demo_kernel demo, demo_board, demo_cpu) =
      Some (k, configure_board demo_board, s)" "running s = c\<lparr>cpsr := msr_cf (b_spsr (svc_bank demo_cpu)) 0x50\<rparr>" "pc c = 0x1000"
    "ctx (blk (tbl k) 1) = c" "cur (tbl k) = 1" "b_sp (svc_bank s) = 0x10000" "b_sp (irq_bank s) = 0x20000" "procs_wf (tbl k)"
    "class_of (tbl k) 1 = INTERACTIVE" "\<forall>p. 2 \<le> p \<and> p \<le> 30 \<longrightarrow> \<not> active (tbl k) p" "wait_of (tbl k) 1 = 0"
    by (rule rst_spec [OF pre, of "0x20000" "0x10000" "0x1000" demo_board demo_cpu])
  note b = booted.reset [OF pre r(1)]
  have "length (gpr c) = 13" using pcb_wf_gpr [OF wf_table [OF r(8)], of 1] r(4) by simp
  then show thesis using r b by (intro that [of k s c]) (simp_all add: demo_cpu_def msr_cf_def)
qed

text \<open>C24. The machine refines the kernel: in every state that a reset and any rounds of programs and exceptions reach, the kernel data are
  those of a state that the handlers in C alone reach, and the processor runs the context that the handler in C left, up to the
  middle bytes of the status register. The programs are arbitrary but for two things: they leave the vector table alone, and no
  \<open>read\<close>, \<open>ls\<close> or \<open>stat\<close> of theirs stores into the context saved for it (\<open>spares\<close>).\<close>

theorem machine_refines_kernel:
  assumes "booted z b tos_irq tos_svc (k, bd, s)"
  shows "\<exists>k0 c p. reachable z b (k0, c) \<and> k = k0\<lparr>mem := mem k\<rparr> \<and> running s = c\<lparr>cpsr := msr_cf p (cpsr c)\<rparr>"
proof -
  obtain kc where "reachable z b kc" "refines (k, bd, s) kc" using booted_sound [OF assms] by blast
  then show ?thesis by (cases kc) (auto simp: refines_def)
qed

theorem machine_refines_kernel_witness:
  "\<exists>k s k0 c. lolevel_handler_rst 0x100 0x12C 0x20000 0x10000 0x1000 (replicate 13 9, 9) (demo_kernel demo, demo_board, demo_cpu) =
      Some (k, configure_board demo_board, s) \<and> reachable demo_stack [] (k0, c) \<and> tbl k = tbl k0 \<and> cpu_pc s = pc c"
proof -
  obtain k s where d: "lolevel_handler_rst 0x100 0x12C 0x20000 0x10000 0x1000 (replicate 13 9, 9) (demo_kernel demo, demo_board, demo_cpu) =
      Some (k, configure_board demo_board, s)" "booted demo_stack [] 0x20000 0x10000 (k, configure_board demo_board, s)"
    by (rule demo_booted)
  from machine_refines_kernel [OF d(2)] obtain k0 c p where r: "reachable demo_stack [] (k0, c)" "k = k0\<lparr>mem := mem k\<rparr>"
    "running s = c\<lparr>cpsr := msr_cf p (cpsr c)\<rparr>" by blast
  have "tbl k = tbl k0" using arg_cong [OF r(2), of tbl] by simp
  moreover have "cpu_pc s = pc c" using arg_cong [OF r(3), of pc] by (simp add: running_def)
  ultimately show ?thesis using d(1) r(1) by blast
qed



text \<open>A run with two processes: the console forks, the child is interrupted at the end of its time slice, the console yields.\<close>

lemma demo_fork:
  obtains k s t where "booted demo_stack [] 0x20000 0x10000 (k, configure_board demo_board, s)" "tbl k = t" "procs_wf t" "cur t = 2"
    "b_sp (svc_bank s) = 0x10000" "length (gp s) = 13" "cpu_pc s = 0x1000" "pc (ctx (blk t 1)) = 0x1000" "time_left (prio (blk t 2)) = 0"
    "class_of t 1 = INTERACTIVE" "class_of t 2 = BACKGROUND" "wait_of t 1 = 0" "wait_of t 2 = 0" "\<forall>p. 3 \<le> p \<and> p \<le> 30 \<longrightarrow> \<not> active t p"
proof -
  obtain k c s where d: "booted demo_stack [] 0x20000 0x10000 (k, configure_board demo_board, s)" "running s = c\<lparr>cpsr := 0x50\<rparr>" "pc c = 0x1000"
    "cur (tbl k) = 1" "procs_wf (tbl k)" "\<forall>p. 2 \<le> p \<and> p \<le> 30 \<longrightarrow> \<not> active (tbl k) p" "ctx (blk (tbl k) 1) = c" "length (gpr c) = 13"
    "b_sp (svc_bank s) = 0x10000" "class_of (tbl k) 1 = INTERACTIVE" "wait_of (tbl k) 1 = 0" by (rule demo_booted)
  define m :: "u32 \<Rightarrow> u8" where "m = (\<lambda>a. if a = 0xFFC then 3 else 0)"
  have s: "length (gp s) = 13" "cpu_pc s = 0x1000"
    using arg_cong [OF d(2), of gpr] arg_cong [OF d(2), of pc] d(3,8) by (simp_all add: running_def)
  have r: "runs s s" using s(1) by (simp add: runs_def)
  have "ldw m 0xFFC AND NOT 0xFF000000 = 3"
    by (simp add: ldw_def load_bytes_def word_of_bytes_def upto_rec1 m_def u32_of_int_def)
  then have n: "svc_number m s = SYS_FORK" using svc_number_low [OF s(1), of 1023 m] s(2) d(9) by (simp add: SYS_FORK_def)
  let ?k = "world k (svc_memory m s) []" and ?u = "running s"
  have pre: "procs_wf (tbl ?k)" "length (gpr ?u) = 13" "valid_pid 2" "\<not> active (tbl ?k) 2" "active (tbl ?k) (cur (tbl ?k))"
    using d(3-7) s(1) by (simp_all add: active_def)
  have low: "\<forall>q. 1 \<le> q \<and> q < 2 \<longrightarrow> active (tbl ?k) q"
  proof clarify
    fix q :: int assume "1 \<le> q" "q < 2"
    then have "q = 1" by simp
    then show "active (tbl ?k) q" using d(4) pre(5) by simp
  qed
  obtain t where t: "sys_fork ?k ?u = Some (?k\<lparr>tbl := t\<rparr>, with_r0 ?u 0)" "procs_wf t" "cur t = 2"
    "blk t 2 = (fresh_pcb (tbl k) 2 1)\<lparr>ctx := with_r0 ?u 0\<rparr>" "blk t 1 = (blk (tbl k) 1)\<lparr>ctx := with_r0 ?u (word_of_int 2)\<rparr>"
    "\<forall>q. valid_pid q \<and> q \<noteq> 2 \<and> q \<noteq> 1 \<longrightarrow> blk t q = blk (tbl k) q"
    using fork_ok [OF pre(1-4) low pre(5)] d(4) by auto
  have "svc_number m s \<notin> {SYS_READ, SYS_LS, SYS_STAT}" by (simp add: n sys_nums)
  note sp = spares_others [OF this]
  have "hilevel_handler_svc demo_stack [] ?k ?u (svc_number m s) = Some (?k\<lparr>tbl := t\<rparr>, with_r0 ?u 0)"
    using t(1) s(1) by (simp add: n hilevel_handler_svc_def rd_Some)
  then obtain m' s' where s': "mstep demo_stack [] (k, configure_board demo_board, s) (Call (svc_number m s) ?u) (?k\<lparr>tbl := t, mem := m'\<rparr>, configure_board demo_board, s')"
    "running s' = (with_r0 ?u 0)\<lparr>cpsr := msr_cf (psr s) (cpsr (with_r0 ?u 0))\<rparr>" "b_sp (svc_bank s') = b_sp (svc_bank s)"
    by (rule call_happens [OF r d(5) sp])
  have rs: "length (gp s') = 13" "cpu_pc s' = 0x1000"
    using arg_cong [OF s'(2), of gpr] arg_cong [OF s'(2), of pc] s by (simp_all add: running_def)
  show thesis
    by (rule that [OF booted.round [OF d(1) s'(1)] _ t(2,3) _ rs])
      (use d(6,9-11) s'(3) s(2) t(4-6) in \<open>simp_all add: class_of_def wait_of_def reset_priority_def active_def running_def\<close>)
qed

text \<open>C26. An interrupted program resumes where it was interrupted: if a process is interrupted with registers \<open>u\<close> and it is
  its turn again after any number of system calls and interrupts of other processes, then all its registers, its program counter and its condition
  flags are what they were, provided that nobody has ended it and no process has killed itself (that one's
  status is stored in \<open>r0\<close> of the process that is loaded next). No \<open>read\<close>, \<open>ls\<close> or \<open>stat\<close> stores into the
  context saved for it.\<close>

theorem interrupted_program_resumes:
  assumes "booted z b tos_irq tos_svc (k, bd, s)" "mstep z b (k, bd, s) (Interrupt n u) w" "active (tbl (fst w)) (cur (tbl k))"
    and "passes z b (cur (tbl k)) w (k', bd', s')" "cur (tbl k') = cur (tbl k)"
  shows "gp s' = gpr u \<and> usr_sp s' = sp u \<and> usr_lr s' = lr u \<and> cpu_pc s' = pc u \<and> psr s' AND 0xFF0000FF = cpsr u AND 0xFF0000FF"
proof -
  have s: "sound tos_irq tos_svc (k, bd, s)" using booted_sound [OF assms(1)] by blast
  then have p: "valid_pid (cur (tbl k))" using cur_valid by (simp add: sound_def)
  have "holds (cur (tbl k)) u w" using interrupt_holds [OF s assms(2)] by (simp add: turn_def)
  from passes_keep_context [OF assms(4) sound_step [OF s assms(2)] p assms(3) this]
  have "holds (cur (tbl k)) u (k', bd', s')" by blast
  from holds_running [OF this assms(5)] show ?thesis by simp
qed

lemma demo_slice:
  obtains k s k1 bd s1 t where "booted demo_stack [] 0x20000 0x10000 (k, configure_board demo_board, s)" "cur (tbl k) = 2"
    "mstep demo_stack [] (k, configure_board demo_board, s) (Interrupt GIC_SOURCE_TIMER0 (running s)) (k1, bd, s1)"
    "tbl k1 = t" "procs_wf t" "cur t = 1" "length (gp s1) = 13" "cpu_pc s1 = 0x1000" "b_sp (svc_bank s1) = 0x10000" "cpu_pc s = 0x1000"
    "ctx (blk t 2) = running s" "class_of t 2 = BACKGROUND" "class_of t 1 = INTERACTIVE" "wait_of t 2 = 0"
    "\<forall>p. 3 \<le> p \<and> p \<le> 30 \<longrightarrow> \<not> active t p"
proof -
  obtain k s t where d: "booted demo_stack [] 0x20000 0x10000 (k, configure_board demo_board, s)" "tbl k = t" "procs_wf t" "cur t = 2"
    "b_sp (svc_bank s) = 0x10000" "length (gp s) = 13" "cpu_pc s = 0x1000" "pc (ctx (blk t 1)) = 0x1000" "time_left (prio (blk t 2)) = 0"
    "class_of t 1 = INTERACTIVE" "class_of t 2 = BACKGROUND" "wait_of t 1 = 0" "wait_of t 2 = 0" "\<forall>p. 3 \<le> p \<and> p \<le> 30 \<longrightarrow> \<not> active t p"
    by (rule demo_fork)
  have r: "runs s s" using d(6) by (simp add: runs_def)
  have third: "p = 1 \<or> p = 2 \<or> 3 \<le> p" if "valid_pid p" for p :: int using that by linarith
  let ?u = "running s" and ?t = "t\<lparr>BURSTS := i32 (BURSTS t + 1)\<rparr>"
  have u: "length (gpr ?u) = 13" "pc ?u = 0x1000" using d(6,7) by (simp_all add: running_def)
  have wf: "procs_wf ?t" using d(3) by (simp add: procs_wf_def table_wf_def)
  obtain t1 c1 where t1: "scheduler ?t ?u = Some (t1, c1)" by (rule scheduler_total [OF wf u(1)])
  have b: "blk ?t p = blk t p" "cur ?t = 2" for p using d(4) by (simp_all add: blk_def cur_def)
  have pre: "time_left (prio (blk ?t (cur ?t))) \<le> 0" "valid_pid 1" "active ?t 1" "class_of ?t 1 = other_class (class_of ?t (cur ?t))"
    "0 \<le> wait_of ?t 1" "wait_of ?t 1 < 2 ^ 31 - 1"
    using d(8-12) by (simp_all add: b active_def class_of_def wait_of_def other_class_def)
  have only: "\<forall>p. valid_pid p \<and> active ?t p \<and> class_of ?t p = class_of ?t 1 \<longrightarrow> p = 1"
  proof (intro allI impI)
    fix p assume "valid_pid p \<and> active ?t p \<and> class_of ?t p = class_of ?t 1"
    then show "p = 1" using third [of p] d(10,11,14) by (auto simp: b active_def class_of_def proc_consts)
  qed
  note sw = scheduler_switch [OF wf u(1) t1 pre only]
  let ?m1 = "write_ctx (mem k) (b_sp (irq_bank s) - 68) ?u"
  have h: "hilevel_handler_irq (world k ?m1 []) ?u GIC_SOURCE_TIMER0 = Some ((world k ?m1 [])\<lparr>tbl := t1\<rparr>, c1)"
    using t1 d(2) by (simp add: hilevel_handler_irq_def)
  have wk: "procs_wf (tbl k)" using d(2,3) by simp
  obtain m' bd' s1 where s1: "mstep demo_stack [] (k, configure_board demo_board, s) (Interrupt GIC_SOURCE_TIMER0 ?u)
      ((world k ?m1 [])\<lparr>tbl := t1, mem := m'\<rparr>, bd', s1)"
    "running s1 = c1\<lparr>cpsr := msr_cf (psr s) (cpsr c1)\<rparr>" "svc_bank s1 = svc_bank s"
    by (rule interrupt_happens [OF r wk demo_power_on(2) h])
  let ?k1 = "(world k ?m1 [])\<lparr>tbl := t1, mem := m'\<rparr>"
  have c1: "pc c1 = 0x1000" using sw(5) d(8) by (simp add: b)
  have g1: "length (gp s1) = 13" "cpu_pc s1 = 0x1000"
    using arg_cong [OF s1(2), of gpr] arg_cong [OF s1(2), of pc] sw(2) c1 by (simp_all add: running_def)
  have x2: "ctx (blk t1 2) = ?u" "class_of t1 2 = BACKGROUND" "class_of t1 1 = INTERACTIVE" "wait_of t1 2 = 0"
    using sw(6,9) sw(7) [of 1] sw(7) [of 2] d(10,11,13) by (simp_all add: b class_of_def wait_of_def)
  have x3: "\<forall>p. 3 \<le> p \<and> p \<le> 30 \<longrightarrow> \<not> active t1 p" using sw(8) d(14) by (simp add: b active_def)
  show thesis
    by (rule that [OF d(1) _ s1(1) _ sw(1,3) g1 _ d(7) x2 x3]) (use d(2,4,5) s1(3) in simp_all)
qed

theorem interrupted_program_resumes_witness:
  "\<exists>k bd s n u w k' bd' s'. mstep demo_stack [] (k, bd, s) (Interrupt n u) w \<and> cur (tbl k) = 2 \<and> turn w = 1 \<and>
    passes demo_stack [] 2 w (k', bd', s') \<and> cur (tbl k') = 2 \<and> gp s' = gpr u \<and> cpu_pc s' = pc u"
proof -
  obtain k s k1 bd s1 t where d: "booted demo_stack [] 0x20000 0x10000 (k, configure_board demo_board, s)" "cur (tbl k) = 2"
    "mstep demo_stack [] (k, configure_board demo_board, s) (Interrupt GIC_SOURCE_TIMER0 (running s)) (k1, bd, s1)"
    "tbl k1 = t" "procs_wf t" "cur t = 1" "length (gp s1) = 13" "cpu_pc s1 = 0x1000" "b_sp (svc_bank s1) = 0x10000" "cpu_pc s = 0x1000"
    "ctx (blk t 2) = running s" "class_of t 2 = BACKGROUND" "class_of t 1 = INTERACTIVE" "wait_of t 2 = 0"
    "\<forall>p. 3 \<le> p \<and> p \<le> 30 \<longrightarrow> \<not> active t p" by (rule demo_slice)
  have u: "pc (running s) = 0x1000" using d(10) by (simp add: running_def)
  have r1: "runs s1 s1" using d(7) by (simp add: runs_def)
  have "ldw (\<lambda>_. 0) 0xFFC AND NOT 0xFF000000 = 0" by (simp add: ldw_def load_bytes_def word_of_bytes_def upto_rec1)
  then have n: "svc_number (\<lambda>_. 0) s1 = SYS_YIELD"
    using svc_number_low [OF d(7), of 1023 "\<lambda>_. 0"] d(8,9) by (simp add: SYS_YIELD_def)
  let ?b = "blk t 1" and ?u1 = "running s1" and ?w = "world k1 (svc_memory (\<lambda>_. 0) s1) []"
  let ?t = "upd t 1 (?b\<lparr>prio := (prio ?b)\<lparr>time_left := 0\<rparr>\<rparr>)"
  have w1: "procs_wf ?t" using d(5) by (intro procs_wf_upd pcb_wf_prio wf_blk wf_table) simp_all
  have l1: "length (gpr ?u1) = 13" using d(7) by simp
  obtain t2 c2 where t2: "scheduler ?t ?u1 = Some (t2, c2)" by (rule scheduler_total [OF w1 l1])
  have b1: "blk ?t p = (if p = 1 then ?b\<lparr>prio := (prio ?b)\<lparr>time_left := 0\<rparr>\<rparr> else blk t p)" if "valid_pid p" for p
    using that wf_table [OF d(5)] by (simp add: blk_upd)
  have cu: "cur ?t = 1" using d(6) by simp
  have pre1: "time_left (prio (blk ?t (cur ?t))) \<le> 0" "valid_pid 2" "active ?t 2" "class_of ?t 2 = other_class (class_of ?t (cur ?t))"
    "0 \<le> wait_of ?t 2" "wait_of ?t 2 < 2 ^ 31 - 1"
    using d(11-14) u by (simp_all add: d(6) b1 active_def class_of_def wait_of_def other_class_def)
  have only1: "\<forall>p. valid_pid p \<and> active ?t p \<and> class_of ?t p = class_of ?t 2 \<longrightarrow> p = 2"
  proof (intro allI impI)
    fix p assume "valid_pid p \<and> active ?t p \<and> class_of ?t p = class_of ?t 2"
    moreover have "p = 1 \<or> p = 2 \<or> 3 \<le> p" if "valid_pid p" using that by linarith
    ultimately show "p = 2" using d(12,13,15) by (auto simp: b1 active_def class_of_def proc_consts split: if_splits)
  qed
  note sw1 = scheduler_switch [OF w1 l1 t2 pre1 only1]
  have "sys_yield ?w ?u1 = Some (?w\<lparr>tbl := t2\<rparr>, c2)"
    using d(4-6) t2 by (simp add: sys_yield_def mod_current_upd)
  then have h1: "hilevel_handler_svc demo_stack [] ?w ?u1 (svc_number (\<lambda>_. 0) s1) = Some (?w\<lparr>tbl := t2\<rparr>, c2)"
    using d(7) by (simp add: n hilevel_handler_svc_def rd_Some sys_nums)
  have wk1: "procs_wf (tbl k1)" using d(4,5) by simp
  obtain m2 s2 where s2: "mstep demo_stack [] (k1, bd, s1) (Call (svc_number (\<lambda>_. 0) s1) ?u1) (?w\<lparr>tbl := t2, mem := m2\<rparr>, bd, s2)"
    by (rule call_happens [OF r1 wk1 spares_others h1]) (simp add: n sys_nums)
  have a: "active t 2" "active t2 2" using sw1(8) [of 2] d(11) u cu by (simp_all add: active_def b1)
  have p: "passes demo_stack [] 2 (k1, bd, s1) (?w\<lparr>tbl := t2, mem := m2\<rparr>, bd, s2)"
    by (rule passes.round [OF passes.start _ s2]) (use d(4,6) a n in \<open>simp_all add: turn_def kills_itself_def suicide_def sys_nums\<close>)
  from interrupted_program_resumes [OF d(1,3), unfolded d(2), OF _ p] a(1) sw1(3) d(4)
  have "gp s2 = gpr (running s) \<and> cpu_pc s2 = pc (running s)" by simp
  moreover have "turn (k1, bd, s1) = 1" "cur (tbl (?w\<lparr>tbl := t2, mem := m2\<rparr>)) = 2" using d(4,6) sw1(3) by (simp_all add: turn_def)
  ultimately show ?thesis using d(2,3) p by blast
qed

text \<open>C27. The polling driver of the serial line refines the line that the disk driver and the kernel work with: on the FIFOs of the
  device, blocking transfers of bytes and of hexadecimal digits return exactly when they return on the line, with the same
  result, and the line that is left when the transmit FIFO has drained is the same.\<close>

theorem polling_refines_line:
  assumes "0 < n"
  shows "(\<exists>d'. putc react n d x True = Some d' \<and> drained react d' = PL011_putc react (drained react d) x) \<and>
    (\<exists>d'. puth react n d x True = Some d' \<and> drained react d' = PL011_puth react (drained react d) x) \<and>
    map_option (map_prod id (drained react)) (getc react n stale d True) = PL011_getc (drained react d) \<and>
    map_option (map_prod id (drained react)) (geth react n stale d True) = PL011_geth (drained react d)"
proof (intro conjI)
  show "map_option (map_prod id (drained react)) (getc react n stale d True) = PL011_getc (drained react d)"
    using getc_blocking [of react n stale d] by (auto split: option.splits)
  show "map_option (map_prod id (drained react)) (geth react n stale d True) = PL011_geth (drained react d)"
    using geth_blocking [of react n stale d] by (auto split: option.splits)
qed (rule putc_blocking [OF assms] puth_blocking [OF assms])+

theorem polling_refines_line_witness:
  "\<exists>d'. puth (\<lambda>p x. (p @ [x], [])) 16 \<lparr>tx_fifo = [], rx_fifo = [], far_end = []\<rparr> 0x2A True = Some d' \<and>
    peer (drained (\<lambda>p x. (p @ [x], [])) d') = [0x32, 0x41]"
proof -
  have "(0 :: nat) < 16" by simp
  then obtain d' where "puth (\<lambda>p x. (p @ [x], [])) 16 \<lparr>tx_fifo = [], rx_fifo = [], far_end = []\<rparr> 0x2A True = Some d'"
    "drained (\<lambda>p x. (p @ [x], [])) d' =
      PL011_puth (\<lambda>p x. (p @ [x], [])) (drained (\<lambda>p x. (p @ [x], [])) \<lparr>tx_fifo = [], rx_fifo = [], far_end = []\<rparr>) 0x2A"
    using polling_refines_line [of 16] by metis
  then show ?thesis by (auto simp: drained_empty PL011_puth_def PL011_putc_def itox_def bstr_def)
qed

text \<open>Every register of the serial lines, the timers and the interrupt controllers lies at the offset the manual states, although
  the macro for reserved bytes makes the gaps up to three bytes short, and the structures of all devices
  at their fixed addresses do not overlap. In the structure of the display the palette begins at 0x1FE instead of 0x200, and every register from
  there on is misplaced.\<close>

lemma registers_at_documented_offsets:
  "misplaced PL011_layout = [] \<and> misplaced SP804_layout = [] \<and> misplaced GICC_layout = [] \<and> misplaced GICD_layout = [] \<and>
   sorted_wrt (\<lambda>(a, L) (b, M). uint a + int (struct_size L) \<le> uint b) device_map \<and>
   misplaced PL111_layout = map fst (drop 13 (place 0 PL111_layout)) \<and> offset_of PL111_layout ''LCDPalette'' = Some 0x1FE"
  using kernel_registers other_registers devices_apart by blast

end
