(* ===== verification/Storage_Properties.thy ===== *)
theory Storage_Properties
  imports Demo Fs_Names
begin

text \<open>
  The properties of the storage side: serial line, disk driver with the disk server,
  bitmaps, on-disk structures, and the descriptor table of a process.
\<close>

section \<open>Serial line and messages\<close>

lemma puth_peer: "peer (PL011_puth tty d x) = peer d @ hex x"
proof -
  have "peer (foldl (PL011_putc tty) d cs) = peer d @ cs" for cs
    by (induction cs arbitrary: d) (simp_all add: PL011_putc_def tty_def)
  then show ?thesis by (simp only: PL011_puth_hex)
qed

text \<open>A byte printed in hexadecimal on a serial line is read back unchanged from the two characters sent.\<close>

lemma hex_line_roundtrip:
  assumes "rx d = peer (PL011_puth tty \<lparr>rx = [], peer = []\<rparr> x) @ cs"
  shows "PL011_geth d = Some (x, d\<lparr>rx := cs\<rparr>)"
proof -
  obtain a b where h: "hex x = [a, b]" by (simp add: hex_def)
  have "rx d = hex x @ cs" using assms unfolding puth_peer by simp
  then show ?thesis using byte_of_hex [of x] by (simp add: h PL011_geth_digits)
qed

lemma hex_line_roundtrip_example:
  "PL011_geth \<lparr>rx = peer (PL011_puth tty \<lparr>rx = [], peer = []\<rparr> 0x2F) @ [10], peer = ()\<rparr> =
     Some (0x2F, \<lparr>rx = [10], peer = ()\<rparr>)"
  by (subst hex_line_roundtrip [OF uart.select_convs(1)]) simp

text \<open>The number that \<open>ps\<close> prints is the decimal notation of the value: reading it back gives the value.
  The conversion stays inside a buffer of 11 bytes.\<close>

lemma printed_number_is_decimal:
  assumes "\<bar>x\<bar> < 10 ^ 9" "11 \<le> length b"
  shows "\<exists>b' str. s_c b x = Some (b', str) \<and> length b' = length b \<and> decimal_value str = x \<and> 0 \<notin> set str"
  using s_c_spec [OF assms] decimal_value_decimal decimal_nonzero by blast

lemma printed_number_is_decimal_example:
  "\<exists>b' str. s_c (replicate 1024 0) (- 1234) = Some (b', str) \<and> decimal_value str = - 1234"
  using printed_number_is_decimal [of "- 1234" "replicate 1024 0"] by auto

section \<open>The disk\<close>

text \<open>C28. Driver, serial protocol and disk server together are an array of blocks: after any sequence of writes
  of whole blocks, all accepted, reading a block returns what the last write to it stored, or
  its old content if it was not written.\<close>

theorem disk_is_block_array:
  assumes "disk_wf d" "\<forall>(a, x) \<in> set ws. on_disk d a \<and> block_len (peer d) = int (length x)"
    and "on_disk d b" "int (length buf) = block_len (peer d)"
  shows "\<exists>d'. write_all disk_wr (block_len (peer d)) ws d = Some d' \<and> disk_wf d' \<and>
    disk_rd d' b buf (block_len (peer d)) = Some (0, foldl (\<lambda>m (a, x). m(a := x)) (get_block d) ws b, d')"
proof -
  obtain d' where d': "write_all disk_wr (block_len (peer d)) ws d = Some d'" "disk_wf d'"
    "block_len (peer d') = block_len (peer d)" "on_disk d' = on_disk d"
    "get_block d' = foldl (\<lambda>m (a, x). m(a := x)) (get_block d) ws"
    using bd.write_all_blocks [OF assms(1,2)] by blast
  have "disk_rd d' b buf (block_len (peer d)) =
      Some (0, get_block d' b @ drop (nat (block_len (peer d))) buf, d')"
    using bd.read_law [of d' b buf] d' assms(3,4) by simp
  then show ?thesis using d' assms(4) by (intro exI [of _ d']) simp
qed

theorem disk_is_block_array_witness:
  "\<exists>d'. write_all disk_wr 1024 [(3, replicate 1024 7), (4, replicate 1024 8)] demo_disk = Some d' \<and>
    disk_rd d' 3 (replicate 1024 0) 1024 = Some (0, replicate 1024 7, d')"
proof -
  have "on_disk demo_disk 3" "on_disk demo_disk 4"
    using demo_on_disk [of 3] demo_on_disk [of 4] by (simp_all add: u32_of_int_def)
  then show ?thesis
    using disk_is_block_array [of demo_disk "[(3, replicate 1024 7), (4, replicate 1024 8)]" 3 "replicate 1024 0"]
    by auto
qed

text \<open>C29. What becomes of a request the disk cannot serve. On an idle line a write of \<open>n\<close> bytes to address \<open>a\<close>, which
  the server reads as a signed number, fails and leaves the disk as it was if \<open>a\<close> is not below the number of
  blocks or \<open>n\<close> is positive and not the block length; an empty write, and one of the right length to an
  address of \<open>2^31\<close> or more, end the server, and the driver waits for ever. A read past the last block fails and leaves the buffer
  alone, one from \<open>2^31\<close> on hangs. The driver sends a request at most three times: if \<open>j\<close> refusals are
  still unread when a write is made, the write succeeds exactly if \<open>j < 3\<close>; afterwards
  \<open>j\<close> answers are unread again, the last \<open>min j 3\<close> of them acceptances of this write.\<close>

theorem disk_refuses:
  assumes "disk_wf d" "0 \<le> n" "n \<le> int (length x)"
  shows "disk_wr d a x n =
      (if n = 0 then None
       else if past_disk d a \<or> n \<noteq> block_len (peer d) then Some (DISK_FAILURE, d)
       else if int_of_u32 a < 0 then None
       else Some (DISK_SUCCESS, put_block d a (take (nat n) x))) \<and>
    (past_disk d a \<longrightarrow> disk_rd d a x n = Some (DISK_FAILURE, x, d)) \<and>
    (int_of_u32 a < 0 \<longrightarrow> disk_rd d a x n = None) \<and>
    (on_disk d a \<and> n = block_len (peer d) \<longrightarrow>
      disk_wr (d\<lparr>rx := pending j ''01''\<rparr>) a x n = Some (if j < 3 then DISK_SUCCESS else DISK_FAILURE,
        (put_block d a (take (nat n) x))\<lparr>rx := pending (j - 3) ''01'' @ pending (min j 3) ''00''\<rparr>))"
proof (intro conjI impI)
  show "disk_rd d a x n = Some (DISK_FAILURE, x, d)" if "past_disk d a"
    using disk_rd_refused [OF _ that] assms(1) by (simp add: disk_wf_def)
  show "disk_wr (d\<lparr>rx := pending j ''01''\<rparr>) a x n = Some (if j < 3 then DISK_SUCCESS else DISK_FAILURE,
      (put_block d a (take (nat n) x))\<lparr>rx := pending (j - 3) ''01'' @ pending (min j 3) ''00''\<rparr>)"
    if "on_disk d a \<and> n = block_len (peer d)"
    using wr_retry_pending [OF assms(1) _ _ assms(3), where i = 3 and l = 0] that
    by (simp add: disk_wr_def DISK_RETRY_def pending_simps)
qed (rule disk_wr_outcome [OF assms] disk_rd_crash [OF assms(1)], assumption?)+

theorem disk_refuses_witness:
  "disk_wr demo_disk 1 [1, 2, 3] 3 = Some (DISK_FAILURE, demo_disk) \<and> disk_wr demo_disk 1 [] 0 = None \<and>
   disk_wr demo_disk 0xFFFFFFFF (replicate 1024 0) 1024 = None \<and>
   fst (the (disk_wr (demo_disk\<lparr>rx := pending 3 ''01''\<rparr>) 1 (replicate 1024 0) 1024)) = DISK_FAILURE \<and>
   disk_rd demo_disk 64 [] 0 = Some (DISK_FAILURE, [], demo_disk) \<and> disk_rd demo_disk 0x80000000 [] 0 = None"
proof -
  have "on_disk demo_disk 1" using demo_on_disk [of 1] by (simp add: u32_of_int_def)
  then show ?thesis
    using disk_refuses [of demo_disk 3 "[1, 2, 3]" 1] disk_refuses [of demo_disk 0 "[]" 1] disk_refuses [of demo_disk 0 "[]" 64]
      disk_refuses [of demo_disk 0 "[]" "0x80000000"] disk_refuses [of demo_disk 1024 "replicate 1024 0" "0xFFFFFFFF"]
      disk_refuses [of demo_disk 1024 "replicate 1024 0" 1 3]
    by (simp add: past_disk_def int_of_u32_def)
qed

text \<open>A write to a block address of \<open>2^31\<close> or more hangs the kernel: the server reads the address as a
  negative number, passes its bound check, dies in the seek, and the driver waits for ever for an
  answer.\<close>

lemma negative_address_hangs:
  assumes "disk_wf d" "int_of_u32 a < 0" "n = block_len (peer d)" "n \<le> int (length x)"
  shows "disk_wr d a x n = None"
  by (rule disk_wr_crash) (use assms in simp_all)

lemma negative_address_hangs_example:
  "disk_wr demo_disk 0xFFFFFFFF (replicate 1024 0) 1024 = None"
  by (rule negative_address_hangs) (simp_all add: int_of_u32_def)

section \<open>Structures on the disk\<close>

text \<open>Superblock, inode and directory survive the disk format: each structure with fields in range
  is laid out in exactly \<open>sizeof\<close> bytes, and reading these bytes, whatever follows them in the block, gives the structure back.\<close>

lemma struct_bytes_roundtrip:
  assumes "superblock_wf b" "inode_wf i" "directory_wf d"
  shows "int (length (enc_superblock b)) = sizeof_superblock \<and> dec_superblock (enc_superblock b @ bs) = b \<and>
    int (length (enc_inode i)) = sizeof_inode \<and> dec_inode (enc_inode i @ bs) = i \<and>
    int (length (enc_directory d)) = sizeof_directory \<and> dec_directory (enc_directory d @ bs) = d"
  using sbc.enc_width [OF assms(1)] sbc.dec_enc [OF assms(1)] inc.enc_width [OF assms(2)] inc.dec_enc [OF assms(2)]
    drc.enc_width [OF assms(3)] drc.dec_enc [OF assms(3)] by (simp add: sizeofs)

lemma struct_bytes_roundtrip_example:
  "dec_inode (enc_inode (new_inode 5) @ [1, 2, 3]) = new_inode 5 \<and> length (enc_directory zero_directory) = 1044"
proof -
  have "directory_wf zero_directory"
    by (simp add: directory_wf_def link_wf_def zero_directory_def)
  then show ?thesis
    using struct_bytes_roundtrip [of demo_sb "new_inode 5" zero_directory "[1, 2, 3]"] by (simp add: sizeofs)
qed

section \<open>Allocation\<close>

text \<open>C30. On the indices that have a bit, a bitmap is a set: after \<open>set_bit\<close> the index is marked and every
  other mark is as before, after \<open>clear_bit\<close> it is unmarked and every other mark is as before.\<close>

theorem bitmap_is_a_set:
  assumes "in_bitmap ws n" "backed n" "in_bitmap ws m"
  shows "\<exists>us vs. set_bit_c ws n = Some us \<and> clear_bit ws n = Some vs \<and>
    get_bit us m = (if m = n then Some 1 else get_bit ws m) \<and>
    get_bit vs m = (if m = n then Some 0 else get_bit ws m)"
proof -
  obtain us where u: "set_bit_c ws n = Some us" "in_bitmap us = in_bitmap ws" "bits us = insert n (bits ws)"
    using bm.mark_law [OF assms(1)] assms(2) by auto
  obtain vs where v: "clear_bit ws n = Some vs" "in_bitmap vs = in_bitmap ws" "bits vs = bits ws - {n}"
    using bm.unmark_law [OF assms(1)] by auto
  have "in_bitmap us m" "in_bitmap vs m" using assms(3) u(2) v(2) by simp_all
  then show ?thesis using u(1,3) v(1,3) assms(3) by (simp add: bm.test_law)
qed

theorem bitmap_is_a_set_witness:
  "\<exists>us. set_bit_c (replicate 8 0) 130 = Some us \<and> get_bit us 130 = Some 1"
  using bitmap_is_a_set [of "replicate 8 0" 130 130] by (auto simp: in_bitmap_def backed_def)

text \<open>\<open>BITS_PER_WORD\<close> is 128, but a word has 32 bits: for three quarters of the indices a bitmap has no
  bit, marking such an index changes nothing and it always reads as free.\<close>

lemma bitmap_drops_marks:
  assumes "in_bitmap ws n" "32 \<le> n mod 128"
  shows "set_bit_c ws n = Some ws \<and> get_bit ws n = Some 0"
proof -
  have n: "0 \<le> n" using assms(1) by (simp add: in_bitmap_def)
  then have "lsl1 (n mod 128) = 0" using assms(2) by (intro lsl1_zero) simp_all
  moreover have "n \<notin> bits ws" using assms(2) by (auto simp: bits_def backed_def)
  ultimately show ?thesis using bm.test_law [OF assms(1)] n in_bitmap_word [OF assms(1)]
    by (simp add: set_bit_c_def c_simps)
qed

lemma bitmap_drops_marks_example: "set_bit_c (replicate 8 0) 32 = Some (replicate 8 0)"
  using bitmap_drops_marks [of "replicate 8 0" 32] by (simp add: in_bitmap_def)

text \<open>C31. The allocator of data blocks finds the first free address from \<open>data_block_start\<close> on. Marking it takes exactly that
  address from the free list, when the bitmap has a bit for it; otherwise the free list stays
  as it is and the next search finds the same address again.\<close>

theorem allocator_takes_first_free:
  assumes "superblock_wf b" "free_list b = a # as" "a < 16384"
  shows "\<exists>b'. free_data_block b = Some (u32_of_int a) \<and> allocate_block b (u32_of_int a) = Some b' \<and> superblock_wf b' \<and>
    free_list b' = (if backed a then as else a # as) \<and>
    (backed a \<or> free_data_block b' = Some (u32_of_int a))"
proof -
  have "a \<in> set (free_list b)" using assms(2) by simp
  then have "0 \<le> a" using free_list_range order_trans [OF uint_ge_0] by blast
  then obtain ws where ws: "allocate_block b (u32_of_int a) = Some (b\<lparr>free_block_bitmap := ws\<rparr>)" "length ws = 128"
      "bits ws = (if backed a then insert a (used b) else used b)"
    using allocate_ok [OF assms(1) _ assms(3)] by blast
  let ?b = "b\<lparr>free_block_bitmap := ws\<rparr>"
  have w: "superblock_wf ?b" using assms(1) ws(2) by (simp add: superblock_wf_def)
  have "free_list ?b = (if backed a then as else a # as)"
  proof (cases "backed a")
    case True
    then show ?thesis using free_list_mark [OF assms(2)] ws(3) by simp
  next
    case False
    then have "free_list ?b = free_list b" using ws(3) by (simp add: free_list_def used_def)
    then show ?thesis using False assms(2) by simp
  qed
  moreover from this have "backed a \<or> free_data_block ?b = Some (u32_of_int a)"
    using free_data_block_ok [OF w _ assms(3)] by (cases "backed a") simp_all
  ultimately show ?thesis using free_data_block_ok [OF assms] ws(1) w by (intro exI [of _ ?b]) simp
qed

theorem allocator_takes_first_free_witness:
  "\<exists>b'. free_data_block demo_sb = Some (u32_of_int 9) \<and> allocate_block demo_sb (u32_of_int 9) = Some b' \<and>
    free_list b' = [10..63]"
proof -
  have "free_list demo_sb = 9 # [10..63]" using demo_free_list by (simp add: upto_rec1)
  from allocator_takes_first_free [OF demo_sb_wf this] show ?thesis by (auto simp: backed_def)
qed

text \<open>Repeated allocation, as a writing file does it.\<close>

fun allocate_blocks :: "nat \<Rightarrow> superblock_t \<Rightarrow> (u32 list \<times> superblock_t) option" where
  "allocate_blocks 0 b = Some ([], b)"
| "allocate_blocks (Suc n) b = do {
     a \<leftarrow> free_data_block b;
     b \<leftarrow> allocate_block b a;
     (as, b) \<leftarrow> allocate_blocks n b;
     Some (a # as, b)
   }"

lemma filter_upto_first:
  assumes "{m..<k} \<subseteq> U" "k \<notin> U" "m \<le> k" "k \<le> (n::int)"
  shows "\<exists>as. filter (\<lambda>a. a \<notin> U) [m..n] = k # as"
proof -
  have s: "[m..n] = [m..k - 1] @ k # [k + 1..n]" using assms(3,4) upto_split3 by simp
  have "\<forall>a \<in> set [m..k - 1]. a \<in> U" using assms(1) by auto
  then have "filter (\<lambda>a. a \<notin> U) [m..k - 1] = []" by (simp only: filter_False not_not)
  then show ?thesis unfolding s filter_append using assms(2) by simp
qed

lemma default_free_list:
  assumes "data_block_start b = 1025" "disk_block_num b = 65536" "{1025..1055} \<subseteq> used b"
  shows "\<exists>as. free_list b = 1056 # as"
proof -
  have u: "uint (data_block_start b) = 1025" "uint (u32_of_int (disk_block_num b)) = 65536"
    using assms(1,2) by (simp_all add: u32_of_int_def)
  have "{1025..<1056} \<subseteq> used b" using assms(3) by auto
  moreover have "1056 \<notin> used b" by (simp add: used_def bits_def backed_def)
  ultimately show ?thesis unfolding free_list_def addrs_def u by (rule filter_upto_first) simp_all
qed

text \<open>C32. With the disk that the makefile creates (65536 blocks of 1024 bytes, data blocks from 1025), the file
  system has 31 data blocks: once the blocks 1025 to 1055 are in use, every further allocation returns block 1056,
  so all files written from then on share that block.\<close>

theorem allocator_repeats_block:
  assumes "superblock_wf b" "data_block_start b = 1025" "disk_block_num b = 65536" "{1025..1055} \<subseteq> used b"
  shows "\<exists>b'. allocate_blocks n b = Some (replicate n 1056, b')"
  using assms
proof (induction n arbitrary: b)
  case (Suc n)
  obtain as where fl: "free_list b = 1056 # as" using default_free_list [OF Suc.prems(2-4)] by blast
  have f: "free_data_block b = Some 1056" using free_data_block_ok [OF Suc.prems(1) fl] by (simp add: u32_of_int_def)
  obtain ws where ws: "allocate_block b 1056 = Some (b\<lparr>free_block_bitmap := ws\<rparr>)" "length ws = 128" "bits ws = used b"
    using allocate_ok [OF Suc.prems(1), of 1056] by (auto simp: backed_def u32_of_int_def)
  have "\<exists>b'. allocate_blocks n (b\<lparr>free_block_bitmap := ws\<rparr>) = Some (replicate n 1056, b')"
    using Suc.prems ws(2,3) by (intro Suc.IH) (simp_all add: superblock_wf_def used_def)
  then show ?case using f ws(1) by auto
qed simp

definition full_sb :: superblock_t where
  "full_sb = zero_superblock\<lparr>disk_block_num := 65536, disk_block_length := 1024, data_block_start := 1025,
     free_block_bitmap := (replicate 128 0)[8 := 0xFFFFFFFF]\<rparr>"

theorem allocator_repeats_block_witness: "\<exists>b'. allocate_blocks 3 full_sb = Some ([1056, 1056, 1056], b')"
proof -
  have "{1025..1055} \<subseteq> used full_sb"
  proof
    fix a :: int assume "a \<in> {1025..1055}"
    then have a: "1025 \<le> a" "a \<le> 1055" by auto
    then have d: "a div 128 = 8" "a mod 128 = a - 1024" by presburger+
    have "nat (a - 1024) < 32" using a by simp
    moreover have "(0xFFFFFFFF :: u32) = mask 32" by (simp add: mask_eq_exp_minus_1)
    ultimately have "bit (0xFFFFFFFF :: u32) (nat (a - 1024))" by (simp only: bit_mask_iff) simp
    then show "a \<in> used full_sb" using a d
      by (simp add: used_def bits_def in_bitmap_def backed_def full_sb_def)
  qed
  moreover have "superblock_wf full_sb" by (simp add: superblock_wf_def full_sb_def zero_superblock_def)
  ultimately show ?thesis using allocator_repeats_block [of full_sb 3]
    by (simp add: full_sb_def numeral_eq_Suc)
qed

end
