(* ===== verification/File_Properties.thy ===== *)
theory File_Properties
  imports Demo Fs_Names
begin

text \<open>
  The properties of the file system: superblock, inodes and file contents through the disk, the name tables, and
  the file system calls on top of them.
\<close>

section \<open>Superblock and inodes\<close>

text \<open>A superblock that was written is what the next mount reads, whatever the memory held before;
  writing it marks block 0 and nothing else.\<close>

lemma superblock_roundtrip:
  assumes "fs_ok f" "length junk = 1024"
  shows "\<exists>f'. write_superblock junk f = Some (0, f') \<and> fs_ok f' \<and> used (sb f') = insert 0 (used (sb f)) \<and>
    sb f' = (sb f)\<lparr>free_block_bitmap := free_block_bitmap (sb f')\<rparr> \<and>
    (\<forall>junk' b. length junk' = 1024 \<and> superblock_wf b \<longrightarrow>
       read_superblock junk' \<lparr>sb = b, dk = dk f'\<rparr> = Some (0, f'))"
proof -
  obtain ws f' where w: "write_superblock junk f = Some (0, f')" "bits ws = insert 0 (used (sb f))"
    "sb f' = (sb f)\<lparr>free_block_bitmap := ws\<rparr>" "fs_ok f'" "blen f' = blen f"
    "get_block (dk f') = (get_block (dk f))(0 := padded junk (blen f) (enc_superblock (sb f')))"
    using write_superblock_ok [OF assms] by blast
  have "read_superblock junk' \<lparr>sb = b, dk = dk f'\<rparr> = Some (0, f')"
    if "length junk' = 1024" "superblock_wf b" for junk' b
  proof -
    have "read_superblock junk' \<lparr>sb = b, dk = dk f'\<rparr> = Some (0, \<lparr>sb = sb f', dk = dk f'\<rparr>)"
      using w that by (intro read_superblock_ok [where junk' = junk]) (simp_all add: fs_ok_def)
    then show ?thesis by simp
  qed
  then show ?thesis using w by (intro exI [of _ f']) (simp add: used_def)
qed

lemma superblock_roundtrip_example:
  "\<exists>f'. write_superblock (replicate 1024 7) demo_fs = Some (0, f') \<and>
    read_superblock (replicate 1024 9) \<lparr>sb = zero_superblock, dk = dk f'\<rparr> = Some (0, f')"
proof -
  have "superblock_wf zero_superblock" by (simp add: superblock_wf_def zero_superblock_def)
  then show ?thesis
    using superblock_roundtrip [of demo_fs "replicate 1024 7"] by (metis demo_fs_ok length_replicate)
qed

text \<open>An inode that was written is read back from the disk, whatever the caller's buffers held; no block
  but that of the inode and that of the superblock changes.\<close>

lemma inode_roundtrip:
  assumes "fs_ok f" "length (s_block z) = 1024" "inode_wf inode" "inode_slot f (ino_id inode)"
  shows "\<exists>f'. write_inode z f inode = Some (0, f') \<and> fs_ok f' \<and>
    (\<forall>z' old. length (s_block z') = 1024 \<and> inode_wf old \<longrightarrow>
       read_inode z' f' (ino_id inode) old = Some (0, inode, f')) \<and>
    (\<forall>b. b \<noteq> 0 \<and> b \<noteq> inode_addr (sb f) (ino_id inode) \<longrightarrow> get_block (dk f') b = get_block (dk f) b)"
proof -
  let ?a = "inode_addr (sb f) (ino_id inode)"
  have slot: "0 \<le> ino_id inode" "on_disk (dk f) ?a" "?a \<noteq> 0" using assms(4) by (simp_all add: inode_slot_def)
  obtain ws f' where w: "write_inode z f inode = Some (0, f')" "sb f' = (sb f)\<lparr>free_block_bitmap := ws\<rparr>"
    "fs_ok f'" "on_disk (dk f') = on_disk (dk f)" "blen f' = blen f"
    "get_block (dk f') = (get_block (dk f))(?a := padded (s_block z) (blen f) (enc_inode inode),
      0 := padded (s_block z) (blen f) (enc_superblock (sb f')))"
    using write_inode_ok [OF assms] by blast
  have "read_inode z' f' (ino_id inode) old = Some (0, inode, f')"
    if "length (s_block z') = 1024" "inode_wf old" for z' old
    using that w slot assms(3) by (intro read_inode_ok [where junk = "s_block z"]) simp_all
  then show ?thesis using w slot by (intro exI [of _ f']) simp
qed

lemma inode_roundtrip_example:
  "\<exists>f'. write_inode demo_stack demo_fs (new_inode 3) = Some (0, f') \<and>
    read_inode demo_stack f' 3 (new_inode 0) = Some (0, new_inode 3, f')"
proof -
  have i: "ino_id (new_inode 3) = 3" by (simp add: new_inode_def)
  show ?thesis using inode_roundtrip [of demo_fs demo_stack "new_inode 3"] demo_slot [of 3] by (auto simp: i)
qed

section \<open>File contents\<close>

text \<open>The contents of a file survive: after a write of up to six blocks of data to a file, its inode read
  back from the disk leads to the same bytes, whatever the reader's buffers held.\<close>

lemma file_roundtrip:
  assumes "fs_ok f" "length (s_block z) = 1024" "inode_wf inode" "inode_slot f (ino_id inode)"
    and "room_for f inode n k" "int (length x) = n"
  shows "\<exists>inode' f'. write_to_inode z f inode 0 x n = Some (0, inode', u32_of_int n, f') \<and> ino_size inode' = n \<and>
    (\<forall>z' old y. length (s_block z') = 1024 \<and> inode_wf old \<and> length y = length x \<longrightarrow>
       read_inode z' f' (ino_id inode) old = Some (0, inode', f') \<and>
       read_from_inode z' f' inode' 0 y n = Some (0, x, inode', u32_of_int n, f'))"
proof -
  obtain inode' f' where w: "write_to_inode z f inode 0 x n = Some (0, inode', u32_of_int n, f')"
    "fs_ok f'" "on_disk (dk f') = on_disk (dk f)" "blen f' = blen f" "inode_wf inode'" "ino_id inode' = ino_id inode"
    "ino_size inode' = n" "inode_start (sb f') = inode_start (sb f)"
    "map (\<lambda>i. blocks inode' ! nat i) [0..int k - 1] = map u32_of_int (take k (free_list (sb f)))"
    "int k \<le> blocks_allocated inode'"
    "take (nat n) (concat (map (\<lambda>a. get_block (dk f') (u32_of_int a)) (take k (free_list (sb f))))) = x"
    "get_block (dk f') (inode_addr (sb f) (ino_id inode)) = padded (s_block z) (blen f) (enc_inode inode')"
    by (rule write_to_inode_ok [OF assms]) blast
  have room: "needs (blen f) n k" "k \<le> 6" "\<forall>a \<in> set (take k (free_list (sb f))). data_block (dk f) a"
    using assms(5) by (simp_all add: room_for_def)
  have slot: "0 \<le> ino_id inode" "on_disk (dk f) (inode_addr (sb f) (ino_id inode))"
    using assms(4) by (simp_all add: inode_slot_def)
  have a: "inode_addr (sb f') (ino_id inode) = inode_addr (sb f) (ino_id inode)"
    using w(8) by (simp add: inode_addr_def)
  have bl: "concat (map (\<lambda>i. get_block (dk f') (blocks inode' ! nat i)) [0..int k - 1]) =
      concat (map (\<lambda>a. get_block (dk f') (u32_of_int a)) (take k (free_list (sb f))))"
    using arg_cong [OF w(9), of "map (get_block (dk f'))"] by (simp add: comp_def)
  have od: "\<forall>i \<in> set [0..int k - 1]. on_disk (dk f') (blocks inode' ! nat i)"
  proof -
    have "set (map (\<lambda>i. blocks inode' ! nat i) [0..int k - 1]) \<subseteq> u32_of_int ` set (take k (free_list (sb f)))"
      unfolding w(9) by simp
    then show ?thesis using room(3) w(3) by (fastforce simp: data_block_def)
  qed
  have "read_inode z' f' (ino_id inode) old = Some (0, inode', f')"
    if "length (s_block z') = 1024" "inode_wf old" for z' old
    using that w slot by (intro read_inode_ok [where junk = "s_block z"]) (simp_all add: a)
  moreover have "read_from_inode z' f' inode' 0 y n = Some (0, x, inode', u32_of_int n, f')"
    if "length (s_block z') = 1024" "length y = length x" for z' y
  proof -
    have "length (blocks inode') = 6" using w(5) by (simp add: inode_wf_def)
    moreover have "needs (blen f') n k" using room(1) w(4) by simp
    ultimately have "read_from_inode z' f' inode' 0 y n = Some (0,
        take (nat n) (concat (map (\<lambda>i. get_block (dk f') (blocks inode' ! nat i)) [0..int k - 1])), inode', u32_of_int n, f')"
      using that assms(6) w(2,10) room(2) od by (intro read_from_inode_ok) simp_all
    then show ?thesis unfolding bl w(11) .
  qed
  ultimately show ?thesis using w(1,7) by blast
qed

lemma demo_room:
  assumes "0 < n" "n \<le> 1024" "0 \<le> i" "i < 8"
  shows "room_for demo_fs (new_inode i) n 1"
proof -
  have fl: "free_list demo_sb = 9 # [10..63]" using demo_free_list by (simp add: upto_rec1)
  have a: "uint (inode_addr demo_sb i) = 1 + i"
    unfolding inode_addr_def demo_sb_simps using assms(3,4)
    by (simp add: uint_word_of_int_eq uint_word_arith_bintrs take_bit_int_eq_self)
  show ?thesis using assms demo_on_disk [of 9]
    by (simp add: room_for_def needs_one fl data_block_def backed_def new_inode_def a)
qed

lemma file_roundtrip_example:
  "\<exists>inode' f'. write_to_inode demo_stack demo_fs (new_inode 3) 0 (bstr ''hello'') 5 = Some (0, inode', 5, f') \<and>
    read_from_inode demo_stack f' inode' 0 [0, 0, 0, 0, 0] 5 = Some (0, bstr ''hello'', inode', 5, f')"
proof -
  have i: "ino_id (new_inode 3) = 3" by (simp add: new_inode_def)
  have h: "fs_ok demo_fs" "length (s_block demo_stack) = 1024" "inode_wf (new_inode 3)"
    "inode_slot demo_fs (ino_id (new_inode 3))" "room_for demo_fs (new_inode 3) 5 1" "int (length (bstr ''hello'')) = 5"
    using demo_slot [of 3] demo_room [of 5 3] by (simp_all add: i bstr_def)
  obtain inode' f' where w: "write_to_inode demo_stack demo_fs (new_inode 3) 0 (bstr ''hello'') 5 = Some (0, inode', u32_of_int 5, f')"
    and r: "\<forall>z' old y. length (s_block z') = 1024 \<and> inode_wf old \<and> length y = length (bstr ''hello'') \<longrightarrow>
       read_from_inode z' f' inode' 0 y 5 = Some (0, bstr ''hello'', inode', u32_of_int 5, f')"
    using file_roundtrip [OF h] by blast
  have "read_from_inode demo_stack f' inode' 0 [0, 0, 0, 0, 0] 5 = Some (0, bstr ''hello'', inode', u32_of_int 5, f')"
    using r [rule_format, of demo_stack "new_inode 3" "[0, 0, 0, 0, 0]"] h(2,3) by (simp add: bstr_def)
  then show ?thesis using w by (intro exI [of _ inode'] exI [of _ f']) (simp add: u32_of_int_def)
qed

text \<open>A write to a file touches nothing else: the data goes to blocks that were free, and every block but
  these, the file's inode and the superblock keeps its bytes.\<close>

lemma file_write_is_isolated:
  assumes "fs_ok f" "length (s_block z) = 1024" "inode_wf inode" "inode_slot f (ino_id inode)"
    and "room_for f inode n k" "int (length x) = n"
  shows "\<exists>inode' f' as. write_to_inode z f inode 0 x n = Some (0, inode', u32_of_int n, f') \<and> fs_ok f' \<and>
    set as \<inter> used (sb f) = {} \<and> length as = k \<and>
    (\<forall>b. b \<notin> u32_of_int ` set as \<and> b \<noteq> inode_addr (sb f) (ino_id inode) \<and> b \<noteq> 0 \<longrightarrow>
       get_block (dk f') b = get_block (dk f) b)"
proof -
  let ?as = "take k (free_list (sb f))"
  obtain inode' f' where w: "write_to_inode z f inode 0 x n = Some (0, inode', u32_of_int n, f')" "fs_ok f'"
    "\<forall>b. b \<notin> u32_of_int ` set ?as \<and> b \<noteq> inode_addr (sb f) (ino_id inode) \<and> b \<noteq> 0 \<longrightarrow>
       get_block (dk f') b = get_block (dk f) b"
    by (rule write_to_inode_ok [OF assms]) blast
  have "set ?as \<inter> used (sb f) = {}" by (auto simp: free_list_def dest: in_set_takeD)
  moreover have "length ?as = k" using assms(5) by (simp add: room_for_def)
  ultimately show ?thesis using w by blast
qed

lemma file_write_is_isolated_example:
  "\<exists>inode' f' as. write_to_inode demo_stack demo_fs (new_inode 3) 0 [1, 2, 3] 3 = Some (0, inode', 3, f') \<and>
    length as = 1 \<and> (\<forall>b. b \<notin> u32_of_int ` set as \<and> b \<noteq> inode_addr demo_sb 3 \<and> b \<noteq> 0 \<longrightarrow>
      get_block (dk f') b = get_block demo_disk b)"
proof -
  have i: "ino_id (new_inode 3) = 3" by (simp add: new_inode_def)
  have "3 = u32_of_int 3" by (simp add: u32_of_int_def)
  then show ?thesis
    using file_write_is_isolated [of demo_fs demo_stack "new_inode 3" 3 1 "[1, 2, 3]"] demo_slot [of 3] demo_room [of 3 3]
    by (simp add: i) blast
qed

section \<open>Names\<close>

text \<open>A directory is an association list from names to inodes: a lookup is the lookup in the list, and deleting a
  link removes that name and leaves every other lookup as it was.\<close>

lemma directory_is_association_list:
  assumes "dir_ok d" "0 \<notin> set name" "0 \<notin> set other" "distinct (map fst (entries d))"
  shows "\<exists>d'. directory_lookup d other = Some (case map_of (entries d) other of Some i \<Rightarrow> i | None \<Rightarrow> - 1) \<and>
    delete_file_link d name = Some (if name \<in> fst ` set (entries d) then 0 else - 1, d') \<and> dir_ok d' \<and>
    map_of (entries d') = (map_of (entries d))(name := None) \<and>
    directory_lookup d' other = (if other = name then Some (- 1) else directory_lookup d other)"
proof -
  obtain d' where d': "delete_file_link d name = Some (if name \<in> fst ` set (entries d) then 0 else - 1, d')"
    "dir_ok d'" "entries d' = delete_first name (entries d)"
    using delete_file_link_spec [OF assms(1,2)] by blast
  have m: "map_of (entries d') = (map_of (entries d))(name := None)"
    unfolding d'(3) by (rule map_of_delete_first [OF assms(4)])
  show ?thesis
    using d'(1,2) m directory_lookup_spec [OF assms(1,3)] directory_lookup_spec [OF d'(2) assms(3)]
    by (intro exI [of _ d']) simp
qed

definition demo_dir :: directory_t where
  "demo_dir = zero_directory\<lparr>files_count := 2, links := (links zero_directory)
     [0 := \<lparr>link_inode_id = 4, filename = replicate_to 100 (bstr ''.'')\<rparr>,
      1 := \<lparr>link_inode_id = 7, filename = replicate_to 100 (bstr ''wc'')\<rparr>]\<rparr>"

lemma demo_dir_facts: "dir_ok demo_dir" "entries demo_dir = [(bstr ''.'', 4), (bstr ''wc'', 7)]"
proof -
  have l: "links demo_dir = \<lparr>link_inode_id = 4, filename = replicate_to 100 (bstr ''.'')\<rparr> #
      \<lparr>link_inode_id = 7, filename = replicate_to 100 (bstr ''wc'')\<rparr> # drop 2 (links zero_directory)"
    by (simp add: demo_dir_def zero_directory_def numeral_eq_Suc)
  have c: "files_count demo_dir = 2" by (simp add: demo_dir_def)
  show "dir_ok demo_dir"
    by (simp add: dir_ok_def directory_wf_def link_wf_def l c numeral_2_eq_2 zero_directory_def replicate_to_def bstr_def)
  show "entries demo_dir = [(bstr ''.'', 4), (bstr ''wc'', 7)]"
    using cstr_of_padded [of "bstr ''.''" 100] cstr_of_padded [of "bstr ''wc''" 100]
    by (simp add: entries_def entry_def l c numeral_2_eq_2) (simp add: bstr_def)
qed

lemma directory_is_association_list_example:
  "\<exists>d'. delete_file_link demo_dir (bstr ''wc'') = Some (0, d') \<and> directory_lookup d' (bstr ''wc'') = Some (- 1)"
  using directory_is_association_list [of demo_dir "bstr ''wc''" "bstr ''wc''"] demo_dir_facts
  by (auto simp: bstr_def)

lemma tokens_path: "\<forall>t \<in> set ts. component t \<Longrightarrow> tokens (concat (map (\<lambda>t. slash # t) ts)) = ts"
proof (induction ts)
  case (Cons t ts)
  show ?case
  proof (cases ts)
    case Nil
    then show ?thesis using Cons.prems by (simp add: tokens_component)
  next
    case (Cons u us)
    let ?p = "u @ concat (map (\<lambda>t. slash # t) us)"
    have "tokens (slash # t @ slash # ?p) = t # tokens (slash # ?p)"
      using Cons.prems tokens_component_slash [of t ?p] by simp
    then show ?thesis using Cons.IH Cons.prems by (simp add: Cons)
  qed
qed simp

text \<open>Parsing a path inverts building it: a file name behind a path of components is split into exactly that name and that path,
  and the path has exactly those components.\<close>

lemma path_roundtrip:
  assumes "\<forall>t \<in> set ts. component t" "component name" "length name < 100"
    and "path = concat (map (\<lambda>t. slash # t) ts)" "length path + length name + 1 < 1024"
  shows "parse_filename (path @ slash # name) = Some (0, name, path) \<and> tokens path = ts"
  using parse_filename_spec [OF assms(2,3,5)] tokens_path [OF assms(1)] assms(4) by simp

lemma path_roundtrip_example:
  "parse_filename (bstr ''/dev/stdin'') = Some (0, bstr ''stdin'', bstr ''/dev'')"
  using path_roundtrip [of "[bstr ''dev'']" "bstr ''stdin''" "bstr ''/dev''"]
  by (simp add: bstr_def slash_def component_def)

text \<open>A path without a slash breaks every call that takes a file name: \<open>parse_filename\<close> then stores a zero byte
  in front of its caller's buffer.\<close>

lemma plain_name_is_undefined:
  assumes "slash \<notin> set name"
  shows "sys_open z k name flags = None \<and> sys_mkdir z k name = None \<and> sys_rmdir z k name = None \<and> sys_rm z k name = None"
  using parse_filename_no_slash [OF assms]
  by (simp add: sys_open_def sys_mkdir_def sys_rmdir_def sys_rm_def)

lemma plain_name_is_undefined_example: "sys_rm demo_stack (demo_kernel demo) (bstr ''notes'') = None"
  using plain_name_is_undefined [of "bstr ''notes''" demo_stack "demo_kernel demo" 0] by (simp add: bstr_def slash_def)

section \<open>Descriptors\<close>

text \<open>Closing a file does not close it for the process: \<open>remove_process_fd\<close> moves the table the wrong way, so a
  descriptor that is not the last one stays in the process's table and passes the permission check afterwards,
  while the last descriptor of the table is lost.\<close>

lemma closed_descriptor_stays_open:
  assumes "table_wf s" "valid_pid p" "open_fds s p = xs @ fd # ys @ [l]" "fd \<notin> set xs"
  shows "\<exists>s'. remove_process_fd s p fd = Some (0, s') \<and> proc_fd_open s' p fd = Some 1 \<and>
    open_fds s' p = xs @ fd # take (length ys) (fd # ys) \<and>
    (l \<notin> set (xs @ fd # ys) \<longrightarrow> proc_fd_open s' p l = Some (- 1))"
proof -
  let ?L = "open_fds s p"
  have k: "(LEAST k. k < length ?L \<and> ?L ! k = fd) = length xs"
  proof (rule Least_equality)
    show "length xs < length ?L \<and> ?L ! length xs = fd" by (simp add: assms(3))
    fix j assume j: "j < length ?L \<and> ?L ! j = fd"
    show "length xs \<le> j"
    proof (rule ccontr)
      assume "\<not> length xs \<le> j"
      then have "xs ! j = fd" "j < length xs" using j by (simp_all add: assms(3) nth_append)
      then show False using assms(4) nth_mem by blast
    qed
  qed
  obtain s' where s': "remove_process_fd s p fd = Some (0, s')" "table_wf s'"
    "open_fds s' p = shifted_out ?L (length xs)"
  proof -
    have "(fd \<in> set ?L) = True" by (simp add: assms(3))
    then show thesis using that remove_process_fd_spec [OF assms(1,2), of fd] unfolding k by (simp only: if_True) blast
  qed
  have e: "open_fds s' p = xs @ fd # take (length ys) (fd # ys)"
  proof -
    have "take (length ys) ((fd # ys) @ [l]) = take (length ys) (fd # ys)" by (simp only: take_append) simp
    then show ?thesis unfolding s'(3) by (simp add: shifted_out_def assms(3))
  qed
  have "set (take (length ys) (fd # ys)) \<subseteq> insert fd (set ys)" by (auto dest: in_set_takeD)
  then have "l \<notin> set (open_fds s' p)" if "l \<notin> set (xs @ fd # ys)" using that by (auto simp: e)
  then show ?thesis
    using s'(1) e proc_fd_open_spec [OF s'(2) assms(2)] by (intro exI [of _ s']) auto
qed

definition demo_fds :: procs where
  "demo_fds = upd demo 1 ((demo_pcb 1)\<lparr>fd_table := \<lparr>fd_count = 2, fd_open = [3, 4] @ replicate 8 0\<rparr>\<rparr>)"

lemma demo_fds_wf: "procs_wf demo_fds" "open_fds demo_fds 1 = [3, 4]" "cur demo_fds = 1"
proof -
  show "procs_wf demo_fds" unfolding demo_fds_def by (intro procs_wf_upd pcb_wf_fd_table demo_pcb_wf) simp_all
  show "open_fds demo_fds 1 = [3, 4]" by (simp add: demo_fds_def open_fds_def blk_upd wf_table numeral_2_eq_2)
  show "cur demo_fds = 1" by (simp add: demo_fds_def)
qed

lemma closed_descriptor_stays_open_example:
  "\<exists>s'. remove_process_fd demo_fds 1 3 = Some (0, s') \<and> proc_fd_open s' 1 3 = Some 1 \<and> proc_fd_open s' 1 4 = Some (- 1)"
  using closed_descriptor_stays_open [of demo_fds 1 "[]" 3 "[]" 4] demo_fds_wf by (auto simp: wf_table)

text \<open>Descriptor numbers are not unique: after a file other than the last one was closed, the next file
  opened gets the number of the last one, and every use of that number reaches the older file.\<close>

lemma descriptor_ids_repeat:
  assumes "fdt_ok t" "fds t = ys @ e # zs @ [l]" "fd_id l = fdt_count t - 1" "\<not> global_flags (fd_flags e)"
    and "\<forall>y \<in> set ys. fd_id y \<noteq> fd_id e" "\<forall>y \<in> set (fds t). fd_inode_id y \<noteq> ino"
  shows "\<exists>t1 t2 j. close_file t (fd_id e) = Some (0, t1) \<and> add_fd t1 ino flags = Some (fd_id l, t2) \<and>
    l \<in> set (fds t2) \<and> fdid_to_fd t2 (fd_id l) = Some (Some j) \<and> fd_inode_id (fds t2 ! nat j) \<noteq> ino"
proof -
  obtain t1 where t1: "close_file t (fd_id e) = Some (0, t1)" "fdt_ok t1" "fds t1 = ys @ zs @ [l]"
    "fdt_count t1 = fdt_count t - 1"
  proof (rule close_file_spec [OF assms(1), of "fd_id e"], goal_cases)
    case 1
    then show ?case using assms(2) by simp
  next
    case (2 ys' e' zs')
    then have "ys' = ys \<and> e' = e \<and> zs' = zs @ [l]" using assms(2,5) by (intro first_split [of ys' e' zs' ys e "zs @ [l]" "\<lambda>x. fd_id x = fd_id e"]) auto
    then show ?case using 2 assms(4) by simp
  next
    case (3 ys' e' zs' t')
    then have "ys' = ys \<and> e' = e \<and> zs' = zs @ [l]" using assms(2,5) by (intro first_split [of ys' e' zs' ys e "zs @ [l]" "\<lambda>x. fd_id x = fd_id e"]) auto
    then show ?case using 3 by simp
  qed
  let ?e = "\<lparr>fd_id = fdt_count t1, fd_flags = flags, fd_inode_id = ino\<rparr>"
  have "set (fds t1) \<subseteq> set (fds t)" using t1(3) assms(2) by auto
  then have "\<forall>y \<in> set (fds t1). fd_inode_id y \<noteq> ino" using assms(6) by auto
  moreover have "fdt_count t1 < 10" using assms(1) t1(4) by (simp add: fdt_ok_def)
  ultimately obtain t2 where t2: "add_fd t1 ino flags = Some (fdt_count t1, t2)" "fdt_ok t2"
    "fds t2 = fds t1 @ [?e]" using add_fd_new [OF t1(2)] by blast
  have in_l: "l \<in> set (fds t2)" using t2(3) t1(3) by simp
  obtain us x vs where x: "fdid_to_fd t2 (fd_id l) = Some (Some (int (length us)))" "fds t2 = us @ x # vs"
    "fd_id x = fd_id l" "\<forall>y \<in> set us. fd_id y \<noteq> fd_id l"
    using in_l by (rule_tac fdt_find_cases [OF t2(2), of "\<lambda>y. fd_id y = fd_id l"]) (auto simp: fdid_to_fd_def)
  have "length us < length (fds t1)"
  proof (rule ccontr)
    assume "\<not> length us < length (fds t1)"
    then have "set (fds t1) \<subseteq> set us"
      using t2(3) x(2) by (metis append_eq_append_conv_if linorder_not_le set_take_subset)
    then show False using x(4) t1(3) by auto
  qed
  then have "fds t2 ! length us \<in> set (fds t1)" unfolding t2(3) by (simp add: nth_append)
  then have "fd_inode_id (fds t2 ! nat (int (length us))) \<noteq> ino"
    using \<open>\<forall>y \<in> set (fds t1). fd_inode_id y \<noteq> ino\<close> by simp
  then show ?thesis using t1(1,4) t2(1) in_l x(1) assms(3) by (intro exI conjI) auto
qed

definition demo_open :: "file_descriptor_t list \<Rightarrow> fd_table_t" where
  "demo_open es = \<lparr>fdt_count = int (length es), fdt_open = es @ replicate (10 - length es) \<lparr>fd_id = 0, fd_flags = 0, fd_inode_id = 0\<rparr>\<rparr>"

lemma demo_open_facts: "length es \<le> 10 \<Longrightarrow> fdt_ok (demo_open es)" "fds (demo_open es) = es"
    "fdt_count (demo_open es) = int (length es)"
  by (simp_all add: demo_open_def fdt_ok_def fds_def)

abbreviation priv_fd :: "int \<Rightarrow> int \<Rightarrow> file_descriptor_t" where
  "priv_fd i n \<equiv> \<lparr>fd_id = i, fd_flags = READ_WRITE, fd_inode_id = n\<rparr>"

lemma descriptor_ids_repeat_example:
  "\<exists>t1 t2. close_file (demo_open [priv_fd 0 5, priv_fd 1 6]) 0 = Some (0, t1) \<and>
    add_fd t1 7 WRITE = Some (1, t2) \<and> priv_fd 1 6 \<in> set (fds t2)"
  using descriptor_ids_repeat [of "demo_open [priv_fd 0 5, priv_fd 1 6]" "[]" "priv_fd 0 5" "[]" "priv_fd 1 6" 7 WRITE]
  by (auto simp: demo_open_facts global_flags_def READ_WRITE_def READ_GLOBAL_def WRITE_GLOBAL_def)

end
