(* ===== verification/File_Call_Properties.thy ===== *)
theory File_Call_Properties
  imports Kernel_Files File_Properties
begin

text \<open>
  The properties of the file system calls: contents through \<open>write\<close> and \<open>read\<close>, the permission check, and
  unmounting.
\<close>

section \<open>Reading and writing\<close>

text \<open>What a process writes to a file it reads back: after a successful \<open>write\<close> of up to six blocks, a \<open>read\<close> of the same length
  through the same descriptor, into any place of the then current memory, stores there the bytes that were written.\<close>

lemma write_then_read:
  assumes "opened k fd f inode" "stack_wf z" "room_for f inode n b"
  shows "\<exists>k1. sys_write z k fd a n = Some (n, k1) \<and>
    (\<forall>z' m y. stack_wf z' \<longrightarrow> (\<exists>k2. sys_read z' (k1\<lparr>mem := m\<rparr>) fd y n = Some (n, k2) \<and>
       load_bytes (mem k2) y n = load_bytes (mem k) a n))"
proof -
  let ?x = "load_bytes (mem k) a n"
  obtain f' inode' where w: "sys_write z k fd a n = Some (n, put_fs k f')" "opened (put_fs k f') fd f' inode'"
    "needs (blen f') n b" "b \<le> 6" "\<forall>i \<in> set [0..int b - 1]. on_disk (dk f') (blocks inode' ! nat i)"
    "int b \<le> blocks_allocated inode'"
    "take (nat n) (concat (map (\<lambda>i. get_block (dk f') (blocks inode' ! nat i)) [0..int b - 1])) = ?x"
    by (rule sys_write_ok [OF assms, of a]) blast
  have bound: "0 < n" "n \<le> 6144"
    using needs_bound [OF _ _ w(3,4)] w(2) by (simp_all add: opened_def fs_ok_def)
  have "\<exists>k2. sys_read z' ((put_fs k f')\<lparr>mem := m\<rparr>) fd y n = Some (n, k2) \<and> load_bytes (mem k2) y n = ?x"
    if "stack_wf z'" for z' m y
  proof -
    have "sys_read z' ((put_fs k f')\<lparr>mem := m\<rparr>) fd y n =
        Some (n, ((put_fs k f')\<lparr>mem := m\<rparr>)\<lparr>mem := store_bytes m y ?x\<rparr>)"
      using sys_read_ok [of "(put_fs k f')\<lparr>mem := m\<rparr>" fd f' inode' z' n b ?x y] that w(2-7) bound by simp
    moreover have "load_bytes (store_bytes m y ?x) y n = ?x"
      using load_bytes_stored [of ?x m y] bound by simp
    ultimately show ?thesis by simp
  qed
  then show ?thesis using w(1) by blast
qed

text \<open>A kernel whose running process 1 has the empty file with inode 3 open as descriptor 3.\<close>

definition file_inode :: inode_t where
  "file_inode = (new_inode 3)\<lparr>ino_type := INODE_FILE\<rparr>"

definition file_disk :: disk where
  "file_disk = put_block demo_disk (u32_of_int 4) (padded (replicate 1024 0) 1024 (enc_inode file_inode))"

definition file_kernel :: kernel where
  "file_kernel = (demo_kernel demo_fds)\<lparr>mounted := Some demo_sb, dsk := file_disk,
     open_files := demo_open [priv_fd 3 3]\<rparr>"

lemma file_inode_wf: "inode_wf file_inode" "ino_id file_inode = 3"
  by (simp_all add: file_inode_def inode_wf_def new_inode_def inode_types)

lemma file_disk_facts:
  "disk_wf file_disk" "on_disk file_disk = on_disk demo_disk" "block_len (peer file_disk) = 1024"
  "block_num (peer file_disk) = 64"
  "get_block file_disk (u32_of_int 4) = padded (replicate 1024 0) 1024 (enc_inode file_inode)"
proof -
  have l: "int (length (enc_inode file_inode)) \<le> 1024" using inc.enc_width [OF file_inode_wf(1)] by simp
  have p: "disk_wf demo_disk" "on_disk demo_disk (u32_of_int 4)" using demo_on_disk [of 4] by simp_all
  note put_block_padded [OF p, of 1024 "replicate 1024 0" "enc_inode file_inode"]
  then show "disk_wf file_disk" "on_disk file_disk = on_disk demo_disk" "block_len (peer file_disk) = 1024"
    "block_num (peer file_disk) = 64"
    "get_block file_disk (u32_of_int 4) = padded (replicate 1024 0) 1024 (enc_inode file_inode)"
    using l by (simp_all add: file_disk_def)
qed

lemma file_opened: "opened file_kernel 3 \<lparr>sb = demo_sb, dk = file_disk\<rparr> file_inode"
proof -
  let ?f = "\<lparr>sb = demo_sb, dk = file_disk\<rparr>"
  have a: "inode_addr demo_sb 3 = u32_of_int 4" by (simp add: inode_addr_def u32_of_int_def)
  have "fs_ok ?f" by (simp add: fs_ok_def file_disk_facts)
  moreover have "inode_slot ?f 3" using demo_slot [of 3] by (simp add: inode_slot_def file_disk_facts(2))
  moreover have "get_block file_disk (inode_addr demo_sb 3) = padded (replicate 1024 0) 1024 (enc_inode file_inode)"
    unfolding a by (rule file_disk_facts(5))
  moreover have "\<exists>ys e zs. fds (open_files file_kernel) = ys @ e # zs \<and> fd_id e = 3 \<and> (\<forall>y \<in> set ys. fd_id y \<noteq> 3) \<and>
      fd_flags e = READ_WRITE \<and> fd_inode_id e = 3"
    by (intro exI [of _ "[]"] exI [of _ "priv_fd 3 3"]) (simp add: file_kernel_def demo_open_facts)
  moreover have "ino_type file_inode = INODE_FILE" by (simp add: file_inode_def)
  moreover have "fs_of file_kernel = Some ?f" "procs_wf (tbl file_kernel)" "fdt_ok (open_files file_kernel)"
    "3 \<in> set (open_fds (tbl file_kernel) (cur (tbl file_kernel)))"
    by (simp_all add: file_kernel_def fs_of_def demo_fds_wf demo_open_facts)
  ultimately show ?thesis
    unfolding opened_def by (auto simp: file_inode_wf file_disk_facts(3))
qed

lemma demo_stack_wf: "stack_wf demo_stack"
  by (simp add: stack_wf_def demo_stack_def directory_wf_def link_wf_def zero_directory_def)

lemma write_then_read_example:
  "\<exists>k1 k2. sys_write demo_stack file_kernel 3 0x8000 5 = Some (5, k1) \<and>
    sys_read demo_stack k1 3 0x9000 5 = Some (5, k2) \<and> load_bytes (mem k2) 0x9000 5 = load_bytes (mem file_kernel) 0x8000 5"
proof -
  have "room_for \<lparr>sb = demo_sb, dk = file_disk\<rparr> file_inode 5 1"
    using demo_room [of 5 3]
    by (simp add: room_for_def file_disk_facts data_block_def file_inode_def new_inode_def)
  from write_then_read [OF file_opened demo_stack_wf this, of "0x8000"] obtain k1 where
    k1: "sys_write demo_stack file_kernel 3 0x8000 5 = Some (5, k1)"
    and r: "\<forall>z' m y. stack_wf z' \<longrightarrow> (\<exists>k2. sys_read z' (k1\<lparr>mem := m\<rparr>) 3 y 5 = Some (5, k2) \<and>
       load_bytes (mem k2) y 5 = load_bytes (mem file_kernel) 0x8000 5)" by blast
  from r [rule_format, OF demo_stack_wf, of "mem k1" "0x9000"] k1 show ?thesis by auto
qed

section \<open>Permissions\<close>

text \<open>C33. A process can use a descriptor it has not opened only if the descriptor is a shared one of the right direction: otherwise \<open>write\<close>
  and \<open>read\<close> fail with a message, and neither memory, disk, files nor processes change.\<close>

theorem foreign_descriptor_refused:
  assumes "procs_wf (tbl k)" "fdt_ok (open_files k)" "fd \<notin> set (open_fds (tbl k) (cur (tbl k)))"
  shows "((\<forall>e \<in> set (fds (open_files k)). fd_id e = fd \<longrightarrow> fd_flags e \<noteq> WRITE_GLOBAL) \<longrightarrow>
      sys_write z k fd a n = Some (- 1, error k ''File not open\<newline>'')) \<and>
    ((\<forall>e \<in> set (fds (open_files k)). fd_id e = fd \<longrightarrow> fd_flags e \<noteq> READ_GLOBAL) \<longrightarrow>
      sys_read z k fd a n = Some (- 1, error k ''File not open\<newline>''))"
proof -
  have cp: "current_pid (tbl k) = Some (cur (tbl k))" by (rule current_pid_cur [OF assms(1)])
  note perm = permission_refused [OF assms]
  show ?thesis using cp perm [of WRITE] perm [of READ]
    by (auto simp: sys_write_def sys_read_def READ_def WRITE_def)
qed

theorem foreign_descriptor_refused_witness:
  "sys_write demo_stack (file_kernel\<lparr>tbl := demo\<rparr>) 3 0x8000 5 = Some (- 1, error (file_kernel\<lparr>tbl := demo\<rparr>) ''File not open\<newline>'')"
proof -
  have "open_fds demo 1 = []" by (simp add: open_fds_def)
  then show ?thesis
    using foreign_descriptor_refused [of "file_kernel\<lparr>tbl := demo\<rparr>" 3 demo_stack "0x8000" 5]
    by (simp add: file_kernel_def demo_open_facts READ_WRITE_def WRITE_GLOBAL_def)
qed

section \<open>Unmounting\<close>

text \<open>\<open>unmount\<close> writes the superblock, but it does not close all files: the loop skips the descriptor that moves into
  the place of a closed one, so every second private descriptor stays open.\<close>

lemma unmount_skips_files:
  assumes "fs_of k = Some f" "fs_ok f" "fdt_ok (open_files k)" "distinct (map fd_id (fds (open_files k)))"
    and "length (s_block z) = 1024"
  shows "\<exists>f' t. write_superblock (s_block z) f = Some (0, f') \<and> fds t = survivors (fds (open_files k)) \<and>
    sys_unmount z k = Some (0, k\<lparr>dsk := dk f', open_files := t, mounted := None, root_dir := None\<rparr>)"
  by (rule sys_unmount_ok) (use assms in simp_all)

lemma unmount_skips_files_example:
  "\<exists>k'. sys_unmount demo_stack (file_kernel\<lparr>open_files := demo_open [priv_fd 0 5, priv_fd 1 6]\<rparr>) = Some (0, k') \<and>
    fds (open_files k') = [priv_fd 1 6]"
proof -
  let ?k = "file_kernel\<lparr>open_files := demo_open [priv_fd 0 5, priv_fd 1 6]\<rparr>"
  have h: "fs_of ?k = Some \<lparr>sb = demo_sb, dk = file_disk\<rparr>" "fs_ok \<lparr>sb = demo_sb, dk = file_disk\<rparr>"
    using file_opened by (simp_all add: opened_def fs_of_def)
  have g: "\<not> global_flags READ_WRITE"
    by (simp add: global_flags_def READ_WRITE_def READ_GLOBAL_def WRITE_GLOBAL_def)
  from unmount_skips_files [OF h, of demo_stack] show ?thesis by (auto simp: demo_open_facts g)
qed

text \<open>After \<open>unmount\<close> the disk is lost until a reset: \<open>mount\<close> itself clears the structures through the
  pointers that \<open>unmount\<close> has set to NULL, and every call that takes a well-formed path goes through them too.\<close>

lemma nothing_works_after_unmount:
  assumes "mounted k = None" "component name" "length name < 100" "length path + length name + 1 < 1024"
  shows "sys_mount z k = None \<and> sys_open z k (path @ slash # name) flags = None \<and>
    sys_mkdir z k (path @ slash # name) = None \<and> sys_rmdir z k (path @ slash # name) = None \<and>
    sys_rm z k (path @ slash # name) = None \<and> sys_ls z k p a = None \<and> sys_stat z k p a = None \<and>
    sys_unmount z k = Some (- 1, error k ''Disk not mounted\<newline>'')"
  using assms(1) parse_filename_spec [OF assms(2-4)]
  by (simp add: sys_mount_def init_disk_globals_def sys_open_def sys_mkdir_def sys_rmdir_def sys_rm_def
      sys_ls_def sys_stat_def sys_unmount_def fs_of_def)

lemma nothing_works_after_unmount_example:
  "sys_mount demo_stack ((demo_kernel demo)\<lparr>mounted := None\<rparr>) = None"
  using nothing_works_after_unmount [of "(demo_kernel demo)\<lparr>mounted := None\<rparr>" "[65]" "[]" demo_stack]
  by (simp add: component_def slash_def)

end
