(* ===== verification/Libc.thy ===== *)
theory Libc
  imports Hilevel
begin

text \<open>
  The user library, \<open>src/question/user/lib/libc.c\<close> and \<open>libc.h\<close>, which every program is linked with.

  A user function works on the memory of the kernel state \<open>k\<close> and enters the kernel with the \<open>svc\<close> instruction. What
  the linker and the low-level handler decide is the record \<open>image\<close>, an argument of every function:
  \<open>svc n args k\<close> is all that happens from the instruction with number \<open>n\<close> and the registers \<open>args\<close> until the
  process continues, other processes included, with the final \<open>r0\<close>; \<open>lit\<close> is the address of a string literal, \<open>sym\<close> the
  address of a function, \<open>CWD\<close> the address of the array of that name in \<open>env.c\<close>. The address of
  a local array is an argument of the function that declares it, and a string that
  does not fit into an array is undefined (\<open>None\<close>).
\<close>

record image =
  svc :: "u32 \<Rightarrow> u32 list \<Rightarrow> kernel \<Rightarrow> (u32 \<times> kernel) option"
  lit :: "string \<Rightarrow> u32"
  sym :: "string \<Rightarrow> u32"
  CWD :: u32

section \<open>Constants\<close>

text \<open>\<open>libc.h\<close> has its own copies of constants of the kernel. That they agree with those of \<open>kernel/system_calls.h\<close> and
  \<open>kernel/fs.h\<close> is the lemma \<open>lib_agrees\<close>.\<close>

definition SYS_YIELD_lib :: u32 where "SYS_YIELD_lib = 0x00"
definition SYS_WRITE_lib :: u32 where "SYS_WRITE_lib = 0x01"
definition SYS_READ_lib :: u32 where "SYS_READ_lib = 0x02"
definition SYS_FORK_lib :: u32 where "SYS_FORK_lib = 0x03"
definition SYS_EXIT_lib :: u32 where "SYS_EXIT_lib = 0x04"
definition SYS_EXEC_lib :: u32 where "SYS_EXEC_lib = 0x05"
definition SYS_KILL_lib :: u32 where "SYS_KILL_lib = 0x06"
definition SYS_PS_lib :: u32 where "SYS_PS_lib = 0x07"
definition SYS_SHARE_lib :: u32 where "SYS_SHARE_lib = 0x08"
definition SYS_UNSHARE_lib :: u32 where "SYS_UNSHARE_lib = 0x09"
definition SYS_LOCK_lib :: u32 where "SYS_LOCK_lib = 0x10"
definition SYS_UNLOCK_lib :: u32 where "SYS_UNLOCK_lib = 0x11"
definition SYS_WAIT_lib :: u32 where "SYS_WAIT_lib = 0x12"
definition SYS_FORKWAIT_lib :: u32 where "SYS_FORKWAIT_lib = 0x13"
definition SYS_OPEN_lib :: u32 where "SYS_OPEN_lib = 0x14"
definition SYS_CLOSE_lib :: u32 where "SYS_CLOSE_lib = 0x15"
definition SYS_MOUNT_lib :: u32 where "SYS_MOUNT_lib = 0x16"
definition SYS_UNMOUNT_lib :: u32 where "SYS_UNMOUNT_lib = 0x17"
definition SYS_LS_lib :: u32 where "SYS_LS_lib = 0x18"
definition SYS_STAT_lib :: u32 where "SYS_STAT_lib = 0x19"
definition SYS_MKDIR_lib :: u32 where "SYS_MKDIR_lib = 0x20"
definition SYS_RMDIR_lib :: u32 where "SYS_RMDIR_lib = 0x21"
definition SYS_RM_lib :: u32 where "SYS_RM_lib = 0x22"

definition EXIT_SUCCESS_lib :: int where "EXIT_SUCCESS_lib = 0"
definition EXIT_FAILURE_lib :: int where "EXIT_FAILURE_lib = 1"
definition STDIN_FILENO :: int where "STDIN_FILENO = 0"
definition STDOUT_FILENO :: int where "STDOUT_FILENO = 2"
definition STDERR_FILENO :: int where "STDERR_FILENO = 1"
definition MAX_PATH_LENGTH_lib :: int where "MAX_PATH_LENGTH_lib = 1024"
definition MAX_FILE_NAME_LENGTH_lib :: int where "MAX_FILE_NAME_LENGTH_lib = 100"
definition INODE_DIRECTORY_lib :: int where "INODE_DIRECTORY_lib = 2"
definition READ_lib :: int where "READ_lib = 0"
definition WRITE_lib :: int where "WRITE_lib = 1"
definition READ_WRITE_lib :: int where "READ_WRITE_lib = 2"

lemmas lib_nums =
  SYS_YIELD_lib_def SYS_WRITE_lib_def SYS_READ_lib_def SYS_FORK_lib_def SYS_EXIT_lib_def SYS_EXEC_lib_def
  SYS_KILL_lib_def SYS_PS_lib_def SYS_SHARE_lib_def SYS_UNSHARE_lib_def SYS_LOCK_lib_def SYS_UNLOCK_lib_def
  SYS_WAIT_lib_def SYS_FORKWAIT_lib_def SYS_OPEN_lib_def SYS_CLOSE_lib_def SYS_MOUNT_lib_def SYS_UNMOUNT_lib_def
  SYS_LS_lib_def SYS_STAT_lib_def SYS_MKDIR_lib_def SYS_RMDIR_lib_def SYS_RM_lib_def MAX_PATH_LENGTH_lib_def
  MAX_FILE_NAME_LENGTH_lib_def INODE_DIRECTORY_lib_def READ_lib_def WRITE_lib_def READ_WRITE_lib_def EXIT_FAILURE_lib_def fs_consts
  inode_types READ_def WRITE_def READ_WRITE_def EXIT_FAILURE_def

lemma lib_agrees [simp]:
  "SYS_YIELD_lib = SYS_YIELD" "SYS_WRITE_lib = SYS_WRITE" "SYS_READ_lib = SYS_READ" "SYS_FORK_lib = SYS_FORK"
  "SYS_EXIT_lib = SYS_EXIT" "SYS_EXEC_lib = SYS_EXEC" "SYS_KILL_lib = SYS_KILL" "SYS_PS_lib = SYS_PS"
  "SYS_SHARE_lib = SYS_SHARE" "SYS_UNSHARE_lib = SYS_UNSHARE" "SYS_LOCK_lib = SYS_LOCK" "SYS_UNLOCK_lib = SYS_UNLOCK"
  "SYS_WAIT_lib = SYS_WAIT" "SYS_FORKWAIT_lib = SYS_FORKWAIT" "SYS_OPEN_lib = SYS_OPEN" "SYS_CLOSE_lib = SYS_CLOSE"
  "SYS_MOUNT_lib = SYS_MOUNT" "SYS_UNMOUNT_lib = SYS_UNMOUNT" "SYS_LS_lib = SYS_LS" "SYS_STAT_lib = SYS_STAT"
  "SYS_MKDIR_lib = SYS_MKDIR" "SYS_RMDIR_lib = SYS_RMDIR" "SYS_RM_lib = SYS_RM" "MAX_PATH_LENGTH_lib = MAX_PATH_LENGTH"
  "MAX_FILE_NAME_LENGTH_lib = MAX_FILE_NAME_LENGTH" "INODE_DIRECTORY_lib = INODE_DIRECTORY" "READ_lib = READ" "WRITE_lib = WRITE"
  "READ_WRITE_lib = READ_WRITE" "EXIT_FAILURE_lib = EXIT_FAILURE"
  by (simp_all add: lib_nums sys_nums)

section \<open>Memory\<close>

definition put_mem :: "kernel \<Rightarrow> u32 \<Rightarrow> u8 list \<Rightarrow> kernel" where
  "put_mem k a xs = k\<lparr>mem := store_bytes (mem k) a xs\<rparr>"

definition memset :: "kernel \<Rightarrow> u32 \<Rightarrow> u8 \<Rightarrow> int \<Rightarrow> kernel" where
  "memset k a x n = put_mem k a (replicate (nat n) x)"

definition strlen :: "kernel \<Rightarrow> u32 \<Rightarrow> int option" where
  "strlen k a = do { s \<leftarrow> cstr_at (mem k) a; Some (int (length s)) }"

definition strcpy_to :: "kernel \<Rightarrow> u32 \<Rightarrow> int \<Rightarrow> u8 list \<Rightarrow> kernel option" where
  "strcpy_to k a cap s = (if int (length s) + 1 \<le> cap then Some (put_mem k a (s @ [0])) else None)"

definition strcat_to :: "kernel \<Rightarrow> u32 \<Rightarrow> int \<Rightarrow> u8 list \<Rightarrow> kernel option" where
  "strcat_to k a cap s = do {
     old \<leftarrow> cstr_at (mem k) a;
     strcpy_to k a cap (old @ s)
   }"

section \<open>Numbers\<close>

definition atoi :: "u8 list \<Rightarrow> int" where
  "atoi x =
     (let (s, p) = (case x of
          [] \<Rightarrow> (False, [])
        | c # cs \<Rightarrow> if c = of_char (CHR ''-'') then (True, cs)
                   else if c = of_char (CHR ''+'') then (False, cs) else (False, x))
      in foldl (\<lambda>r c. i32 (if s then r * 10 - (uint c - 48) else r * 10 + (uint c - 48))) 0 p)"

text \<open>\<open>itoa\<close> and \<open>ss\<close> have the same text as \<open>sitoa\<close> and \<open>s\<close> of the kernel.\<close>

definition itoa :: "u8 list \<Rightarrow> int \<Rightarrow> u8 list option" where
  "itoa r x = sitoa r x"

definition ss :: "u8 list \<Rightarrow> int \<Rightarrow> (u8 list \<times> u8 list) option" where
  "ss b x = s_c b x"

section \<open>System calls\<close>


definition call :: "image \<Rightarrow> u32 \<Rightarrow> u32 list \<Rightarrow> kernel \<Rightarrow> (int \<times> kernel) option" where
  "call I n args k = do { (r, k) \<leftarrow> svc I n args k; Some (int_of_u32 r, k) }"

definition yield :: "image \<Rightarrow> kernel \<Rightarrow> kernel option" where
  "yield I k = do { (_, k) \<leftarrow> call I SYS_YIELD_lib [] k; Some k }"

definition write_c :: "image \<Rightarrow> int \<Rightarrow> u32 \<Rightarrow> int \<Rightarrow> kernel \<Rightarrow> (int \<times> kernel) option" where
  "write_c I fd x n k = call I SYS_WRITE_lib [u32_of_int fd, x, u32_of_int n] k"

definition open_c :: "image \<Rightarrow> u32 \<Rightarrow> int \<Rightarrow> kernel \<Rightarrow> (int \<times> kernel) option" where
  "open_c I path flags k = call I SYS_OPEN_lib [path, u32_of_int flags] k"

definition close :: "image \<Rightarrow> int \<Rightarrow> kernel \<Rightarrow> (int \<times> kernel) option" where
  "close I fd k = call I SYS_CLOSE_lib [u32_of_int fd] k"

definition mount :: "image \<Rightarrow> kernel \<Rightarrow> (int \<times> kernel) option" where
  "mount I k = call I SYS_MOUNT_lib [] k"

definition unmount :: "image \<Rightarrow> kernel \<Rightarrow> (int \<times> kernel) option" where
  "unmount I k = call I SYS_UNMOUNT_lib [] k"

definition err :: "image \<Rightarrow> u32 \<Rightarrow> kernel \<Rightarrow> kernel option" where
  "err I msg k = do {
     n \<leftarrow> strlen k msg;
     (_, k) \<leftarrow> write_c I STDERR_FILENO msg n k;
     Some k
   }"

definition puts :: "image \<Rightarrow> u32 \<Rightarrow> kernel \<Rightarrow> kernel option" where
  "puts I msg k = do {
     n \<leftarrow> strlen k msg;
     (_, k) \<leftarrow> write_c I STDOUT_FILENO msg n k;
     Some k
   }"

definition read :: "image \<Rightarrow> int \<Rightarrow> u32 \<Rightarrow> int \<Rightarrow> kernel \<Rightarrow> (int \<times> kernel) option" where
  "read I fd x n k = call I SYS_READ_lib [u32_of_int fd, x, u32_of_int n] k"

definition fork :: "image \<Rightarrow> kernel \<Rightarrow> (int \<times> kernel) option" where
  "fork I k = call I SYS_FORK_lib [] k"

definition fork_wait :: "image \<Rightarrow> kernel \<Rightarrow> (int \<times> kernel) option" where
  "fork_wait I k = call I SYS_FORKWAIT_lib [] k"

definition ps :: "image \<Rightarrow> int \<Rightarrow> kernel \<Rightarrow> kernel option" where
  "ps I p k = do { (_, k) \<leftarrow> call I SYS_PS_lib [u32_of_int p] k; Some k }"

text \<open>\<open>exit\<close> does not return: it is the last step of a program, whose result is the status and the state it leaves.\<close>

definition exit :: "image \<Rightarrow> int \<Rightarrow> kernel \<Rightarrow> (int \<times> kernel) option" where
  "exit I x k = do { (_, k) \<leftarrow> call I SYS_EXIT_lib [u32_of_int x] k; Some (x, k) }"

definition exec :: "image \<Rightarrow> u32 \<Rightarrow> int \<Rightarrow> u32 \<Rightarrow> kernel \<Rightarrow> kernel option" where
  "exec I x interactive args k = do {
     (_, k) \<leftarrow> call I SYS_EXEC_lib [x, u32_of_int interactive, args] k;
     Some k
   }"

definition kill :: "image \<Rightarrow> int \<Rightarrow> int \<Rightarrow> kernel \<Rightarrow> (int \<times> kernel) option" where
  "kill I p x k = call I SYS_KILL_lib [u32_of_int p, u32_of_int x] k"

definition sharem :: "image \<Rightarrow> u32 \<Rightarrow> kernel \<Rightarrow> (int \<times> kernel) option" where
  "sharem I a k = call I SYS_SHARE_lib [a] k"

definition unsharem :: "image \<Rightarrow> u32 \<Rightarrow> kernel \<Rightarrow> (int \<times> kernel) option" where
  "unsharem I a k = call I SYS_UNSHARE_lib [a] k"

definition try_lockm :: "image \<Rightarrow> u32 \<Rightarrow> kernel \<Rightarrow> (int \<times> kernel) option" where
  "try_lockm I a k = call I SYS_LOCK_lib [a] k"

partial_function (option) lockm_wait :: "image \<Rightarrow> u32 \<Rightarrow> int \<Rightarrow> kernel \<Rightarrow> (int \<times> kernel) option" where
  "lockm_wait I a got k =
     (if got \<noteq> 0 then Some (got, k)
      else do {
        k \<leftarrow> yield I k;
        (got, k) \<leftarrow> try_lockm I a k;
        lockm_wait I a got k
      })"

definition lockm :: "image \<Rightarrow> u32 \<Rightarrow> kernel \<Rightarrow> (int \<times> kernel) option" where
  "lockm I a k = do { (got, k) \<leftarrow> try_lockm I a k; lockm_wait I a got k }"

definition unlockm :: "image \<Rightarrow> u32 \<Rightarrow> kernel \<Rightarrow> (int \<times> kernel) option" where
  "unlockm I a k = call I SYS_UNLOCK_lib [a] k"

definition try_waitp :: "image \<Rightarrow> int \<Rightarrow> kernel \<Rightarrow> (int \<times> kernel) option" where
  "try_waitp I p k = call I SYS_WAIT_lib [u32_of_int p] k"

definition ls :: "image \<Rightarrow> u32 \<Rightarrow> u32 \<Rightarrow> kernel \<Rightarrow> (int \<times> kernel) option" where
  "ls I path file_list k = call I SYS_LS_lib [path, file_list] k"

definition stat :: "image \<Rightarrow> u32 \<Rightarrow> u32 \<Rightarrow> kernel \<Rightarrow> (int \<times> kernel) option" where
  "stat I path file_info k = call I SYS_STAT_lib [path, file_info] k"

definition mkdir :: "image \<Rightarrow> u32 \<Rightarrow> kernel \<Rightarrow> (int \<times> kernel) option" where
  "mkdir I path k = call I SYS_MKDIR_lib [path] k"

definition rmdir :: "image \<Rightarrow> u32 \<Rightarrow> kernel \<Rightarrow> (int \<times> kernel) option" where
  "rmdir I path k = call I SYS_RMDIR_lib [path] k"

definition rm :: "image \<Rightarrow> u32 \<Rightarrow> kernel \<Rightarrow> (int \<times> kernel) option" where
  "rm I path k = call I SYS_RM_lib [path] k"

definition waitpnb :: "image \<Rightarrow> int \<Rightarrow> kernel \<Rightarrow> (int \<times> kernel) option" where
  "waitpnb I p k = try_waitp I p k"

partial_function (option) waitp_wait :: "image \<Rightarrow> int \<Rightarrow> int \<Rightarrow> kernel \<Rightarrow> (int \<times> kernel) option" where
  "waitp_wait I p result k =
     (if result = - 1 then do {
        k \<leftarrow> yield I k;
        (result, k) \<leftarrow> try_waitp I p k;
        waitp_wait I p result k
      }
      else Some (if result = - 2 then - 1 else result, k))"

definition waitp :: "image \<Rightarrow> int \<Rightarrow> kernel \<Rightarrow> (int \<times> kernel) option" where
  "waitp I p k = do { (result, k) \<leftarrow> try_waitp I p k; waitp_wait I p result k }"

section \<open>Sleeping\<close>

text \<open>The trial division of \<open>_slow\<close>; \<open>is_prime\<close> of \<open>P3.c\<close> has the same text.\<close>

partial_function (option) slow_loop :: "u32 \<Rightarrow> u32 \<Rightarrow> int option" where
  "slow_loop x d =
     (if d * d \<le> x then (if x mod d = 0 then Some 0 else slow_loop x (d + 2)) else Some 1)"

definition slow :: "u32 \<Rightarrow> int option" where
  "slow x =
     (if x AND 1 = 0 \<or> x < 2 then Some (if x = 2 then 1 else 0)
      else slow_loop x 3)"

definition sleep :: "image \<Rightarrow> int \<Rightarrow> kernel \<Rightarrow> kernel option" where
  "sleep I t k = do {
     k \<leftarrow> yield I k;
     _ \<leftarrow> foreach (\<lambda>_ u. foreach (\<lambda>x u. do { _ \<leftarrow> slow (u32_of_int x); Some u }) [2 ^ 8..2 ^ 16 - 1] u)
       [0..4 * t - 1] ();
     Some k
   }"

section \<open>Arguments\<close>

definition path_from_args :: "kernel \<Rightarrow> u32 \<Rightarrow> u32 \<Rightarrow> u32 \<Rightarrow> int \<Rightarrow> kernel option" where
  "path_from_args k working_dir args path cap = do {
     a \<leftarrow> cstr_at (mem k) args;
     case a of
       [] \<Rightarrow> do { d \<leftarrow> cstr_at (mem k) working_dir; strcpy_to k path cap d }
     | c # _ \<Rightarrow>
         if c = slash then strcpy_to k path cap a
         else do {
           d \<leftarrow> cstr_at (mem k) working_dir;
           k \<leftarrow> strcpy_to k path cap d;
           strcat_to k path cap a
         }
   }"

definition space :: u8 where "space = 32"

text \<open>\<open>cap\<close> is the size of the caller's array \<open>cmd\<close>; the bytes copied to \<open>args\<close> are not terminated.\<close>

definition parse_cmd :: "kernel \<Rightarrow> u32 \<Rightarrow> u32 \<Rightarrow> int \<Rightarrow> u32 \<Rightarrow> int \<Rightarrow> (int \<times> kernel) option" where
  "parse_cmd k input cmd cap args argcap = do {
     inp \<leftarrow> cstr_at (mem k) input;
     if 1024 < int (length inp) + 1 then None
     else case strtok_all space inp of
       [] \<Rightarrow> Some (- 1, k)
     | first_word # _ \<Rightarrow> do {
         k \<leftarrow> strcpy_to k cmd cap first_word;
         if int (length first_word) + 1 \<ge> int (length inp) then Some (0, k)
         else do {
           let n = int (length inp) - int (length first_word) - 1;
           if n \<le> argcap
           then Some (0, put_mem k args (load_bytes (mem k) (input + u32_of_int (int (length first_word) + 1)) n))
           else None
         }
       }
   }"

end
