(* ===== verification/Programs.thy ===== *)
theory Programs
  imports Libc
begin

text \<open>
  The user programs of \<open>src/question/user/bin\<close>. A program ends in \<open>exit\<close>; its
  model returns the exit status and the state, or \<open>None\<close> when it does not end or leaves defined behaviour.
  \<open>main_P5\<close> calls \<open>exec\<close> with two arguments where \<open>libc.h\<close> declares three; a compiler that accepts this
  leaves the third to what its register holds, which is the argument \<open>r2\<close> of the model. \<open>strtok\<close>
  is the list of the tokens; the zero bytes it writes into a string that is not read again have no model.
\<close>

section \<open>Output\<close>

definition print :: "(image \<Rightarrow> u32 \<Rightarrow> kernel \<Rightarrow> kernel option) \<Rightarrow> image \<Rightarrow> string \<Rightarrow> kernel \<Rightarrow> kernel option" where
  "print out I msg k = out I (lit I msg) k"

text \<open>\<open>ss\<close> on an array of the program: the number is written to the array, except for 0, which is a literal.\<close>

definition ss_to :: "image \<Rightarrow> u32 \<Rightarrow> int \<Rightarrow> int \<Rightarrow> kernel \<Rightarrow> (u32 \<times> kernel) option" where
  "ss_to I b cap x k = do {
     (bs, _) \<leftarrow> ss (load_bytes (mem k) b cap) x;
     Some (if x = 0 then lit I ''0'' else b, put_mem k b bs)
   }"

definition print_int :: "(image \<Rightarrow> u32 \<Rightarrow> kernel \<Rightarrow> kernel option) \<Rightarrow> image \<Rightarrow> u32 \<Rightarrow> int \<Rightarrow> int \<Rightarrow> kernel \<Rightarrow> kernel option" where
  "print_int out I b cap x k = do { (s, k) \<leftarrow> ss_to I b cap x k; out I s k }"

section \<open>Computations\<close>

text \<open>\<open>is_prime\<close> (\<open>P3.c\<close>) has the text of \<open>_slow\<close> in the library.\<close>

definition is_prime :: "u32 \<Rightarrow> int option" where
  "is_prime x =
     (if x AND 1 = 0 \<or> x < 2 then Some (if x = 2 then 1 else 0)
      else slow_loop x 3)"

definition main_P3 :: "image \<Rightarrow> u32 \<Rightarrow> kernel \<Rightarrow> (int \<times> kernel) option" where
  "main_P3 I args k = do {
     k \<leftarrow> err I args k;
     k \<leftarrow> foreach (\<lambda>_ k. do {
            k \<leftarrow> print err I ''P3'' k;
            foreach (\<lambda>x k. do { _ \<leftarrow> is_prime (u32_of_int x); Some k }) [2 ^ 8..2 ^ 16 - 1] k }) [0..8 - 1] k;
     exit I EXIT_SUCCESS_lib k
   }"

partial_function (option) gcd_c :: "u32 \<Rightarrow> u32 \<Rightarrow> u32 option" where
  "gcd_c x y =
     (if x = y then Some x
      else if x > y then gcd_c (x - y) y
      else gcd_c x (y - x))"

partial_function (option) main_P4 :: "image \<Rightarrow> kernel \<Rightarrow> (int \<times> kernel) option" where
  "main_P4 I k = do {
     k \<leftarrow> print err I ''P4'' k;
     k \<leftarrow> foreach (\<lambda>x k. foreach (\<lambda>y k. do { _ \<leftarrow> gcd_c (u32_of_int x) (u32_of_int y); Some k })
            [2 ^ 4..2 ^ 8 - 1] k) [2 ^ 4..2 ^ 8 - 1] k;
     main_P4 I k
   }"

definition weight :: "u32 \<Rightarrow> u32" where
  "weight x =
     (let x = (x AND 0x55555555) + (drop_bit 1 x AND 0x55555555);
          x = (x AND 0x33333333) + (drop_bit 2 x AND 0x33333333);
          x = (x AND 0x0F0F0F0F) + (drop_bit 4 x AND 0x0F0F0F0F);
          x = (x AND 0x00FF00FF) + (drop_bit 8 x AND 0x00FF00FF)
      in (x AND 0x0000FFFF) + (drop_bit 16 x AND 0x0000FFFF))"

section \<open>File commands\<close>

text \<open>The second argument, NULL, is the flag \<open>interactive\<close>.\<close>

partial_function (option) P5_loop :: "image \<Rightarrow> kernel \<Rightarrow> (int \<times> kernel) option" where
  "P5_loop I k = do {
     k \<leftarrow> print err I ''P5'' k;
     k \<leftarrow> foreach (\<lambda>x k. do { let r = weight (u32_of_int x); Some k }) [2 ^ 8..2 ^ 24 - 1] k;
     P5_loop I k
   }"

definition main_P5 :: "image \<Rightarrow> u32 \<Rightarrow> u32 \<Rightarrow> kernel \<Rightarrow> (int \<times> kernel) option" where
  "main_P5 I b r2 k = do {
     k \<leftarrow> print err I ''Starting P3\<newline>'' k;
     (pid, k) \<leftarrow> fork I k;
     k \<leftarrow> (if pid = 0 then exec I (sym I ''main_P3'') 0 r2 k else Some k);
     k \<leftarrow> print err I ''Spawned P3\<newline>'' k;
     (r, k) \<leftarrow> waitp I pid k;
     k \<leftarrow> print err I ''Returned with'' k;
     k \<leftarrow> print_int err I b 1024 r k;
     k \<leftarrow> print err I ''\<newline>'' k;
     (_, k) \<leftarrow> P5_loop I k;
     exit I EXIT_SUCCESS_lib k
   }"

definition main_prog_cat :: "image \<Rightarrow> u32 \<Rightarrow> u32 \<Rightarrow> u32 \<Rightarrow> kernel \<Rightarrow> (int \<times> kernel) option" where
  "main_prog_cat I path text args k = do {
     k \<leftarrow> path_from_args k (CWD I) args path 1024;
     (fd, k) \<leftarrow> open_c I path READ_lib k;
     if fd < 0 then do { k \<leftarrow> print err I ''Failed to open file\<newline>'' k; exit I EXIT_FAILURE_lib k }
     else do {
       (r, k) \<leftarrow> read I fd text 1024 k;
       if r < 0 then do { k \<leftarrow> print err I ''Failed to read to file\<newline>'' k; exit I EXIT_FAILURE_lib k }
       else do {
         (r, k) \<leftarrow> close I fd k;
         if r < 0 then do { k \<leftarrow> print err I ''Failed to close file\<newline>'' k; exit I EXIT_FAILURE_lib k }
         else do { k \<leftarrow> puts I text k; exit I EXIT_SUCCESS_lib k }
       }
     }
   }"

definition main_prog_echo :: "image \<Rightarrow> u32 \<Rightarrow> kernel \<Rightarrow> (int \<times> kernel) option" where
  "main_prog_echo I args k = do {
     n \<leftarrow> strlen k args;
     (_, k) \<leftarrow> write_c I STDOUT_FILENO args n k;
     exit I EXIT_SUCCESS_lib k
   }"

text \<open>\<open>atoi(strtok(...))\<close>: a missing token is a NULL pointer.\<close>

definition atoi_token :: "u8 list list \<Rightarrow> nat \<Rightarrow> int option" where
  "atoi_token ts i = (if i < length ts then Some (atoi (ts ! i)) else None)"

definition main_prog_kill :: "image \<Rightarrow> u32 \<Rightarrow> kernel \<Rightarrow> (int \<times> kernel) option" where
  "main_prog_kill I args k = do {
     a \<leftarrow> cstr_at (mem k) args;
     p \<leftarrow> atoi_token (strtok_all space a) 0;
     s \<leftarrow> atoi_token (strtok_all space a) 1;
     (_, k) \<leftarrow> kill I p s k;
     exit I EXIT_SUCCESS_lib k
   }"

definition main_prog_ps :: "image \<Rightarrow> u32 \<Rightarrow> kernel \<Rightarrow> (int \<times> kernel) option" where
  "main_prog_ps I args k = do {
     a \<leftarrow> cstr_at (mem k) args;
     p \<leftarrow> (if a \<noteq> [] then atoi_token (strtok_all space a) 0 else Some 0);
     k \<leftarrow> ps I p k;
     exit I EXIT_SUCCESS_lib k
   }"

definition main_prog_ls :: "image \<Rightarrow> u32 \<Rightarrow> u32 \<Rightarrow> u32 \<Rightarrow> kernel \<Rightarrow> (int \<times> kernel) option" where
  "main_prog_ls I path file_list args k = do {
     k \<leftarrow> path_from_args k (CWD I) args path 100;
     let k = memset k file_list 0 MAX_PATH_LENGTH_lib;
     (r, k) \<leftarrow> ls I path file_list k;
     if r < 0 then exit I EXIT_FAILURE_lib k
     else do { k \<leftarrow> puts I file_list k; exit I EXIT_SUCCESS_lib k }
   }"

definition main_prog_mkdir :: "image \<Rightarrow> u32 \<Rightarrow> u32 \<Rightarrow> kernel \<Rightarrow> (int \<times> kernel) option" where
  "main_prog_mkdir I path args k = do {
     k \<leftarrow> path_from_args k (CWD I) args path MAX_PATH_LENGTH_lib;
     (r, k) \<leftarrow> mkdir I path k;
     if r < 0 then exit I EXIT_FAILURE_lib k else exit I EXIT_SUCCESS_lib k
   }"

definition main_prog_rm :: "image \<Rightarrow> u32 \<Rightarrow> u32 \<Rightarrow> kernel \<Rightarrow> (int \<times> kernel) option" where
  "main_prog_rm I path args k = do {
     k \<leftarrow> path_from_args k (CWD I) args path MAX_PATH_LENGTH_lib;
     (r, k) \<leftarrow> rm I path k;
     if r < 0 then exit I EXIT_FAILURE_lib k else exit I EXIT_SUCCESS_lib k
   }"

definition main_prog_rmdir :: "image \<Rightarrow> u32 \<Rightarrow> u32 \<Rightarrow> kernel \<Rightarrow> (int \<times> kernel) option" where
  "main_prog_rmdir I path args k = do {
     k \<leftarrow> path_from_args k (CWD I) args path MAX_PATH_LENGTH_lib;
     (r, k) \<leftarrow> rmdir I path k;
     if r < 0 then exit I EXIT_FAILURE_lib k else exit I EXIT_SUCCESS_lib k
   }"

text \<open>The fields of a \<open>file_stat_t\<close>, 16 bytes: type, size, creation time, modification time.\<close>

definition stat_field :: "kernel \<Rightarrow> u32 \<Rightarrow> int \<Rightarrow> int" where
  "stat_field k info i = dec_int (load_bytes (mem k) (info + u32_of_int (4 * i)) 4)"

definition main_prog_stat :: "image \<Rightarrow> u32 \<Rightarrow> u32 \<Rightarrow> u32 \<Rightarrow> u32 \<Rightarrow> kernel \<Rightarrow> (int \<times> kernel) option" where
  "main_prog_stat I path info b args k = do {
     k \<leftarrow> path_from_args k (CWD I) args path 100;
     let k = memset k info 0 16;
     (r, k) \<leftarrow> stat I path info k;
     if r < 0 then exit I EXIT_FAILURE_lib k
     else do {
       k \<leftarrow> print puts I ''Type: '' k;
       k \<leftarrow> print_int puts I b 1024 (stat_field k info 0) k;
       k \<leftarrow> print puts I ''\<newline>'' k;
       k \<leftarrow> print puts I ''Size (bytes): '' k;
       k \<leftarrow> print_int puts I b 1024 (stat_field k info 1) k;
       k \<leftarrow> print puts I ''\<newline>'' k;
       k \<leftarrow> print puts I ''Creation Time: '' k;
       k \<leftarrow> print_int puts I b 1024 (stat_field k info 2) k;
       k \<leftarrow> print puts I ''\<newline>'' k;
       k \<leftarrow> print puts I ''Modification Time '' k;
       k \<leftarrow> print_int puts I b 1024 (stat_field k info 3) k;
       k \<leftarrow> print puts I ''\<newline>'' k;
       exit I EXIT_SUCCESS_lib k
     }
   }"

definition main_prog_cd :: "image \<Rightarrow> u32 \<Rightarrow> u32 \<Rightarrow> u32 \<Rightarrow> kernel \<Rightarrow> (int \<times> kernel) option" where
  "main_prog_cd I CWD_copy info path k = do {
     p \<leftarrow> cstr_at (mem k) path;
     if p = bstr ''.'' then exit I EXIT_SUCCESS_lib k
     else if p = [] then do { k \<leftarrow> strcpy_to k (CWD I) 1024 (bstr ''/''); exit I EXIT_FAILURE_lib k }
     else do {
       k \<leftarrow> path_from_args k (CWD I) path CWD_copy MAX_PATH_LENGTH_lib;
       c \<leftarrow> cstr_at (mem k) CWD_copy;
       l \<leftarrow> rd c (int (length c) - 1);
       k \<leftarrow> (if l \<noteq> slash then strcat_to k CWD_copy MAX_PATH_LENGTH_lib (bstr ''/'') else Some k);
       let k = memset k info 0 16;
       (r, k) \<leftarrow> stat I CWD_copy info k;
       if r < 0 then do {
         k \<leftarrow> print err I ''Failed to open '' k;
         k \<leftarrow> err I CWD_copy k;
         k \<leftarrow> print err I ''\<newline>'' k;
         exit I EXIT_FAILURE_lib k
       }
       else if stat_field k info 0 \<noteq> INODE_DIRECTORY_lib then do {
         k \<leftarrow> print err I ''This is not a directory\<newline>'' k;
         exit I EXIT_FAILURE_lib k
       }
       else do {
         c \<leftarrow> cstr_at (mem k) CWD_copy;
         k \<leftarrow> strcpy_to k (CWD I) 1024 c;
         exit I EXIT_SUCCESS_lib k
       }
     }
   }"

definition main_prog_wc ::
  "image \<Rightarrow> u32 \<Rightarrow> u32 \<Rightarrow> u32 \<Rightarrow> u32 \<Rightarrow> u32 \<Rightarrow> kernel \<Rightarrow> (int \<times> kernel) option" where
  "main_prog_wc I path text info b args k = do {
     k \<leftarrow> path_from_args k (CWD I) args path 1024;
     (fd, k) \<leftarrow> open_c I path READ_lib k;
     if fd < 0 then do { k \<leftarrow> print err I ''Failed to open file\<newline>'' k; exit I EXIT_FAILURE_lib k }
     else do {
       (r, k) \<leftarrow> stat I path info k;
       if r \<noteq> 0 then do { k \<leftarrow> print err I ''Failed to get file info\<newline>'' k; exit I EXIT_FAILURE_lib k }
       else do {
         (r, k) \<leftarrow> read I fd text (stat_field k info 1) k;
         if r < 0 then do { k \<leftarrow> print err I ''Failed to write to file\<newline>'' k; exit I EXIT_FAILURE_lib k }
         else do {
           (r, k) \<leftarrow> close I fd k;
           if r < 0 then do { k \<leftarrow> print err I ''Failed to close file\<newline>'' k; exit I EXIT_FAILURE_lib k }
           else do {
             t \<leftarrow> cstr_at (mem k) text;
             let count = int (length (strtok_all 10 t));
             (bs, _) \<leftarrow> ss (load_bytes (mem k) b 10) count;
             k \<leftarrow> puts I b (put_mem k b bs);
             exit I EXIT_SUCCESS_lib k
           }
         }
       }
     }
   }"

definition main_prog_vima ::
  "image \<Rightarrow> u32 \<Rightarrow> u32 \<Rightarrow> u32 \<Rightarrow> u32 \<Rightarrow> u32 \<Rightarrow> kernel \<Rightarrow> (int \<times> kernel) option" where
  "main_prog_vima I fname text_read text_to_write path args k = do {
     let k = memset k text_read 0 1024;
     let k = memset k text_to_write 0 1024;
     (r, k) \<leftarrow> parse_cmd k args fname MAX_FILE_NAME_LENGTH_lib text_read 1024;
     if r < 0 then do { k \<leftarrow> print err I ''Incorrect args, vima <filename> <text>\<newline>'' k; exit I EXIT_FAILURE_lib k }
     else do {
       k \<leftarrow> path_from_args k (CWD I) fname path MAX_PATH_LENGTH_lib;
       (fd, k) \<leftarrow> open_c I path READ_WRITE_lib k;
       if fd < 0 then do { k \<leftarrow> print err I ''Failed to open file\<newline>'' k; exit I EXIT_FAILURE_lib k }
       else do {
         (r, k) \<leftarrow> read I fd text_to_write 1024 k;
         if r < 0 then do { k \<leftarrow> print err I ''Failed to read to file\<newline>'' k; exit I EXIT_FAILURE_lib k }
         else do {
           k \<leftarrow> puts I text_to_write k;
           t \<leftarrow> cstr_at (mem k) text_read;
           k \<leftarrow> (if t = [] then do { (_, k) \<leftarrow> read I STDIN_FILENO text_read 1024 k; Some k } else Some k);
           t \<leftarrow> cstr_at (mem k) text_read;
           k \<leftarrow> strcat_to k text_to_write 1024 t;
           n \<leftarrow> strlen k text_to_write;
           (r, k) \<leftarrow> write_c I fd text_to_write (n + 1) k;
           if r < 0 then do { k \<leftarrow> print err I ''Failed to write to file\<newline>'' k; exit I EXIT_FAILURE_lib k }
           else do {
             (r, k) \<leftarrow> close I fd k;
             if r < 0 then do { k \<leftarrow> print err I ''Failed to close file\<newline>'' k; exit I EXIT_FAILURE_lib k }
             else exit I EXIT_SUCCESS_lib k
           }
         }
       }
     }
   }"

definition main_prog_vim :: "image \<Rightarrow> u32 \<Rightarrow> u32 \<Rightarrow> u32 \<Rightarrow> u32 \<Rightarrow> kernel \<Rightarrow> (int \<times> kernel) option" where
  "main_prog_vim I fname text path args k = do {
     let k = memset k text 0 1024;
     (r, k) \<leftarrow> parse_cmd k args fname MAX_FILE_NAME_LENGTH_lib text 1024;
     if r < 0 then do { k \<leftarrow> print err I ''Incorrect args, vim <filename> <text>\<newline>'' k; exit I EXIT_FAILURE_lib k }
     else do {
       k \<leftarrow> path_from_args k (CWD I) fname path MAX_PATH_LENGTH_lib;
       (fd, k) \<leftarrow> open_c I path WRITE_lib k;
       if fd < 0 then do { k \<leftarrow> print err I ''Failed to open file\<newline>'' k; exit I EXIT_FAILURE_lib k }
       else do {
         t \<leftarrow> cstr_at (mem k) text;
         k \<leftarrow> (if t = [] then do { (_, k) \<leftarrow> read I STDIN_FILENO text 1024 k; Some k } else Some k);
         n \<leftarrow> strlen k text;
         (r, k) \<leftarrow> write_c I fd text (n + 1) k;
         if r < 0 then do { k \<leftarrow> print err I ''Failed to write to file\<newline>'' k; exit I EXIT_FAILURE_lib k }
         else do {
           (r, k) \<leftarrow> close I fd k;
           if r < 0 then do { k \<leftarrow> print err I ''Failed to close file\<newline>'' k; exit I EXIT_FAILURE_lib k }
           else exit I EXIT_SUCCESS_lib k
         }
       }
     }
   }"

end
