(* ===== verification/Philosophers.thy ===== *)
theory Philosophers
  imports Programs
begin

text \<open>
  The dining philosophers, \<open>src/question/user/bin/dinning_philosophers.c\<close>: 16 processes take and return forks that an arbitrator in
  shared memory at address \<open>A\<close> keeps, one lock around each meal. The structure \<open>arbitrator_t\<close> is 132 bytes in that memory:
  16 forks, 16 ids that are still to be handed out, and the state of the game.
\<close>

section \<open>The arbitrator\<close>

definition PHILOSOPHERS :: int where "PHILOSOPHERS = 16"

definition int_at :: "kernel \<Rightarrow> u32 \<Rightarrow> int" where
  "int_at k a = dec_int (load_bytes (mem k) a 4)"

definition put_int :: "kernel \<Rightarrow> u32 \<Rightarrow> int \<Rightarrow> kernel" where
  "put_int k a x = put_mem k a (enc_int x)"

definition forks :: "u32 \<Rightarrow> int \<Rightarrow> u32" where "forks A i = A + u32_of_int (4 * i)"
definition ids :: "u32 \<Rightarrow> int \<Rightarrow> u32" where "ids A i = A + u32_of_int (4 * (PHILOSOPHERS + i))"
definition state :: "u32 \<Rightarrow> u32" where "state A = A + u32_of_int (4 * (2 * PHILOSOPHERS))"

section \<open>A philosopher\<close>

fun take_id :: "u32 \<Rightarrow> int list \<Rightarrow> kernel \<Rightarrow> int \<times> kernel" where
  "take_id A [] k = (- 1, k)"
| "take_id A (i # is) k =
     (if int_at k (ids A i) \<noteq> - 1 then
        (let x = int_at k (ids A i);
             k = put_int k (ids A i) (- 1);
             k = (if i = PHILOSOPHERS - 1 then put_int k (state A) 1 else k)
         in (x, k))
      else take_id A is k)"

definition get_id :: "image \<Rightarrow> u32 \<Rightarrow> kernel \<Rightarrow> (int \<times> kernel) option" where
  "get_id I A k = do {
     (_, k) \<leftarrow> lockm I A k;
     let (x, k) = take_id A [0..PHILOSOPHERS - 1] k;
     (_, k) \<leftarrow> unlockm I A k;
     Some (x, k)
   }"

definition get_left_fork :: "int \<Rightarrow> u32 \<Rightarrow> kernel \<Rightarrow> int \<times> kernel" where
  "get_left_fork n A k =
     (let left_fork = int_at k (forks A n)
      in (left_fork, if left_fork \<noteq> 0 then put_int k (forks A n) 0 else k))"

definition get_right_fork :: "int \<Rightarrow> u32 \<Rightarrow> kernel \<Rightarrow> int \<times> kernel" where
  "get_right_fork n A k =
     (let right_fork = int_at k (forks A (cmod (n + 1) PHILOSOPHERS))
      in (right_fork, if right_fork \<noteq> 0 then put_int k (forks A (cmod (n + 1) PHILOSOPHERS)) 0 else k))"

definition put_forks_back :: "int \<Rightarrow> u32 \<Rightarrow> int \<Rightarrow> int \<Rightarrow> kernel \<Rightarrow> kernel" where
  "put_forks_back n A left_fork right_fork k =
     (let k = (if left_fork \<noteq> 0 then put_int k (forks A n) 1 else k)
      in if right_fork \<noteq> 0 then put_int k (forks A (cmod (n + 1) PHILOSOPHERS)) 1 else k)"

partial_function (option) wait_state :: "image \<Rightarrow> u32 \<Rightarrow> kernel \<Rightarrow> kernel option" where
  "wait_state I A k =
     (if int_at k (state A) = 0 then do { k \<leftarrow> yield I k; wait_state I A k } else Some k)"

definition report :: "image \<Rightarrow> u32 \<Rightarrow> int \<Rightarrow> int \<Rightarrow> int \<Rightarrow> kernel \<Rightarrow> kernel option" where
  "report I b n think_count eat_count k = do {
     k \<leftarrow> print err I ''Philosopher #'' k;
     k \<leftarrow> print_int err I b 1024 n k;
     k \<leftarrow> print err I '' thought '' k;
     k \<leftarrow> print_int err I b 1024 think_count k;
     k \<leftarrow> print err I '' times and eaten '' k;
     k \<leftarrow> print_int err I b 1024 eat_count k;
     print err I '' times\<newline>'' k
   }"

text \<open>The rounds that are left, the counters, and the end of the process when the lock fails.\<close>

fun rounds :: "image \<Rightarrow> u32 \<Rightarrow> u32 \<Rightarrow> int \<Rightarrow> nat \<Rightarrow> int \<Rightarrow> int \<Rightarrow> kernel \<Rightarrow> (int \<times> kernel) option" where
  "rounds I A b n 0 think_count eat_count k = exit I eat_count k"
| "rounds I A b n (Suc j) think_count eat_count k = do {
     let think_count = think_count + 1;
     k \<leftarrow> yield I k;
     (r, k) \<leftarrow> lockm I A k;
     if r = - 1 then exit I EXIT_FAILURE_lib k
     else do {
       let (left_fork, k) = get_left_fork n A k;
       let (right_fork, k) = get_right_fork n A k;
       (eat_count, k) \<leftarrow>
         (if left_fork \<noteq> 0 \<and> right_fork \<noteq> 0 then do {
            let eat_count = eat_count + 1;
            k \<leftarrow> report I b n think_count eat_count k;
            Some (eat_count, k)
          }
          else Some (eat_count, k));
       let k = put_forks_back n A left_fork right_fork k;
       (_, k) \<leftarrow> unlockm I A k;
       rounds I A b n j think_count eat_count k
     }
   }"

definition philosopher :: "image \<Rightarrow> u32 \<Rightarrow> u32 \<Rightarrow> kernel \<Rightarrow> (int \<times> kernel) option" where
  "philosopher I A b k = do {
     k \<leftarrow> print err I ''Getting ID\<newline>'' k;
     (n, k) \<leftarrow> get_id I A k;
     k \<leftarrow> wait_state I A k;
     k \<leftarrow> print err I ''Hello from Philosopher #'' k;
     k \<leftarrow> print_int err I b 1024 n k;
     k \<leftarrow> print err I ''!\<newline>'' k;
     rounds I A b n 10 0 0 k
   }"

section \<open>The arbitrator process\<close>

definition main_dp :: "image \<Rightarrow> u32 \<Rightarrow> u32 \<Rightarrow> kernel \<Rightarrow> (int \<times> kernel) option" where
  "main_dp I A b k = do {
     k \<leftarrow> print err I ''Iniated the arbitrator\<newline>'' k;
     let k = put_int k (state A) 0;
     k \<leftarrow> foreach (\<lambda>i k. Some (put_int (put_int k (forks A i) 1) (ids A i) i)) [0..PHILOSOPHERS - 1] k;
     (_, k) \<leftarrow> sharem I A k;
     k \<leftarrow> print err I ''Spawning philisophers\<newline>'' k;
     (pids, k) \<leftarrow> foreach (\<lambda>i (pids, k). do {
         (p, k) \<leftarrow> fork_wait I k;
         if p = 0 then do { k \<leftarrow> exec I (sym I ''philosopher'') 0 (lit I []) k; Some (pids, k) }
         else do { pids \<leftarrow> wr pids i p; Some (pids, k) } })
       [0..PHILOSOPHERS - 1] (replicate (nat PHILOSOPHERS) 0, k);
     k \<leftarrow> print err I ''Waiting for responses\<newline>'' k;
     k \<leftarrow> foreach (\<lambda>i k. do {
         p \<leftarrow> rd pids i;
         (r, k) \<leftarrow> waitp I p k;
         k \<leftarrow> print err I ''-Philosopher #'' k;
         k \<leftarrow> print_int err I b 1024 i k;
         k \<leftarrow> print err I '' ate '' k;
         k \<leftarrow> print_int err I b 1024 r k;
         print err I ''\<newline>'' k })
       [0..PHILOSOPHERS - 1] k;
     (_, k) \<leftarrow> unsharem I A k;
     exit I EXIT_SUCCESS_lib k
   }"

end
