(* ===== verification/Console.thy ===== *)
theory Console
  imports Programs
begin

text \<open>
  The console, \<open>src/question/user/console.c\<close>: it reads a line, splits it, looks the program up in a fixed
  table and runs it as a child process. It reads the serial line of standard error directly.
\<close>

fun gets_loop :: "int list \<Rightarrow> u32 \<Rightarrow> kernel \<Rightarrow> kernel option" where
  "gets_loop [] x k = Some k"
| "gets_loop (i # is) x k = do {
     (c, d) \<leftarrow> PL011_getc (uart1 k);
     let k = k\<lparr>uart1 := d\<rparr>;
     if c = 0x0A then Some (put_mem k (x + u32_of_int i) [0])
     else gets_loop is x (put_mem k (x + u32_of_int i) [c])
   }"

definition gets :: "u32 \<Rightarrow> int \<Rightarrow> kernel \<Rightarrow> kernel option" where
  "gets x n k = gets_loop [0..n - 1] x k"

text \<open>\<open>prog_t\<close>; the address of a program is the symbol that the linker resolves.\<close>

record prog_t =
  addr :: string
  name :: string

definition progs :: "prog_t list" where
  "progs = map (\<lambda>(a, n). \<lparr>addr = a, name = n\<rparr>)
    [(''main_P3'', ''P3''), (''main_P4'', ''P4''), (''main_P5'', ''P5''),
     (''main_dp'', ''DP''), (''main_TEST1'', ''test1''), (''main_prog_cat'', ''cat''),
     (''main_prog_vim'', ''vim''), (''main_prog_vima'', ''vima''), (''main_prog_wc'', ''wc''),
     (''main_prog_echo'', ''echo''), (''main_prog_cd'', ''cd''), (''main_prog_kill'', ''kill''),
     (''main_prog_ls'', ''ls''), (''main_prog_ps'', ''ps''), (''main_prog_stat'', ''stat''),
     (''main_prog_rm'', ''rm''), (''main_prog_rmdir'', ''rmdir''), (''main_prog_mkdir'', ''mkdir'')]"

definition load :: "image \<Rightarrow> u8 list \<Rightarrow> u32" where
  "load I x = (case List.find (\<lambda>p. bstr (name p) = x) progs of
     Some p \<Rightarrow> sym I (addr p) | None \<Rightarrow> 0)"

definition cmd_fork :: "image \<Rightarrow> u32 \<Rightarrow> u32 \<Rightarrow> u32 \<Rightarrow> int \<Rightarrow> kernel \<Rightarrow> kernel option" where
  "cmd_fork I prog_args prog args wait k = do {
     (p, k) \<leftarrow> (if wait \<noteq> 0 then fork I k else fork_wait I k);
     k \<leftarrow> (if p = 0 then do {
         let k = memset k prog_args 0 100;
         (_, k) \<leftarrow> parse_cmd k args prog 100 prog_args 100;
         x \<leftarrow> cstr_at (mem k) prog;
         exec I (load I x) wait prog_args k
       } else Some k);
     if wait \<noteq> 0 then do { (_, k) \<leftarrow> waitp I p k; Some k } else Some k
   }"

definition handle_cmd :: "image \<Rightarrow> u32 \<Rightarrow> u32 \<Rightarrow> u32 \<Rightarrow> u32 \<Rightarrow> u32 \<Rightarrow> kernel \<Rightarrow> (int \<times> kernel) option" where
  "handle_cmd I prog_args prog input cmd args k = do {
     c \<leftarrow> cstr_at (mem k) cmd;
     if c = bstr ''fork'' then do { k \<leftarrow> cmd_fork I prog_args prog args 0 k; Some (0, k) }
     else if c = bstr ''shutdown'' then Some (- 1, k)
     else if load I c \<noteq> 0 then do { k \<leftarrow> cmd_fork I prog_args prog input 1 k; Some (0, k) }
     else do { k \<leftarrow> print puts I ''unknown command\<newline>'' k; Some (0, k) }
   }"

text \<open>The loop of the console; it ends at the command \<open>shutdown\<close>.\<close>

partial_function (option) console_loop ::
  "image \<Rightarrow> u32 \<Rightarrow> u32 \<Rightarrow> u32 \<Rightarrow> u32 \<Rightarrow> u32 \<Rightarrow> u32 \<Rightarrow> kernel \<Rightarrow> kernel option" where
  "console_loop I prog_args prog cmd args input prompt k = do {
     let k = memset (memset (memset (memset k cmd 0 100) args 0 1024) input 0 1024) prompt 0 100;
     d \<leftarrow> cstr_at (mem k) (CWD I);
     k \<leftarrow> strcpy_to k prompt 100 d;
     k \<leftarrow> strcat_to k prompt 100 (bstr '' $ '');
     k \<leftarrow> puts I prompt k;
     k \<leftarrow> gets input 1024 k;
     (r, k) \<leftarrow> parse_cmd k input cmd 100 args 1024;
     if r < 0 then console_loop I prog_args prog cmd args input prompt k
     else do {
       (r, k) \<leftarrow> handle_cmd I prog_args prog input cmd args k;
       if r < 0 then Some k else console_loop I prog_args prog cmd args input prompt k
     }
   }"

definition main_console ::
  "image \<Rightarrow> u32 \<Rightarrow> u32 \<Rightarrow> u32 \<Rightarrow> u32 \<Rightarrow> u32 \<Rightarrow> u32 \<Rightarrow> kernel \<Rightarrow> (int \<times> kernel) option" where
  "main_console I prog_args prog cmd args input prompt k = do {
     k \<leftarrow> strcpy_to k (CWD I) 1024 (bstr ''/'');
     (_, k) \<leftarrow> mount I k;
     k \<leftarrow> console_loop I prog_args prog cmd args input prompt k;
     k \<leftarrow> print puts I ''System going down, bye!\<newline>'' k;
     (_, k) \<leftarrow> unmount I k;
     exit I EXIT_SUCCESS_lib k
   }"

end
