(* ===== verification/User_Memory.thy ===== *)
theory User_Memory
  imports Kernel_Files Philosophers Console
begin

text \<open>
  Laws of user memory: what is read after a store, C strings in memory, the integers of a
  structure of the philosophers, and what taking and returning forks does to it.
\<close>

section \<open>Stores\<close>

lemma store_string:
  assumes "0 \<notin> set s" "length s < 2 ^ 31" "length ys < 2 ^ 31"
  shows "cstr_at (store_bytes m a (s @ 0 # ys)) a = Some s"
proof (rule cstr_atI [OF assms(1)])
  fix i assume i: "i < length s"
  have "length (s @ 0 # ys) \<le> 2 ^ 32" using assms by simp
  from store_at [OF this, of i] i show "store_bytes m a (s @ 0 # ys) (a + of_nat i) = s ! i"
    by (simp add: nth_append)
next
  have "length (s @ 0 # ys) \<le> 2 ^ 32" using assms by simp
  from store_at [OF this, of "length s"] show "store_bytes m a (s @ 0 # ys) (a + of_nat (length s)) = 0"
    by (simp add: nth_append)
qed

text \<open>\<open>away a n c m\<close>: the \<open>m\<close> bytes from \<open>c\<close> on lie outside the \<open>n\<close> bytes from \<open>a\<close> on.\<close>

definition away :: "u32 \<Rightarrow> nat \<Rightarrow> u32 \<Rightarrow> nat \<Rightarrow> bool" where
  "away a n c m \<longleftrightarrow> (\<forall>i < m. n \<le> unat (c + of_nat i - a))"

lemma away_ring:
  assumes "n \<le> unat (c - a)" "unat (c - a) + m \<le> 2 ^ 32"
  shows "away a n c m"
  unfolding away_def
proof (intro allI impI)
  fix i assume i: "i < m"
  have e: "c + of_nat i - a = (c - a) + of_nat i" by simp
  have "unat (c - a) + unat (of_nat i :: u32) < 2 ^ 32"
    using i assms(2) by (simp add: unat_of_nat_small)
  then have "unat ((c - a) + of_nat i) = unat (c - a) + unat (of_nat i :: u32)"
    by (intro unat_add_lem [THEN iffD1]) simp
  then show "n \<le> unat (c + of_nat i - a)" unfolding e using assms(1) by linarith
qed

lemma load_away:
  assumes "away a (length xs) c (nat n)" "length xs \<le> 2 ^ 32"
  shows "load_bytes (store_bytes m a xs) c n = load_bytes m c n"
proof -
  have "store_bytes m a xs (c + u32_of_int i) = m (c + u32_of_int i)" if "i \<in> set [0..n - 1]" for i
  proof -
    have j: "i = int (nat i)" "nat i < nat n" using that by auto
    define j where "j = nat i"
    have j: "i = int j" "j < nat n" using j by (simp_all add: j_def)
    then have "length xs \<le> unat (c + of_nat j - a)" using assms(1) by (simp add: away_def)
    then show ?thesis using assms(2) j(1) by (simp add: store_bytes_read u32_of_int_def)
  qed
  then show ?thesis by (simp add: load_bytes_def)
qed

lemma put_mem_simps [simp]:
  "mem (put_mem k a xs) = store_bytes (mem k) a xs" "tbl (put_mem k a xs) = tbl k" "uart1 (put_mem k a xs) = uart1 k"
  by (simp_all add: put_mem_def)

section \<open>The table of the philosophers\<close>

lemma int_at_put:
  assumes "is_i32 x"
  shows "int_at (put_int k a x) a = x"
  using load_bytes_stored [of "enc_int x" "mem k" a] cint.dec_enc [OF assms, of "[]"]
  by (simp add: int_at_def put_int_def)

lemma int_at_away: "away a (length xs) c 4 \<Longrightarrow> length xs \<le> 2 ^ 32 \<Longrightarrow> int_at (put_mem k a xs) c = int_at k c"
  by (simp add: int_at_def load_away)

text \<open>The words of the structure are four bytes each, one after the other.\<close>

lemma slots_away:
  assumes "i < 64" "j < 64" "i \<noteq> j"
  shows "away (A + of_nat (4 * i)) 4 (A + of_nat (4 * j)) 4"
proof (cases "i < j")
  case True
  have e: "A + of_nat (4 * j) - (A + of_nat (4 * i)) = of_nat (4 * (j - i))"
    using True by (simp add: of_nat_diff algebra_simps)
  have "4 * (j - i) < 2 ^ 32" using assms(2) by simp
  then have u: "unat (of_nat (4 * (j - i)) :: u32) = 4 * (j - i)" by (rule unat_of_nat_small)
  show ?thesis by (intro away_ring; unfold e u) (use True assms(2) in simp_all)
next
  case False
  have e: "A + of_nat (4 * j) - (A + of_nat (4 * i)) = - of_nat (4 * (i - j))"
    using False by (simp add: of_nat_diff algebra_simps)
  have n: "0 < 4 * (i - j)" "4 * (i - j) < 2 ^ 32" using False assms by auto
  have "(- of_nat (4 * (i - j)) :: u32) = of_nat (2 ^ 32 - 4 * (i - j))"
    using n(2) by (subst of_nat_diff) simp_all
  then have "unat (- of_nat (4 * (i - j)) :: u32) = 2 ^ 32 - 4 * (i - j)"
    using unat_of_nat_small [of "2 ^ 32 - 4 * (i - j)"] n by (simp only:)
  then show ?thesis using n assms(1) by (intro away_ring; unfold e) simp_all
qed

lemma fork_put:
  assumes "0 \<le> i" "i < 16" "0 \<le> j" "j < 16" "is_i32 x"
  shows "int_at (put_int k (forks A i) x) (forks A j) = (if i = j then x else int_at k (forks A j))"
proof (cases "i = j")
  case True
  then show ?thesis using assms(5) by (simp add: int_at_put)
next
  case False
  then have "away (forks A i) 4 (forks A j) 4"
    using slots_away [of "nat i" "nat j" A] assms by (simp add: forks_def u32_of_int_def)
  then show ?thesis using False by (simp add: put_int_def int_at_away)
qed

definition laid :: "u32 \<Rightarrow> kernel \<Rightarrow> bool" where
  "laid A k \<longleftrightarrow> (\<forall>j. 0 \<le> j \<and> j < 16 \<longrightarrow> int_at k (forks A j) = 1)"

definition same_forks :: "u32 \<Rightarrow> kernel \<Rightarrow> kernel \<Rightarrow> bool" where
  "same_forks A k k' \<longleftrightarrow> (\<forall>j. 0 \<le> j \<and> j < 16 \<longrightarrow> int_at k' (forks A j) = int_at k (forks A j))"

lemma forks_away:
  assumes "away b n A 64" "0 \<le> j" "j < 16"
  shows "away b n (forks A j) 4"
  unfolding away_def
proof (intro allI impI)
  fix i :: nat assume "i < 4"
  then have "4 * nat j + i < 64" using assms(3) by linarith
  moreover have "forks A j + of_nat i = A + of_nat (4 * nat j + i)"
    using assms(2) by (simp add: forks_def u32_of_int_def)
  ultimately show "n \<le> unat (forks A j + of_nat i - b)" using assms(1) by (simp only: away_def)
qed

lemma same_forks_put: "away b (length xs) A 64 \<Longrightarrow> length xs \<le> 2 ^ 32 \<Longrightarrow> same_forks A k (put_mem k b xs)"
  by (simp add: same_forks_def int_at_away forks_away)

lemma meal:
  assumes n: "0 \<le> n" "n < 16" and j: "0 \<le> j" "j < 16"
  shows "int_at (snd (get_left_fork n A k)) (forks A j) = (if j = n then 0 else int_at k (forks A j))"
    "int_at (snd (get_right_fork n A k)) (forks A j) = (if j = (n + 1) mod 16 then 0 else int_at k (forks A j))"
    "int_at (put_forks_back n A l r k) (forks A j) =
       (if j = (n + 1) mod 16 \<and> r \<noteq> 0 \<or> j = n \<and> l \<noteq> 0 then 1 else int_at k (forks A j))"
proof -
  have c: "cmod (n + 1) PHILOSOPHERS = (n + 1) mod 16" "0 \<le> (n + 1) mod 16" "(n + 1) mod 16 < 16"
    using n by (simp_all add: PHILOSOPHERS_def cmod_nonneg)
  show "int_at (snd (get_left_fork n A k)) (forks A j) = (if j = n then 0 else int_at k (forks A j))"
    using n j by (simp add: get_left_fork_def Let_def fork_put)
  show "int_at (snd (get_right_fork n A k)) (forks A j) = (if j = (n + 1) mod 16 then 0 else int_at k (forks A j))"
    using c j by (simp add: get_right_fork_def Let_def fork_put)
  show "int_at (put_forks_back n A l r k) (forks A j) =
       (if j = (n + 1) mod 16 \<and> r \<noteq> 0 \<or> j = n \<and> l \<noteq> 0 then 1 else int_at k (forks A j))"
    using c n j by (simp add: put_forks_back_def Let_def fork_put)
qed

lemma taken:
  assumes "0 \<le> n"
  shows "fst (get_left_fork n A k) = int_at k (forks A n)"
    "fst (get_right_fork n A k) = int_at k (forks A ((n + 1) mod 16))"
  using assms by (simp_all add: get_left_fork_def get_right_fork_def Let_def PHILOSOPHERS_def cmod_nonneg)

section \<open>Printed numbers\<close>

lemma ss_bytes:
  assumes "\<bar>x\<bar> < 10 ^ 9" "11 \<le> length b"
  shows "\<exists>ys zs str. ss b x = Some (ys @ 0 # zs, str) \<and> length (ys @ 0 # zs) = length b"
proof (cases "x = 0")
  case True
  obtain c cs where "b = c # cs" using assms(2) by (cases b) auto
  then have "ss b x = Some ([] @ 0 # cs, bstr ''0'') \<and> length ([] @ 0 # cs) = length b"
    using True by (simp add: ss_def s_c_def wr_def)
  then show ?thesis by blast
next
  case False
  have w: "wr b 0 0 = Some (b[0 := 0])" using assms(2) by (cases b) (simp_all add: wr_def)
  obtain post where "sitoa (b[0 := 0]) x = Some (decimal x @ 0 # post)"
    "length (decimal x @ 0 # post) = length b"
    using sitoa_spec [OF False assms(1), of "b[0 := 0]"] assms(2) by auto
  then have "ss b x = Some (decimal x @ 0 # post, cstring (decimal x @ 0 # post)) \<and> length (decimal x @ 0 # post) = length b"
    using False w by (simp add: ss_def s_c_def)
  then show ?thesis by blast
qed

end
