(* ===== verification/Computations.thy ===== *)
theory Computations
  imports Programs
begin

text \<open>
  The computing loops of the user programs: Euclid's algorithm by subtraction, trial division, and
  the reading of numbers.
\<close>

section \<open>Greatest common divisor\<close>

lemma gcd_c_pos:
  "0 < x \<Longrightarrow> 0 < y \<Longrightarrow> gcd_c x y = Some (word_of_nat (gcd (unat x) (unat y)))"
proof (induction "unat x + unat y" arbitrary: x y rule: less_induct)
  case less
  have pos: "0 < unat x" "0 < unat y" using less.prems by (simp_all add: word_less_nat_alt)
  consider "x = y" | "y < x" | "x < y" by (metis linorder_neqE)
  then show ?case
  proof cases
    case 1
    then show ?thesis by (subst gcd_c.simps) simp
  next
    case 2
    have d: "unat (x - y) = unat x - unat y" using 2 by (intro unat_sub) simp
    have u: "unat y < unat x" using 2 by (simp add: word_less_nat_alt)
    have "gcd_c (x - y) y = Some (word_of_nat (gcd (unat (x - y)) (unat y)))"
    proof (rule less.hyps)
      show "unat (x - y) + unat y < unat x + unat y" unfolding d using u pos(2) by linarith
      show "0 < x - y" using d u by (simp add: word_less_nat_alt)
    qed (rule less.prems(2))
    then show ?thesis using 2 u by (simp add: gcd_c.simps [of x y] d gcd_diff1_nat)
  next
    case 3
    have d: "unat (y - x) = unat y - unat x" using 3 by (intro unat_sub) simp
    have u: "unat x < unat y" using 3 by (simp add: word_less_nat_alt)
    have "gcd_c x (y - x) = Some (word_of_nat (gcd (unat x) (unat (y - x))))"
    proof (rule less.hyps)
      show "unat x + unat (y - x) < unat x + unat y" unfolding d using u pos(1) by linarith
      show "0 < y - x" using d u by (simp add: word_less_nat_alt)
    qed (rule less.prems(1))
    moreover have "gcd (unat x) (unat y - unat x) = gcd (unat x) (unat y)"
      using u gcd_diff1_nat [of "unat x" "unat y"] by (simp add: gcd.commute)
    moreover have "x \<noteq> y" "\<not> y < x" using 3 by auto
    ultimately show ?thesis by (subst gcd_c.simps) (simp add: d)
  qed
qed

text \<open>With one argument zero the other never shrinks.\<close>

lemma gcd_c_zero: "gcd_c x y = Some r \<Longrightarrow> x = 0 \<longleftrightarrow> y = 0"
proof -
  assume r: "gcd_c x y = Some r"
  have "(case (x, y) of (x, y) \<Rightarrow> \<lambda>_. (x = 0) = (y = 0)) r"
  proof (rule gcd_c.raw_induct [where P = "\<lambda>x y _. (x = 0) = (y = 0)"])
    fix f :: "u32 \<Rightarrow> u32 \<Rightarrow> u32 option" and x y z
    assume IH: "\<And>x y z. f x y = Some z \<Longrightarrow> (x = 0) = (y = 0)"
      and z: "(if x = y then Some x else if y < x then f (x - y) y else f x (y - x)) = Some z"
    consider "x = y" | "y < x" | "x < y" by (metis linorder_neqE)
    then show "(x = 0) = (y = 0)"
    proof cases
      case 2
      then have "x \<noteq> y" by auto
      then have "f (x - y) y = Some z" "x \<noteq> 0" "x - y \<noteq> 0" using z 2 by auto
      then show ?thesis using IH by blast
    next
      case 3
      then have "\<not> y < x" "x \<noteq> y" by auto
      then have "f x (y - x) = Some z" "y \<noteq> 0" "y - x \<noteq> 0" using z 3 by auto
      then show ?thesis using IH by blast
    qed simp
  qed (use r in simp)
  then show ?thesis by simp
qed

section \<open>Trial division\<close>

definition prime_number :: "nat \<Rightarrow> bool" where
  "prime_number n \<longleftrightarrow> 1 < n \<and> (\<forall>d. d dvd n \<longrightarrow> d = 1 \<or> d = n)"

text \<open>An odd number without an odd divisor below a square that exceeds it is prime.\<close>

lemma no_small_divisor:
  assumes "odd n" "1 < n" "n < d * d" "\<forall>e. 3 \<le> e \<and> e < d \<and> odd e \<longrightarrow> \<not> e dvd n"
  shows "prime_number n"
  unfolding prime_number_def
proof (intro conjI allI impI)
  fix e assume "e dvd n"
  then obtain f where f: "n = e * f" by (elim dvdE)
  have odd: "odd e" "odd f" using assms(1) f by simp_all
  have small: "g = 1" if "g dvd n" "odd g" "g < d" for g
  proof (rule ccontr)
    assume "g \<noteq> 1"
    then have "3 \<le> g" using that(2) by presburger
    then show False using assms(4) that by blast
  qed
  show "e = 1 \<or> e = n"
  proof (cases "e < d")
    case True
    then show ?thesis using small [of e] f odd by simp
  next
    case False
    have "f < d"
    proof (rule ccontr)
      assume "\<not> f < d"
      then have "d * d \<le> e * f" using False by (intro mult_le_mono) simp_all
      then show False using assms(3) f by simp
    qed
    then show ?thesis using small [of f] f odd by simp
  qed
qed (rule assms(2))

lemma slow_loop_prime:
  assumes "odd n" "1 < n" "n < 65535 ^ 2"
  shows "odd d \<Longrightarrow> 3 \<le> d \<Longrightarrow> d \<le> 65535 \<Longrightarrow> \<forall>e. 3 \<le> e \<and> e < d \<and> odd e \<longrightarrow> \<not> e dvd n \<Longrightarrow>
    slow_loop (word_of_nat n) (word_of_nat d) = Some (if prime_number n then 1 else 0)"
proof (induction "65537 - d" arbitrary: d rule: less_induct)
  case less
  have n32: "unat (word_of_nat n :: u32) = n" using assms(3) by (simp add: unat_of_nat take_bit_nat_eq_self)
  have d32: "unat (word_of_nat d :: u32) = d" using less.prems(3) by (simp add: unat_of_nat take_bit_nat_eq_self)
  have "d * d \<le> 65535 * 65535" using less.prems(3) by (intro mult_le_mono)
  then have q32: "unat (word_of_nat (d * d) :: u32) = d * d" by (simp only: unat_of_nat) simp
  have sq: "(word_of_nat d :: u32) * word_of_nat d \<le> word_of_nat n \<longleftrightarrow> d * d \<le> n"
    using q32 n32 by (simp add: word_le_nat_alt)
  have md: "(word_of_nat n :: u32) mod word_of_nat d = 0 \<longleftrightarrow> d dvd n"
    using n32 d32 by (metis unat_eq_0 unat_mod dvd_eq_mod_eq_0)
  show ?case
  proof (cases "d * d \<le> n")
    case False
    then have "prime_number n" using assms less.prems(4) by (intro no_small_divisor [of n d]) simp_all
    then show ?thesis using sq False by (subst slow_loop.simps) simp
  next
    case True
    show ?thesis
    proof (cases "d dvd n")
      case dvd: True
      have "d * 3 \<le> d * d" using less.prems(2) by (intro mult_le_mono) simp_all
      then have "d < n" using True less.prems(2) by linarith
      then have "\<not> prime_number n" using dvd less.prems(2) by (auto simp: prime_number_def)
      then show ?thesis using sq md True dvd by (subst slow_loop.simps) simp
    next
      case no: False
      have "d * d < 65535 * 65535" using True assms(3) by (simp add: power2_eq_square)
      then have "d < 65535" by (metis linorder_not_le mult_le_mono)
      then have d2: "d + 2 \<le> 65535" using less.prems(1) by presburger
      have "slow_loop (word_of_nat n) (word_of_nat (d + 2)) = Some (if prime_number n then 1 else 0)"
      proof (rule less.hyps)
        show "\<forall>e. 3 \<le> e \<and> e < d + 2 \<and> odd e \<longrightarrow> \<not> e dvd n"
        proof (intro allI impI)
          fix e assume e: "3 \<le> e \<and> e < d + 2 \<and> odd e"
          then have "e < d \<or> e = d" using less.prems(1) by presburger
          then show "\<not> e dvd n" using e less.prems(4) no by blast
        qed
      qed (use less.prems d2 in simp_all)
      then show ?thesis using sq md True no by (subst slow_loop.simps) (simp add: add.commute)
    qed
  qed
qed

lemma is_prime_spec:
  assumes "unat x < 65535 ^ 2"
  shows "is_prime x = Some (if prime_number (unat x) then 1 else 0)"
proof -
  define n where "n = unat x"
  have x: "x = word_of_nat n" "n < 65535 ^ 2" using assms by (simp_all add: n_def)
  have n32: "unat (word_of_nat n :: u32) = n" using n_def x(1) by simp
  have low: "x < 2 \<longleftrightarrow> n < 2" "x = 2 \<longleftrightarrow> n = 2"
    by (simp_all add: n_def word_less_nat_alt word_unat_eq_iff)
  have "unat (x mod 2) = n mod 2" by (simp add: unat_mod n_def)
  then have ev: "x AND 1 = 0 \<longleftrightarrow> even n"
    using unat_eq_0 [of "x mod 2"] by (simp add: and_one_eq even_iff_mod_2_eq_zero)
  show ?thesis
  proof (cases "even n \<or> n < 2")
    case True
    have "prime_number n \<longleftrightarrow> n = 2"
    proof
      assume "prime_number n"
      then show "n = 2" using True by (auto simp: prime_number_def)
    next
      assume "n = 2"
      moreover have "d = 1 \<or> d = 2" if "d dvd 2" for d :: nat
        using dvd_imp_le [OF that] dvd_pos_nat [OF _ that] by simp linarith
      ultimately show "prime_number n" by (simp add: prime_number_def)
    qed
    then show ?thesis using True by (simp add: is_prime_def ev low flip: n_def)
  next
    case False
    have "3 \<le> n" using False by presburger
    moreover have "\<forall>e :: nat. 3 \<le> e \<and> e < 3 \<and> odd e \<longrightarrow> \<not> e dvd n" by (meson not_less)
    ultimately have "slow_loop x 3 = Some (if prime_number n then 1 else 0)"
      unfolding x(1) using slow_loop_prime [OF _ _ x(2), of 3] False by (simp add: not_less)
    then show ?thesis using False by (auto simp: is_prime_def ev low simp flip: n_def)
  qed
qed


text \<open>Every call that the programs make is in the correct range, so the loops around it end.\<close>

lemma is_prime_returns: "0 \<le> x \<Longrightarrow> x < 2 ^ 16 \<Longrightarrow> \<exists>r. is_prime (u32_of_int x) = Some r"
proof -
  assume x: "0 \<le> x" "x < 2 ^ 16"
  then have "unat (u32_of_int x) = nat x"
    by (simp add: u32_of_int_def unat_eq_nat_uint unsigned_of_int take_bit_int_eq_self)
  then show ?thesis using x is_prime_spec [of "u32_of_int x"] by (simp add: nat_less_iff)
qed

lemma foreach_idle: "(\<And>i. i \<in> set is \<Longrightarrow> f i s = Some s) \<Longrightarrow> foreach f is s = Some s"
  by (induction "is") simp_all

lemma slow_is_prime: "slow x = is_prime x"
  by (simp add: slow_def is_prime_def)

lemma primes_idle:
  assumes "0 \<le> a" "b < 2 ^ 16"
  shows "foreach (\<lambda>x k. do { _ \<leftarrow> is_prime (u32_of_int x); Some k }) [a..b] k = Some k"
proof (rule foreach_idle)
  fix x assume "x \<in> set [a..b]"
  then have "0 \<le> x" "x < 2 ^ 16" using assms by auto
  then obtain r where "is_prime (u32_of_int x) = Some r" using is_prime_returns by blast
  then show "do { _ \<leftarrow> is_prime (u32_of_int x); Some k } = Some k" by simp
qed

lemma program_primes_idle:
  "foreach (\<lambda>x k. do { _ \<leftarrow> is_prime (u32_of_int x); Some k }) [2 ^ 8..2 ^ 16 - 1] k = Some k"
  by (rule primes_idle) simp_all

lemma main_P3_prints: "main_P3 I args k = do {
    k \<leftarrow> err I args k;
    k \<leftarrow> foreach (\<lambda>_. print err I ''P3'') [0..7] k;
    exit I EXIT_SUCCESS_lib k }"
  by (simp only: main_P3_def program_primes_idle Option.bind_runit) simp

lemma sleep_yields: "sleep I t k = yield I k"
proof -
  have "foreach (\<lambda>x u. do { _ \<leftarrow> slow (u32_of_int x); Some u }) [2 ^ 8..2 ^ 16 - 1] = (Some :: unit \<Rightarrow> unit option)"
    by (rule ext) (simp only: slow_is_prime program_primes_idle)
  moreover have "foreach (\<lambda>_. Some) is () = Some ()" for "is" :: "int list" by (rule foreach_idle) simp
  ultimately show ?thesis by (simp only: sleep_def Option.bind.bind_lunit Option.bind_runit)
qed


text \<open>The square that bounds the loop wraps: above the last square no odd number is found prime.\<close>

lemma odd_square_mod_8: "odd a \<Longrightarrow> a * a mod 8 = (1 :: nat)"
proof -
  assume "odd a"
  then obtain j where j: "a = 2 * j + 1" by (elim oddE)
  have "even (j * (j + 1))" by simp
  then obtain m where "j * (j + 1) = 2 * m" by (elim evenE)
  moreover have "a * a = 4 * (j * (j + 1)) + 1" unfolding j by (simp add: algebra_simps)
  ultimately have "a * a = 8 * m + 1" by simp
  then show ?thesis by simp
qed

lemma below_top: "y mod 8 = 1 \<Longrightarrow> y < 2 ^ 32 \<Longrightarrow> y \<le> 2 ^ 32 - (7 :: nat)"
proof -
  assume y: "y mod 8 = 1" "y < 2 ^ 32"
  have e: "y = 8 * (y div 8) + 1" using y(1) div_mult_mod_eq [of y 8] by linarith
  define q where "q = y div 8"
  have "8 * q + 1 < 2 ^ 32" using e y(2) by (simp add: q_def)
  then have "8 * q + 1 \<le> 2 ^ 32 - 7" by simp
  then show ?thesis using e by (simp add: q_def)
qed

lemma slow_loop_wraps:
  assumes "odd n" "2 ^ 32 - 7 \<le> n" "n < 2 ^ 32"
  shows "odd d \<Longrightarrow> 3 \<le> d \<Longrightarrow> d \<le> n \<Longrightarrow> slow_loop (word_of_nat n) (word_of_nat d) = Some 0"
proof (induction "n - d" arbitrary: d rule: less_induct)
  case less
  have n32: "unat (word_of_nat n :: u32) = n" using assms(3) by (simp add: unat_of_nat take_bit_nat_eq_self)
  have d32: "unat (word_of_nat d :: u32) = d" using less.prems(3) assms(3) by (simp add: unat_of_nat take_bit_nat_eq_self)
  have "d * d mod 2 ^ 32 mod 8 = d * d mod 8" by (rule mod_mod_cancel) simp
  then have "d * d mod 2 ^ 32 mod 8 = 1" using odd_square_mod_8 [OF less.prems(1)] by simp
  moreover have "d * d mod 2 ^ 32 < 2 ^ 32" by simp
  ultimately have "d * d mod 2 ^ 32 \<le> 2 ^ 32 - 7" by (rule below_top)
  then have "d * d mod 2 ^ 32 \<le> n" using assms(2) by linarith
  moreover have "unat ((word_of_nat d :: u32) * word_of_nat d) = d * d mod 2 ^ 32"
    by (simp add: unat_word_ariths(2) d32)
  ultimately have sq: "(word_of_nat d :: u32) * word_of_nat d \<le> word_of_nat n"
    using n32 by (simp only: word_le_nat_alt)
  have md: "(word_of_nat n :: u32) mod word_of_nat d = 0 \<longleftrightarrow> d dvd n"
    using n32 d32 by (metis unat_eq_0 unat_mod dvd_eq_mod_eq_0)
  show ?case
  proof (cases "d dvd n")
    case True
    then show ?thesis using sq md by (subst slow_loop.simps) simp
  next
    case False
    then have "d \<noteq> n" by auto
    then have d2: "d + 2 \<le> n" using less.prems assms(1) by presburger
    have "slow_loop (word_of_nat n) (word_of_nat (d + 2)) = Some 0"
      using less.prems d2 by (intro less.hyps) simp_all
    then show ?thesis using sq md False by (subst slow_loop.simps) (simp add: add.commute)
  qed
qed

lemma is_prime_wraps:
  assumes "2 ^ 32 - 7 \<le> unat x"
  shows "is_prime x = Some 0"
proof -
  define n where "n = unat x"
  have x: "x = word_of_nat n" "n < 2 ^ 32" using unsigned_less [of x] by (simp_all add: n_def)
  have "unat (x mod 2) = n mod 2" by (simp add: unat_mod n_def)
  then have ev: "x AND 1 = 0 \<longleftrightarrow> even n"
    using unat_eq_0 [of "x mod 2"] by (simp add: and_one_eq even_iff_mod_2_eq_zero)
  have low: "\<not> x < 2" "x \<noteq> 2" using assms by (auto simp: word_less_nat_alt)
  have "slow_loop x 3 = Some 0" if "odd n"
    unfolding x(1) using slow_loop_wraps [of n 3] that assms x(2) by (simp flip: n_def)
  then show ?thesis using low by (auto simp: is_prime_def ev)
qed

text \<open>\<open>P4\<close> and \<open>P5\<close> never end.\<close>

lemma main_P4_endless: "main_P4 I k = None"
proof -
  have "False" if "main_P4 I k = Some r" for r
  proof (rule main_P4.raw_induct [where P = "\<lambda>_ _ _. False", OF _ that])
    fix f :: "image \<Rightarrow> kernel \<Rightarrow> (int \<times> kernel) option" and I k r
    assume "\<And>I k r. f I k = Some r \<Longrightarrow> False"
    moreover assume "do { k \<leftarrow> print err I ''P4'' k;
        k \<leftarrow> foreach (\<lambda>x k. foreach (\<lambda>y k. do { _ \<leftarrow> gcd_c (u32_of_int x) (u32_of_int y); Some k })
          [2 ^ 4..2 ^ 8 - 1] k) [2 ^ 4..2 ^ 8 - 1] k;
        f I k } = Some r"
    ultimately show False by (simp only: Option.bind_eq_Some_conv) blast
  qed
  then show ?thesis by (cases "main_P4 I k") auto
qed

lemma P5_loop_endless: "P5_loop I k = None"
proof -
  have "False" if "P5_loop I k = Some r" for r
  proof (rule P5_loop.raw_induct [where P = "\<lambda>_ _ _. False", OF _ that])
    fix f :: "image \<Rightarrow> kernel \<Rightarrow> (int \<times> kernel) option" and I k r
    assume "\<And>I k r. f I k = Some r \<Longrightarrow> False"
    moreover assume "do { k \<leftarrow> print err I ''P5'' k;
        k \<leftarrow> foreach (\<lambda>x k. do { let r = weight (u32_of_int x); Some k }) [2 ^ 8..2 ^ 24 - 1] k;
        f I k } = Some r"
    ultimately show False by (simp only: Option.bind_eq_Some_conv) blast
  qed
  then show ?thesis by (cases "P5_loop I k") auto
qed

lemma main_P5_endless: "main_P5 I b r2 k = None"
  by (simp add: main_P5_def P5_loop_endless case_prod_beta) (auto simp: Option.bind_eq_None_conv split: prod.splits)

section \<open>Numbers\<close>

text \<open>\<open>atoi\<close> reads what \<open>ss\<close> and the kernel's \<open>s\<close> print.\<close>

lemma atoi_digits:
  assumes "n < 2 ^ 31"
  shows "foldl (\<lambda>r c. i32 (r * 10 + (uint c - 48))) 0 (digits n) = int n"
    "foldl (\<lambda>r c. i32 (r * 10 - (uint c - 48))) 0 (digits n) = - int n"
  using assms
proof (induction n rule: digits.induct)
  case (1 n)
  have u: "uint (48 + word_of_nat (n mod 10) :: u8) = 48 + int (n mod 10)"
    using digit_unat [of "n mod 10"] by (simp add: uint_nat)
  have q: "int (n div 10) * 10 + int (n mod 10) = int n" by (simp add: zdiv_int zmod_int)
  { case 1
    show ?case
    proof (cases "n < 10")
      case True
      then show ?thesis using u by (simp add: digits.simps [of n] i32_id)
    next
      case False
      then show ?thesis using u q 1 "1.IH" [OF False] by (simp add: digits.simps [of n] i32_id)
    qed }
  { case 2
    show ?case
    proof (cases "n < 10")
      case True
      then show ?thesis using u by (simp add: digits.simps [of n] i32_id)
    next
      case False
      then show ?thesis using u q 2 "1.IH" [OF False] by (simp add: digits.simps [of n] i32_id)
    qed }
qed

lemma digits_head: "digits n \<noteq> []" "uint (hd (digits n)) \<ge> 48"
proof -
  show n: "digits n \<noteq> []" by (simp add: digits.simps [of n])
  then have "48 \<le> unat (hd (digits n))" by (intro digits_range [of _ n] hd_in_set)
  then show "uint (hd (digits n)) \<ge> 48" by (simp only: uint_nat)
qed

lemma atoi_minus: "atoi (of_char (CHR ''-'') # xs) = foldl (\<lambda>r c. i32 (r * 10 - (uint c - 48))) 0 xs"
  by (simp add: atoi_def)

lemma atoi_unsigned: "48 \<le> uint c \<Longrightarrow> atoi (c # xs) = foldl (\<lambda>r c. i32 (r * 10 + (uint c - 48))) 0 (c # xs)"
  unfolding atoi_def by (auto simp del: foldl_Cons)

lemma atoi_decimal:
  assumes "\<bar>x\<bar> < 2 ^ 31"
  shows "atoi (decimal x) = x"
proof -
  define n where "n = nat \<bar>x\<bar>"
  have n: "n < 2 ^ 31" using assms by (simp add: n_def nat_less_iff)
  show ?thesis
  proof (cases "x < 0")
    case True
    then have "decimal x = of_char (CHR ''-'') # digits n" by (simp add: decimal_def n_def)
    then show ?thesis using True by (simp only: atoi_minus atoi_digits(2) [OF n]) (simp add: n_def)
  next
    case False
    obtain c cs where d: "digits n = c # cs" using digits_head(1) [of n] by (cases "digits n") auto
    have "48 \<le> uint c" using digits_head(2) [of n] by (simp only: d list.sel)
    from atoi_unsigned [OF this, of cs] have "atoi (digits n) = int n"
      using atoi_digits(1) [OF n] by (simp only: d)
    then show ?thesis using False by (simp add: decimal_def n_def)
  qed
qed

section \<open>Words of a line\<close>

lemma strtok_first: "w \<noteq> [] \<Longrightarrow> sep \<notin> set w \<Longrightarrow> \<exists>ts. strtok_all sep (w @ sep # rest) = w # ts"
proof (induction w)
  case (Cons c w)
  show ?case
  proof (cases w)
    case Nil
    then show ?thesis using Cons.prems by auto
  next
    case w: (Cons c' w')
    then obtain ts where "strtok_all sep (w @ sep # rest) = w # ts" using Cons by auto
    then show ?thesis using Cons.prems w by auto
  qed
qed simp

lemma strtok_only: "w \<noteq> [] \<Longrightarrow> sep \<notin> set w \<Longrightarrow> strtok_all sep w = [w]"
proof (induction w)
  case (Cons c w)
  then show ?case by (cases w) auto
qed simp

lemma strtok_blank: "set w \<subseteq> {sep} \<Longrightarrow> strtok_all sep w = []"
  by (induction w) auto

end
