(* ===== verification/Libc_Calls.thy ===== *)
theory Libc_Calls
  imports User_Memory Computations
begin

text \<open>
  The user library over the kernel: the arguments of a call reach the handler and its result comes back, and
  the splitting of a command line.
\<close>

section \<open>The way through the supervisor call\<close>

text \<open>A supervisor call that does not switch processes: the handler runs on the context \<open>c\<close> with the arguments in the first
  registers and the caller continues with the register \<open>r0\<close>.\<close>

definition direct_svc :: "stack \<Rightarrow> u8 list \<Rightarrow> ctx_t \<Rightarrow> u32 \<Rightarrow> u32 list \<Rightarrow> kernel \<Rightarrow> (u32 \<times> kernel) option" where
  "direct_svc z b c n args k = do {
     (k, c) \<leftarrow> hilevel_handler_svc z b k (c\<lparr>gpr := args @ drop (length args) (gpr c)\<rparr>) n;
     r0 \<leftarrow> rd (gpr c) 0;
     Some (r0, k)
   }"

text \<open>A result as the register carries it.\<close>

definition as_int :: "(int \<times> kernel) option \<Rightarrow> (int \<times> kernel) option" where
  "as_int r = do { (x, k) \<leftarrow> r; Some (i32 x, k) }"

lemma ret_bind: "ret c (do { x \<leftarrow> m; f x }) = do { x \<leftarrow> m; ret c (f x) }"
  by (cases m) (simp_all add: ret_def)

lemma ret_r0: "length (gpr c) = 13 \<Longrightarrow>
    (do { (r, k) \<leftarrow> (do { (k, c) \<leftarrow> ret c r; r0 \<leftarrow> rd (gpr c) 0; Some (r0, k) }); Some (int_of_u32 r, k) }) = as_int r"
  by (cases r) (auto simp: ret_def set_r0_def as_int_def wr_def rd_def int_of_u32_of_int)

lemma regs:
  assumes "length (gpr c) = 13"
  shows "length (args @ drop (length args) (gpr c)) = 13 \<longleftrightarrow> length args \<le> 13"
    "i < length args \<Longrightarrow> length args \<le> 13 \<Longrightarrow> rd (args @ drop (length args) (gpr c)) (int i) = Some (args ! i)"
  using assms by (auto simp: rd_def nth_append)

lemma direct_call:
  assumes c: "length (gpr c) = 13" "length args \<le> 3"
    and h: "\<And>c. length (gpr c) = 13 \<Longrightarrow> (\<And>i. i < length args \<Longrightarrow> gpr c ! i = args ! i) \<Longrightarrow>
      hilevel_handler_svc z b k c n = ret c r"
    and I: "svc I = direct_svc z b c"
  shows "call I n args k = as_int r"
proof -
  let ?c = "c\<lparr>gpr := args @ drop (length args) (gpr c)\<rparr>"
  have l: "length (gpr ?c) = 13" using c by simp
  have "gpr ?c ! i = args ! i" if "i < length args" for i using that by (simp add: nth_append)
  note h = h [OF l this]
  show ?thesis
    using ret_r0 [OF l, of r] by (simp add: call_def I direct_svc_def h)
qed

text \<open>The handler on registers that start with given values.\<close>

lemmas handler_eval = hilevel_handler_svc_def sys_nums rd_Some int_of_u32_of_int

lemma handler_files:
  assumes "length (gpr c) = 13"
  shows "gpr c ! 0 = u32_of_int fd \<Longrightarrow> gpr c ! 1 = x \<Longrightarrow> gpr c ! 2 = u32_of_int n \<Longrightarrow>
      hilevel_handler_svc z b k c SYS_WRITE = ret c (sys_write z k (i32 fd) x (i32 n))"
    "gpr c ! 0 = u32_of_int fd \<Longrightarrow> gpr c ! 1 = x \<Longrightarrow> gpr c ! 2 = u32_of_int n \<Longrightarrow>
      hilevel_handler_svc z b k c SYS_READ = ret c (sys_read z k (i32 fd) x (i32 n))"
    "gpr c ! 0 = path \<Longrightarrow> gpr c ! 1 = u32_of_int flags \<Longrightarrow>
      hilevel_handler_svc z b k c SYS_OPEN = ret c (do { s \<leftarrow> cstr_at (mem k) path; sys_open z k s (i32 flags) })"
    "gpr c ! 0 = u32_of_int fd \<Longrightarrow> hilevel_handler_svc z b k c SYS_CLOSE = ret c (sys_close k (i32 fd))"
    "hilevel_handler_svc z b k c SYS_MOUNT = ret c (sys_mount z k)"
    "hilevel_handler_svc z b k c SYS_UNMOUNT = ret c (sys_unmount z k)"
    "gpr c ! 0 = path \<Longrightarrow> gpr c ! 1 = a \<Longrightarrow>
      hilevel_handler_svc z b k c SYS_LS = ret c (do { s \<leftarrow> cstr_at (mem k) path; sys_ls z k s a })"
    "gpr c ! 0 = path \<Longrightarrow> gpr c ! 1 = a \<Longrightarrow>
      hilevel_handler_svc z b k c SYS_STAT = ret c (do { s \<leftarrow> cstr_at (mem k) path; sys_stat z k s a })"
    "gpr c ! 0 = path \<Longrightarrow>
      hilevel_handler_svc z b k c SYS_MKDIR = ret c (do { s \<leftarrow> cstr_at (mem k) path; sys_mkdir z k s })"
    "gpr c ! 0 = path \<Longrightarrow>
      hilevel_handler_svc z b k c SYS_RMDIR = ret c (do { s \<leftarrow> cstr_at (mem k) path; sys_rmdir z k s })"
    "gpr c ! 0 = path \<Longrightarrow>
      hilevel_handler_svc z b k c SYS_RM = ret c (do { s \<leftarrow> cstr_at (mem k) path; sys_rm z k s })"
  using assms by (simp_all add: handler_eval ret_bind)

lemma handler_shared:
  assumes "length (gpr c) = 13"
  shows "gpr c ! 0 = a \<Longrightarrow> hilevel_handler_svc z b k c SYS_SHARE = ret c (sys_share k a)"
    "gpr c ! 0 = a \<Longrightarrow> hilevel_handler_svc z b k c SYS_UNSHARE = ret c (sys_unshare k a)"
    "gpr c ! 0 = a \<Longrightarrow> hilevel_handler_svc z b k c SYS_LOCK = ret c (sys_lock k a)"
    "gpr c ! 0 = a \<Longrightarrow> hilevel_handler_svc z b k c SYS_UNLOCK = ret c (sys_unlock k a)"
    "gpr c ! 0 = u32_of_int p \<Longrightarrow>
      hilevel_handler_svc z b k c SYS_WAIT = ret c (do { q \<leftarrow> current_pid (tbl k); sys_wait k q (i32 p) })"
  using assms by (simp_all add: handler_eval ret_bind)

lemma library_calls:
  assumes c: "length (gpr c) = 13" and I: "svc I = direct_svc z b c"
  shows "write_c I fd x n k = as_int (sys_write z k (i32 fd) x (i32 n))"
    "read I fd x n k = as_int (sys_read z k (i32 fd) x (i32 n))"
    "open_c I path flags k = as_int (do { s \<leftarrow> cstr_at (mem k) path; sys_open z k s (i32 flags) })"
    "close I fd k = as_int (sys_close k (i32 fd))"
    "mount I k = as_int (sys_mount z k)"
    "unmount I k = as_int (sys_unmount z k)"
    "ls I path a k = as_int (do { s \<leftarrow> cstr_at (mem k) path; sys_ls z k s a })"
    "stat I path a k = as_int (do { s \<leftarrow> cstr_at (mem k) path; sys_stat z k s a })"
    "mkdir I path k = as_int (do { s \<leftarrow> cstr_at (mem k) path; sys_mkdir z k s })"
    "rmdir I path k = as_int (do { s \<leftarrow> cstr_at (mem k) path; sys_rmdir z k s })"
    "rm I path k = as_int (do { s \<leftarrow> cstr_at (mem k) path; sys_rm z k s })"
    "sharem I a k = as_int (sys_share k a)" "unsharem I a k = as_int (sys_unshare k a)"
    "try_lockm I a k = as_int (sys_lock k a)" "unlockm I a k = as_int (sys_unlock k a)"
    "try_waitp I p k = as_int (do { q \<leftarrow> current_pid (tbl k); sys_wait k q (i32 p) })"
  unfolding write_c_def read_def open_c_def close_def mount_def unmount_def ls_def stat_def mkdir_def rmdir_def
    rm_def sharem_def unsharem_def try_lockm_def unlockm_def try_waitp_def lib_agrees
  by (rule direct_call [OF c _ _ I], simp, rule handler_files handler_shared; simp)+

text \<open>\<open>kill\<close> switches processes only when a process kills itself, and \<open>ps\<close> never does.\<close>

lemma sys_kill_stays:
  assumes "current_pid (tbl k) \<noteq> Some p \<or> sig \<noteq> SIG_TERM"
  shows "sys_kill k c p sig = do { (r, k, _) \<leftarrow> sys_kill k c' p sig; Some (r, k, c) }"
  using assms by (auto simp: sys_kill_def split: Option.bind_splits)

lemma library_kill:
  assumes c: "length (gpr c) = 13" and I: "svc I = direct_svc z b c"
    and s: "current_pid (tbl k) \<noteq> Some (i32 p) \<or> u32_of_int x \<noteq> SIG_TERM"
  shows "kill I p x k = do { (r, k, _) \<leftarrow> sys_kill k c (i32 p) (u32_of_int x); Some (i32 r, k) }"
proof -
  let ?c = "c\<lparr>gpr := [u32_of_int p, u32_of_int x] @ drop 2 (gpr c)\<rparr>"
  have "hilevel_handler_svc z b k ?c SYS_KILL =
      do { (r, k, c) \<leftarrow> sys_kill k ?c (i32 p) (u32_of_int x); c \<leftarrow> set_r0 c (u32_of_int r); Some (k, c) }"
    using c by (simp add: handler_eval)
  also have "\<dots> = do { (r, k, _) \<leftarrow> sys_kill k c (i32 p) (u32_of_int x); c \<leftarrow> set_r0 ?c (u32_of_int r); Some (k, c) }"
    by (subst sys_kill_stays [OF s, of _ c]) (cases "sys_kill k c (i32 p) (u32_of_int x)"; auto)
  finally show ?thesis
    using c by (cases "sys_kill k c (i32 p) (u32_of_int x)")
      (auto simp: kill_def call_def I direct_svc_def lib_agrees set_r0_def wr_def rd_def int_of_u32_of_int numeral_2_eq_2)
qed

lemma library_ps:
  assumes c: "length (gpr c) = 13" and I: "svc I = direct_svc z b c"
  shows "ps I p k = (if i32 p = 0 then sys_ps b k else ps_stats b k (i32 p))"
proof -
  let ?c = "c\<lparr>gpr := [u32_of_int p] @ drop 1 (gpr c)\<rparr>"
  have "hilevel_handler_svc z b k ?c SYS_PS =
      do { k \<leftarrow> (if i32 p = 0 then sys_ps b k else ps_stats b k (i32 p)); Some (k, ?c) }"
    using c by (simp add: handler_eval)
  then show ?thesis
    by (cases "if i32 p = 0 then sys_ps b k else ps_stats b k (i32 p)")
      (simp_all add: ps_def call_def I direct_svc_def lib_agrees rd_def)
qed

section \<open>Splitting a command line\<close>

lemma away_sub:
  assumes "away a n c m" "n' \<le> n" "i + m' \<le> m"
  shows "away a n' (c + of_nat i) m'"
  unfolding away_def
proof (intro allI impI)
  fix j assume "j < m'"
  then have "n \<le> unat (c + of_nat (i + j) - a)" using assms(1,3) unfolding away_def by (meson add_less_cancel_left order_less_le_trans)
  then show "n' \<le> unat (c + of_nat i + of_nat j - a)" using assms(2) by (simp add: add.assoc)
qed

lemma store_other: "away a (length xs) c m \<Longrightarrow> length xs \<le> 2 ^ 32 \<Longrightarrow> i < m \<Longrightarrow>
    store_bytes mm a xs (c + of_nat i) = mm (c + of_nat i)"
  by (auto simp: store_bytes_read away_def simp flip: linorder_not_le)

lemma cstr_store_away:
  assumes s: "cstr_at m c = Some s" and a: "away a (length xs) c (length s + 1)" "length xs \<le> 2 ^ 32"
  shows "cstr_at (store_bytes m a xs) c = Some s"
proof (rule cstr_atI)
  note D = cstr_atD [OF s]
  show "0 \<notin> set s" using D by blast
  show "store_bytes m a xs (c + of_nat i) = s ! i" if "i < length s" for i
    using D that store_other [OF a, of i m] by simp
  show "store_bytes m a xs (c + of_nat (length s)) = 0"
    using D store_other [OF a, of "length s" m] by simp
qed

lemma load_string: "cstr_at m c = Some s \<Longrightarrow> i + j \<le> length s \<Longrightarrow>
    load_bytes m (c + of_nat i) (int j) = take j (drop i s)"
proof (rule nth_equalityI)
  assume s: "cstr_at m c = Some s" "i + j \<le> length s"
  then show "length (load_bytes m (c + of_nat i) (int j)) = length (take j (drop i s))" by simp
  fix l assume "l < length (load_bytes m (c + of_nat i) (int j))"
  then have l: "l < j" by simp
  then have "i + l < length s" using s(2) by simp
  then have "m (c + of_nat (i + l)) = s ! (i + l)" using cstr_atD [OF s(1)] by blast
  then show "load_bytes m (c + of_nat i) (int j) ! l = take j (drop i s) ! l"
    using l s(2) by (simp add: load_bytes_def u32_of_int_def add.assoc)
qed

lemma zeroed:
  assumes "length s < n" "\<forall>i < n. m (a + of_nat i) = 0" "0 \<notin> set s" "length s \<le> 2 ^ 31" "n \<le> 2 ^ 31"
  shows "cstr_at (store_bytes m a s) a = Some s"
proof (rule cstr_atI [OF assms(3)])
  show "store_bytes m a s (a + of_nat i) = s ! i" if "i < length s" for i
    using that assms(4) by (intro store_at) simp_all
  have "length s < 2 ^ 32" using assms(4) by simp
  then show "store_bytes m a s (a + of_nat (length s)) = 0"
    using assms(1,2) by (simp add: store_bytes_read unat_of_nat_small)
qed

lemma parse_cmd_spec:
  assumes i: "cstr_at (mem k) input = Some (w @ space # rest)" "w \<noteq> []" "space \<notin> set w"
    and len: "length w + length rest + 2 \<le> 1024" "length w < c" "length rest < a" "c \<le> 1024" "a \<le> 1024"
    and apart: "away cmd c input 1024" "away cmd c args a" "away args a cmd c"
    and z: "\<forall>j < a. mem k (args + of_nat j) = 0"
  shows "\<exists>k'. parse_cmd k input cmd (int c) args (int a) = Some (0, k') \<and>
    cstr_at (mem k') cmd = Some w \<and> cstr_at (mem k') args = Some rest"
proof -
  let ?k = "put_mem k cmd (w @ [0])"
  obtain ts where ts: "strtok_all space (w @ space # rest) = w # ts"
    using strtok_first [OF i(2,3)] by blast
  have nz: "0 \<notin> set w" "0 \<notin> set rest" using cstr_atD [OF i(1)] by auto
  have cw: "cstr_at (mem ?k) cmd = Some w"
    using store_string [OF nz(1), of "[]" "mem k" cmd] len by simp
  have sub: "away cmd (length (w @ [0])) input 1024" "away cmd (length (w @ [0])) args a"
    using away_sub [OF apart(1), of _ 0 1024] away_sub [OF apart(2), of _ 0 a] len by simp_all
  have si: "cstr_at (mem ?k) input = Some (w @ space # rest)"
    using i(1) len away_sub [OF sub(1), of _ 0] by (auto intro: cstr_store_away)
  have z': "\<forall>j < a. mem ?k (args + of_nat j) = 0"
    using z len sub(2) by (auto simp: store_other)
  show ?thesis
  proof (cases "rest = []")
    case True
    have "cstr_at (mem ?k) args = Some []" using z' [rule_format, of 0] len by (simp add: cstr_at.simps)
    then show ?thesis using True i ts cw len by (simp add: parse_cmd_def strcpy_to_def)
  next
    case False
    let ?k' = "put_mem ?k args rest"
    have "load_bytes (mem ?k) (input + of_nat (length w + 1)) (int (length rest)) =
        take (length rest) (drop (length w + 1) (w @ space # rest))"
      by (rule load_string [OF si]) simp
    then have l: "load_bytes (mem ?k) (input + u32_of_int (int (length w) + 1)) (int (length rest)) = rest"
      by (simp add: u32_of_int_def add.commute)
    have "parse_cmd k input cmd (int c) args (int a) = Some (0, ?k')"
      using i ts len False l by (simp add: parse_cmd_def strcpy_to_def)
    moreover have "cstr_at (mem ?k') args = Some rest"
      using zeroed [OF len(3) z' nz(2)] len by simp
    moreover have "cstr_at (mem ?k') cmd = Some w"
      using cstr_store_away [OF cw, of args rest] away_sub [OF apart(3), of "length rest" 0 "length w + 1"] len by simp
    ultimately show ?thesis by blast
  qed
qed

end
