(* ===== verification/Dining.thy ===== *)
theory Dining
  imports Libc_Calls
begin

text \<open>
  The dining philosophers together: all 16 processes interleaved, over the kernel's own lock and one shared
  memory. A philosopher is its place in the loop of \<open>philosopher\<close>
  (\<open>src/question/user/bin/dinning_philosophers.c\<close>) with its counters, and takes one step, \<open>diner_step\<close>, while the kernel
  runs its process. Between two such steps everything else may happen that leaves the forks, the lock
  and the sharing alone: \<open>aside\<close>. A store elsewhere, a yield, the end of a time slice and the report of a meal are
  shown to be of this kind. \<open>table_ok\<close> is the invariant of the table, \<open>steps_of\<close> counts the steps that are left.
\<close>

section \<open>The loop of a philosopher, step by step\<close>

datatype point = Thinking | Locking | TakingLeft | TakingRight int | Eating int int | Returning int int
  | Unlocking | Gone int

record diner =
  doing :: point
  round_no :: int
  think_count :: int
  eat_count :: int

definition diner_step :: "u32 \<Rightarrow> int \<Rightarrow> kernel \<Rightarrow> diner \<Rightarrow> (kernel \<times> diner) option" where
  "diner_step A n k d = (case doing d of
     Thinking \<Rightarrow> Some (k, if round_no d < 10 then d\<lparr>doing := Locking, think_count := think_count d + 1\<rparr>
                         else d\<lparr>doing := Gone (eat_count d)\<rparr>)
   | Locking \<Rightarrow> do {
       (r, k) \<leftarrow> sys_lock k A;
       Some (k, if r = - 1 then d\<lparr>doing := Gone EXIT_FAILURE_lib\<rparr> else if r = 0 then d else d\<lparr>doing := TakingLeft\<rparr>)
     }
   | TakingLeft \<Rightarrow> (let (left_fork, k) = get_left_fork n A k in Some (k, d\<lparr>doing := TakingRight left_fork\<rparr>))
   | TakingRight left_fork \<Rightarrow>
       (let (right_fork, k) = get_right_fork n A k in Some (k, d\<lparr>doing := Eating left_fork right_fork\<rparr>))
   | Eating left_fork right_fork \<Rightarrow>
       Some (k, d\<lparr>doing := Returning left_fork right_fork,
         eat_count := (if left_fork \<noteq> 0 \<and> right_fork \<noteq> 0 then eat_count d + 1 else eat_count d)\<rparr>)
   | Returning left_fork right_fork \<Rightarrow>
       Some (put_forks_back n A left_fork right_fork k, d\<lparr>doing := Unlocking\<rparr>)
   | Unlocking \<Rightarrow> do {
       (_, k) \<leftarrow> sys_unlock k A;
       Some (k, d\<lparr>doing := Thinking, round_no := round_no d + 1\<rparr>)
     }
   | Gone status \<Rightarrow> None)"

definition hungry :: diner where
  "hungry = \<lparr>doing = Thinking, round_no = 0, think_count = 0, eat_count = 0\<rparr>"

fun gone :: "point \<Rightarrow> bool" where
  "gone (Gone _) = True" | "gone _ = False"

section \<open>All of them\<close>

text \<open>The memory at \<open>A\<close> is shared by the process \<open>q\<close>, the arbitrator; philosopher \<open>n\<close> is the process \<open>P n\<close>.\<close>

abbreviation seats :: "int set" where "seats \<equiv> {0..<16}"

definition aside :: "u32 \<Rightarrow> (int \<Rightarrow> int) \<Rightarrow> int \<Rightarrow> (int \<Rightarrow> diner) \<Rightarrow> kernel \<Rightarrow> kernel \<Rightarrow> bool" where
  "aside A P q d k k' \<longleftrightarrow> same_forks A k k' \<and> lock_held (tbl k') q = lock_held (tbl k) q \<and>
     (\<forall>n \<in> seats. \<not> gone (doing (d n)) \<longrightarrow> lock_owner (tbl k') (P n) A q)"

inductive dine :: "u32 \<Rightarrow> (int \<Rightarrow> int) \<Rightarrow> int \<Rightarrow> kernel \<times> (int \<Rightarrow> diner) \<Rightarrow> kernel \<times> (int \<Rightarrow> diner) \<Rightarrow> bool"
  for A P q where
  own: "n \<in> seats \<Longrightarrow> cur (tbl k) = P n \<Longrightarrow> diner_step A n k (d n) = Some (k', x) \<Longrightarrow>
      dine A P q (k, d) (k', d(n := x))"
| others: "aside A P q d k k' \<Longrightarrow> dine A P q (k, d) (k', d)"

definition seated :: "u32 \<Rightarrow> (int \<Rightarrow> int) \<Rightarrow> int \<Rightarrow> kernel \<Rightarrow> bool" where
  "seated A P q k \<longleftrightarrow> (\<forall>n \<in> seats. lock_owner (tbl k) (P n) A q) \<and> \<not> lock_held (tbl k) q \<and> laid A k"

section \<open>The invariant\<close>

fun holds_lock :: "point \<Rightarrow> bool" where
  "holds_lock Thinking = False" | "holds_lock Locking = False" | "holds_lock (Gone _) = False"
| "holds_lock _ = True"

fun in_hand :: "int \<Rightarrow> point \<Rightarrow> int set" where
  "in_hand n (TakingRight _) = {n}"
| "in_hand n (Eating _ _) = {n, (n + 1) mod 16}"
| "in_hand n (Returning _ _) = {n, (n + 1) mod 16}"
| "in_hand n _ = {}"

fun at_place :: "point \<Rightarrow> int \<Rightarrow> int \<Rightarrow> bool" where
  "at_place Thinking t e \<longleftrightarrow> e = t"
| "at_place Locking t e \<longleftrightarrow> t < 10 \<and> e = t"
| "at_place TakingLeft t e \<longleftrightarrow> t < 10 \<and> e = t"
| "at_place (TakingRight l) t e \<longleftrightarrow> t < 10 \<and> e = t \<and> l = 1"
| "at_place (Eating l r) t e \<longleftrightarrow> t < 10 \<and> e = t \<and> l = 1 \<and> r = 1"
| "at_place (Returning l r) t e \<longleftrightarrow> t < 10 \<and> e = t + 1 \<and> l = 1 \<and> r = 1"
| "at_place Unlocking t e \<longleftrightarrow> t < 10 \<and> e = t + 1"
| "at_place (Gone s) t e \<longleftrightarrow> t = 10 \<and> e = 10 \<and> s = 10"

definition diner_ok :: "diner \<Rightarrow> bool" where
  "diner_ok d \<longleftrightarrow> 0 \<le> round_no d \<and> round_no d \<le> 10 \<and> at_place (doing d) (round_no d) (eat_count d)"

text \<open>\<open>h\<close> is the philosopher who holds the lock.\<close>

definition table_ok :: "u32 \<Rightarrow> (int \<Rightarrow> int) \<Rightarrow> int \<Rightarrow> int option \<Rightarrow> kernel \<times> (int \<Rightarrow> diner) \<Rightarrow> bool" where
  "table_ok A P q h = (\<lambda>(k, d).
     (\<forall>n \<in> seats. diner_ok (d n) \<and> (holds_lock (doing (d n)) \<longleftrightarrow> h = Some n)) \<and>
     (\<forall>n \<in> seats. \<not> gone (doing (d n)) \<longrightarrow> lock_owner (tbl k) (P n) A q) \<and>
     (lock_held (tbl k) q \<longleftrightarrow> h \<noteq> None) \<and> (\<forall>n. h = Some n \<longrightarrow> n \<in> seats) \<and>
     (\<forall>j \<in> seats. int_at k (forks A j) = (if \<exists>n. h = Some n \<and> j \<in> in_hand n (doing (d n)) then 0 else 1)))"

lemma table_okD:
  assumes "table_ok A P q h (k, d)"
  shows "n \<in> seats \<Longrightarrow> diner_ok (d n)" "n \<in> seats \<Longrightarrow> holds_lock (doing (d n)) \<longleftrightarrow> h = Some n"
    "n \<in> seats \<Longrightarrow> \<not> gone (doing (d n)) \<Longrightarrow> lock_owner (tbl k) (P n) A q"
    "lock_held (tbl k) q \<longleftrightarrow> h \<noteq> None" "h = Some n \<Longrightarrow> n \<in> seats"
    "j \<in> seats \<Longrightarrow> int_at k (forks A j) = (if \<exists>n. h = Some n \<and> j \<in> in_hand n (doing (d n)) then 0 else 1)"
  using assms unfolding table_ok_def by blast+

lemma seated_ok: "seated A P q k \<Longrightarrow> table_ok A P q None (k, \<lambda>_. hungry)"
  by (auto simp: seated_def table_ok_def hungry_def diner_ok_def laid_def)

lemma aside_ok: "table_ok A P q h (k, d) \<Longrightarrow> aside A P q d k k' \<Longrightarrow> table_ok A P q h (k', d)"
  unfolding table_ok_def aside_def same_forks_def by auto

section \<open>A step keeps the invariant\<close>

lemma own_wf:
  assumes "lock_owner (tbl k) p A q" "cur (tbl k) = p"
  shows "procs_wf (tbl k)" "current_pid (tbl k) = Some p"
proof -
  have w: "table_wf (tbl k)" "1 \<le> p" "p \<le> 30" using assms(1) by (auto simp: lock_owner_def)
  obtain i where "current (tbl k) = Some i" "i + 1 = p"
    using assms(2) w(2) by (cases "current (tbl k)") (auto simp: cur_def)
  then show wf: "procs_wf (tbl k)" using w by (auto simp: procs_wf_def)
  show "current_pid (tbl k) = Some p" using current_pid_cur [OF wf] assms(2) by simp
qed

definition with_lock :: "kernel \<Rightarrow> int \<Rightarrow> int \<Rightarrow> kernel" where
  "with_lock k q v = k\<lparr>tbl := upd (tbl k) q ((blk (tbl k) q)\<lparr>shared := (shared (blk (tbl k) q))\<lparr>locked := v\<rparr>\<rparr>)\<rparr>"

lemma with_lock_simps:
  assumes "lock_owner (tbl k) p A q"
  shows "mem (with_lock k q v) = mem k" "lock_owner (tbl (with_lock k q v)) p' A q = lock_owner (tbl k) p' A q"
    "lock_held (tbl (with_lock k q v)) q = (v \<noteq> 0)"
proof -
  have v: "table_wf (tbl k)" "valid_pid q" using assms by (simp_all add: lock_owner_def)
  show "mem (with_lock k q v) = mem k" "lock_owner (tbl (with_lock k q v)) p' A q = lock_owner (tbl k) p' A q"
    "lock_held (tbl (with_lock k q v)) q = (v \<noteq> 0)"
    by (simp_all add: with_lock_def lock_owner_upd [OF v] lock_held_upd [OF v])
qed

lemma sys_lock_owner:
  assumes "lock_owner (tbl k) p A q" "cur (tbl k) = p"
  shows "sys_lock k A = Some (if lock_held (tbl k) q then (0, k) else (1, with_lock k q 1))"
    "sys_unlock k A = Some (if lock_held (tbl k) q then (1, with_lock k q 0) else (0, k))"
  using own_wf [OF assms] lock_spec [OF assms(1)] unlock_spec [OF assms(1)]
  by (simp_all add: sys_lock_def sys_unlock_def with_lock_def)

lemma fork_steps:
  assumes n: "n \<in> seats" and j: "j \<in> seats"
  shows "get_left_fork n A k = (l, k') \<Longrightarrow> l = int_at k (forks A n) \<and> tbl k' = tbl k \<and>
      int_at k' (forks A j) = (if j = n then 0 else int_at k (forks A j))"
    "get_right_fork n A k = (r, k') \<Longrightarrow> r = int_at k (forks A ((n + 1) mod 16)) \<and> tbl k' = tbl k \<and>
      int_at k' (forks A j) = (if j = (n + 1) mod 16 then 0 else int_at k (forks A j))"
    "tbl (put_forks_back n A l r k) = tbl k"
    "int_at (put_forks_back n A l r k) (forks A j) =
       (if j = (n + 1) mod 16 \<and> r \<noteq> 0 \<or> j = n \<and> l \<noteq> 0 then 1 else int_at k (forks A j))"
proof -
  have nj: "0 \<le> n" "n < 16" "0 \<le> j" "j < 16" using assms by auto
  show "l = int_at k (forks A n) \<and> tbl k' = tbl k \<and> int_at k' (forks A j) = (if j = n then 0 else int_at k (forks A j))"
    if "get_left_fork n A k = (l, k')"
    using that taken(1) [OF nj(1), of A k] meal(1) [OF nj, of A k]
    by (auto simp: get_left_fork_def Let_def put_int_def)
  show "r = int_at k (forks A ((n + 1) mod 16)) \<and> tbl k' = tbl k \<and>
      int_at k' (forks A j) = (if j = (n + 1) mod 16 then 0 else int_at k (forks A j))"
    if "get_right_fork n A k = (r, k')"
    using that taken(2) [OF nj(1), of A k] meal(2) [OF nj, of A k]
    by (auto simp: get_right_fork_def Let_def put_int_def)
  show "tbl (put_forks_back n A l r k) = tbl k" by (simp add: put_forks_back_def Let_def put_int_def)
  show "int_at (put_forks_back n A l r k) (forks A j) =
       (if j = (n + 1) mod 16 \<and> r \<noteq> 0 \<or> j = n \<and> l \<noteq> 0 then 1 else int_at k (forks A j))"
    by (rule meal(3) [OF nj])
qed

text \<open>The steps that are left.\<close>

fun step_no :: "point \<Rightarrow> nat" where
  "step_no Thinking = 0" | "step_no Locking = 1" | "step_no TakingLeft = 2" | "step_no (TakingRight _) = 3"
| "step_no (Eating _ _) = 4" | "step_no (Returning _ _) = 5" | "step_no Unlocking = 6" | "step_no (Gone _) = 7"

definition steps_left :: "diner \<Rightarrow> nat" where
  "steps_left d = (if gone (doing d) then 0 else 7 * nat (10 - round_no d) + 1 - step_no (doing d))"

text \<open>Putting a philosopher with its new place back to the table.\<close>

lemma table_ok_next:
  assumes ok: "table_ok A P q h (k, d)" and n: "n \<in> seats"
    and x: "diner_ok x" "holds_lock (doing x) \<longleftrightarrow> h' = Some n" "gone (doing x) \<or> \<not> gone (doing (d n))"
    and h: "h = Some n \<or> h = None \<or> h' = h" "h' = Some n \<or> h' = None \<or> h' = h"
    and t: "\<And>p. lock_owner (tbl k) p A q \<Longrightarrow> lock_owner (tbl k') p A q" "lock_held (tbl k') q \<longleftrightarrow> h' \<noteq> None"
    and f: "\<And>j. j \<in> seats \<Longrightarrow> int_at k' (forks A j) =
      (if \<exists>m. h' = Some m \<and> j \<in> in_hand m (doing ((d(n := x)) m)) then 0 else 1)"
  shows "table_ok A P q h' (k', d(n := x))"
proof -
  note D = table_okD [OF ok]
  have "holds_lock (doing (d m)) \<longleftrightarrow> h' = Some m" if "m \<in> seats" "m \<noteq> n" for m
    using D(2) [OF that(1)] h that(2) by auto
  moreover have "h' = Some m \<Longrightarrow> m \<in> seats" for m using D(5) [of m] h n by auto
  ultimately show ?thesis using D(1,3) x t f n unfolding table_ok_def by auto
qed

lemma diner_steps:
  assumes ok: "table_ok A P q h (k, d)" and n: "n \<in> seats" "cur (tbl k) = P n" "\<not> gone (doing (d n))"
  shows "\<exists>k' x h'. diner_step A n k (d n) = Some (k', x) \<and> table_ok A P q h' (k', d(n := x)) \<and>
    (doing (d n) = Locking \<and> h \<noteq> None \<or> steps_left x < steps_left (d n))"
proof -
  note D = table_okD [OF ok]
  have o: "lock_owner (tbl k) (P n) A q" using D(3) n by blast
  note locks = sys_lock_owner [OF o n(2)] and wl = with_lock_simps [OF o]
  have dn: "diner_ok (d n)" "holds_lock (doing (d n)) \<longleftrightarrow> h = Some n" using D(1,2) n by blast+
  have m: "(n + 1) mod 16 \<in> seats" "(n + 1) mod 16 \<noteq> n" using n(1) by (auto, presburger+)
  have int_mem: "int_at (with_lock k q v) a = int_at k a" for v a by (simp add: int_at_def wl(1))
  note F = D(6) and next_ok = table_ok_next [OF ok n(1)]
  show ?thesis
  proof (cases "doing (d n)")
    case Thinking
    let ?x = "if round_no (d n) < 10 then d n\<lparr>doing := Locking, think_count := think_count (d n) + 1\<rparr>
      else d n\<lparr>doing := Gone (eat_count (d n))\<rparr>"
    have "table_ok A P q h (k, d(n := ?x))"
      by (rule next_ok) (use Thinking dn D(4) F in \<open>auto simp: diner_ok_def\<close>)
    moreover have "steps_left ?x < steps_left (d n)" using Thinking dn(1) by (auto simp: steps_left_def diner_ok_def)
    ultimately show ?thesis using Thinking by (auto simp: diner_step_def)
  next
    case Locking
    show ?thesis
    proof (cases h)
      case None
      let ?x = "d n\<lparr>doing := TakingLeft\<rparr>"
      have "table_ok A P q (Some n) (with_lock k q 1, d(n := ?x))"
        by (rule next_ok) (use Locking None dn F in \<open>auto simp: diner_ok_def wl int_mem\<close>)
      moreover have "steps_left ?x < steps_left (d n)" using Locking dn(1) by (auto simp: steps_left_def diner_ok_def)
      ultimately show ?thesis using Locking None D(4) locks(1) by (auto simp: diner_step_def)
    next
      case (Some m)
      then show ?thesis using Locking D(4) locks(1) ok by (auto simp: diner_step_def)
    qed
  next
    case TakingLeft
    obtain l k' where l: "get_left_fork n A k = (l, k')" by fastforce
    have h: "h = Some n" using TakingLeft dn(2) by simp
    have l1: "l = 1" "tbl k' = tbl k" using fork_steps(1) [OF n(1) n(1) l] F [OF n(1)] TakingLeft h by auto
    let ?x = "d n\<lparr>doing := TakingRight l\<rparr>"
    have "table_ok A P q h (k', d(n := ?x))"
      by (rule next_ok) (use TakingLeft h dn D(4) l1 F fork_steps(1) [OF n(1) _ l] in \<open>auto simp: diner_ok_def\<close>)
    moreover have "steps_left ?x < steps_left (d n)" using TakingLeft dn(1) by (auto simp: steps_left_def diner_ok_def)
    ultimately show ?thesis using TakingLeft l by (auto simp: diner_step_def)
  next
    case (TakingRight l)
    obtain r k' where r: "get_right_fork n A k = (r, k')" by fastforce
    have h: "h = Some n" using TakingRight dn(2) by simp
    have r1: "r = 1" "tbl k' = tbl k"
      using fork_steps(2) [OF n(1) m(1) r] F [OF m(1)] TakingRight h m(2) by auto
    let ?x = "d n\<lparr>doing := Eating l r\<rparr>"
    have "table_ok A P q h (k', d(n := ?x))"
      by (rule next_ok) (use TakingRight h dn D(4) r1 F fork_steps(2) [OF n(1) _ r] in \<open>auto simp: diner_ok_def\<close>)
    moreover have "steps_left ?x < steps_left (d n)" using TakingRight dn(1) by (auto simp: steps_left_def diner_ok_def)
    ultimately show ?thesis using TakingRight r by (auto simp: diner_step_def)
  next
    case (Eating l r)
    have h: "h = Some n" using Eating dn(2) by simp
    let ?x = "d n\<lparr>doing := Returning l r, eat_count := eat_count (d n) + 1\<rparr>"
    have "table_ok A P q h (k, d(n := ?x))"
      by (rule next_ok) (use Eating h dn D(4) F in \<open>auto simp: diner_ok_def\<close>)
    moreover have "steps_left ?x < steps_left (d n)" using Eating dn(1) by (auto simp: steps_left_def diner_ok_def)
    moreover have "l = 1" "r = 1" using Eating dn(1) by (simp_all add: diner_ok_def)
    ultimately show ?thesis using Eating by (auto simp: diner_step_def)
  next
    case (Returning l r)
    have h: "h = Some n" using Returning dn(2) by simp
    have lr: "l = 1" "r = 1" using Returning dn(1) by (simp_all add: diner_ok_def)
    let ?x = "d n\<lparr>doing := Unlocking\<rparr>"
    have "table_ok A P q h (put_forks_back n A l r k, d(n := ?x))"
      by (rule next_ok) (use Returning h lr dn D(4) F fork_steps(3) [OF n(1) n(1)] fork_steps(4) [OF n(1)] in \<open>auto simp: diner_ok_def\<close>)
    moreover have "steps_left ?x < steps_left (d n)" using Returning dn(1) by (auto simp: steps_left_def diner_ok_def)
    ultimately show ?thesis using Returning by (auto simp: diner_step_def)
  next
    case Unlocking
    have h: "h = Some n" using Unlocking dn(2) by simp
    let ?x = "d n\<lparr>doing := Thinking, round_no := round_no (d n) + 1\<rparr>"
    have "table_ok A P q None (with_lock k q 0, d(n := ?x))"
      by (rule next_ok) (use Unlocking h dn F in \<open>auto simp: diner_ok_def wl int_mem\<close>)
    moreover have "steps_left ?x < steps_left (d n)" using Unlocking dn(1) by (auto simp: steps_left_def diner_ok_def)
    ultimately show ?thesis using Unlocking h D(4) locks(2) by (auto simp: diner_step_def)
  next
    case (Gone s)
    then show ?thesis using n(3) by simp
  qed
qed

lemma dine_ok:
  assumes "dine A P q s s'" "table_ok A P q h s"
  shows "\<exists>h'. table_ok A P q h' s'"
  using assms
proof cases
  case (own n k d k' x)
  have "\<not> gone (doing (d n))" using own(5) by (cases "doing (d n)") (auto simp: diner_step_def)
  then show ?thesis using diner_steps [of A P q h k d n] own assms(2) by auto
next
  case others
  then show ?thesis using aside_ok assms(2) by blast
qed

lemma dining_ok:
  assumes "(dine A P q)\<^sup>*\<^sup>* s s'" "table_ok A P q h s"
  shows "\<exists>h'. table_ok A P q h' s'"
  using assms by (induction rule: rtranclp_induct) (use dine_ok in blast)+

section \<open>Everybody can finish\<close>

definition steps_of :: "(int \<Rightarrow> diner) \<Rightarrow> nat" where
  "steps_of d = (\<Sum>n \<in> seats. steps_left (d n))"

definition switch_to :: "int \<Rightarrow> kernel \<Rightarrow> kernel" where
  "switch_to p k = k\<lparr>tbl := (tbl k)\<lparr>current := Some (process p)\<rparr>\<rparr>"

lemma switch_to_aside:
  assumes "\<forall>n \<in> seats. \<not> gone (doing (d n)) \<longrightarrow> lock_owner (tbl k) (P n) A q"
  shows "aside A P q d k (switch_to p k)" "cur (tbl (switch_to p k)) = p"
  using assms
  by (auto simp: aside_def same_forks_def int_at_def switch_to_def lock_held_def lock_owner_def blk_def table_wf_def
      cur_def process_def)

lemma next_diner:
  assumes ok: "table_ok A P q h (k, d)" and n: "n \<in> seats" "\<not> gone (doing (d n))"
  shows "\<exists>k' d' h'. (dine A P q)\<^sup>*\<^sup>* (k, d) (k', d') \<and> table_ok A P q h' (k', d') \<and> steps_of d' < steps_of d"
proof -
  obtain m where m: "m \<in> seats" "\<not> gone (doing (d m))" "doing (d m) = Locking \<Longrightarrow> h = None"
  proof (cases h)
    case None
    then show thesis using that n by blast
  next
    case (Some m)
    then have "m \<in> seats" "holds_lock (doing (d m))" using table_okD(2,5) [OF ok] by blast+
    then show thesis using that [of m] by (cases "doing (d m)") auto
  qed
  have sw: "aside A P q d k (switch_to (P m) k)" "cur (tbl (switch_to (P m) k)) = P m"
    using switch_to_aside [of d k P A q "P m"] table_okD(3) [OF ok] by blast+
  obtain k' x h' where k': "diner_step A m (switch_to (P m) k) (d m) = Some (k', x)"
    "table_ok A P q h' (k', d(m := x))" "steps_left x < steps_left (d m)"
    using diner_steps [OF aside_ok [OF ok sw(1)] m(1) sw(2) m(2)] m(3) by blast
  have "dine A P q (k, d) (switch_to (P m) k, d)" using sw(1) by (rule others)
  moreover have "dine A P q (switch_to (P m) k, d) (k', d(m := x))" using m(1) sw(2) k'(1) by (rule own)
  ultimately have "(dine A P q)\<^sup>*\<^sup>* (k, d) (k', d(m := x))" by simp
  moreover have "steps_of (d(m := x)) < steps_of d"
    unfolding steps_of_def using m(1) k'(3) by (intro sum_strict_mono_ex1) auto
  ultimately show ?thesis using k'(2) by blast
qed

lemma all_finish:
  assumes "table_ok A P q h (k, d)"
  shows "\<exists>k' d'. (dine A P q)\<^sup>*\<^sup>* (k, d) (k', d') \<and> (\<forall>n \<in> seats. doing (d' n) = Gone 10)"
  using assms
proof (induction "steps_of d" arbitrary: k d h rule: less_induct)
  case less
  show ?case
  proof (cases "\<exists>n \<in> seats. \<not> gone (doing (d n))")
    case True
    then obtain k' d' h' where "(dine A P q)\<^sup>*\<^sup>* (k, d) (k', d')" "table_ok A P q h' (k', d')" "steps_of d' < steps_of d"
      using next_diner [OF less.prems] by blast
    then show ?thesis using less.hyps by (meson rtranclp_trans)
  next
    case False
    then have f: "\<forall>n \<in> seats. gone (doing (d n))" by blast
    have "doing (d n) = Gone 10" if "n \<in> seats" for n
      using bspec [OF f that] table_okD(1) [OF less.prems that]
      by (cases "doing (d n)") (simp_all add: diner_ok_def)
    then show ?thesis by blast
  qed
qed

section \<open>What the others do\<close>

lemma store_aside:
  assumes "\<forall>n \<in> seats. \<not> gone (doing (d n)) \<longrightarrow> lock_owner (tbl k) (P n) A q" "away b (length xs) A 64" "length xs \<le> 2 ^ 32"
  shows "aside A P q d k (put_mem k b xs)"
  using assms same_forks_put [OF assms(2,3)] by (simp add: aside_def)

lemma scheduler_aside:
  assumes o: "\<forall>n \<in> seats. \<not> gone (doing (d n)) \<longrightarrow> lock_owner (tbl k) (P n) A q" and q: "valid_pid q"
    and s: "procs_wf s" "length (gpr c) = 13" "scheduler s c = Some (t, c')" "mem k' = mem k" "tbl k' = t"
    and e: "\<And>p. valid_pid p \<Longrightarrow> shared (blk s p) = shared (blk (tbl k) p) \<and> ppid (blk s p) = ppid (blk (tbl k) p)"
  shows "aside A P q d k k'"
proof -
  have "procs_wf t" using scheduler_good [OF s(1-3)] by simp
  moreover have "shared (blk t p) = shared (blk (tbl k) p)" "ppid (blk t p) = ppid (blk (tbl k) p)" if "valid_pid p" for p
    using scheduler_frame(2,3) [OF s(1-3) that] e [OF that] by simp_all
  ultimately show ?thesis
    using o q s(4,5) by (auto simp: aside_def same_forks_def int_at_def lock_held_def lock_owner_def wf_table)
qed

text \<open>Giving up the processor and the end of a time slice.\<close>

lemma switch_aside:
  assumes o: "\<forall>n \<in> seats. \<not> gone (doing (d n)) \<longrightarrow> lock_owner (tbl k) (P n) A q" and q: "valid_pid q"
    and k: "procs_wf (tbl k)" "length (gpr c) = 13"
  shows "sys_yield k c = Some (k', c') \<Longrightarrow> aside A P q d k k'"
    "hilevel_handler_irq k c GIC_SOURCE_TIMER0 = Some (k', c') \<Longrightarrow> aside A P q d k k'"
proof -
  let ?p = "cur (tbl k)"
  let ?t = "upd (tbl k) ?p ((blk (tbl k) ?p)\<lparr>prio := (prio (blk (tbl k) ?p))\<lparr>time_left := 0\<rparr>\<rparr>)"
  let ?u = "(tbl k)\<lparr>BURSTS := i32 (BURSTS (tbl k) + 1)\<rparr>"
  have p: "valid_pid ?p" using cur_valid [OF k(1)] .
  have wf: "procs_wf ?t" using k(1) p by (intro procs_wf_upd pcb_wf_prio wf_blk wf_table)
  have wfu: "procs_wf ?u" using k(1) by (simp add: procs_wf_def table_wf_def)
  show "aside A P q d k k'" if y: "sys_yield k c = Some (k', c')"
  proof -
    obtain t' where t': "scheduler ?t c = Some (t', c')" "k' = k\<lparr>tbl := t'\<rparr>"
      using k(1) y by (auto simp: sys_yield_def mod_current_upd split: Option.bind_splits)
    show ?thesis
      by (rule scheduler_aside [OF o q wf k(2) t'(1)]) (use k(1) p in \<open>simp_all add: t'(2) blk_upd wf_table\<close>)
  qed
  show "aside A P q d k k'" if y: "hilevel_handler_irq k c GIC_SOURCE_TIMER0 = Some (k', c')"
  proof -
    obtain t' where t': "scheduler ?u c = Some (t', c')" "k' = k\<lparr>tbl := t'\<rparr>"
      using y by (auto simp: hilevel_handler_irq_def split: Option.bind_splits)
    show ?thesis
      by (rule scheduler_aside [OF o q wfu k(2) t'(1)]) (simp_all add: t'(2) blk_def)
  qed
qed

text \<open>The report of a meal, through the library and the kernel.\<close>

lemma put_fs_mem [simp]: "mem (put_fs k f) = mem k"
  by (simp add: put_fs_def)

lemma write_mem: "sys_write z k fd x n = Some (r, k') \<Longrightarrow> mem k' = mem k"
  by (auto simp: sys_write_def Let_def write_device_def error_def split: run_splits)

lemma err_frame:
  assumes I: "length (gpr c) = 13" "svc I = direct_svc z u c" and e: "err I a k = Some k'"
  shows "mem k' = mem k" "tbl k' = tbl k"
  using e write_mem write_tbl
  by (auto simp: err_def library_calls(1) [OF I] as_int_def split: Option.bind_splits prod.splits)

lemma print_int_frame:
  assumes I: "length (gpr c) = 13" "svc I = direct_svc z u c" and x: "\<bar>x\<bar> < 10 ^ 9"
    and b: "away b 1024 A 64" and e: "print_int err I b 1024 x k = Some k'"
  shows "same_forks A k k' \<and> tbl k' = tbl k"
proof -
  obtain ys str where s: "ss (load_bytes (mem k) b 1024) x = Some (ys, str)" "length ys = 1024"
    using ss_bytes [OF x, of "load_bytes (mem k) b 1024"] by auto
  then have "err I (if x = 0 then lit I ''0'' else b) (put_mem k b ys) = Some k'"
    using e by (simp add: print_int_def ss_to_def)
  note f = err_frame [OF I this]
  have "same_forks A k (put_mem k b ys)" using b s(2) by (simp add: same_forks_put)
  then show ?thesis using f by (simp add: same_forks_def int_at_def)
qed

lemma report_aside:
  assumes o: "\<forall>n \<in> seats. \<not> gone (doing (d n)) \<longrightarrow> lock_owner (tbl k) (P n) A q"
    and I: "length (gpr c) = 13" "svc I = direct_svc z u c"
    and x: "\<bar>n\<bar> < 10 ^ 9" "\<bar>t\<bar> < 10 ^ 9" "\<bar>e\<bar> < 10 ^ 9"
    and b: "away b 1024 A 64" and r: "report I b n t e k = Some k'"
  shows "aside A P q d k k'"
proof -
  obtain k1 k2 k3 k4 k5 k6 where s: "err I (lit I ''Philosopher #'') k = Some k1" "print_int err I b 1024 n k1 = Some k2"
    "err I (lit I '' thought '') k2 = Some k3" "print_int err I b 1024 t k3 = Some k4"
    "err I (lit I '' times and eaten '') k4 = Some k5" "print_int err I b 1024 e k5 = Some k6"
    "err I (lit I '' times\<newline>'') k6 = Some k'"
    using r by (auto simp: report_def print_def split: Option.bind_splits)
  note f = err_frame [OF I] and g = print_int_frame [OF I _ b]
  have "same_forks A k k' \<and> tbl k' = tbl k"
    using f [OF s(1)] g [OF x(1) s(2)] f [OF s(3)] g [OF x(2) s(4)] f [OF s(5)] g [OF x(3) s(6)] f [OF s(7)]
    by (simp add: same_forks_def int_at_def)
  then show ?thesis using o by (simp add: aside_def)
qed

end
