(* ===== verification/User_Properties.thy ===== *)
theory User_Properties
  imports Dining Demo
begin

text \<open>
  The properties of the user side: the library over the kernel, the command line, the dining
  philosophers and the computing programs.
\<close>

section \<open>The library\<close>

text \<open>C34. A call of the user library is the kernel function behind it: numbers, registers and argument order of library and handler
  agree for every call that does not switch processes: the files and directories, sharing and locks, one attempt to wait, \<open>ps\<close>, and a \<open>kill\<close> that
  is not the caller ending itself. The result is what the kernel returns.\<close>

theorem library_reaches_kernel:
  assumes "length (gpr c) = 13" "svc I = direct_svc z b c"
  shows "write_c I fd x n k = as_int (sys_write z k (i32 fd) x (i32 n)) \<and>
    read I fd x n k = as_int (sys_read z k (i32 fd) x (i32 n)) \<and>
    open_c I path flags k = as_int (do { s \<leftarrow> cstr_at (mem k) path; sys_open z k s (i32 flags) }) \<and>
    close I fd k = as_int (sys_close k (i32 fd)) \<and>
    mount I k = as_int (sys_mount z k) \<and> unmount I k = as_int (sys_unmount z k) \<and>
    ls I path x k = as_int (do { s \<leftarrow> cstr_at (mem k) path; sys_ls z k s x }) \<and>
    stat I path x k = as_int (do { s \<leftarrow> cstr_at (mem k) path; sys_stat z k s x }) \<and>
    mkdir I path k = as_int (do { s \<leftarrow> cstr_at (mem k) path; sys_mkdir z k s }) \<and>
    rmdir I path k = as_int (do { s \<leftarrow> cstr_at (mem k) path; sys_rmdir z k s }) \<and>
    rm I path k = as_int (do { s \<leftarrow> cstr_at (mem k) path; sys_rm z k s }) \<and>
    sharem I x k = as_int (sys_share k x) \<and> unsharem I x k = as_int (sys_unshare k x) \<and>
    try_lockm I x k = as_int (sys_lock k x) \<and> unlockm I x k = as_int (sys_unlock k x) \<and>
    try_waitp I p k = as_int (do { q \<leftarrow> current_pid (tbl k); sys_wait k q (i32 p) }) \<and>
    ps I p k = (if i32 p = 0 then sys_ps b k else ps_stats b k (i32 p)) \<and>
    (current_pid (tbl k) \<noteq> Some (i32 p) \<or> u32_of_int s \<noteq> SIG_TERM \<longrightarrow>
       kill I p s k = do { (r, k, _) \<leftarrow> sys_kill k c (i32 p) (u32_of_int s); Some (i32 r, k) })"
  by (intro conjI impI) (rule library_calls [OF assms] library_ps [OF assms] library_kill [OF assms], assumption?)+

definition demo_image :: image where
  "demo_image = \<lparr>svc = direct_svc demo_stack (replicate 1024 0) (demo_ctx 0x1000), lit = (\<lambda>_. 0x100),
     sym = (\<lambda>_. 0x200), CWD = 0x300\<rparr>"

theorem library_reaches_kernel_witness:
  "close demo_image 3 (demo_kernel demo) = as_int (sys_close (demo_kernel demo) 3) \<and>
   kill demo_image 3 15 (demo_kernel demo) =
     do { (r, k, _) \<leftarrow> sys_kill (demo_kernel demo) (demo_ctx 0x1000) 3 15; Some (i32 r, k) }"
  using library_reaches_kernel [of "demo_ctx 0x1000" demo_image demo_stack "replicate 1024 0" 3]
    library_reaches_kernel [of "demo_ctx 0x1000" demo_image demo_stack "replicate 1024 0" 3 _ _ "demo_kernel demo" _ _ 3 15]
  by (simp add: demo_image_def i32_id current_pid_cur demo_kernel_def u32_of_int_def)

section \<open>The command line\<close>

text \<open>C35. A command line is split at its first blank: the first word goes to the array for the command, everything
  after the blank to the cleared array for the arguments.\<close>

theorem command_line_is_split:
  assumes "cstr_at (mem k) input = Some (w @ space # rest)" "w \<noteq> []" "space \<notin> set w"
    and "length w + length rest + 2 \<le> 1024" "length w < c" "length rest < a" "c \<le> 1024" "a \<le> 1024"
    and "away cmd c input 1024" "away cmd c args a" "away args a cmd c"
    and "\<forall>j < a. mem k (args + of_nat j) = 0"
  shows "\<exists>k'. parse_cmd k input cmd (int c) args (int a) = Some (0, k') \<and>
    cstr_at (mem k') cmd = Some w \<and> cstr_at (mem k') args = Some rest"
  using assms by (rule parse_cmd_spec)

theorem command_line_is_split_witness:
  "\<exists>k'. parse_cmd ((demo_kernel demo)\<lparr>mem := store_bytes (\<lambda>_. 0) 0x1000 (bstr ''ls /bin'' @ [0])\<rparr>)
      0x1000 0x2000 100 0x3000 1024 = Some (0, k') \<and>
    cstr_at (mem k') 0x2000 = Some (bstr ''ls'') \<and> cstr_at (mem k') 0x3000 = Some (bstr ''/bin'')"
proof -
  let ?k = "(demo_kernel demo)\<lparr>mem := store_bytes (\<lambda>_. 0) 0x1000 (bstr ''ls /bin'' @ [0])\<rparr>"
  have s: "bstr ''ls /bin'' = bstr ''ls'' @ space # bstr ''/bin''" "space \<notin> set (bstr ''ls'')" "bstr ''ls'' \<noteq> []"
    by (simp_all add: bstr_def space_def)
  have n: "0 \<notin> set (bstr ''ls /bin'')" "length (bstr ''ls /bin'') = 7" by (simp_all add: bstr_def)
  have c: "cstr_at (mem ?k) 0x1000 = Some (bstr ''ls'' @ space # bstr ''/bin'')"
    using store_string [OF n(1), of "[]" "\<lambda>_. 0" "0x1000"] n(2) by (simp flip: s(1))
  have a: "away 0x1000 8 0x3000 1024" "away 0x2000 100 0x1000 1024" "away 0x2000 100 0x3000 1024"
    "away 0x3000 1024 0x2000 100" by (intro away_ring; simp)+
  have z: "\<forall>j < 1024. mem ?k (0x3000 + of_nat j) = 0"
    using store_other [of "0x1000" "bstr ''ls /bin'' @ [0]" "0x3000" 1024 _ "\<lambda>_. 0"] a(1) n(2) by simp
  show ?thesis
    using command_line_is_split [OF c s(3,2) _ _ _ _ _ a(2,3,4) z] by (simp add: bstr_def)
qed

section \<open>Dining philosophers\<close>

text \<open>C36. Taking forks and putting them back changes nothing else: while a philosopher holds them both forks
  are gone, afterwards every fork that was on the table is there again and no other fork has moved.\<close>

theorem forks_are_returned:
  assumes "0 \<le> n" "n < 16"
  shows "\<exists>l k1 r k2. get_left_fork n A k = (l, k1) \<and> get_right_fork n A k1 = (r, k2) \<and>
    int_at k2 (forks A n) = 0 \<and> int_at k2 (forks A ((n + 1) mod 16)) = 0 \<and>
    (\<forall>j. 0 \<le> j \<and> j < 16 \<longrightarrow> int_at (put_forks_back n A l r k2) (forks A j) =
       (if j \<in> {n, (n + 1) mod 16} \<and> int_at k (forks A j) \<noteq> 0 then 1 else int_at k (forks A j)))"
proof -
  let ?m = "(n + 1) mod 16"
  obtain l k1 where l: "get_left_fork n A k = (l, k1)" by fastforce
  obtain r k2 where r: "get_right_fork n A k1 = (r, k2)" by fastforce
  have m: "0 \<le> ?m" "?m < 16" "?m \<noteq> n" using assms by presburger+
  have k1: "int_at k1 (forks A j) = (if j = n then 0 else int_at k (forks A j))" if "0 \<le> j" "j < 16" for j
    using meal(1) [OF assms that, of A k] l by simp
  have k2: "int_at k2 (forks A j) = (if j = ?m then 0 else int_at k1 (forks A j))" if "0 \<le> j" "j < 16" for j
    using meal(2) [OF assms that, of A k1] r by simp
  have lr: "l = int_at k (forks A n)" "r = int_at k (forks A ?m)"
    using taken [OF assms(1), of A] l r k1 [OF m(1,2)] m(3) by (metis fst_conv)+
  have "int_at (put_forks_back n A l r k2) (forks A j) =
      (if j \<in> {n, ?m} \<and> int_at k (forks A j) \<noteq> 0 then 1 else int_at k (forks A j))" if "0 \<le> j" "j < 16" for j
    using meal(3) [OF assms that, of A l r k2] k1 [OF that] k2 [OF that] lr m(3) by auto
  moreover have "int_at k2 (forks A n) = 0 \<and> int_at k2 (forks A ?m) = 0"
    using k1 [OF assms] k2 [OF assms] k2 [OF m(1,2)] m(3) by simp
  ultimately show ?thesis using l r by blast
qed

theorem forks_are_returned_witness:
  "\<exists>l k1 r k2. get_left_fork 15 0x9000 (demo_kernel demo) = (l, k1) \<and> get_right_fork 15 0x9000 k1 = (r, k2) \<and>
    int_at k2 (forks 0x9000 15) = 0 \<and> int_at k2 (forks 0x9000 0) = 0"
  using forks_are_returned [of 15 "0x9000" "demo_kernel demo"] by auto

text \<open>C37. No philosopher goes hungry. All 16 run interleaved over the kernel's lock, with the forks on the table at the start, and
  in between anything happens that leaves forks, lock and sharing alone. In every state this reaches a
  philosopher has eaten once in each of its rounds, and ends with the exit status 10; at most one is between its lock
  and its unlock, and when none is, all forks are on the table; and from there all 16 can still get to their end.\<close>

theorem every_philosopher_eats:
  assumes "seated A P q k0" "(dine A P q)\<^sup>*\<^sup>* (k0, \<lambda>_. hungry) (k, d)"
  shows "(\<forall>n \<in> seats. (doing (d n) = Thinking \<longrightarrow> eat_count (d n) = round_no (d n)) \<and>
      (\<forall>s. doing (d n) = Gone s \<longrightarrow> s = 10 \<and> eat_count (d n) = 10)) \<and>
    (\<forall>m \<in> seats. \<forall>n \<in> seats. holds_lock (doing (d m)) \<and> holds_lock (doing (d n)) \<longrightarrow> m = n) \<and>
    ((\<forall>n \<in> seats. \<not> holds_lock (doing (d n))) \<longrightarrow> laid A k \<and> \<not> lock_held (tbl k) q) \<and>
    (\<exists>k' d'. (dine A P q)\<^sup>*\<^sup>* (k, d) (k', d') \<and> (\<forall>n \<in> seats. doing (d' n) = Gone 10))"
proof -
  obtain h where ok: "table_ok A P q h (k, d)" using dining_ok [OF assms(2) seated_ok [OF assms(1)]] by blast
  note D = table_okD [OF ok]
  have "(doing (d n) = Thinking \<longrightarrow> eat_count (d n) = round_no (d n)) \<and>
      (\<forall>s. doing (d n) = Gone s \<longrightarrow> s = 10 \<and> eat_count (d n) = 10)" if "n \<in> seats" for n
    using D(1) [OF that] by (auto simp: diner_ok_def)
  moreover have "m = n" if "m \<in> seats" "n \<in> seats" "holds_lock (doing (d m))" "holds_lock (doing (d n))" for m n
    using D(2) that by auto
  moreover have "laid A k \<and> \<not> lock_held (tbl k) q" if "\<forall>n \<in> seats. \<not> holds_lock (doing (d n))"
  proof -
    have "h = None" using D(2,5) that by (cases h) auto
    then show ?thesis using D(4,6) by (auto simp: laid_def)
  qed
  ultimately show ?thesis using all_finish [OF ok] by blast
qed

text \<open>The table of a game that is about to begin: process 1 has shared the memory at \<open>0x9000\<close>, and the processes 2 to
  17 are its children.\<close>

definition lay :: "u32 \<Rightarrow> int list \<Rightarrow> kernel \<Rightarrow> kernel" where
  "lay A is k = fold (\<lambda>i k. put_int k (forks A i) 1) is k"

lemma lay_forks: "\<forall>i \<in> set is. 0 \<le> i \<and> i < 16 \<Longrightarrow> 0 \<le> j \<Longrightarrow> j < 16 \<Longrightarrow>
    int_at (lay A is k) (forks A j) = (if j \<in> set is then 1 else int_at k (forks A j))"
  by (induction "is" rule: rev_induct) (auto simp: lay_def fork_put)

lemma lay_tbl: "tbl (lay A is k) = tbl k"
  by (induction "is" rule: rev_induct) (simp_all add: lay_def put_int_def)

definition game_pcb :: "int \<Rightarrow> pcb_t" where
  "game_pcb p = (demo_pcb p)\<lparr>ppid := (if p = 1 then 0 else 1), shared := \<lparr>ptr = (if p = 1 then 0x9000 else 0), locked = 0\<rparr>\<rparr>"

definition game_table :: procs where
  "game_table = demo\<lparr>pcb := map (\<lambda>i. game_pcb (int i + 1)) [0..<30]\<rparr>"

definition game :: kernel where
  "game = lay 0x9000 [0..15] (demo_kernel game_table)"

lemma game_seated: "seated 0x9000 (\<lambda>n. n + 2) 1 game"
proof -
  have t: "tbl game = game_table" by (simp add: game_def lay_tbl demo_kernel_def)
  have b: "blk game_table p = game_pcb p" if "1 \<le> p" "p \<le> 30" for p using that by (simp add: blk_def game_table_def)
  have "pcb_wf p (game_pcb p)" for p by (simp add: pcb_wf_def game_pcb_def)
  then have w: "table_wf game_table" by (simp add: table_wf_def demo_def game_table_def)
  have "laid 0x9000 game" using lay_forks [of "[0..15]"] by (auto simp: laid_def game_def simp del: upto.simps)
  then show ?thesis using w
    by (auto simp: seated_def t lock_owner_def lock_held_def b) (simp_all add: game_pcb_def)
qed

theorem every_philosopher_eats_witness:
  "\<exists>k d. (dine 0x9000 (\<lambda>n. n + 2) 1)\<^sup>*\<^sup>* (game, \<lambda>_. hungry) (k, d) \<and> laid 0x9000 k \<and>
    (\<forall>n \<in> {0..<16}. doing (d n) = Gone 10 \<and> eat_count (d n) = 10)"
proof -
  note e = every_philosopher_eats [OF game_seated]
  obtain k d where r: "(dine 0x9000 (\<lambda>n. n + 2) 1)\<^sup>*\<^sup>* (game, \<lambda>_. hungry) (k, d)" "\<forall>n \<in> seats. doing (d n) = Gone 10"
    using e [OF rtranclp.rtrancl_refl] by blast
  have "laid 0x9000 k \<and> (\<forall>n \<in> {0..<16}. eat_count (d n) = 10)"
    using e [OF r(1)] r(2) by simp
  then show ?thesis using r by blast
qed

section \<open>Computing programs\<close>

text \<open>C38. Euclid's algorithm by subtraction, as \<open>P4\<close> runs it, ends with the greatest common divisor, except when exactly one argument is
  zero: then it does not end.\<close>

theorem subtraction_is_gcd:
  "gcd_c x y = (if (x = 0) \<noteq> (y = 0) then None else Some (word_of_nat (gcd (unat x) (unat y))))"
proof (cases "x = 0 \<or> y = 0")
  case True
  have "gcd_c 0 0 = Some 0" by (subst gcd_c.simps) simp
  then show ?thesis using True gcd_c_zero [of x y] by (cases "gcd_c x y") auto
qed (simp add: gcd_c_pos word_gt_0)

text \<open>C39. The trial division of \<open>P3\<close> ends and decides whether a number is prime, as far as the square of the divisor
  does not wrap; from \<open>2^32 - 7\<close> on, where it always wraps, it finds no number prime, not even the prime \<open>2^32 - 5\<close>.\<close>

theorem trial_division:
  "(unat x < 65535 ^ 2 \<longrightarrow> is_prime x = Some (if prime_number (unat x) then 1 else 0)) \<and>
   (2 ^ 32 - 7 \<le> unat x \<longrightarrow> is_prime x = Some 0)"
  using is_prime_spec is_prime_wraps by blast

theorem trial_division_witness:
  "is_prime 4294967291 = Some 0 \<and> is_prime 9 = Some 0"
proof -
  have "\<not> prime_number 9" by (auto simp: prime_number_def intro!: exI [of _ 3])
  then show ?thesis using trial_division [of 4294967291] trial_division [of 9] by simp
qed

text \<open>Numbers survive the way through text: \<open>atoi\<close>, with which \<open>kill\<close> and \<open>ps\<close> read their arguments, gives back the
  number that \<open>ss\<close> and the kernel's \<open>s\<close> printed.\<close>

lemma number_roundtrip:
  assumes "\<bar>x\<bar> < 10 ^ 9" "11 \<le> length b"
  shows "\<exists>b' str. ss b x = Some (b', str) \<and> length b' = length b \<and> atoi str = x"
  using s_c_spec [OF assms] atoi_decimal [of x] assms(1) by (auto simp: ss_def)

lemma number_roundtrip_example:
  "\<exists>b' str. ss (replicate 1024 0) (- 42) = Some (b', str) \<and> atoi str = - 42"
  using number_roundtrip [of "- 42" "replicate 1024 0"] by auto

end
