(* ===== verification/Test_Program.thy ===== *)
theory Test_Program
  imports Philosophers
begin

text \<open>
  The test program of the repository, \<open>src/question/user/tests/test1.c\<close>: parent and child pass a number at address
  \<open>number\<close> through shared memory, each under the lock.
\<close>

partial_function (option) forked_loop :: "image \<Rightarrow> u32 \<Rightarrow> u32 \<Rightarrow> kernel \<Rightarrow> (int \<times> kernel) option" where
  "forked_loop I number b k = do {
     k \<leftarrow> sleep I 1 k;
     k \<leftarrow> print puts I ''Waiting for lock\<newline>'' k;
     (_, k) \<leftarrow> lockm I number k;
     k \<leftarrow> print_int puts I b 1024 (int_at k number) k;
     if int_at k number = 1 then do {
       k \<leftarrow> print puts I ''Setting to 2\<newline>'' k;
       exit I EXIT_SUCCESS_lib (put_int k number 2)
     }
     else do {
       k \<leftarrow> print puts I ''Waiting until 1\<newline>'' k;
       (_, k) \<leftarrow> unlockm I number k;
       forked_loop I number b k
     }
   }"

definition forked :: "image \<Rightarrow> u32 \<Rightarrow> u32 \<Rightarrow> kernel \<Rightarrow> (int \<times> kernel) option" where
  "forked I number b k = do {
     k \<leftarrow> print puts I ''Starting Forked\<newline>'' k;
     forked_loop I number b k
   }"

definition main_TEST1 :: "image \<Rightarrow> u32 \<Rightarrow> u32 \<Rightarrow> kernel \<Rightarrow> (int \<times> kernel) option" where
  "main_TEST1 I number b k = do {
     k \<leftarrow> print err I ''Starting TEST1\<newline>'' k;
     let k = put_int k number 0;
     (_, k) \<leftarrow> sharem I number k;
     (p, k) \<leftarrow> fork I k;
     if p = 0 then forked I number b k
     else do {
       k \<leftarrow> print err I ''Waiting for lock-\<newline>'' k;
       (_, k) \<leftarrow> lockm I number k;
       k \<leftarrow> print err I ''Setting to 1\<newline>'' k;
       let k = put_int k number 1;
       (_, k) \<leftarrow> unlockm I number k;
       k \<leftarrow> print err I ''Unlocked-\<newline>'' k;
       (_, k) \<leftarrow> waitp I p k;
       k \<leftarrow> print err I ''Unshared-\<newline>'' k;
       (_, k) \<leftarrow> unsharem I number k;
       k \<leftarrow> print err I ''Number '' k;
       k \<leftarrow> print_int err I b 1024 (int_at k number) k;
       k \<leftarrow> print err I ''\<newline>'' k;
       exit I EXIT_SUCCESS_lib k
     }
   }"

end
