(* ===== verification/Mmu.thy ===== *)
theory Mmu
  imports Prelude
begin

unbundle bit_operations_syntax

text \<open>
  The routines of \<open>src/question/device/MMU.s\<close> over the registers of coprocessor 15 they read and write. The kernel
  does not call them: it runs without memory protection.
\<close>

record cp15 =
  SCTLR :: u32
  TTBR0 :: u32
  TTBR1 :: u32
  DACR :: u32
  tlb_valid :: bool

definition mmu_enable :: "cp15 \<Rightarrow> cp15" where
  "mmu_enable c = c\<lparr>SCTLR := SCTLR c OR 0x1\<rparr>"

definition mmu_unable :: "cp15 \<Rightarrow> cp15" where
  "mmu_unable c = c\<lparr>SCTLR := SCTLR c AND NOT 0x1\<rparr>"

text \<open>A write to \<open>TLBIALL\<close> drops all cached translations.\<close>

definition mmu_flush :: "cp15 \<Rightarrow> cp15" where
  "mmu_flush c = c\<lparr>tlb_valid := False\<rparr>"

definition mmu_set_ptr0 :: "cp15 \<Rightarrow> u32 \<Rightarrow> cp15" where
  "mmu_set_ptr0 c x = c\<lparr>TTBR0 := x\<rparr>"

definition mmu_set_ptr1 :: "cp15 \<Rightarrow> u32 \<Rightarrow> cp15" where
  "mmu_set_ptr1 c x = c\<lparr>TTBR1 := x\<rparr>"

text \<open>A register shift takes the low byte of the amount.\<close>

definition lsl :: "u32 \<Rightarrow> u32 \<Rightarrow> u32" where
  "lsl w n = push_bit (unat (n AND 0xFF)) w"

definition mmu_set_dom :: "cp15 \<Rightarrow> u32 \<Rightarrow> u32 \<Rightarrow> cp15" where
  "mmu_set_dom c r0 r1 = (
     let r0 = r0 + r0;
         r1 = lsl r1 r0;
         r2 = 0x3;
         r2 = lsl r2 r0;
         r0 = DACR c;
         r0 = r0 AND NOT r2;
         r0 = r0 OR r1
     in c\<lparr>DACR := r0\<rparr>)"

text \<open>The two bits of domain \<open>d\<close>.\<close>

definition domain :: "cp15 \<Rightarrow> nat \<Rightarrow> u32" where
  "domain c d = take_bit 2 (drop_bit (2 * d) (DACR c))"

lemma lsl_small: "n < 32 \<Longrightarrow> lsl w (of_nat n) = push_bit n w"
proof -
  assume n: "n < 32"
  have "(of_nat n :: u32) AND 0xFF = take_bit 8 (of_nat n)" by (simp add: take_bit_eq_mask mask_eq_exp_minus_1)
  then have "unat ((of_nat n :: u32) AND 0xFF) = n"
    using n by (simp add: unsigned_take_bit_eq unat_of_nat take_bit_nat_eq_self)
  then show ?thesis by (simp add: lsl_def)
qed

text \<open>A permission of two bits is stored for its domain, and the other domains keep theirs.\<close>

lemma mmu_set_dom_spec:
  assumes "d < 16" "e < 16" "take_bit 2 x = x"
  shows "domain (mmu_set_dom c (of_nat d) x) e = (if e = d then x else domain c e)"
proof -
  have dd: "(of_nat d + of_nat d :: u32) = of_nat (2 * d)" by simp
  define q :: u32 where "q = 3"
  have D: "DACR (mmu_set_dom c (of_nat d) x) = (DACR c AND NOT (push_bit (2 * d) q)) OR push_bit (2 * d) x"
    using assms(1) unfolding mmu_set_dom_def Let_def dd q_def by (simp add: lsl_small del: of_nat_mult)
  have x: "bit x n \<longleftrightarrow> n < 2 \<and> bit x n" for n using assms(3) by (metis bit_take_bit_iff)
  have three: "bit q n \<longleftrightarrow> n < 2" for n
  proof -
    have "q = mask 2" by (simp add: mask_eq_exp_minus_1 q_def)
    then show ?thesis by (simp only: bit_mask_iff) auto
  qed
  show ?thesis
  proof (rule bit_eqI)
    fix n
    have "bit (domain (mmu_set_dom c (of_nat d) x) e) n \<longleftrightarrow>
        n < 2 \<and> (bit (DACR c) (2 * e + n) \<and> \<not> (2 * d \<le> 2 * e + n \<and> 2 * e + n - 2 * d < 2) \<or>
          2 * d \<le> 2 * e + n \<and> bit x (2 * e + n - 2 * d))"
      unfolding domain_def D using assms(2) by (auto simp: bit_simps three)
    also have "\<dots> \<longleftrightarrow> (if e = d then bit x n else n < 2 \<and> bit (DACR c) (2 * e + n))"
    proof (cases "e = d")
      case False
      then have "n < 2 \<Longrightarrow> 2 * d \<le> 2 * e + n \<Longrightarrow> 2 \<le> 2 * e + n - 2 * d" by arith
      then show ?thesis using False x [of "2 * e + n - 2 * d"] by auto
    qed (use x [of n] in auto)
    finally show "bit (domain (mmu_set_dom c (of_nat d) x) e) n = bit (if e = d then x else domain c e) n"
      by (auto simp: domain_def bit_simps)
  qed
qed

end
