(* ===== verification/Spec2Isabelle.thy ===== *)
theory Spec2Isabelle
  imports Process_Properties Tree_Properties Machine_Properties Storage_Properties File_Call_Properties User_Properties Test_Program Mmu
begin

text \<open>
  A verification development for the teaching operating system under \<open>src/question\<close>: a small
  kernel for an ARM Cortex-A8 board with up to 30 processes, a two-class priority scheduler,
  shared-memory locks, an inode file system on a disk that is reached over a serial
  line, and the programs that run on it.

  \<^bold>\<open>Parts.\<close> An exception enters through the assembly of \<open>kernel/lolevel.s\<close> (theory \<open>Lolevel\<close>, with the vector table of
  \<open>kernel/int.s\<close>), which saves the context of the program and calls \<open>kernel/hilevel.c\<close> (\<open>Hilevel\<close>): reset, timer or
  supervisor call. Timer and interrupt controller (\<open>device/SP804\<close>, \<open>device/GIC\<close>) are in \<open>Interrupts\<close>. The timer calls the scheduler (\<open>kernel/scheduler.c\<close>, \<open>Scheduler\<close>). A supervisor call is
  dispatched to the process calls (\<open>kernel/system_calls.c\<close>, \<open>System_Calls\<close>) or the file calls
  (\<open>kernel/file_system_calls.c\<close>, \<open>File_System_Calls\<close>). Both work on the process table
  (\<open>kernel/processes.c\<close>: \<open>Processes\<close> for the table, contexts and wait lists, \<open>Ipc\<close> for shared pointers,
  locks and waiting, \<open>Proc_Files\<close> for the descriptors of a process). The file calls use the file
  system (\<open>kernel/fs.c\<close>, \<open>kernel/fs.h\<close>: \<open>Layout\<close> for structures and their bytes, \<open>Fs_Blocks\<close>, \<open>Fs_Inodes\<close>,
  \<open>Fs_Dirs\<close>, \<open>Fs_Files\<close>), which uses the bitmaps (\<open>kernel/bitmap.c\<close>, \<open>Bitmap\<close>) and the disk driver
  (\<open>device/disk.c\<close>, \<open>Disk\<close>). The driver speaks over a PL011 serial line (\<open>device/PL011.c\<close>, \<open>Serial\<close>) to the
  disk server (\<open>device/disk.py\<close>, \<open>Disk_Server\<close>); \<open>Uart_Registers\<close> has the same driver polling the registers of the
  device. Messages go out through \<open>kernel/utilities.c\<close>
  (\<open>Utilities\<close>). \<open>Registers\<close> places the register structures of all devices in memory and has the routines of
  \<open>device/PL050.c\<close>; \<open>Mmu\<close> has those of \<open>device/MMU.s\<close>.

  On the user side the programs are linked with a small library (\<open>user/lib/libc.c\<close>, \<open>Libc\<close>), whose calls enter
  the kernel by a supervisor call. The console (\<open>user/console.c\<close>, \<open>Console\<close>) reads commands and starts
  the programs of \<open>user/bin\<close> (\<open>Programs\<close>; the dining philosophers in \<open>Philosophers\<close>) and the test of
  \<open>user/tests\<close> (\<open>Test_Program\<close>). Functions keep the names of the code; a definition whose name would clash
  with HOL or a command of Isabelle carries a suffix (\<open>set_bit_c\<close>, \<open>s_c\<close>, \<open>write_c\<close>).

  \<^bold>\<open>Conventions.\<close> A function that can leave the defined behaviour of C returns an option, and \<open>None\<close> stands for
  undefined behaviour (access outside an array or through NULL, division by zero) or for a
  wait that never ends; that an operation returns \<open>Some\<close> is therefore always part of a property.
  A C \<open>int\<close> is an integer wrapped by \<open>i32\<close> where it can leave the 32-bit range; \<open>uint32_t\<close>,
  pointers and registers are 32-bit words. Pointers into the process table are indices, so
  \<open>process p\<close> is \<open>p - 1\<close>. The context on the SVC stack is an argument and a result of a
  handler in C; in \<open>Lolevel\<close> it lies in memory, and a call that answers in \<open>r0\<close> assigns only that field (\<open>leave_ctx\<close>). Uninitialised local variables are the parameter \<open>z\<close> of type \<open>stack\<close> (and the buffer \<open>b\<close> of \<open>ps\<close>):
  a theorem that does not restrict them holds for any stack content. A C string is the list of its bytes
  before the terminating zero. User memory is a function from addresses to bytes and
  holds no kernel data but, in \<open>Lolevel\<close>, the saved contexts and the vector table. A user function works on that memory too; what the linker and the rest of the system
  decide is its argument of type \<open>image\<close> (addresses of literals, functions and \<open>CWD\<close>, and \<open>svc\<close>, all that happens from
  a supervisor call until the process continues), and the addresses of its local arrays are arguments.
  \<open>direct_svc\<close> is the \<open>svc\<close> of a call that the kernel serves without switching processes.

  \<^bold>\<open>Interfaces.\<close> \<open>Flags\<close> states the contract between an allocation map and the allocators that search it
  (locale \<open>flag_store\<close>, interpreted on the bitmaps in \<open>Bitmap\<close>); \<open>Bytes\<close> the contract of a
  fixed-width encoding (\<open>codec\<close>, interpreted on words, superblock, inode, link and
  directory in \<open>Layout\<close>); \<open>Disk\<close> the contract of a block device (\<open>block_device\<close>, interpreted on driver, line and
  server together); \<open>Ipc\<close> the contract of a lock (\<open>mutex\<close>, interpreted on \<open>lock\<close> and \<open>unlock\<close>).

  \<^bold>\<open>Lemma groups.\<close> Every operation on the process table keeps \<open>procs_wf\<close>; \<open>sched_state_spec\<close> describes a call of the
  scheduler in closed form and \<open>sched_run_serves\<close> bounds the wait of a process; \<open>left\<close> is the state after a process
  has left; \<open>Hilevel\<close> has the step relation of the kernel and its invariant. \<open>svc_spec\<close>, \<open>irq_spec\<close> and \<open>rst_spec\<close> state the
  assembly around the handlers as functions of the context, over a processor with banked registers. \<open>Contexts\<close> shows what any handler
  does to the saved contexts (\<open>carries\<close>), and \<open>Machine\<close> has the runs of the whole machine, in which arbitrary programs and exceptions
  alternate (\<open>mstep\<close>, \<open>booted\<close>): they refine the runs of the kernel (\<open>kstep\<close>, \<open>reachable\<close>), the programs stay in user mode, and a program
  that was interrupted resumes with its registers. A program is
  assumed not to overwrite the vector table, not to let a call store into the context that is saved for it (\<open>spares\<close>; the kernel does not
  check the address, and \<open>read_can_leave_user_mode\<close> below shows what follows), and user mode not to write control bits or the registers of another mode. \<open>drained\<close> maps the FIFOs of
  a serial device to the line. \<open>disk_wf\<close> and the
  laws of the block device reduce the driver to an array of blocks; \<open>Fs_Store\<close> lifts that to superblock, inodes and file
  contents (\<open>fs_ok\<close>), \<open>Kernel_Files\<close> to the calls of a process (\<open>opened\<close>). On top of these the file system is a tree
  of files, directories and devices: \<open>Fs_Tree\<close> has the abstract tree, the relation \<open>rep\<close> between it and the disk and its
  preservation by the writes of inodes, files and directories; \<open>Tree_Paths\<close> resolves paths in the tree (\<open>leads_to\<close>) and
  adds names; \<open>Tree_Calls\<close> lifts \<open>open\<close>, \<open>read\<close>, \<open>write\<close>, \<open>mkdir\<close> and \<open>stat\<close> to the tree (\<open>mounts\<close>), \<open>Tree_Remove\<close>
  \<open>rm\<close> and \<open>rmdir\<close>, which free only blocks of the removed node because \<open>rep\<close> keeps the blocks of the nodes apart, \<open>Tree_List\<close>
  \<open>ls\<close> with the string it builds in user memory, \<open>Tree_Mount\<close> formatting, mounting and unmounting. \<open>Tree_Runs\<close> has an abstract file system (\<open>afs\<close>, its tree,
  descriptors and budget of free blocks) with a specification of every call (\<open>spec\<close>), the relation \<open>simulates\<close>
  between it and the kernel, and sessions of calls by any processes, between which anything may happen that leaves the files alone; \<open>close\<close>
  is not a call of a session, because the defect in the table of descriptors makes its effect one that no specification would ask for.
  The hypothesis \<open>calm\<close> of the theorems on paths says of the uninitialised inode on the stack that it is not a directory and
  lists no blocks. \<open>Fs_Names\<close> reads directories as association lists, descriptor tables as lists and paths as
  lists of components. \<open>User_Memory\<close> has the laws of user memory (C strings, stores that lie apart, the words of
  the philosophers' table), \<open>Computations\<close> the loops of the programs, \<open>Libc_Calls\<close> the way of a library call through the handler and
  the command line. \<open>Dining\<close> runs all 16 philosophers interleaved over the locks of the kernel (\<open>dine\<close>, with the steps \<open>diner_step\<close> of
  each one), with an invariant of the table and the number of steps that are left.

  \<^bold>\<open>Bounds.\<close> The scheduler serves every runnable process within 421 calls: at most 29 processes can be preferred
  once in each of two classes, a time slice lasts at most 7 calls. The loops of
  the driver are bounded by its 3 attempts. \<open>sitoa_end\<close> and \<open>cstr_at\<close> are partial functions because
  their loops need not end (an overflowing power of ten, memory without a zero byte), and so are the waiting
  loops of the library, \<open>gcd_c\<close>, the trial division and the endless programs; where a
  property says that such a loop ends, it says that the result is \<open>Some\<close>.

  \<^bold>\<open>Not modelled.\<close> No part of the system is left out. Of the hardware
  only what the code relies on: a device register keeps what is written to it, the transmit FIFO of a serial line drains, an
  exception banks the return address and the status, and a vector that holds a load of the program counter leads to the loaded address. Of
  the headers, prototypes, declarations of the fixed device addresses that \<open>Registers\<close> has in \<open>device_map\<close>, and unused constants have no definition.
  A program whose \<open>exec\<close> succeeds continues in the new program: an \<open>svc\<close> that
  models this returns \<open>None\<close> there.
\<close>

section \<open>A property of files and machine together\<close>

text \<open>C40. A program can leave user mode. The kernel does not check the address that a program passes to \<open>read\<close>: if the program gives
  the address at which its own context is saved on the stack of the supervisor mode, the first word of the file becomes its status
  register, so that the file decides in which mode, and with which interrupt masks, the processor continues.\<close>

theorem read_can_leave_user_mode:
  assumes "length (gp s) = 13" "length (fst j) = 13"
    and "a = b_sp (svc_bank s) - 68" "m = write_ctx (mem k) a (running s)" "ldw m (cpu_pc s - 4) AND NOT 0xFF000000 = SYS_READ"
    and "mounts k T" "descriptor k fd i flags" "flags = READ_WRITE \<or> flags = READ" "T i = Some (File (le32 w @ x))" "stack_wf z"
    and "int_of_u32 (gp s ! 0) = fd" "gp s ! 1 = a" "gp s ! 2 = 4"
  shows "\<exists>k' s'. lolevel_handler_svc z b j (k, take_svc s) = Some (k', s') \<and> psr s' = msr_cf (psr s) w \<and>
    psr s' AND 0xDF = w AND 0xDF \<and> mounts k' T"
proof -
  let ?k = "k\<lparr>mem := m\<rparr>" and ?k' = "k\<lparr>mem := store_bytes m a (le32 w)\<rparr>"
  have M: "mounts (k\<lparr>mem := m'\<rparr>) T" for m' using assms(6) by (simp add: mounts_def fs_of_def)
  have "sys_read z ?k fd a 4 = Some (4, ?k')"
    using sys_read_tree [OF M _ assms(8-10), of m fd 4 a] assms(7) by (simp add: descriptor_def)
  moreover have "rd (gp s) 0 = Some (gp s ! 0)" "rd (gp s) 1 = Some (gp s ! 1)" "rd (gp s) 2 = Some (gp s ! 2)"
    using assms(1) by (simp_all add: rd_def)
  moreover have "int_of_u32 4 = 4" by (simp add: int_of_u32_def)
  ultimately have h: "hilevel_handler_svc z b ?k (running s) SYS_READ = Some (?k', (running s)\<lparr>gpr := (gp s)[0 := 4]\<rparr>)"
    using assms(1,11-13) by (simp add: hilevel_handler_svc_def sys_nums ret_def set_r0_def wr_def u32_of_int_def)
  let ?m = "leave_ctx SYS_READ (mem ?k') a ((running s)\<lparr>gpr := (gp s)[0 := 4]\<rparr>)"
  obtain s' where s': "lolevel_handler_svc z b j (k, take_svc s) = Some (?k'\<lparr>mem := ?m\<rparr>, s')"
    "running s' = (read_ctx ?m a)\<lparr>cpsr := msr_cf (psr s) (cpsr (read_ctx ?m a))\<rparr>"
    by (rule svc_spec [OF assms(1-4) assms(5) [symmetric] h refl])
  have "?m = write_ctx (mem ?k') a ((read_ctx (mem ?k') a)\<lparr>gpr := (gpr (read_ctx (mem ?k') a))[0 := 4]\<rparr>)"
    using assms(1) answer_written [OF refl, of "mem ?k'" a 4] by (simp add: leave_ctx_def answers_def)
  then have "cpsr (read_ctx ?m a) = cpsr (read_ctx (mem ?k') a)"
    by (simp add: read_write_ctx read_ctx_words(2))
  also have "\<dots> = ldw (mem ?k') a" by (simp add: read_ctx_def Let_def ldm_def upt_rec)
  also have "\<dots> = w" using load_bytes_stored [of "le32 w" m a] un_le32_le32 [of w "[]"] by (simp add: ldw_def)
  finally have "psr s' = msr_cf (psr s) w" using arg_cong [OF s'(2), of cpsr] by (simp add: running_def)
  then show ?thesis using s'(1) M by (auto simp: msr_and)
qed

theorem read_can_leave_user_mode_witness:
  "\<exists>k s k' s'. psr s AND 0x1F = 0x10 \<and> lolevel_handler_svc demo_stack [] (replicate 13 9, 9) (k, take_svc s) = Some (k', s') \<and>
    psr s' AND 0x1F = 0x13"
proof -
  obtain k f where k: "mounts k a_tree" "fs_of k = Some f" "free_space f 8" "descriptor k 0 1 READ_WRITE" "mem k = (\<lambda>_. 0)"
    "a_tree 1 = Some (Blank INODE_FILE)" by (rule demo_file)
  define m :: "u32 \<Rightarrow> u8" where "m = (\<lambda>x. if x = 0x1000 then 2 else if x = 0x2000 then 0x13 else 0)"
  define s where "s = demo_cpu\<lparr>gp := [0, 0xFFBC, 4] @ replicate 10 0\<rparr>"
  let ?k = "k\<lparr>mem := m\<rparr>"
  have M: "mounts ?k a_tree" "fs_of ?k = Some f" "descriptor ?k 0 1 READ_WRITE"
    using k(1,2,4) by (simp_all add: mounts_def fs_of_def descriptor_def)
  have "fs_ok f" using mounts_fs [OF k(1,2)] by (simp add: rep_def)
  then have r: "room f 4 1" using free_space_mono [OF k(3), of 1] by (simp add: room_def needs_def fs_ok_def)
  have "load_bytes m 0x2000 4 = le32 0x13 @ []" by (simp add: load_bytes_def upto_rec1 le32_def m_def u32_of_int_def)
  moreover obtain f' where "mounts (put_fs ?k f') (a_tree(1 \<mapsto> File (load_bytes (mem ?k) 0x2000 4)))"
    by (rule sys_write_tree [OF M(1,2,3) disjI1 [OF refl] k(6) node_type.simps(1) calmD(1) [OF demo_calm] r])
  ultimately have w: "mounts (put_fs ?k f') (a_tree(1 \<mapsto> File (le32 0x13 @ [])))" "descriptor (put_fs ?k f') 0 1 READ_WRITE"
    "mem (put_fs ?k f') = m"
    using M(3) by (simp_all add: put_fs_def descriptor_def)
  have s: "length (gp s) = 13" "b_sp (svc_bank s) = 0x10000" "cpu_pc s = 0x1004" by (simp_all add: s_def)
  have "svc_number m s = ldw m (cpu_pc s - 4) AND NOT 0xFF000000"
    using s by (intro svc_number_low [of s 1024 m]) simp_all
  moreover have "ldw m 0x1000 = 2" by (simp add: ldw_def load_bytes_def word_of_bytes_def upto_rec1 m_def u32_of_int_def)
  ultimately have n: "ldw (write_ctx m 0xFFBC (running s)) (cpu_pc s - 4) AND NOT 0xFF000000 = SYS_READ"
    using s by (simp add: svc_number_def svc_memory_def SYS_READ_def)
  have t: "(a_tree(1 \<mapsto> File (le32 0x13 @ []))) 1 = Some (File (le32 0x13 @ []))" by simp
  obtain k' s' where "lolevel_handler_svc demo_stack [] (replicate 13 9, 9) (put_fs ?k f', take_svc s) = Some (k', s')"
    "psr s' = msr_cf (psr s) 0x13"
    using read_can_leave_user_mode [OF s(1) _ _ refl _ w(1,2) disjI1 [OF refl] t calmD(1) [OF demo_calm],
      of "(replicate 13 9, 9)" "0xFFBC" "[]"] s n w(3) by (auto simp: s_def int_of_u32_def)
  moreover from this have "psr s' AND 0x1F = 0x13" by (simp add: msr_and)
  moreover have "psr s AND 0x1F = 0x10" by (simp add: s_def)
  ultimately show ?thesis by blast
qed

end
